(* ===== verification/Wing_Prelude.thy ===== *)
theory Wing_Prelude
  imports Complex_Main
begin

text \<open>
  Shared ground of the development: how Go values, errors, panics, machine integers and the few
  string functions the controller uses are represented, the collections of rewrite rules the
  component theories fill, and the two interfaces (\<open>keyed_store\<close>, \<open>scan_loop\<close>) that several
  components implement.

  Conventions.
  \<^item> A Go \<^verbatim>\<open>error\<close> is a message together with the error it wraps (\<^verbatim>\<open>%w\<close>), a result
    \<^verbatim>\<open>(T, error)\<close> is \<open>goerr + 'a\<close>, and a call that can panic (nil dereference, index or
    slice out of range, explicit \<^verbatim>\<open>panic\<close>) returns an \<open>'a exec\<close>.
  \<^item> \<^verbatim>\<open>int32\<close>, \<^verbatim>\<open>int64\<close> and \<^verbatim>\<open>int\<close> are \<open>int\<close>; every arithmetic operation of the
    source that can leave the range is wrapped with \<open>wrap32\<close> or \<open>wrap64\<close>.
  \<^item> \<^verbatim>\<open>time.Time\<close> is the number of nanoseconds since the Unix epoch, \<^verbatim>\<open>time.Duration\<close> the
    number of nanoseconds; each call of \<^verbatim>\<open>time.Now\<close> is an argument of the definition.
\<close>

named_theorems go_simps \<open>evaluation rules of the Go library fragment\<close>
named_theorems store_simps \<open>what a lookup returns after an update\<close>
named_theorems frame_simps \<open>which fields an operation leaves alone\<close>

subsection \<open>Errors, results, panics\<close>

datatype goerr = Errorf (errText: string) (errUnwrap: "goerr option")

abbreviation errNew :: "string \<Rightarrow> goerr" where
  "errNew s \<equiv> Errorf s None"

text \<open>\<^verbatim>\<open>errors.Is\<close>: the error itself or one it wraps.\<close>

fun errIs :: "goerr \<Rightarrow> goerr \<Rightarrow> bool" where
  "errIs (Errorf s u) t = (Errorf s u = t \<or> (case u of None \<Rightarrow> False | Some e \<Rightarrow> errIs e t))"

datatype 'a exec = Panic string | Ret 'a

type_synonym 'a result = "goerr + 'a"

text \<open>Sequencing of calls that can panic.\<close>

fun exec_bind :: "'a exec \<Rightarrow> ('a \<Rightarrow> 'b exec) \<Rightarrow> 'b exec" where
  "exec_bind (Panic m) k = Panic m"
| "exec_bind (Ret x) k = k x"

lemma exec_bind_assoc: "exec_bind (exec_bind m f) g = exec_bind m (\<lambda>x. exec_bind (f x) g)"
  by (cases m) auto

lemma exec_bind_Ret [simp]: "exec_bind m Ret = m"
  by (cases m) auto

lemma exec_bind_Ret_iff: "exec_bind m k = Ret y \<longleftrightarrow> (\<exists>x. m = Ret x \<and> k x = Ret y)"
  by (cases m) auto

lemma exec_bind_Panic_iff:
  "exec_bind m k = Panic s \<longleftrightarrow> m = Panic s \<or> (\<exists>x. m = Ret x \<and> k x = Panic s)"
  by (cases m) auto

subsection \<open>Times, durations and machine integers\<close>

type_synonym Time = int
type_synonym Duration = int

definition wrap :: "nat \<Rightarrow> int \<Rightarrow> int" where
  "wrap w n = (n + 2 ^ (w - 1)) mod 2 ^ w - 2 ^ (w - 1)"

abbreviation wrap32 :: "int \<Rightarrow> int" where "wrap32 \<equiv> wrap 32"
abbreviation wrap64 :: "int \<Rightarrow> int" where "wrap64 \<equiv> wrap 64"

definition in_range :: "nat \<Rightarrow> int \<Rightarrow> bool" where
  "in_range w n \<longleftrightarrow> - (2 ^ (w - 1)) \<le> n \<and> n < 2 ^ (w - 1)"

abbreviation is_int32 :: "int \<Rightarrow> bool" where "is_int32 \<equiv> in_range 32"
abbreviation is_int64 :: "int \<Rightarrow> bool" where "is_int64 \<equiv> in_range 64"

lemma is_int32_iff: "is_int32 n \<longleftrightarrow> - 2147483648 \<le> n \<and> n \<le> 2147483647"
  by (auto simp: in_range_def)

lemma is_int64_iff: "is_int64 n \<longleftrightarrow> - 9223372036854775808 \<le> n \<and> n \<le> 9223372036854775807"
  by (auto simp: in_range_def)

lemma wrap_id [go_simps]: "0 < w \<Longrightarrow> in_range w n \<Longrightarrow> wrap w n = n"
  by (cases w) (simp_all add: wrap_def in_range_def)

lemma wrap_in_range: "0 < w \<Longrightarrow> in_range w (wrap w n)"
proof -
  assume "0 < w"
  then obtain v where "w = Suc v" by (cases w) auto
  moreover have "0 \<le> (n + 2 ^ v) mod (2 * 2 ^ v)" "(n + 2 ^ v) mod (2 * 2 ^ v) < (2 * 2 ^ v :: int)"
    by simp_all
  ultimately show ?thesis by (simp add: wrap_def in_range_def)
qed

lemma wrap_add_left: "0 < w \<Longrightarrow> wrap w (wrap w a + b) = wrap w (a + b)"
proof -
  assume "0 < w"
  then obtain v where w: "w = Suc v" by (cases w) auto
  have "((a + 2 ^ v) mod 2 ^ w - 2 ^ v + b + 2 ^ v) mod 2 ^ w = ((a + 2 ^ v) mod 2 ^ w + b) mod 2 ^ w"
    by (simp add: algebra_simps)
  also have "\<dots> = (a + 2 ^ v + b) mod 2 ^ w" by (rule mod_add_left_eq)
  also have "a + 2 ^ v + b = a + b + 2 ^ v" by simp
  finally show ?thesis by (simp add: wrap_def w)
qed

text \<open>Go's integer division truncates towards zero; dividing by zero panics, so every use below is
  guarded by the model.\<close>

definition go_quot :: "int \<Rightarrow> int \<Rightarrow> int" where
  "go_quot a b = sgn a * sgn b * (\<bar>a\<bar> div \<bar>b\<bar>)"

lemma go_quot_nonneg: "0 \<le> a \<Longrightarrow> 0 < b \<Longrightarrow> go_quot a b = a div b"
  by (cases "a = 0") (auto simp: go_quot_def sgn_if)

lemma int_le_div_iff:
  assumes "0 < p" shows "k \<le> n div p \<longleftrightarrow> k * p \<le> (n :: int)"
proof
  assume "k \<le> n div p"
  then have "k * p \<le> n div p * p" using assms by simp
  also have "\<dots> = n - n mod p" by (simp add: minus_mod_eq_div_mult)
  finally show "k * p \<le> n" using pos_mod_sign [OF assms, of n] by linarith
next
  assume "k * p \<le> n"
  from zdiv_mono1 [OF this assms] show "k \<le> n div p" using assms by simp
qed

abbreviation Second :: Duration where "Second \<equiv> 1000000000"
abbreviation Minute :: Duration where "Minute \<equiv> 60000000000"

text \<open>\<^verbatim>\<open>t.Sub(u)\<close> saturates at the largest and smallest \<^verbatim>\<open>Duration\<close>; \<^verbatim>\<open>time.Since(t)\<close> is
  \<^verbatim>\<open>time.Now().Sub(t)\<close>. The zero \<^verbatim>\<open>time.Time\<close> is January 1 of year 1, UTC.\<close>

definition time_Sub :: "Time \<Rightarrow> Time \<Rightarrow> Duration" where
  "time_Sub t u = max (- (2 ^ 63)) (min (2 ^ 63 - 1) (t - u))"

definition zeroTime :: Time where
  "zeroTime = - 62135596800 * Second"

lemma time_Sub_less_iff: "d \<le> 2 ^ 63 - 1 \<Longrightarrow> - (2 ^ 63) < d \<Longrightarrow> time_Sub t u < d \<longleftrightarrow> t - u < d"
  by (auto simp: time_Sub_def)

lemma time_Sub_greater_iff: "d < 2 ^ 63 - 1 \<Longrightarrow> - (2 ^ 63) \<le> d \<Longrightarrow> d < time_Sub t u \<longleftrightarrow> d < t - u"
  by (auto simp: time_Sub_def)

text \<open>\<^verbatim>\<open>time.Duration(n) * time.Second\<close> on an \<^verbatim>\<open>int64\<close> count of seconds.\<close>

definition seconds :: "int \<Rightarrow> Duration" where
  "seconds n = wrap64 (n * Second)"

lemma seconds_int32 [go_simps]: "is_int32 n \<Longrightarrow> seconds n = n * Second"
  unfolding seconds_def by (rule wrap_id) (auto simp: in_range_def)

subsection \<open>Strings\<close>

text \<open>\<^verbatim>\<open>strings.Split(s, sep)\<close> for a separator of one character: always at least one piece.\<close>

fun split_on :: "char \<Rightarrow> string \<Rightarrow> string list" where
  "split_on c [] = [[]]"
| "split_on c (x # xs) =
     (if x = c then [] # split_on c xs
      else (case split_on c xs of [] \<Rightarrow> [[x]] | p # ps \<Rightarrow> (x # p) # ps))"

fun join_with :: "string \<Rightarrow> string list \<Rightarrow> string" where
  "join_with sep [] = []"
| "join_with sep [p] = p"
| "join_with sep (p # ps) = p @ sep @ join_with sep ps"

definition ContainsAny :: "string \<Rightarrow> string \<Rightarrow> bool" where
  "ContainsAny s chars = list_ex (\<lambda>c. c \<in> set chars) s"

lemma split_on_nonempty [simp]: "split_on c s \<noteq> []"
  by (induction s) (auto split: list.splits)

lemma join_split_on: "join_with [c] (split_on c s) = s"
proof (induction s)
  case (Cons x s)
  show ?case
  proof (cases "split_on c s")
    case (Cons p ps)
    with \<open>join_with [c] (split_on c s) = s\<close> show ?thesis by (cases ps) auto
  qed simp
qed simp

lemma split_on_none: "c \<notin> set s \<Longrightarrow> split_on c s = [s]"
  by (induction s) auto

lemma split_on_Cons: "c \<notin> set a \<Longrightarrow> split_on c (a @ c # b) = a # split_on c b"
  by (induction a) (auto split: list.splits)

lemma split_on_pair: "c \<notin> set a \<Longrightarrow> c \<notin> set b \<Longrightarrow> split_on c (a @ c # b) = [a, b]"
  by (simp add: split_on_Cons split_on_none)

lemma split_on_join: "ps \<noteq> [] \<Longrightarrow> \<forall>p\<in>set ps. c \<notin> set p \<Longrightarrow> split_on c (join_with [c] ps) = ps"
  by (induction "[c]" ps rule: join_with.induct) (auto simp: split_on_none split_on_Cons)

lemma length_split_on: "length (split_on c s) = Suc (count_list s c)"
  by (induction s) (auto split: list.splits)

text \<open>Decimal output of \<^verbatim>\<open>%d\<close>.\<close>

definition digit_char :: "int \<Rightarrow> char" where
  "digit_char d = char_of (48 + d)"

function show_nonneg :: "int \<Rightarrow> string" where
  "show_nonneg n = (if n < 10 then [digit_char n] else show_nonneg (n div 10) @ [digit_char (n mod 10)])"
  by pat_completeness auto
termination
  by (relation "measure nat") auto

declare show_nonneg.simps [simp del]

definition show_int :: "int \<Rightarrow> string" where
  "show_int n = (if n < 0 then CHR ''-'' # show_nonneg (- n) else show_nonneg n)"

subsection \<open>Keyed stores\<close>

text \<open>
  The API the controller keeps its state behind (conditions by type, target statuses by name, plugins
  and scalers by name, the scalability cache): an update stores a value under its key, a lookup of any
  key sees that update and nothing else of it.
\<close>

locale keyed_store =
  fixes key :: "'v \<Rightarrow> 'k"
    and get :: "'s \<Rightarrow> 'k \<Rightarrow> 'v option"
    and put :: "'v \<Rightarrow> 's \<Rightarrow> 's"
  assumes get_put: "get (put v s) k = (if k = key v then Some v else get s k)"
begin

lemma get_put_same: "get (put v s) (key v) = Some v"
  by (simp add: get_put)

lemma get_put_overwrite: "key v = key w \<Longrightarrow> get (put v (put w s)) k = get (put v s) k"
  by (simp add: get_put)

lemma get_put_commute: "key v \<noteq> key w \<Longrightarrow> get (put v (put w s)) k = get (put w (put v s)) k"
  by (auto simp: get_put)

text \<open>After a sequence of updates a lookup sees the last one with its key.\<close>

lemma get_fold_put:
  "get (fold put vs s) k = (case find (\<lambda>v. key v = k) (rev vs) of Some v \<Rightarrow> Some v | None \<Rightarrow> get s k)"
proof (induction vs rule: rev_induct)
  case (snoc v vs)
  then show ?case by (auto simp: get_put)
qed simp

lemma get_fold_put_untouched: "k \<notin> key ` set vs \<Longrightarrow> get (fold put vs s) k = get s k"
  by (induction vs arbitrary: s) (auto simp: get_put)

end

text \<open>A store kept as a list with one entry per key.\<close>

locale keyed_list = keyed_store key get put
  for key :: "'v \<Rightarrow> 'k" and get :: "'s \<Rightarrow> 'k \<Rightarrow> 'v option" and put :: "'v \<Rightarrow> 's \<Rightarrow> 's" +
  fixes keys :: "'s \<Rightarrow> 'k list"
  assumes keys_put: "keys (put v s) = (if key v \<in> set (keys s) then keys s else keys s @ [key v])"
begin

lemma distinct_put: "distinct (keys s) \<Longrightarrow> distinct (keys (put v s))"
  by (simp add: keys_put)

lemma distinct_fold_put: "distinct (keys s) \<Longrightarrow> distinct (keys (fold put vs s))"
  by (induction vs arbitrary: s) (auto simp: distinct_put)

lemma set_keys_fold_put: "set (keys (fold put vs s)) = set (keys s) \<union> key ` set vs"
  by (induction vs arbitrary: s) (auto simp: keys_put)

lemma length_keys_fold_put: "length (keys (fold put vs s)) \<le> length (keys s) + length vs"
proof (induction vs arbitrary: s)
  case (Cons v vs)
  have "length (keys (put v s)) \<le> Suc (length (keys s))" by (simp add: keys_put)
  with Cons [of "put v s"] show ?case by simp
qed simp

end

subsection \<open>Scanning loops\<close>

text \<open>
  A \<^verbatim>\<open>for\<close> loop that leaves with the first error or with the first element that hits.
\<close>

definition reached_by :: "('a \<Rightarrow> bool) \<Rightarrow> 'a list \<Rightarrow> 'a \<Rightarrow> bool" where
  "reached_by miss xs x \<longleftrightarrow> (\<exists>ys zs. xs = ys @ x # zs \<and> (\<forall>y\<in>set ys. miss y))"

lemma reached_by_Nil: "\<not> reached_by miss [] x"
  by (simp add: reached_by_def)

lemma reached_by_Cons: "reached_by miss (y # xs) x \<longleftrightarrow> x = y \<or> miss y \<and> reached_by miss xs x"
proof
  assume "reached_by miss (y # xs) x"
  then obtain ys zs where "y # xs = ys @ x # zs" "\<forall>z\<in>set ys. miss z" by (auto simp: reached_by_def)
  then show "x = y \<or> miss y \<and> reached_by miss xs x" by (cases ys) (auto simp: reached_by_def)
next
  assume "x = y \<or> miss y \<and> reached_by miss xs x"
  then show "reached_by miss (y # xs) x"
  proof
    assume "x = y"
    then have "y # xs = [] @ x # xs" by simp
    then show ?thesis unfolding reached_by_def by fastforce
  next
    assume "miss y \<and> reached_by miss xs x"
    then obtain ys zs where "y # xs = (y # ys) @ x # zs" "\<forall>z\<in>set (y # ys). miss z"
      by (auto simp: reached_by_def)
    then show ?thesis unfolding reached_by_def by blast
  qed
qed

lemmas reached_by_simps = reached_by_Nil reached_by_Cons

lemma reached_by_mem: "reached_by miss xs x \<Longrightarrow> x \<in> set xs"
  by (auto simp: reached_by_def)

locale scan_loop =
  fixes check :: "'a \<Rightarrow> bool result exec"
    and loop :: "'a list \<Rightarrow> 'a option result exec"
  assumes loop_Nil: "loop [] = Ret (Inr None)"
    and loop_Cons: "loop (x # xs) =
      (case check x of
         Panic m \<Rightarrow> Panic m
       | Ret (Inl e) \<Rightarrow> Ret (Inl e)
       | Ret (Inr hit) \<Rightarrow> if hit then Ret (Inr (Some x)) else loop xs)"
begin

abbreviation miss :: "'a \<Rightarrow> bool" where
  "miss y \<equiv> check y = Ret (Inr False)"

text \<open>The loop stops at \<open>x\<close> exactly when everything before some occurrence of \<open>x\<close> misses.\<close>

lemma loop_hit_iff: "loop xs = Ret (Inr (Some x)) \<longleftrightarrow> check x = Ret (Inr True) \<and> reached_by miss xs x"
  by (induction xs) (auto simp: loop_Nil loop_Cons reached_by_simps split: exec.splits sum.splits)

lemma loop_none_iff: "loop xs = Ret (Inr None) \<longleftrightarrow> (\<forall>x\<in>set xs. miss x)"
  by (induction xs) (auto simp: loop_Nil loop_Cons split: exec.splits sum.splits)

lemma loop_error_iff: "loop xs = Ret (Inl e) \<longleftrightarrow> (\<exists>x. check x = Ret (Inl e) \<and> reached_by miss xs x)"
  by (induction xs) (auto simp: loop_Nil loop_Cons reached_by_simps split: exec.splits sum.splits)

lemma loop_panic_iff: "loop xs = Panic m \<longleftrightarrow> (\<exists>x. check x = Panic m \<and> reached_by miss xs x)"
  by (induction xs)
    (auto simp: loop_Nil loop_Cons reached_by_simps split: exec.splits sum.splits)

text \<open>Without errors and panics the loop is \<open>find\<close>.\<close>

lemma loop_find:
  "(\<And>x. x \<in> set xs \<Longrightarrow> check x = Ret (Inr (P x))) \<Longrightarrow> loop xs = Ret (Inr (find P xs))"
  by (induction xs) (auto simp: loop_Nil loop_Cons)

end

end
