(* ===== verification/Api_Conditions.thy ===== *)
theory Api_Conditions
  imports Wing_Prelude
begin

text \<open>
  The status conditions of a \<^verbatim>\<open>ReplicaAutoscaler\<close> (\<^verbatim>\<open>api/v1/condition.go\<close>): the list of
  conditions, its initialisation, and the operations that set, read and delete a condition by type.
  \<^verbatim>\<open>metav1.Now()\<close> is the argument \<open>now\<close>: one reading per call of \<^verbatim>\<open>SetCondition\<close>.

  Shown: the conditions are a \<open>keyed_list\<close> (a set is seen by the next get of the same type and of no
  other, and a list with one condition per type stays so), exactly when the transition time moves, and
  that a deleted condition is gone.
\<close>

subsection \<open>Data\<close>

type_synonym ConditionType = string
type_synonym ConditionStatus = string

definition ConditionReplicaPatched :: ConditionType where "ConditionReplicaPatched = ''ReplicaPatched''"
definition ConditionScaleLimited :: ConditionType where "ConditionScaleLimited = ''ScaleLimited''"
definition ConditionReady :: ConditionType where "ConditionReady = ''Ready''"
definition ConditionPanicMode :: ConditionType where "ConditionPanicMode = ''PanicMode''"
definition ConditionExhausted :: ConditionType where "ConditionExhausted = ''Exhausted''"

lemmas condition_types =
  ConditionReplicaPatched_def ConditionScaleLimited_def ConditionReady_def
  ConditionPanicMode_def ConditionExhausted_def

text \<open>\<^verbatim>\<open>metav1.ConditionTrue\<close>, \<^verbatim>\<open>ConditionFalse\<close> and \<^verbatim>\<open>ConditionUnknown\<close>.\<close>

definition ConditionTrue :: ConditionStatus where "ConditionTrue = ''True''"
definition ConditionFalse :: ConditionStatus where "ConditionFalse = ''False''"
definition ConditionUnknown :: ConditionStatus where "ConditionUnknown = ''Unknown''"

lemmas condition_statuses = ConditionTrue_def ConditionFalse_def ConditionUnknown_def

record Condition =
  cond_Type :: ConditionType
  cond_Status :: ConditionStatus
  cond_Reason :: string
  cond_Message :: string
  cond_LastTransitionTime :: Time

type_synonym Conditions = "Condition list"

text \<open>The zero value \<^verbatim>\<open>Condition{}\<close>, and a condition given by its fields with the rest zero.\<close>

definition zeroCondition :: Condition where
  "zeroCondition = \<lparr>cond_Type = [], cond_Status = [], cond_Reason = [], cond_Message = [],
                    cond_LastTransitionTime = zeroTime\<rparr>"

definition mkCondition :: "ConditionType \<Rightarrow> ConditionStatus \<Rightarrow> string \<Rightarrow> string \<Rightarrow> Condition" where
  "mkCondition ty st re msg = \<lparr>cond_Type = ty, cond_Status = st, cond_Reason = re, cond_Message = msg,
                               cond_LastTransitionTime = zeroTime\<rparr>"

lemma mkCondition_sel [simp]:
  "cond_Type (mkCondition ty st re msg) = ty" "cond_Status (mkCondition ty st re msg) = st"
  "cond_Reason (mkCondition ty st re msg) = re" "cond_Message (mkCondition ty st re msg) = msg"
  by (simp_all add: mkCondition_def)

subsection \<open>Operations\<close>

definition InitializeConditions :: "Conditions \<Rightarrow> Conditions" where
  "InitializeConditions c = c @ [mkCondition ConditionReady ConditionUnknown [] []]"

text \<open>\<^verbatim>\<open>if len(conditions) == 0 { InitializeConditions(&conditions) }\<close>, the head of all three
  operations.\<close>

definition initIfEmpty :: "Conditions \<Rightarrow> Conditions" where
  "initIfEmpty conds = (if length conds = 0 then InitializeConditions conds else conds)"

text \<open>The loop of \<^verbatim>\<open>SetCondition\<close>: every condition of the type is updated in place; the flag is
  \<^verbatim>\<open>found\<close>.\<close>

fun setLoop :: "Time \<Rightarrow> Condition \<Rightarrow> Conditions \<Rightarrow> Conditions \<times> bool" where
  "setLoop now c [] = ([], False)"
| "setLoop now c (x # xs) =
     (let (xs', found) = setLoop now c xs in
      if cond_Type x = cond_Type c
      then (x\<lparr>cond_LastTransitionTime :=
                 (if cond_Status x \<noteq> cond_Status c \<or> cond_Reason x \<noteq> cond_Reason c
                  then now else cond_LastTransitionTime x),
              cond_Status := cond_Status c,
              cond_Reason := cond_Reason c,
              cond_Message := cond_Message c\<rparr> # xs', True)
      else (x # xs', found))"

definition SetCondition :: "Time \<Rightarrow> Conditions \<Rightarrow> Condition \<Rightarrow> Conditions" where
  "SetCondition now conds c =
     (let (conds', found) = setLoop now c (initIfEmpty conds) in
      if \<not> found then conds' @ [c\<lparr>cond_LastTransitionTime := now\<rparr>] else conds')"

definition GetCondition :: "Conditions \<Rightarrow> ConditionType \<Rightarrow> Condition" where
  "GetCondition conds ty =
     (case find (\<lambda>c. cond_Type c = ty) (initIfEmpty conds) of
        Some c \<Rightarrow> c
      | None \<Rightarrow> zeroCondition)"

fun deleteLoop :: "ConditionType \<Rightarrow> Conditions \<Rightarrow> Conditions" where
  "deleteLoop ty [] = []"
| "deleteLoop ty (x # xs) = (if cond_Type x = ty then xs else x # deleteLoop ty xs)"

definition DeleteCondition :: "Conditions \<Rightarrow> ConditionType \<Rightarrow> Conditions" where
  "DeleteCondition conds ty = deleteLoop ty (initIfEmpty conds)"

subsection \<open>The loop of SetCondition\<close>

lemma initIfEmpty_nonempty [simp]: "initIfEmpty conds \<noteq> []"
  by (simp add: initIfEmpty_def InitializeConditions_def)

lemma initIfEmpty_id [simp]: "conds \<noteq> [] \<Longrightarrow> initIfEmpty conds = conds"
  by (simp add: initIfEmpty_def)

lemma setLoop_found: "snd (setLoop now c xs) \<longleftrightarrow> cond_Type c \<in> cond_Type ` set xs"
  by (induction xs) (auto simp: case_prod_beta Let_def)

lemma setLoop_types: "map cond_Type (fst (setLoop now c xs)) = map cond_Type xs"
  by (induction xs) (auto simp: case_prod_beta Let_def)

lemma setLoop_nonempty: "fst (setLoop now c xs) = [] \<longleftrightarrow> xs = []"
  using setLoop_types [of now c xs] by (metis map_is_Nil_conv)

lemma setLoop_find_other:
  "ty \<noteq> cond_Type c \<Longrightarrow>
   find (\<lambda>x. cond_Type x = ty) (fst (setLoop now c xs)) = find (\<lambda>x. cond_Type x = ty) xs"
  by (induction xs) (auto simp: case_prod_beta Let_def)

lemma setLoop_find_same:
  "find (\<lambda>x. cond_Type x = cond_Type c) (fst (setLoop now c xs)) =
   map_option (\<lambda>x. \<lparr>cond_Type = cond_Type c, cond_Status = cond_Status c,
                     cond_Reason = cond_Reason c, cond_Message = cond_Message c,
                     cond_LastTransitionTime =
                       (if cond_Status x \<noteq> cond_Status c \<or> cond_Reason x \<noteq> cond_Reason c
                        then now else cond_LastTransitionTime x)\<rparr>)
     (find (\<lambda>x. cond_Type x = cond_Type c) xs)"
  by (induction xs) (auto simp: case_prod_beta Let_def)

lemma SetCondition_nonempty [simp]: "SetCondition now conds c \<noteq> []"
  by (auto simp: SetCondition_def case_prod_beta Let_def setLoop_nonempty)

lemma SetCondition_types:
  "map cond_Type (SetCondition now conds c) =
     (let ts = map cond_Type (initIfEmpty conds) in
      if cond_Type c \<in> set ts then ts else ts @ [cond_Type c])"
  by (auto simp: SetCondition_def case_prod_beta Let_def setLoop_found setLoop_types)

lemma find_append_fresh: "find P (xs @ [y]) = (case find P xs of Some x \<Rightarrow> Some x | None \<Rightarrow> if P y then Some y else None)"
  by (induction xs) auto

subsection \<open>Reading a condition back\<close>

text \<open>What a set stores, apart from the time: type, status, reason and message.\<close>

definition condition_value :: "Condition \<Rightarrow> string \<times> string \<times> string \<times> string" where
  "condition_value c = (cond_Type c, cond_Status c, cond_Reason c, cond_Message c)"

definition condition_lookup :: "Conditions \<Rightarrow> ConditionType \<Rightarrow> (string \<times> string \<times> string \<times> string) option" where
  "condition_lookup conds ty =
     map_option condition_value (find (\<lambda>c. cond_Type c = ty) (initIfEmpty conds))"

definition condition_put :: "Time \<Rightarrow> string \<times> string \<times> string \<times> string \<Rightarrow> Conditions \<Rightarrow> Conditions" where
  "condition_put now v conds = (case v of (ty, st, re, msg) \<Rightarrow> SetCondition now conds (mkCondition ty st re msg))"

lemma find_SetCondition:
  "find (\<lambda>x. cond_Type x = ty) (SetCondition now conds c) =
     (if ty = cond_Type c
      then Some \<lparr>cond_Type = cond_Type c, cond_Status = cond_Status c,
                 cond_Reason = cond_Reason c, cond_Message = cond_Message c,
                 cond_LastTransitionTime =
                   (case find (\<lambda>x. cond_Type x = cond_Type c) (initIfEmpty conds) of
                      None \<Rightarrow> now
                    | Some x \<Rightarrow> if cond_Status x \<noteq> cond_Status c \<or> cond_Reason x \<noteq> cond_Reason c
                                then now else cond_LastTransitionTime x)\<rparr>
      else find (\<lambda>x. cond_Type x = ty) (initIfEmpty conds))"
proof -
  let ?xs = "initIfEmpty conds"
  have none: "find (\<lambda>x. cond_Type x = cond_Type c) ?xs = None \<longleftrightarrow> \<not> snd (setLoop now c ?xs)"
    by (simp add: find_None_iff setLoop_found image_iff) metis
  show ?thesis
    using none
    by (auto simp: SetCondition_def case_prod_beta Let_def find_append_fresh setLoop_find_same
        setLoop_find_other split: option.splits)
qed

interpretation conds: keyed_list fst condition_lookup "condition_put now" "\<lambda>cs. map cond_Type (initIfEmpty cs)"
  for now
proof
  fix v :: "string \<times> string \<times> string \<times> string" and s k
  show "condition_lookup (condition_put now v s) k = (if k = fst v then Some v else condition_lookup s k)"
    by (cases v) (auto simp: condition_lookup_def condition_put_def find_SetCondition condition_value_def)
  show "map cond_Type (initIfEmpty (condition_put now v s)) =
     (if fst v \<in> set (map cond_Type (initIfEmpty s)) then map cond_Type (initIfEmpty s)
      else map cond_Type (initIfEmpty s) @ [fst v])"
    by (cases v) (auto simp: condition_put_def SetCondition_types Let_def)
qed

lemma GetCondition_SetCondition [store_simps]:
  "GetCondition (SetCondition now conds c) ty =
     (if ty = cond_Type c
      then \<lparr>cond_Type = cond_Type c, cond_Status = cond_Status c,
            cond_Reason = cond_Reason c, cond_Message = cond_Message c,
            cond_LastTransitionTime =
              (case find (\<lambda>x. cond_Type x = cond_Type c) (initIfEmpty conds) of
                 None \<Rightarrow> now
               | Some x \<Rightarrow> if cond_Status x \<noteq> cond_Status c \<or> cond_Reason x \<noteq> cond_Reason c
                           then now else cond_LastTransitionTime x)\<rparr>
      else GetCondition conds ty)"
  by (simp add: GetCondition_def find_SetCondition)

lemma Status_SetCondition [store_simps]:
  "cond_Status (GetCondition (SetCondition now conds c) ty) =
     (if ty = cond_Type c then cond_Status c else cond_Status (GetCondition conds ty))"
  by (simp add: GetCondition_SetCondition)


lemma deleteLoop_types: "map cond_Type (deleteLoop ty xs) = remove1 ty (map cond_Type xs)"
  by (induction xs) auto

lemma deleteLoop_find_other:
  "ty' \<noteq> ty \<Longrightarrow> find (\<lambda>c. cond_Type c = ty') (deleteLoop ty xs) = find (\<lambda>c. cond_Type c = ty') xs"
  by (induction xs) auto

lemma initIfEmpty_distinct: "distinct (map cond_Type cs) \<Longrightarrow> distinct (map cond_Type (initIfEmpty cs))"
  by (simp add: initIfEmpty_def InitializeConditions_def)

lemma SetCondition_distinct:
  "distinct (map cond_Type cs) \<Longrightarrow> distinct (map cond_Type (SetCondition now cs c))"
  using initIfEmpty_distinct [of cs] by (simp add: SetCondition_types Let_def)

subsection \<open>Properties\<close>


text \<open>
  Starting from a condition list without two conditions of one type, any sequence of
  \<^verbatim>\<open>SetCondition\<close> calls, each at its own time, keeps it so; and deleting a type then removes it and
  leaves what every other type reads.
\<close>

theorem conditions_stay_distinct:
  fixes calls :: "(Time \<times> Condition) list"
  assumes "distinct (map cond_Type conds)"
  defines "conds' \<equiv> fold (\<lambda>(now, c) cs. SetCondition now cs c) calls conds"
  shows "distinct (map cond_Type conds') \<and>
         ty \<notin> cond_Type ` set (DeleteCondition conds' ty) \<and>
         (\<forall>ty'. ty' \<noteq> ty \<longrightarrow> find (\<lambda>c. cond_Type c = ty') (DeleteCondition conds' ty)
                         = find (\<lambda>c. cond_Type c = ty') (initIfEmpty conds'))"
proof (intro conjI allI impI)
  show d: "distinct (map cond_Type conds')"
    using assms(1) unfolding conds'_def
    by (induction calls arbitrary: conds) (auto simp: SetCondition_distinct case_prod_beta)
  have "ty \<notin> set (map cond_Type (DeleteCondition conds' ty))"
    using initIfEmpty_distinct [OF d] by (simp add: DeleteCondition_def deleteLoop_types)
  then show "ty \<notin> cond_Type ` set (DeleteCondition conds' ty)" by simp
  show "find (\<lambda>c. cond_Type c = ty') (DeleteCondition conds' ty)
          = find (\<lambda>c. cond_Type c = ty') (initIfEmpty conds')" if "ty' \<noteq> ty" for ty'
    using that by (simp add: DeleteCondition_def deleteLoop_find_other)
qed

theorem conditions_stay_distinct_witness:
  "distinct (map cond_Type [mkCondition ''Ready'' ''True'' [] []]) \<and>
   ''Ready'' \<notin> cond_Type ` set (DeleteCondition (fold (\<lambda>(now, c) cs. SetCondition now cs c)
     [(5, mkCondition ''PanicMode'' ''True'' [] [])] [mkCondition ''Ready'' ''True'' [] []]) ''Ready'')"
  using conditions_stay_distinct [of "[mkCondition ''Ready'' ''True'' [] []]"
      "[(5, mkCondition ''PanicMode'' ''True'' [] [])]" "''Ready''"] by simp

end
