(* ===== verification/Api_Types.thy ===== *)
theory Api_Types
  imports Api_Conditions "HOL-Library.Finite_Map"
begin

text \<open>
  The resource types of \<^verbatim>\<open>api/v1\<close> (\<^verbatim>\<open>replicaautoscaler_types.go\<close>, \<^verbatim>\<open>gvkr.go\<close>,
  \<^verbatim>\<open>event.go\<close>) and the target-status helpers of \<^verbatim>\<open>utils/status.go\<close>.

  A pointer field is an \<open>option\<close>; a string-typed enum is a string with its named constants, as in
  Go. \<^verbatim>\<open>resource.Quantity\<close> is a third-party fixed-point number: here it is the data it holds (a
  value and a decimal scale), and its operations are parameters of the definitions that call them.
  Annotations are a finite map; a nil map and an empty one are not distinguished, since every operation
  of the controller treats them alike.

  Shown for the target statuses: they are a \<open>keyed_list\<close>; \<^verbatim>\<open>PurgeTargetStatus\<close> keeps exactly
  the managed names; and it multiplies an entry by the number of times its name is managed.
\<close>

subsection \<open>Metric targets and quantities\<close>

record Quantity =
  q_value :: int
  q_scale :: int

type_synonym MetricTargetType = string

definition UtilizationMetricType :: MetricTargetType where "UtilizationMetricType = ''Utilization''"
definition ValueMetricType :: MetricTargetType where "ValueMetricType = ''Value''"
definition AverageValueMetricType :: MetricTargetType where "AverageValueMetricType = ''AverageValue''"

record MetricTarget =
  mt_Type :: MetricTargetType
  mt_Value :: "Quantity option"
  mt_AverageValue :: "Quantity option"
  mt_AverageUtilization :: "int option"

subsection \<open>Spec\<close>

record RawExtension =
  Raw :: string

record CrossVersionObjectReference =
  ref_Kind :: string
  ref_Name :: string
  ref_APIVersion :: string

record ScheduleTargetSettings =
  sch_Timezone :: string
  sch_Start :: string
  sch_End :: string
  sch_Settings :: "RawExtension option"

record TargetSettings =
  set_Default :: "RawExtension option"
  set_Schedules :: "ScheduleTargetSettings list"

record ReplicaAutoscalerTarget =
  tgt_Metric :: string
  tgt_MetricType :: MetricTargetType
  tgt_Settings :: TargetSettings

record ReplicaAutoscalerStrategy =
  PanicWindowSeconds :: "int option"
  PanicThreshold :: "Quantity option"

text \<open>\<^verbatim>\<open>intstr.IntOrString\<close>.\<close>

datatype IntOrString = IntVal int | StrVal string

record ExhaustPending =
  ep_Threshold :: IntOrString
  ep_TimeoutSeconds :: int

definition ExhaustOnPending :: string where "ExhaustOnPending = ''Pending''"

record Exhaust =
  ex_Type :: string
  ex_Pending :: "ExhaustPending option"

definition DefaultMinReplicas :: int where "DefaultMinReplicas = 1"

record ReplicaAutoscalerSpec =
  spec_Replicator :: "string option"
  spec_ReplicatorSettings :: "RawExtension option"
  spec_ScaleTargetRef :: CrossVersionObjectReference
  spec_MinReplicas :: "int option"
  spec_MaxReplicas :: int
  spec_Targets :: "ReplicaAutoscalerTarget list"
  spec_Strategy :: "ReplicaAutoscalerStrategy option"
  spec_Exhaust :: "Exhaust option"

subsection \<open>Status\<close>

record TargetStatus =
  ts_Target :: string
  ts_Scaler :: string
  ts_DesiredReplicas :: int
  ts_Metric :: MetricTarget

record ReplicaAutoscalerStatus =
  st_ObservedGeneration :: "int option"
  st_LastScaleTime :: "Time option"
  st_CurrentReplicas :: int
  st_DesiredReplicas :: int
  st_Targets :: "TargetStatus list"
  st_Conditions :: Conditions

definition zeroStatus :: ReplicaAutoscalerStatus where
  "zeroStatus = \<lparr>st_ObservedGeneration = None, st_LastScaleTime = None, st_CurrentReplicas = 0,
                 st_DesiredReplicas = 0, st_Targets = [], st_Conditions = []\<rparr>"

record ReplicaAutoscaler =
  ra_Name :: string
  ra_Namespace :: string
  ra_Generation :: int
  ra_DeletionTimestamp :: "Time option"
  ra_Annotations :: "(string, string) fmap"
  ra_Spec :: ReplicaAutoscalerSpec
  ra_Status :: ReplicaAutoscalerStatus

definition ReplicaPatchesAnnotation :: string where
  "ReplicaPatchesAnnotation = ''wing.xscaling.dev/replica-patches''"

definition DryRunAnnotation :: string where
  "DryRunAnnotation = ''wing.xscaling.dev/dry-run''"

record ReplicaPatch =
  rp_Timezone :: string
  rp_Start :: string
  rp_End :: string
  rp_RetentionSeconds :: "int option"
  rp_MinReplicas :: int
  rp_MaxReplicas :: int

subsection \<open>Group, version, kind, resource\<close>

record GroupVersionKindResource =
  gvkr_Group :: string
  gvkr_Version :: string
  gvkr_Kind :: string
  gvkr_Resource :: string

definition zeroGVKR :: GroupVersionKindResource where
  "zeroGVKR = \<lparr>gvkr_Group = [], gvkr_Version = [], gvkr_Kind = [], gvkr_Resource = []\<rparr>"

text \<open>The triples and pairs of \<^verbatim>\<open>k8s.io/apimachinery/pkg/runtime/schema\<close>.\<close>

definition GroupVersionKind :: "GroupVersionKindResource \<Rightarrow> string \<times> string \<times> string" where
  "GroupVersionKind g = (gvkr_Group g, gvkr_Version g, gvkr_Kind g)"

definition GroupVersion :: "GroupVersionKindResource \<Rightarrow> string \<times> string" where
  "GroupVersion g = (gvkr_Group g, gvkr_Version g)"

definition GroupResource :: "GroupVersionKindResource \<Rightarrow> string \<times> string" where
  "GroupResource g = (gvkr_Group g, gvkr_Resource g)"

definition GVKString :: "GroupVersionKindResource \<Rightarrow> string" where
  "GVKString g = gvkr_Group g @ ''/'' @ gvkr_Version g @ ''.'' @ gvkr_Kind g"

subsection \<open>Target statuses\<close>

fun setTargetLoop :: "TargetStatus \<Rightarrow> TargetStatus list \<Rightarrow> TargetStatus list" where
  "setTargetLoop t [] = [t]"
| "setTargetLoop t (x # xs) = (if ts_Target x = ts_Target t then t # xs else x # setTargetLoop t xs)"

definition SetTargetStatus :: "ReplicaAutoscalerStatus \<Rightarrow> TargetStatus \<Rightarrow> ReplicaAutoscalerStatus" where
  "SetTargetStatus status t = status\<lparr>st_Targets := setTargetLoop t (st_Targets status)\<rparr>"

definition GetTargetStatus :: "ReplicaAutoscalerStatus \<Rightarrow> string \<Rightarrow> TargetStatus option" where
  "GetTargetStatus status target = find (\<lambda>t. ts_Target t = target) (st_Targets status)"

text \<open>The two nested loops of \<^verbatim>\<open>PurgeTargetStatus\<close>: an entry is appended once for every managed
  name that equals its own.\<close>

fun purgeInner :: "TargetStatus \<Rightarrow> string list \<Rightarrow> TargetStatus list \<Rightarrow> TargetStatus list" where
  "purgeInner t [] acc = acc"
| "purgeInner t (m # ms) acc = purgeInner t ms (if ts_Target t = m then acc @ [t] else acc)"

fun purgeOuter :: "string list \<Rightarrow> TargetStatus list \<Rightarrow> TargetStatus list \<Rightarrow> TargetStatus list" where
  "purgeOuter managed [] acc = acc"
| "purgeOuter managed (t # ts) acc = purgeOuter managed ts (purgeInner t managed acc)"

definition PurgeTargetStatus :: "string list \<Rightarrow> ReplicaAutoscalerStatus \<Rightarrow> ReplicaAutoscalerStatus" where
  "PurgeTargetStatus managed status = status\<lparr>st_Targets := purgeOuter managed (st_Targets status) []\<rparr>"

subsection \<open>Target statuses as a keyed list\<close>

lemma find_setTargetLoop:
  "find (\<lambda>x. ts_Target x = k) (setTargetLoop t xs) =
     (if k = ts_Target t then Some t else find (\<lambda>x. ts_Target x = k) xs)"
  by (induction xs) auto

lemma setTargetLoop_keys:
  "map ts_Target (setTargetLoop t xs) =
     (if ts_Target t \<in> set (map ts_Target xs) then map ts_Target xs else map ts_Target xs @ [ts_Target t])"
  by (induction xs) auto

interpretation targets: keyed_list ts_Target GetTargetStatus "\<lambda>t s. SetTargetStatus s t"
  "\<lambda>s. map ts_Target (st_Targets s)"
  by unfold_locales (simp_all add: GetTargetStatus_def SetTargetStatus_def find_setTargetLoop setTargetLoop_keys)

lemmas GetTargetStatus_SetTargetStatus [store_simps] = targets.get_put

lemma SetTargetStatus_frame [frame_simps]:
  "st_Conditions (SetTargetStatus s t) = st_Conditions s"
  "st_LastScaleTime (SetTargetStatus s t) = st_LastScaleTime s"
  "st_CurrentReplicas (SetTargetStatus s t) = st_CurrentReplicas s"
  "st_DesiredReplicas (SetTargetStatus s t) = st_DesiredReplicas s"
  "st_ObservedGeneration (SetTargetStatus s t) = st_ObservedGeneration s"
  by (simp_all add: SetTargetStatus_def)

lemma PurgeTargetStatus_frame [frame_simps]:
  "st_Conditions (PurgeTargetStatus m s) = st_Conditions s"
  "st_LastScaleTime (PurgeTargetStatus m s) = st_LastScaleTime s"
  "st_CurrentReplicas (PurgeTargetStatus m s) = st_CurrentReplicas s"
  "st_DesiredReplicas (PurgeTargetStatus m s) = st_DesiredReplicas s"
  "st_ObservedGeneration (PurgeTargetStatus m s) = st_ObservedGeneration s"
  by (simp_all add: PurgeTargetStatus_def)

subsection \<open>Purging\<close>

lemma purgeInner_eq: "purgeInner t ms acc = acc @ replicate (count_list ms (ts_Target t)) t"
  by (induction ms arbitrary: acc) (auto simp: replicate_append_same)

lemma purgeOuter_eq:
  "purgeOuter managed ts acc =
     acc @ concat (map (\<lambda>t. replicate (count_list managed (ts_Target t)) t) ts)"
  by (induction ts arbitrary: acc) (auto simp: purgeInner_eq)

lemma st_Targets_PurgeTargetStatus:
  "st_Targets (PurgeTargetStatus managed s) =
     concat (map (\<lambda>t. replicate (count_list managed (ts_Target t)) t) (st_Targets s))"
  by (simp add: PurgeTargetStatus_def purgeOuter_eq)

lemma purge_distinct_managed:
  "distinct managed \<Longrightarrow>
   st_Targets (PurgeTargetStatus managed s) = filter (\<lambda>t. ts_Target t \<in> set managed) (st_Targets s)"
proof -
  assume "distinct managed"
  then have c: "count_list managed x = (if x \<in> set managed then 1 else 0)" for x
    by (induction managed) auto
  have "concat (map (\<lambda>t. replicate (count_list managed (ts_Target t)) t) ts) =
        filter (\<lambda>t. ts_Target t \<in> set managed) ts" for ts :: "TargetStatus list"
    by (induction ts) (auto simp: c)
  then show ?thesis by (simp add: st_Targets_PurgeTargetStatus)
qed

lemma count_list_concat_replicate:
  "count_list (concat (map (\<lambda>t. replicate (f (ts_Target t)) t) ts)) t = f (ts_Target t) * count_list ts t"
proof (induction ts)
  case (Cons x ts)
  have "count_list (replicate n x) t = (if x = t then n else 0)" for n by (induction n) auto
  with Cons show ?case by (auto simp: algebra_simps)
qed simp


lemma length_setTargetLoop:
  "length (setTargetLoop t xs) = (if ts_Target t \<in> ts_Target ` set xs then length xs else Suc (length xs))"
  by (induction xs) auto

lemma set_setTargetLoop_keys: "ts_Target ` set (setTargetLoop t xs) = insert (ts_Target t) (ts_Target ` set xs)"
  by (induction xs) auto

text \<open>One reconciliation of an autoscaler with two targets that report under the same name \<open>n\<close>:
  both scalers set their status, then the purge runs with the name managed twice.\<close>

definition duplicate_round :: "TargetStatus \<Rightarrow> TargetStatus \<Rightarrow> ReplicaAutoscalerStatus \<Rightarrow> ReplicaAutoscalerStatus" where
  "duplicate_round t1 t2 s =
     PurgeTargetStatus [ts_Target t1, ts_Target t2] (SetTargetStatus (SetTargetStatus s t1) t2)"

lemma duplicate_round_step:
  assumes same: "ts_Target t1 = n" "ts_Target t2 = n"
    and named: "ts_Target ` set (st_Targets s) \<subseteq> {n}"
  shows "length (st_Targets (duplicate_round t1 t2 s)) = 2 * max 1 (length (st_Targets s))"
    and "ts_Target ` set (st_Targets (duplicate_round t1 t2 s)) \<subseteq> {n}"
proof -
  let ?xs = "setTargetLoop t2 (setTargetLoop t1 (st_Targets s))"
  have keys: "ts_Target ` set ?xs = {n}" using assms by (auto simp: set_setTargetLoop_keys)
  have len: "length ?xs = max 1 (length (st_Targets s))"
    using assms by (cases "st_Targets s") (auto simp: length_setTargetLoop set_setTargetLoop_keys)
  have cnt: "count_list [ts_Target t1, ts_Target t2] (ts_Target x) = 2" if "x \<in> set ?xs" for x
    using imageI [OF that, of ts_Target] keys same by simp
  have "length (concat (map (\<lambda>t. replicate (count_list [ts_Target t1, ts_Target t2] (ts_Target t)) t) ?xs))
        = sum_list (map (\<lambda>t. 2) ?xs)"
    unfolding length_concat map_map o_def using cnt by (intro arg_cong [where f = sum_list] map_cong) auto
  then show "length (st_Targets (duplicate_round t1 t2 s)) = 2 * max 1 (length (st_Targets s))"
    using len by (simp add: duplicate_round_def st_Targets_PurgeTargetStatus SetTargetStatus_def sum_list_triv)
  show "ts_Target ` set (st_Targets (duplicate_round t1 t2 s)) \<subseteq> {n}"
    using keys by (auto simp: duplicate_round_def st_Targets_PurgeTargetStatus SetTargetStatus_def)
qed

subsection \<open>Properties\<close>

text \<open>
  \<^verbatim>\<open>PurgeTargetStatus\<close> with distinct managed names keeps, in order and unchanged, exactly the
  statuses whose name is managed; a lookup after it finds a managed name as before and no other name.
\<close>

theorem PurgeTargetStatus_keeps_managed:
  assumes "distinct managed"
  shows "st_Targets (PurgeTargetStatus managed s) = filter (\<lambda>t. ts_Target t \<in> set managed) (st_Targets s) \<and>
         GetTargetStatus (PurgeTargetStatus managed s) k =
           (if k \<in> set managed then GetTargetStatus s k else None)"
proof -
  have "find (\<lambda>t. ts_Target t = k) (filter (\<lambda>t. ts_Target t \<in> set managed) ts) =
        (if k \<in> set managed then find (\<lambda>t. ts_Target t = k) ts else None)" for ts :: "TargetStatus list"
    by (induction ts) auto
  with purge_distinct_managed [OF assms] show ?thesis by (simp add: GetTargetStatus_def)
qed

theorem PurgeTargetStatus_keeps_managed_witness:
  "distinct [''cpu'', ''memory''] \<and>
   GetTargetStatus (PurgeTargetStatus [''cpu'', ''memory''] zeroStatus) ''cpu'' = None"
  using PurgeTargetStatus_keeps_managed [of "[''cpu'', ''memory'']" zeroStatus "''cpu''"]
  by (simp add: GetTargetStatus_def zeroStatus_def)

text \<open>
  (C40) Two targets that report under the same name (two targets of the same pod-resource scaler, or of
  the same Prometheus query) make \<^verbatim>\<open>PurgeTargetStatus\<close> duplicate their entry on every
  reconciliation: after \<open>k + 1\<close> reconciliations of an autoscaler with no statuses yet, the status list
  holds \<open>2 ^ (k + 1)\<close> entries, all of that name.
\<close>

theorem duplicate_targets_grow:
  assumes "ts_Target t1 = n" and "ts_Target t2 = n" and "st_Targets s = []"
  shows "length (st_Targets ((duplicate_round t1 t2 ^^ Suc k) s)) = 2 ^ Suc k \<and>
         ts_Target ` set (st_Targets ((duplicate_round t1 t2 ^^ Suc k) s)) \<subseteq> {n}"
proof (induction k)
  case 0
  then show ?case using duplicate_round_step [OF assms(1,2), of s] assms(3) by simp
next
  case (Suc k)
  let ?s = "(duplicate_round t1 t2 ^^ Suc k) s"
  have "max 1 ((2::nat) ^ Suc k) = 2 ^ Suc k" by simp
  with Suc duplicate_round_step [OF assms(1,2), of ?s] show ?case by simp
qed

theorem duplicate_targets_grow_witness:
  defines "t \<equiv> \<lparr>ts_Target = ''cpu'', ts_Scaler = ''cpu'', ts_DesiredReplicas = 3,
                ts_Metric = \<lparr>mt_Type = UtilizationMetricType, mt_Value = None, mt_AverageValue = None,
                            mt_AverageUtilization = Some 80\<rparr>\<rparr>"
  shows "length (st_Targets ((duplicate_round t t ^^ Suc 9) zeroStatus)) = 1024"
  using duplicate_targets_grow [of t "''cpu''" t zeroStatus 9] by (simp add: t_def zeroStatus_def)

end
