(* ===== verification/Gvkr.thy ===== *)
theory Gvkr
  imports Api_Types
begin

text \<open>
  Resolving a scale target's kind (\<^verbatim>\<open>utils/gvkr.go\<close>) and the cache of group-resources known to be
  scalable, which is process-wide and guarded by a lock, so that its operations are atomic steps.

  Parameters: \<^verbatim>\<open>schema.ParseGroupVersion\<close> and the REST mapper.

  Shown: defaults, the short cut for the two common kinds and error propagation; the cache is a
  \<open>keyed_store\<close>; the pre-filled entry for stateful sets is misspelt, so the lookup under the name
  \<^verbatim>\<open>ParseGVKR\<close> gives to stateful sets misses it.
\<close>

definition defaultVersion :: string where "defaultVersion = ''v1''"
definition defaultGroup :: string where "defaultGroup = ''apps''"
definition defaultKind :: string where "defaultKind = ''Deployment''"
definition defaultResource :: string where "defaultResource = ''deployments''"

lemmas gvkr_defaults = defaultVersion_def defaultGroup_def defaultKind_def defaultResource_def

definition getResource ::
  "(string \<times> string \<Rightarrow> string \<Rightarrow> string result) \<Rightarrow> string \<Rightarrow> string \<Rightarrow> string \<Rightarrow> string result" where
  "getResource RESTMapping grp version kind =
     (if kind = defaultKind then Inr defaultResource
      else if kind = ''StatefulSet'' then Inr ''statefulsets''
      else RESTMapping (grp, kind) version)"

definition ParseGVKR ::
  "(string \<Rightarrow> (string \<times> string) result) \<Rightarrow> (string \<times> string \<Rightarrow> string \<Rightarrow> string result) \<Rightarrow>
   string \<Rightarrow> string \<Rightarrow> GroupVersionKindResource result" where
  "ParseGVKR ParseGroupVersion RESTMapping apiVersion kind =
     (case (if apiVersion = [] then Inr (defaultGroup, defaultVersion) else ParseGroupVersion apiVersion) of
        Inl err \<Rightarrow> Inl err
      | Inr (grp, version) \<Rightarrow>
          (let kind' = (if kind = [] then defaultKind else kind) in
           case getResource RESTMapping grp version kind' of
             Inl err \<Rightarrow> Inl err
           | Inr resource \<Rightarrow>
               Inr \<lparr>gvkr_Group = grp, gvkr_Version = version, gvkr_Kind = kind', gvkr_Resource = resource\<rparr>))"

definition isScalableCache_init :: "(string, bool) fmap" where
  "isScalableCache_init = fmap_of_list [(''deployments.apps'', True), (''statefusets.apps'', True)]"

text \<open>(scalable, ok); an absent key reads as false.\<close>

definition GetGroupResourceKnownScalable :: "(string, bool) fmap \<Rightarrow> string \<Rightarrow> bool \<times> bool" where
  "GetGroupResourceKnownScalable cache groupResource =
     (case fmlookup cache groupResource of None \<Rightarrow> (False, False) | Some scalable \<Rightarrow> (scalable, True))"

definition SetGroupResourceKnownScalable :: "string \<Rightarrow> bool \<Rightarrow> (string, bool) fmap \<Rightarrow> (string, bool) fmap" where
  "SetGroupResourceKnownScalable groupResource scalable cache = fmupd groupResource scalable cache"

definition GetGVKRUnstructured :: "GroupVersionKindResource \<Rightarrow> string \<times> string \<times> string" where
  "GetGVKRUnstructured gvkr = GroupVersionKind gvkr"

interpretation scalable_cache: keyed_store fst
  "\<lambda>cache k. (case GetGroupResourceKnownScalable cache k of (b, ok) \<Rightarrow> if ok then Some (k, b) else None)"
  "\<lambda>(k, b). SetGroupResourceKnownScalable k b"
  by unfold_locales
    (auto simp: GetGroupResourceKnownScalable_def SetGroupResourceKnownScalable_def split: option.splits if_splits)

lemma getResource_Inr_iff:
  "getResource rm grp version kind = Inr r \<longleftrightarrow>
     (if kind = defaultKind then r = defaultResource
      else if kind = ''StatefulSet'' then r = ''statefulsets'' else rm (grp, kind) version = Inr r)"
  unfolding getResource_def by (cases "kind = defaultKind"; cases "kind = ''StatefulSet''") auto

lemma ParseGVKR_iff:
  "ParseGVKR pgv rm apiVersion kind = Inr g \<longleftrightarrow>
     (if apiVersion = [] then GroupVersion g = (defaultGroup, defaultVersion)
      else pgv apiVersion = Inr (GroupVersion g)) \<and>
     gvkr_Kind g = (if kind = [] then defaultKind else kind) \<and>
     getResource rm (gvkr_Group g) (gvkr_Version g) (gvkr_Kind g) = Inr (gvkr_Resource g)"
proof -
  define gv where "gv = (if apiVersion = [] then Inr (defaultGroup, defaultVersion) else pgv apiVersion)"
  define k where "k = (if kind = [] then defaultKind else kind)"
  have "ParseGVKR pgv rm apiVersion kind = Inr g \<longleftrightarrow>
        gv = Inr (gvkr_Group g, gvkr_Version g) \<and> gvkr_Kind g = k \<and>
        getResource rm (gvkr_Group g) (gvkr_Version g) (gvkr_Kind g) = Inr (gvkr_Resource g)"
    unfolding ParseGVKR_def gv_def [symmetric] k_def [symmetric] Let_def
    by (cases g) (auto split: sum.splits)
  moreover have "gv = Inr (gvkr_Group g, gvkr_Version g) \<longleftrightarrow>
     (if apiVersion = [] then GroupVersion g = (defaultGroup, defaultVersion)
      else pgv apiVersion = Inr (GroupVersion g))"
    by (auto simp: gv_def GroupVersion_def)
  ultimately show ?thesis by (simp add: k_def)
qed

subsection \<open>Properties\<close>

text \<open>
  \<^verbatim>\<open>ParseGVKR\<close> succeeds exactly when the API version (if any) parses and the kind is one of the two
  known ones, empty, or known to the REST mapper; the result carries the group and version of the API
  version, \<^verbatim>\<open>apps/v1\<close> by default, and the kind, \<^verbatim>\<open>Deployment\<close> by default.
\<close>

theorem ParseGVKR_result:
  "ParseGVKR pgv rm apiVersion kind = Inr g \<longleftrightarrow>
     (if apiVersion = [] then GroupVersion g = (''apps'', ''v1'') else pgv apiVersion = Inr (GroupVersion g)) \<and>
     gvkr_Kind g = (if kind = [] then ''Deployment'' else kind) \<and>
     (if gvkr_Kind g = ''Deployment'' then gvkr_Resource g = ''deployments''
      else if gvkr_Kind g = ''StatefulSet'' then gvkr_Resource g = ''statefulsets''
      else rm (gvkr_Group g, gvkr_Kind g) (gvkr_Version g) = Inr (gvkr_Resource g))"
  unfolding ParseGVKR_iff by (simp add: getResource_Inr_iff gvkr_defaults GroupVersion_def)

text \<open>
  Of the two kinds \<^verbatim>\<open>ParseGVKR\<close> resolves itself, the pre-filled cache knows deployments but not
  stateful sets: its key for the latter is misspelt. (\<^verbatim>\<open>GroupResource.String\<close> joins resource and group
  with a dot.)
\<close>

theorem statefulsets_not_prefilled:
  "(\<exists>g. ParseGVKR pgv rm [] ''Deployment'' = Inr g \<and>
        GetGroupResourceKnownScalable isScalableCache_init (gvkr_Resource g @ ''.'' @ gvkr_Group g) = (True, True)) \<and>
   (\<exists>g. ParseGVKR pgv rm [] ''StatefulSet'' = Inr g \<and>
        GetGroupResourceKnownScalable isScalableCache_init (gvkr_Resource g @ ''.'' @ gvkr_Group g) = (False, False))"
  by (simp add: ParseGVKR_def getResource_def gvkr_defaults isScalableCache_init_def
      GetGroupResourceKnownScalable_def fmlookup_of_list)

end
