(* ===== verification/Go_Time.thy ===== *)
theory Go_Time
  imports Wing_Prelude
begin

text \<open>
  The part of Go's \<^verbatim>\<open>time\<close> package the schedules use: \<^verbatim>\<open>time.Date\<close> with a location's zone
  offsets, and \<^verbatim>\<open>time.ParseInLocation\<close> for the one layout of the program,
  \<^verbatim>\<open>2006-01-02 15:04\<close>. The layout's elements are parsed by the rules of that package: four digits
  of year, two of month, day and minute, one or two of hour, and a blank that stands for any positive
  number of blanks. A \<^verbatim>\<open>*time.Location\<close> is its zone lookup, from Unix seconds to the offset and the
  bounds of the zone in force; the time-zone database itself (\<^verbatim>\<open>time.LoadLocation\<close>) is a parameter
  of the definitions that load locations.
\<close>

subsection \<open>Locations and civil dates\<close>

record Location =
  zone_lookup :: "int \<Rightarrow> int \<times> int \<times> int"

text \<open>A location with one fixed offset; UTC is the offset 0.\<close>

definition fixedZone :: "int \<Rightarrow> Location" where
  "fixedZone off = \<lparr>zone_lookup = (\<lambda>_. (off, - (2 ^ 63), 2 ^ 63 - 1))\<rparr>"

definition isLeap :: "int \<Rightarrow> bool" where
  "isLeap y \<longleftrightarrow> y mod 4 = 0 \<and> (y mod 100 \<noteq> 0 \<or> y mod 400 = 0)"

definition daysIn :: "int \<Rightarrow> int \<Rightarrow> int" where
  "daysIn m y = (if m = 2 then (if isLeap y then 29 else 28)
                 else if m \<in> {4, 6, 9, 11} then 30 else 31)"

definition daysBefore :: "int \<Rightarrow> int" where
  "daysBefore m = [0, 31, 59, 90, 120, 151, 181, 212, 243, 273, 304, 334] ! nat (m - 1)"

text \<open>Days from 1970-01-01 to January 1 of year \<open>y\<close>, proleptic Gregorian.\<close>

definition daysToYear :: "int \<Rightarrow> int" where
  "daysToYear y = 365 * (y - 1970) + ((y - 1) div 4 - (y - 1) div 100 + (y - 1) div 400 - 477)"

definition civilUnix :: "int \<Rightarrow> int \<Rightarrow> int \<Rightarrow> int \<Rightarrow> int \<Rightarrow> int" where
  "civilUnix y m d hh mm =
     (daysToYear y + daysBefore m + (if isLeap y \<and> 2 < m then 1 else 0) + (d - 1)) * 86400
     + hh * 3600 + mm * 60"

definition time_Date :: "int \<Rightarrow> int \<Rightarrow> int \<Rightarrow> int \<Rightarrow> int \<Rightarrow> Location \<Rightarrow> Time" where
  "time_Date y m d hh mm loc =
     (let unix = civilUnix y m d hh mm; (offset, start, stop) = zone_lookup loc unix;
          utc = unix - offset;
          offset' = (if utc < start \<or> stop \<le> utc then fst (zone_lookup loc utc) else offset)
      in (if offset \<noteq> 0 then unix - offset' else unix) * Second)"

subsection \<open>Parsing\<close>

definition isDigit :: "char \<Rightarrow> bool" where
  "isDigit c \<longleftrightarrow> 48 \<le> (of_char c :: int) \<and> (of_char c :: int) \<le> 57"

definition digitVal :: "char \<Rightarrow> int" where
  "digitVal c = of_char c - 48"

fun getnum :: "string \<Rightarrow> bool \<Rightarrow> (int \<times> string) option" where
  "getnum [] fixed = None"
| "getnum [c] fixed = (if \<not> isDigit c \<or> fixed then None else Some (digitVal c, []))"
| "getnum (c # d # s) fixed =
     (if \<not> isDigit c then None
      else if \<not> isDigit d then (if fixed then None else Some (digitVal c, d # s))
      else Some (digitVal c * 10 + digitVal d, s))"

fun getyear :: "string \<Rightarrow> (int \<times> string) option" where
  "getyear (a # b # c # d # s) =
     (if isDigit a \<and> isDigit b \<and> isDigit c \<and> isDigit d
      then Some (digitVal a * 1000 + digitVal b * 100 + digitVal c * 10 + digitVal d, s) else None)"
| "getyear s = None"

text \<open>\<^verbatim>\<open>skip(value, prefix)\<close> for a prefix of one character.\<close>

fun skip1 :: "char \<Rightarrow> string \<Rightarrow> string option" where
  "skip1 p [] = (if p = CHR '' '' then Some [] else None)"
| "skip1 p (c # s) =
     (if c \<noteq> p then None
      else if p = CHR '' '' then Some (dropWhile (\<lambda>x. x = CHR '' '') s) else Some s)"

definition parseDate :: "string \<Rightarrow> (int \<times> int \<times> int \<times> int \<times> int) option" where
  "parseDate s =
     Option.bind (getyear s) (\<lambda>(y, s).
     Option.bind (skip1 CHR ''-'' s) (\<lambda>s.
     Option.bind (getnum s True) (\<lambda>(m, s).
     if m \<le> 0 \<or> 12 < m then None else
     Option.bind (skip1 CHR ''-'' s) (\<lambda>s.
     Option.bind (getnum s True) (\<lambda>(d, s).
     Option.bind (skip1 CHR '' '' s) (\<lambda>s.
     Option.bind (getnum s False) (\<lambda>(hh, s).
     if hh < 0 \<or> 24 \<le> hh then None else
     Option.bind (skip1 CHR '':'' s) (\<lambda>s.
     Option.bind (getnum s True) (\<lambda>(mm, s).
     if mm < 0 \<or> 60 \<le> mm then None else
     if s \<noteq> [] then None else
     if d < 1 \<or> daysIn m y < d then None else
     Some (y, m, d, hh, mm))))))))))"

text \<open>\<^verbatim>\<open>time.ParseInLocation(SchedulePeriodDateFormat, s, loc)\<close>; the details of a
  \<^verbatim>\<open>ParseError\<close>'s text are left out.\<close>

definition ParseInLocation :: "string \<Rightarrow> Location \<Rightarrow> Time result" where
  "ParseInLocation s loc =
     (case parseDate s of
        None \<Rightarrow> Inl (errNew (''parsing time '' @ s))
      | Some (y, m, d, hh, mm) \<Rightarrow> Inr (time_Date y m d hh mm loc))"

end
