(* ===== verification/Timerange.thy ===== *)
theory Timerange
  imports Go_Time
begin

text \<open>
  The schedulers of \<^verbatim>\<open>utils/timerange\<close>: cron windows (\<^verbatim>\<open>cron.go\<close>), date windows
  (\<^verbatim>\<open>date.go\<close>) and the common interface (\<^verbatim>\<open>scheduler.go\<close>).

  The cron library is third-party: a \<^verbatim>\<open>cron.Schedule\<close> is the pair of its \<^verbatim>\<open>Next\<close> and
  \<^verbatim>\<open>Prev\<close> functions on a zoned time, and \<^verbatim>\<open>cron.ParseStandard\<close> is the parameter
  \<open>ParseStandard\<close>. What the theorems use of it is what it documents: \<^verbatim>\<open>Next\<close> returns the first
  activation after its argument and \<^verbatim>\<open>Prev\<close> the last one before (\<open>activations\<close>).

  Shown: a cron specification that is accepted has five fields with exact minute and hour (or is a
  descriptor); a cron window contains a time exactly when it lies between a start and the next end,
  provided starts and ends alternate; what it contains when they do not; and a date window is the closed
  interval between its parsed ends.
\<close>

subsection \<open>Definitions\<close>

record cron_Schedule =
  cron_Next :: "Location \<Rightarrow> Time \<Rightarrow> Time"
  cron_Prev :: "Location \<Rightarrow> Time \<Rightarrow> Time"

definition ErrCronScheduleSupportsExactMinuteHourValueOnly :: goerr where
  "ErrCronScheduleSupportsExactMinuteHourValueOnly = errNew ''cron schedule supports exact minute and hour value only''"

definition ErrNotAStandardCronSpec :: goerr where
  "ErrNotAStandardCronSpec = errNew ''not a standard cron spec(https://en.wikipedia.org/wiki/Cron)''"

definition ErrStartDateMustBeBeforeEndDate :: goerr where
  "ErrStartDateMustBeBeforeEndDate = errNew ''start date must be before end date''"

definition ErrInvalidSchedulePeriodFormat :: goerr where
  "ErrInvalidSchedulePeriodFormat = errNew ''invalid schedule period format, accepts `cron` or `date`''"

text \<open>\<^verbatim>\<open>fmt.Errorf("%w: \<dots>", e, \<dots>)\<close>.\<close>

definition wrapErr :: "goerr \<Rightarrow> string \<Rightarrow> goerr" where
  "wrapErr e s = Errorf (errText e @ '': '' @ s) (Some e)"

definition cronAnyRangeListCharacters :: string where "cronAnyRangeListCharacters = ''*/-,''"
definition CronFieldSeparator :: char where "CronFieldSeparator = CHR '' ''"

text \<open>\<^verbatim>\<open>spec[0]\<close> panics on the empty string.\<close>

definition validateCronSpec :: "(string \<Rightarrow> cron_Schedule result) \<Rightarrow> string \<Rightarrow> unit result exec" where
  "validateCronSpec ParseStandard spec =
     (case spec of
        [] \<Rightarrow> Panic ''index out of range [0] with length 0''
      | c # _ \<Rightarrow>
          (let fields = split_on CronFieldSeparator spec;
               parsed = (case ParseStandard spec of Inl e \<Rightarrow> Ret (Inl e) | Inr _ \<Rightarrow> Ret (Inr ())) in
           if c \<noteq> CHR ''@'' then
             if length fields \<noteq> 5
             then Ret (Inl (wrapErr ErrNotAStandardCronSpec (''`'' @ spec @ ''`'')))
             else if ContainsAny (fields ! 0) cronAnyRangeListCharacters
                   \<or> ContainsAny (fields ! 1) cronAnyRangeListCharacters
             then Ret (Inl (wrapErr ErrCronScheduleSupportsExactMinuteHourValueOnly (''`'' @ spec @ ''`'')))
             else parsed
           else parsed))"

definition parseCronScheduleSpec :: "(string \<Rightarrow> cron_Schedule result) \<Rightarrow> string \<Rightarrow> cron_Schedule result exec" where
  "parseCronScheduleSpec ParseStandard spec =
     exec_bind (validateCronSpec ParseStandard spec) (\<lambda>r.
       case r of Inl e \<Rightarrow> Ret (Inl e) | Inr _ \<Rightarrow> Ret (ParseStandard spec))"

record baseScheduler =
  bs_timezone :: Location
  bs_rawStart :: string
  bs_rawEnd :: string

record CronScheduler = baseScheduler +
  startSched :: cron_Schedule
  endSched :: cron_Schedule

record DateScheduler = baseScheduler +
  startTime :: Time
  endTime :: Time

definition NewCronScheduler ::
  "(string \<Rightarrow> cron_Schedule result) \<Rightarrow> Location \<Rightarrow> string \<Rightarrow> string \<Rightarrow> CronScheduler result exec" where
  "NewCronScheduler ParseStandard tz start stop =
     exec_bind (parseCronScheduleSpec ParseStandard start) (\<lambda>r.
       case r of Inl e \<Rightarrow> Ret (Inl e)
       | Inr ss \<Rightarrow>
         exec_bind (parseCronScheduleSpec ParseStandard stop) (\<lambda>r.
           case r of Inl e \<Rightarrow> Ret (Inl e)
           | Inr es \<Rightarrow> Ret (Inr \<lparr>bs_timezone = tz, bs_rawStart = start, bs_rawEnd = stop,
                                 startSched = ss, endSched = es\<rparr>)))"

text \<open>\<^verbatim>\<open>when.In(tz)\<close> is the same instant seen in \<open>tz\<close>.\<close>

definition CronScheduler_Contains :: "CronScheduler \<Rightarrow> Time \<Rightarrow> bool" where
  "CronScheduler_Contains s when' =
     (let tz = bs_timezone s;
          lastStart = cron_Prev (startSched s) tz when';
          nextStart = cron_Next (startSched s) tz when';
          nextEnd = cron_Next (endSched s) tz when'
      in lastStart < when' \<and> when' < nextEnd \<and> nextEnd < nextStart)"

definition NewDateScheduler :: "Location \<Rightarrow> string \<Rightarrow> string \<Rightarrow> DateScheduler result" where
  "NewDateScheduler tz start stop =
     (case ParseInLocation start tz of
        Inl e \<Rightarrow> Inl (wrapErr ErrInvalidSchedulePeriodFormat (''start('' @ start @ '') '' @ errText e))
      | Inr s \<Rightarrow>
        (case ParseInLocation stop tz of
           Inl e \<Rightarrow> Inl (wrapErr ErrInvalidSchedulePeriodFormat (''end('' @ stop @ '') '' @ errText e))
         | Inr e \<Rightarrow>
           if \<not> s < e
           then Inl (wrapErr ErrStartDateMustBeBeforeEndDate
                      (''start('' @ start @ '') must be before end('' @ stop @ '')''))
           else Inr \<lparr>bs_timezone = tz, bs_rawStart = start, bs_rawEnd = stop, startTime = s, endTime = e\<rparr>))"

definition DateScheduler_Contains :: "DateScheduler \<Rightarrow> Time \<Rightarrow> bool" where
  "DateScheduler_Contains s when' \<longleftrightarrow> \<not> when' < startTime s \<and> \<not> endTime s < when'"

definition GetUpcomingTriggerDuration :: "DateScheduler \<Rightarrow> Time \<Rightarrow> Time \<times> Time" where
  "GetUpcomingTriggerDuration s when' =
     (if startTime s < when' then (zeroTime, zeroTime) else (startTime s, endTime s))"

definition GetEndTime :: "DateScheduler \<Rightarrow> Time" where
  "GetEndTime s = endTime s"

definition GetStart :: "('a) baseScheduler_scheme \<Rightarrow> string" where "GetStart s = bs_rawStart s"
definition GetEnd :: "('a) baseScheduler_scheme \<Rightarrow> string" where "GetEnd s = bs_rawEnd s"
definition GetTimezone :: "('a) baseScheduler_scheme \<Rightarrow> Location" where "GetTimezone s = bs_timezone s"

text \<open>The interface value \<^verbatim>\<open>timerange.Scheduler\<close> and its dynamic dispatch.\<close>

datatype Scheduler = CronS CronScheduler | DateS DateScheduler

fun Scheduler_Contains :: "Scheduler \<Rightarrow> Time \<Rightarrow> bool" where
  "Scheduler_Contains (CronS s) t = CronScheduler_Contains s t"
| "Scheduler_Contains (DateS s) t = DateScheduler_Contains s t"

subsection \<open>Construction\<close>

lemma validateCronSpec_no_panic [simp]: "spec \<noteq> [] \<Longrightarrow> \<exists>r. validateCronSpec P spec = Ret r"
  by (auto simp: validateCronSpec_def Let_def split: list.splits sum.splits)

lemma NewCronScheduler_no_panic: "start \<noteq> [] \<Longrightarrow> stop \<noteq> [] \<Longrightarrow> \<exists>r. NewCronScheduler P tz start stop = Ret r"
proof -
  have p: "\<exists>r. parseCronScheduleSpec P spec = Ret r" if "spec \<noteq> []" for spec
    using validateCronSpec_no_panic [OF that, of P]
    by (auto simp: parseCronScheduleSpec_def split: sum.splits)
  assume "start \<noteq> []" "stop \<noteq> []"
  with p [of start] p [of stop] show ?thesis
    by (auto simp: NewCronScheduler_def split: sum.splits)
qed

lemma NewCronScheduler_not_Panic: "start \<noteq> [] \<Longrightarrow> stop \<noteq> [] \<Longrightarrow> NewCronScheduler P tz start stop \<noteq> Panic m"
  using NewCronScheduler_no_panic [of start stop P tz] by auto

lemma parseCronScheduleSpec_Inr_iff:
  "parseCronScheduleSpec P spec = Ret (Inr s) \<longleftrightarrow>
     P spec = Inr s \<and> spec \<noteq> [] \<and>
     (hd spec = CHR ''@'' \<or>
      (length (split_on CronFieldSeparator spec) = 5 \<and>
       \<not> ContainsAny (split_on CronFieldSeparator spec ! 0) cronAnyRangeListCharacters \<and>
       \<not> ContainsAny (split_on CronFieldSeparator spec ! 1) cronAnyRangeListCharacters))"
  by (cases spec)
    (auto simp: parseCronScheduleSpec_def validateCronSpec_def Let_def exec_bind_Ret_iff split: sum.splits)

subsection \<open>Cron windows\<close>

text \<open>What the cron library documents of a schedule: its activations in a zone, \<^verbatim>\<open>Next\<close> the first
  one after a time and \<^verbatim>\<open>Prev\<close> the last one before it.\<close>

definition activations :: "cron_Schedule \<Rightarrow> Location \<Rightarrow> Time set \<Rightarrow> bool" where
  "activations s tz A \<longleftrightarrow>
     (\<forall>t. cron_Next s tz t \<in> A \<and> t < cron_Next s tz t \<and> (\<forall>a\<in>A. t < a \<longrightarrow> cron_Next s tz t \<le> a)) \<and>
     (\<forall>t. cron_Prev s tz t \<in> A \<and> cron_Prev s tz t < t \<and> (\<forall>a\<in>A. a < t \<longrightarrow> a \<le> cron_Prev s tz t))"

lemma activations_Next:
  assumes "activations s tz A"
  shows "cron_Next s tz t \<in> A" "t < cron_Next s tz t" "a \<in> A \<Longrightarrow> t < a \<Longrightarrow> cron_Next s tz t \<le> a"
    and "cron_Prev s tz t \<in> A" "cron_Prev s tz t < t" "a \<in> A \<Longrightarrow> a < t \<Longrightarrow> a \<le> cron_Prev s tz t"
  using assms by (auto simp: activations_def)

lemma Next_same:
  assumes "activations s tz A" "x \<le> y" "y < cron_Next s tz x"
  shows "cron_Next s tz y = cron_Next s tz x"
  using activations_Next [OF assms(1)] assms(2,3)
  by (intro antisym) (meson le_less_trans less_le_trans)+

lemma Next_mono:
  assumes "activations s tz A" "x \<le> y" shows "cron_Next s tz x \<le> cron_Next s tz y"
  using activations_Next [OF assms(1)] assms(2) by (meson le_less_trans)


text \<open>A schedule with activations every \<open>p\<close> nanoseconds from \<open>r\<close> on: what a daily or weekly
  specification is in a zone without transitions.\<close>

definition periodic :: "Duration \<Rightarrow> Time \<Rightarrow> cron_Schedule" where
  "periodic p r =
     \<lparr>cron_Next = (\<lambda>_ t. r + p * ((t - r) div p + 1)),
      cron_Prev = (\<lambda>_ t. r + p * ((t - r - 1) div p))\<rparr>"

lemma periodic_activations:
  assumes "0 < p" shows "activations (periodic p r) tz {a. \<exists>k. a = r + p * k}"
proof -
  have lt: "t < r + p * ((t - r) div p + 1)" for t
  proof -
    have "t - r = p * ((t - r) div p) + (t - r) mod p" by simp
    moreover have "(t - r) mod p < p" using assms by simp
    ultimately have "t < r + (p * ((t - r) div p) + p)" by linarith
    then show ?thesis by (simp add: distrib_left)
  qed
  have ge: "r + p * ((t - r) div p + 1) \<le> r + p * k" if "t < r + p * k" for t k
  proof -
    have "t - r < k * p" using that by (simp add: mult.commute)
    then have "(t - r) div p < k" using int_le_div_iff [OF assms, of k "t - r"] by linarith
    then show ?thesis using assms by simp
  qed
  have prev: "r + p * ((t - r - 1) div p) < t" for t
  proof -
    have "t - r - 1 = p * ((t - r - 1) div p) + (t - r - 1) mod p" by simp
    moreover have "0 \<le> (t - r - 1) mod p" using assms by simp
    ultimately show ?thesis by linarith
  qed
  have le: "r + p * k \<le> r + p * ((t - r - 1) div p)" if "r + p * k < t" for t k
  proof -
    have "k * p \<le> t - r - 1" using that by (simp add: mult.commute)
    then have "k \<le> (t - r - 1) div p" using int_le_div_iff [OF assms] by blast
    then show ?thesis using assms by simp
  qed
  show ?thesis
    unfolding activations_def periodic_def using lt ge prev le by auto
qed

lemma window_open:
  assumes S: "activations (startSched s) tz S" and E: "activations (endSched s) tz E"
    and A1: "\<forall>a\<in>S. cron_Next (endSched s) tz a < cron_Next (startSched s) tz a"
    and a: "a \<in> S" "a \<le> t" "t < cron_Next (endSched s) tz a"
  shows "cron_Next (endSched s) tz t < cron_Next (startSched s) tz t"
proof -
  have "cron_Next (endSched s) tz t = cron_Next (endSched s) tz a" using E a by (intro Next_same)
  also have "\<dots> < cron_Next (startSched s) tz a" using A1 a by blast
  also have "\<dots> \<le> cron_Next (startSched s) tz t" using S a by (intro Next_mono)
  finally show ?thesis .
qed

lemma window_found:
  assumes S: "activations (startSched s) tz S" and E: "activations (endSched s) tz E"
    and A2: "\<forall>e\<in>E. cron_Next (startSched s) tz e < cron_Next (endSched s) tz e"
    and t: "cron_Next (endSched s) tz t < cron_Next (startSched s) tz t"
  shows "\<exists>a\<in>S. a \<le> t \<and> t < cron_Next (endSched s) tz a"
proof -
  define a where "a = (if t \<in> S then t else cron_Prev (startSched s) tz t)"
  have a: "a \<in> S" "a \<le> t" using activations_Next(4,5) [OF S, of t] by (auto simp: a_def)
  have gap: "t < b" if "b \<in> S" "a < b" for b
  proof (rule ccontr)
    assume "\<not> t < b"
    then show False
      using that activations_Next(6) [OF S, of b t] by (cases "b = t") (auto simp: a_def split: if_splits)
  qed
  have "t < cron_Next (endSched s) tz a"
  proof (rule ccontr)
    assume "\<not> t < cron_Next (endSched s) tz a"
    define e where "e = cron_Next (endSched s) tz a"
    have e: "e \<in> E" "a < e" "e \<le> t"
      using activations_Next(1,2) [OF E, of a] \<open>\<not> t < _\<close> by (auto simp: e_def)
    have "t < cron_Next (startSched s) tz e"
      using activations_Next(1,2) [OF S, of e] e(2) by (intro gap) auto
    then have "cron_Next (startSched s) tz t = cron_Next (startSched s) tz e"
      using e S by (intro Next_same)
    moreover have "cron_Next (endSched s) tz e \<le> cron_Next (endSched s) tz t" using e E by (intro Next_mono)
    ultimately show False using A2 e(1) t by force
  qed
  with a show ?thesis by blast
qed

subsection \<open>Properties\<close>

text \<open>
  (C33) A cron window in which starts and ends alternate (every start is followed by an end before the
  next start, every end by a start before the next end) contains exactly the times from a start up to,
  but not including, the end that follows it.
\<close>

theorem cron_window_alternating:
  assumes "activations (startSched s) (bs_timezone s) S"
    and "activations (endSched s) (bs_timezone s) E"
    and "\<forall>a\<in>S. cron_Next (endSched s) (bs_timezone s) a < cron_Next (startSched s) (bs_timezone s) a"
    and "\<forall>e\<in>E. cron_Next (startSched s) (bs_timezone s) e < cron_Next (endSched s) (bs_timezone s) e"
  shows "CronScheduler_Contains s t \<longleftrightarrow> (\<exists>a\<in>S. a \<le> t \<and> t < cron_Next (endSched s) (bs_timezone s) a)"
  using window_open [OF assms(1-3)] window_found [OF assms(1,2,4)]
    activations_Next(5) [OF assms(1)] activations_Next(2) [OF assms(2)]
  by (auto simp: CronScheduler_Contains_def Let_def)

theorem cron_window_alternating_witness:
  defines "s \<equiv> \<lparr>bs_timezone = fixedZone 0, bs_rawStart = ''0 9 * * *'', bs_rawEnd = ''0 10 * * *'',
                startSched = periodic 24 9, endSched = periodic 24 10\<rparr>"
  shows "CronScheduler_Contains s 33 \<and> \<not> CronScheduler_Contains s 34"
proof -
  have alt: "\<forall>a\<in>{a. \<exists>k. a = 9 + 24 * k}. cron_Next (endSched s) (bs_timezone s) a < cron_Next (startSched s) (bs_timezone s) a"
    "\<forall>e\<in>{a. \<exists>k. a = 10 + 24 * k}. cron_Next (startSched s) (bs_timezone s) e < cron_Next (endSched s) (bs_timezone s) e"
    by (auto simp: s_def periodic_def) presburger
  have act: "activations (startSched s) (bs_timezone s) {a. \<exists>k. a = 9 + 24 * k}"
    "activations (endSched s) (bs_timezone s) {a. \<exists>k. a = 10 + 24 * k}"
    using periodic_activations [of 24] by (simp_all add: s_def)
  have in33: "\<exists>a\<in>{a. \<exists>k. a = 9 + 24 * k}. a \<le> 33 \<and> 33 < cron_Next (endSched s) (bs_timezone s) a"
    by (rule bexI [of _ 33]) (auto simp: s_def periodic_def intro: exI [of _ 1])
  have out34: "\<not> (\<exists>a\<in>{a. \<exists>k. a = 9 + 24 * k}. a \<le> 34 \<and> 34 < cron_Next (endSched s) (bs_timezone s) a)"
    by (auto simp: s_def periodic_def) presburger
  show ?thesis
    using cron_window_alternating [OF act alt, of 33] cron_window_alternating [OF act alt, of 34] in33 out34
    by simp
qed

text \<open>
  In general a cron window contains a time exactly when the next end comes before the next start.
  So when ends are more frequent than starts the window stays open past its first end: with a weekly
  start and a daily end it holds on the days after, too.
\<close>

theorem cron_window_next:
  assumes "activations (startSched s) (bs_timezone s) S"
    and "activations (endSched s) (bs_timezone s) E"
  shows "CronScheduler_Contains s t \<longleftrightarrow>
         cron_Next (endSched s) (bs_timezone s) t < cron_Next (startSched s) (bs_timezone s) t"
  using activations_Next(5) [OF assms(1)] activations_Next(2) [OF assms(2)]
  by (auto simp: CronScheduler_Contains_def Let_def)

theorem cron_window_next_witness:
  defines "s \<equiv> \<lparr>bs_timezone = fixedZone 0, bs_rawStart = ''0 9 * * 1'', bs_rawEnd = ''0 10 * * *'',
                startSched = periodic 168 9, endSched = periodic 24 10\<rparr>"
  shows "CronScheduler_Contains s 50"
proof -
  have act: "activations (startSched s) (bs_timezone s) {a. \<exists>k. a = 9 + 168 * k}"
    "activations (endSched s) (bs_timezone s) {a. \<exists>k. a = 10 + 24 * k}"
    using periodic_activations [of 168] periodic_activations [of 24] by (simp_all add: s_def)
  show ?thesis using cron_window_next [OF act, of 50] by (simp add: s_def periodic_def)
qed

text \<open>
  A date window is built exactly when both ends parse in its zone and the start is before the end,
  and then contains the closed interval between them.
\<close>

theorem date_window:
  "(\<exists>s. NewDateScheduler tz start stop = Inr s \<and> DateScheduler_Contains s t) \<longleftrightarrow>
   (\<exists>a b. ParseInLocation start tz = Inr a \<and> ParseInLocation stop tz = Inr b \<and> a < b \<and> a \<le> t \<and> t \<le> b)"
  by (auto simp: NewDateScheduler_def DateScheduler_Contains_def split: sum.splits if_splits)

text \<open>
  A cron schedule is built exactly from two specifications that the cron library accepts and that
  are each either a descriptor (\<^verbatim>\<open>@\<dots>\<close>) or five fields with an exact minute and hour; nothing else
  is accepted, and the schedules are the library's.
\<close>

theorem NewCronScheduler_accepts:
  "NewCronScheduler P tz start stop = Ret (Inr s) \<longleftrightarrow>
     (\<exists>ss es. P start = Inr ss \<and> P stop = Inr es \<and>
        s = \<lparr>bs_timezone = tz, bs_rawStart = start, bs_rawEnd = stop, startSched = ss, endSched = es\<rparr> \<and>
        list_all (\<lambda>spec. spec \<noteq> [] \<and>
           (if hd spec = CHR ''@'' then True
            else length (split_on CronFieldSeparator spec) = 5 \<and>
                 \<not> ContainsAny (split_on CronFieldSeparator spec ! 0) cronAnyRangeListCharacters \<and>
                 \<not> ContainsAny (split_on CronFieldSeparator spec ! 1) cronAnyRangeListCharacters))
          [start, stop])"
proof -
  have "NewCronScheduler P tz start stop = Ret (Inr s) \<longleftrightarrow>
     (\<exists>ss es. parseCronScheduleSpec P start = Ret (Inr ss) \<and> parseCronScheduleSpec P stop = Ret (Inr es) \<and>
        s = \<lparr>bs_timezone = tz, bs_rawStart = start, bs_rawEnd = stop, startSched = ss, endSched = es\<rparr>)"
    by (cases "parseCronScheduleSpec P start"; cases "parseCronScheduleSpec P stop")
      (auto simp: NewCronScheduler_def split: sum.splits)
  then show ?thesis by (auto simp: parseCronScheduleSpec_Inr_iff)
qed

end
