(* ===== verification/Scheduling.thy ===== *)
theory Scheduling
  imports Timerange Api_Types
begin

text \<open>
  Which target settings and which replica range are in force at a time: \<^verbatim>\<open>core/scheduling\<close>
  (\<^verbatim>\<open>settings.go\<close>, \<^verbatim>\<open>replicapatch.go\<close>) and the storage of replica patches in the
  annotations (\<^verbatim>\<open>utils/replicapatche.go\<close>).

  Parameters: the time-zone database and the cron parser (record \<open>TimeEnv\<close>), the JSON merge-patch
  library (\<open>MergePatch\<close>), and the JSON coding of \<^verbatim>\<open>[]ReplicaPatch\<close> (\<open>unmarshal\<close>,
  \<open>marshal\<close>; a nil slice is \<open>None\<close>).

  Shown: both scans pick the first entry in force and stop at the first invalid one (an interpretation of
  \<open>scan_loop\<close> each); neither panics on the entries themselves; purging removes exactly the date
  patches whose retention has passed.
\<close>

subsection \<open>Scheduled settings\<close>

record TimeEnv =
  LoadLocation :: "string \<Rightarrow> Location result"
  ParseStandard :: "string \<Rightarrow> cron_Schedule result"

definition ErrTimezoneNotFound :: goerr where
  "ErrTimezoneNotFound = errNew ''timezone not found''"

definition ErrSchedulePeriodNotFound :: goerr where
  "ErrSchedulePeriodNotFound = errNew ''schedule period not found, `start` or `end` field not exists''"

definition ErrStartEndSpecCanNotBeEqual :: goerr where
  "ErrStartEndSpecCanNotBeEqual = errNew ''start and end spec can not be equal''"

definition nilDeref :: "'a exec" where
  "nilDeref = Panic ''invalid memory address or nil pointer dereference''"

definition getSchedulePeriod :: "TimeEnv \<Rightarrow> ScheduleTargetSettings \<Rightarrow> (string \<times> string \<times> Location) result" where
  "getSchedulePeriod env s =
     (if sch_Timezone s = [] then Inl ErrTimezoneNotFound
      else case LoadLocation env (sch_Timezone s) of
        Inl e \<Rightarrow> Inl e
      | Inr locale \<Rightarrow>
          (let start = sch_Start s; stop = sch_End s in
           if start = [] \<or> stop = [] then Inl ErrSchedulePeriodNotFound
           else if start = stop then Inl ErrStartEndSpecCanNotBeEqual
           else Inr (start, stop, locale)))"

definition GetScheduler :: "TimeEnv \<Rightarrow> ScheduleTargetSettings \<Rightarrow> Scheduler result exec" where
  "GetScheduler env s =
     (case getSchedulePeriod env s of
        Inl e \<Rightarrow> Ret (Inl e)
      | Inr (start, stop, tz) \<Rightarrow>
          if length (split_on CronFieldSeparator start) = 5
          then (case NewCronScheduler (ParseStandard env) tz start stop of
                  Panic m \<Rightarrow> Panic m
                | Ret (Inl e) \<Rightarrow> Ret (Inl e)
                | Ret (Inr c) \<Rightarrow> Ret (Inr (CronS c)))
          else Ret (Inl ErrInvalidSchedulePeriodFormat))"

text \<open>The loop over the schedules: the first schedule that contains the time.\<close>

fun findSchedule :: "TimeEnv \<Rightarrow> Time \<Rightarrow> ScheduleTargetSettings list \<Rightarrow> ScheduleTargetSettings option result exec" where
  "findSchedule env when' [] = Ret (Inr None)"
| "findSchedule env when' (s # ss) =
     (case GetScheduler env s of
        Panic m \<Rightarrow> Panic m
      | Ret (Inl e) \<Rightarrow> Ret (Inl e)
      | Ret (Inr scheduler) \<Rightarrow>
          if Scheduler_Contains scheduler when' then Ret (Inr (Some s)) else findSchedule env when' ss)"

definition GetScheduledSettingsRaw ::
  "(string \<Rightarrow> string \<Rightarrow> string result) \<Rightarrow> TimeEnv \<Rightarrow> Time \<Rightarrow> TargetSettings \<Rightarrow> string result exec" where
  "GetScheduledSettingsRaw MergePatch env when' settings =
     (case set_Default settings of
        None \<Rightarrow> nilDeref
      | Some def \<Rightarrow>
          (case findSchedule env when' (set_Schedules settings) of
             Panic m \<Rightarrow> Panic m
           | Ret (Inl e) \<Rightarrow> Ret (Inl e)
           | Ret (Inr None) \<Rightarrow> Ret (Inr (Raw def))
           | Ret (Inr (Some s)) \<Rightarrow>
               (case sch_Settings s of
                  None \<Rightarrow> nilDeref
                | Some hit \<Rightarrow> Ret (MergePatch (Raw def) (Raw hit)))))"

fun validateLoop :: "TimeEnv \<Rightarrow> nat \<Rightarrow> ScheduleTargetSettings list \<Rightarrow> unit result" where
  "validateLoop env i [] = Inr ()"
| "validateLoop env i (s # ss) =
     (case getSchedulePeriod env s of
        Inl e \<Rightarrow> Inl (wrapErr ErrSchedulePeriodNotFound (''broken schedule settings('' @ show_int (int i) @ '')''))
      | Inr _ \<Rightarrow> validateLoop env (Suc i) ss)"

definition ValidateScheduleSettings :: "TimeEnv \<Rightarrow> ScheduleTargetSettings list \<Rightarrow> unit result" where
  "ValidateScheduleSettings env ss = validateLoop env 0 ss"

subsection \<open>Replica patches\<close>

text \<open>The body of the loop of \<^verbatim>\<open>GetReplicaPatch\<close> for one patch: an error, or whether it is in
  force.\<close>

definition patchInForce :: "TimeEnv \<Rightarrow> Time \<Rightarrow> ReplicaPatch \<Rightarrow> bool result exec" where
  "patchInForce env when' patch =
     (if rp_Timezone patch = [] then Ret (Inl ErrTimezoneNotFound)
      else case LoadLocation env (rp_Timezone patch) of
        Inl e \<Rightarrow> Ret (Inl e)
      | Inr timezone \<Rightarrow>
          (let start = rp_Start patch; stop = rp_End patch in
           if start = [] \<or> stop = [] then Ret (Inl ErrSchedulePeriodNotFound)
           else if start = stop then Ret (Inl ErrStartEndSpecCanNotBeEqual)
           else if length (split_on CronFieldSeparator start) = 2 then
             (case NewDateScheduler timezone start stop of
                Inl e \<Rightarrow> Ret (Inl e)
              | Inr s \<Rightarrow> Ret (Inr (Scheduler_Contains (DateS s) when')))
           else if length (split_on CronFieldSeparator start) = 5 then
             (case NewCronScheduler (ParseStandard env) timezone start stop of
                Panic m \<Rightarrow> Panic m
              | Ret (Inl e) \<Rightarrow> Ret (Inl e)
              | Ret (Inr s) \<Rightarrow> Ret (Inr (Scheduler_Contains (CronS s) when')))
           else Ret (Inl ErrInvalidSchedulePeriodFormat)))"

fun GetReplicaPatch :: "TimeEnv \<Rightarrow> Time \<Rightarrow> ReplicaPatch list \<Rightarrow> ReplicaPatch option result exec" where
  "GetReplicaPatch env when' [] = Ret (Inr None)"
| "GetReplicaPatch env when' (patch # patches) =
     (case patchInForce env when' patch of
        Panic m \<Rightarrow> Panic m
      | Ret (Inl e) \<Rightarrow> Ret (Inl e)
      | Ret (Inr hit) \<Rightarrow> if hit then Ret (Inr (Some patch)) else GetReplicaPatch env when' patches)"

definition GetReplicaPatches ::
  "(string \<Rightarrow> ReplicaPatch list option result) \<Rightarrow> ReplicaAutoscaler \<Rightarrow> ReplicaPatch list option result" where
  "GetReplicaPatches unmarshal ra =
     (case fmlookup (ra_Annotations ra) ReplicaPatchesAnnotation of
        None \<Rightarrow> Inr None
      | Some rawString \<Rightarrow> unmarshal rawString)"

text \<open>Whether a patch has run out at a time: only date patches do. \<^verbatim>\<open>time.Duration(n) * time.Second\<close>
  wraps (\<open>seconds\<close>).\<close>

definition patchExpired :: "TimeEnv \<Rightarrow> Time \<Rightarrow> ReplicaPatch \<Rightarrow> bool" where
  "patchExpired env now patch =
     (case LoadLocation env (rp_Timezone patch) of
        Inl _ \<Rightarrow> False
      | Inr timezone \<Rightarrow>
          (case NewDateScheduler timezone (rp_Start patch) (rp_End patch) of
             Inl _ \<Rightarrow> False
           | Inr s \<Rightarrow>
               (let expiredTime = (case rp_RetentionSeconds patch of
                                     None \<Rightarrow> GetEndTime s
                                   | Some n \<Rightarrow> GetEndTime s + seconds n)
                in expiredTime < now)))"

text \<open>The purge loop; \<open>clk i\<close> is the clock when the \<open>i\<close>-th patch is looked at.\<close>

fun purgePatches :: "TimeEnv \<Rightarrow> (nat \<Rightarrow> Time) \<Rightarrow> nat \<Rightarrow> ReplicaPatch list \<Rightarrow> ReplicaPatch list" where
  "purgePatches env clk i [] = []"
| "purgePatches env clk i (p # ps) =
     (if patchExpired env (clk i) p then purgePatches env clk (Suc i) ps
      else p # purgePatches env clk (Suc i) ps)"

definition PurgeUnusedReplicaPatches ::
  "(string \<Rightarrow> ReplicaPatch list option result) \<Rightarrow> (ReplicaPatch list \<Rightarrow> string result) \<Rightarrow> TimeEnv \<Rightarrow>
   (nat \<Rightarrow> Time) \<Rightarrow> ReplicaAutoscaler \<Rightarrow> goerr option \<times> ReplicaAutoscaler" where
  "PurgeUnusedReplicaPatches unmarshal marshal env clk ra =
     (case GetReplicaPatches unmarshal ra of
        Inl e \<Rightarrow> (Some e, ra)
      | Inr None \<Rightarrow> (None, ra)
      | Inr (Some patches) \<Rightarrow>
          (let newPatches = purgePatches env clk 0 patches in
           if length newPatches = length patches then (None, ra)
           else if length newPatches = 0
           then (None, ra\<lparr>ra_Annotations := fmdrop ReplicaPatchesAnnotation (ra_Annotations ra)\<rparr>)
           else (case marshal newPatches of
                   Inl e \<Rightarrow> (Some e, ra)
                 | Inr str \<Rightarrow>
                     (None, ra\<lparr>ra_Annotations := fmupd ReplicaPatchesAnnotation str (ra_Annotations ra)\<rparr>))))"


subsection \<open>The two scans as instances of the scanning loop\<close>

definition scheduleInForce :: "TimeEnv \<Rightarrow> Time \<Rightarrow> ScheduleTargetSettings \<Rightarrow> bool result exec" where
  "scheduleInForce env when' s =
     (case GetScheduler env s of
        Panic m \<Rightarrow> Panic m
      | Ret (Inl e) \<Rightarrow> Ret (Inl e)
      | Ret (Inr scheduler) \<Rightarrow> Ret (Inr (Scheduler_Contains scheduler when')))"

interpretation schedules: scan_loop "scheduleInForce env t" "findSchedule env t" for env t
  by unfold_locales (auto simp: scheduleInForce_def split: exec.splits sum.splits)

interpretation patches: scan_loop "patchInForce env t" "GetReplicaPatch env t" for env t
  by unfold_locales simp_all

lemma GetScheduler_no_panic: "GetScheduler env s \<noteq> Panic m"
proof -
  have "start \<noteq> [] \<and> stop \<noteq> []" if "getSchedulePeriod env s = Inr (start, stop, tz)" for start stop tz
    using that by (auto simp: getSchedulePeriod_def Let_def split: if_splits sum.splits)
  then show ?thesis
    by (cases "getSchedulePeriod env s")
      (auto simp: GetScheduler_def NewCronScheduler_not_Panic split: sum.splits exec.splits if_splits)
qed

lemma scheduleInForce_no_panic: "scheduleInForce env t s \<noteq> Panic m"
  using GetScheduler_no_panic by (auto simp: scheduleInForce_def split: exec.splits sum.splits)

lemma patchInForce_no_panic: "patchInForce env t p \<noteq> Panic m"
  by (auto simp: patchInForce_def Let_def NewCronScheduler_not_Panic split: sum.splits exec.splits)

subsection \<open>A date is not a cron specification\<close>

lemma parseDate_first_field:
  assumes "parseDate s = Some v"
  shows "hd s \<noteq> CHR ''@'' \<and> ContainsAny (split_on CHR '' '' s ! 0) ''*/-,''"
proof -
  obtain y s1 where y: "getyear s = Some (y, s1)" and s1: "skip1 CHR ''-'' s1 \<noteq> None"
    using assms by (auto simp: parseDate_def bind_eq_Some_conv)
  from y obtain a b c d where s: "s = a # b # c # d # s1" "isDigit a" "isDigit b" "isDigit c" "isDigit d"
    by (cases s rule: getyear.cases) (auto split: if_splits)
  obtain s2 where s2: "s1 = CHR ''-'' # s2" using s1 by (cases s1) (auto split: if_splits)
  have "\<not> isDigit CHR '' ''" "\<not> isDigit CHR ''@''" by (simp_all add: isDigit_def)
  with s have ne: "x \<noteq> CHR '' ''" if "x \<in> {a, b, c, d}" for x using that by auto
  obtain p ps where ps: "split_on CHR '' '' s2 = p # ps" by (cases "split_on CHR '' '' s2") auto
  have "split_on CHR '' '' s = (a # b # c # d # CHR ''-'' # p) # ps"
    using ne by (simp add: s s2 ps)
  then show ?thesis using s \<open>\<not> isDigit CHR ''@''\<close> by (auto simp: ContainsAny_def)
qed

lemma NewDateScheduler_Inr:
  assumes "NewDateScheduler tz start stop = Inr s"
  shows "parseDate start \<noteq> None" "startTime s < endTime s"
  using assms by (auto simp: NewDateScheduler_def ParseInLocation_def split: sum.splits if_splits option.splits)


lemma date_not_cron:
  assumes "NewDateScheduler tz start stop = Inr s"
  shows "NewCronScheduler P tz' start stop \<noteq> Ret (Inr c)"
proof
  assume "NewCronScheduler P tz' start stop = Ret (Inr c)"
  then obtain ss where "parseCronScheduleSpec P start = Ret (Inr ss)"
    by (cases "parseCronScheduleSpec P start") (auto simp: NewCronScheduler_def split: sum.splits)
  moreover obtain v where "parseDate start = Some v" using NewDateScheduler_Inr(1) [OF assms] by auto
  ultimately show False
    using parseDate_first_field [of start v]
    by (auto simp: parseCronScheduleSpec_Inr_iff CronFieldSeparator_def cronAnyRangeListCharacters_def)
qed

lemma purgePatches_eq:
  "purgePatches env clk i ps =
     map fst (filter (\<lambda>(p, j). \<not> patchExpired env (clk j) p) (zip ps [i..<i + length ps]))"
  by (induction ps arbitrary: i) (auto simp: upt_conv_Cons simp del: upt_Suc)

subsection \<open>Properties\<close>

text \<open>
  \<^verbatim>\<open>GetReplicaPatch\<close> selects the first patch in force, provided every patch before it is valid
  and not in force; it selects none exactly when every patch is valid and not in force; and it never
  panics.
\<close>

theorem GetReplicaPatch_first:
  "(GetReplicaPatch env t ps = Ret (Inr (Some p)) \<longleftrightarrow>
      patchInForce env t p = Ret (Inr True) \<and>
      (\<exists>before after. ps = before @ p # after \<and> list_all (\<lambda>q. patchInForce env t q = Ret (Inr False)) before)) \<and>
   (GetReplicaPatch env t ps = Ret (Inr None) \<longleftrightarrow> list_all (\<lambda>q. patchInForce env t q = Ret (Inr False)) ps) \<and>
   (\<nexists>m. GetReplicaPatch env t ps = Panic m)"
  using patches.loop_hit_iff [of env t ps p] patches.loop_none_iff [of env t ps]
    patches.loop_panic_iff [of env t ps] patchInForce_no_panic [of env t]
  by (auto simp: reached_by_def list_all_iff)

text \<open>
  (C29) The settings of a target at a time are its defaults merged with the settings of the first
  schedule in force (and of no later one, although more may be in force), or the defaults alone when no
  schedule is; an invalid schedule before the first hit is an error.

  The comment of the function announces the last schedule in force; the loop leaves at the first. A schedule by dates, which the documentation shows, is
  one of the invalid ones.
\<close>

theorem GetScheduledSettingsRaw_first:
  assumes "set_Default settings = Some def"
    and "set_Schedules settings = before @ s # after"
    and "list_all (\<lambda>q. scheduleInForce env t q = Ret (Inr False)) before"
    and "sch_Settings s = Some hit"
  shows "(scheduleInForce env t s = Ret (Inr True) \<longrightarrow>
            GetScheduledSettingsRaw MergePatch env t settings = Ret (MergePatch (Raw def) (Raw hit))) \<and>
         (scheduleInForce env t s = Ret (Inl e) \<longrightarrow>
            GetScheduledSettingsRaw MergePatch env t settings = Ret (Inl e)) \<and>
         (list_all (\<lambda>q. scheduleInForce env t q = Ret (Inr False)) (s # after) \<longrightarrow>
            GetScheduledSettingsRaw MergePatch env t settings = Ret (Inr (Raw def)))"
proof -
  have r: "reached_by (\<lambda>q. scheduleInForce env t q = Ret (Inr False)) (set_Schedules settings) s"
    using assms(2,3) by (auto simp: reached_by_def list_all_iff)
  show ?thesis
    using r assms schedules.loop_hit_iff [of env t "set_Schedules settings" s]
      schedules.loop_error_iff [of env t "set_Schedules settings" e]
      schedules.loop_none_iff [of env t "set_Schedules settings"]
    by (auto simp: GetScheduledSettingsRaw_def list_all_iff)
qed


text \<open>A concrete environment: every zone name is UTC, no cron specification is accepted.\<close>

definition utcEnv :: TimeEnv where
  "utcEnv = \<lparr>LoadLocation = (\<lambda>_. Inr (fixedZone 0)), ParseStandard = (\<lambda>_. Inl (errNew ''no cron''))\<rparr>"

definition dailyEnv :: TimeEnv where
  "dailyEnv = \<lparr>LoadLocation = (\<lambda>_. Inr (fixedZone 0)),
               ParseStandard = (\<lambda>s. Inr (periodic 24 (if s = ''0 9 * * *'' then 9 else 17)))\<rparr>"

theorem GetScheduledSettingsRaw_first_witness:
  defines "sch r \<equiv> \<lparr>sch_Timezone = ''UTC'', sch_Start = ''0 9 * * *'', sch_End = ''0 17 * * *'',
                    sch_Settings = Some \<lparr>Raw = r\<rparr>\<rparr>"
  shows "GetScheduledSettingsRaw (\<lambda>a b. Inr (a @ b)) dailyEnv 10
           \<lparr>set_Default = Some \<lparr>Raw = ''d''\<rparr>, set_Schedules = [sch ''x'', sch ''y'']\<rparr> = Ret (Inr ''dx'')"
proof -
  have hit: "scheduleInForce dailyEnv 10 (sch ''x'') = Ret (Inr True)"
    by (simp add: scheduleInForce_def GetScheduler_def getSchedulePeriod_def sch_def dailyEnv_def
        NewCronScheduler_def parseCronScheduleSpec_def validateCronSpec_def CronFieldSeparator_def
        cronAnyRangeListCharacters_def ContainsAny_def CronScheduler_Contains_def periodic_def)
  show ?thesis
    using GetScheduledSettingsRaw_first [of "\<lparr>set_Default = Some \<lparr>Raw = ''d''\<rparr>, set_Schedules = [sch ''x'', sch ''y'']\<rparr>"
        "\<lparr>Raw = ''d''\<rparr>" "[]" "sch ''x''" "[sch ''y'']" dailyEnv 10 "\<lparr>Raw = ''x''\<rparr>" "\<lambda>a b. Inr (a @ b)"] hit
    by (simp add: sch_def)
qed



text \<open>
  (C32) A patch in force is never purged: if \<^verbatim>\<open>GetReplicaPatch\<close> would apply a patch now, the purge
  does not count it as expired, provided its retention is absent or a non-negative number of seconds that
  fits a \<^verbatim>\<open>time.Duration\<close> (about 292 years).
\<close>

theorem patch_in_force_not_expired:
  assumes "patchInForce env now p = Ret (Inr True)"
    and "case rp_RetentionSeconds p of None \<Rightarrow> True | Some n \<Rightarrow> 0 \<le> n \<and> n \<le> 9223372036"
  shows "\<not> patchExpired env now p"
proof -
  have sec: "0 \<le> seconds n" if "0 \<le> n" "n \<le> 9223372036" for n
  proof -
    have "is_int64 (n * Second)" using that by (simp add: is_int64_iff)
    then show ?thesis using that by (simp add: seconds_def wrap_id)
  qed
  show ?thesis
    using assms date_not_cron sec
    by (fastforce simp: patchInForce_def patchExpired_def Let_def DateScheduler_Contains_def GetEndTime_def
        split: if_splits sum.splits exec.splits option.splits)
qed

theorem patch_in_force_not_expired_witness:
  defines "p \<equiv> \<lparr>rp_Timezone = ''UTC'', rp_Start = ''2022-12-28 11:00'', rp_End = ''2022-12-28 12:10'',
                rp_RetentionSeconds = Some 60, rp_MinReplicas = 10, rp_MaxReplicas = 20\<rparr>"
  shows "\<not> patchExpired utcEnv (1672227000 * Second) p"
proof -
  have d: "isDigit CHR ''0''" "isDigit CHR ''1''" "isDigit CHR ''2''" "isDigit CHR ''8''"
    "digitVal CHR ''0'' = 0" "digitVal CHR ''1'' = 1" "digitVal CHR ''2'' = 2" "digitVal CHR ''8'' = 8"
    by (simp_all add: isDigit_def digitVal_def)
  have "patchInForce utcEnv (1672227000 * Second) p = Ret (Inr True)"
    by (simp add: patchInForce_def utcEnv_def p_def CronFieldSeparator_def NewDateScheduler_def
        ParseInLocation_def parseDate_def d time_Date_def civilUnix_def daysToYear_def daysBefore_def
        isLeap_def daysIn_def fixedZone_def DateScheduler_Contains_def)
  then show ?thesis
    by (rule patch_in_force_not_expired) (simp add: p_def)
qed

text \<open>
  (C31) With a coding that reads back what it writes, an error-free purge leaves in the annotation exactly
  the patches not expired when they were looked at, in order (and removes the annotation when none is
  left); every other annotation and the rest of the object are unchanged.
\<close>

theorem PurgeUnusedReplicaPatches_exact:
  assumes "\<forall>qs str. marshal qs = Inr str \<longrightarrow> unmarshal str = Inr (Some qs)"
    and "fmlookup (ra_Annotations ra) ReplicaPatchesAnnotation = Some raw"
    and "unmarshal raw = Inr (Some ps)" and "ps \<noteq> []"
    and "PurgeUnusedReplicaPatches unmarshal marshal env clk ra = (None, ra')"
  defines "kept \<equiv> map fst (filter (\<lambda>(p, i). \<not> patchExpired env (clk i) p) (zip ps [0..<length ps]))"
  shows "GetReplicaPatches unmarshal ra' = Inr (if kept = [] then None else Some kept) \<and>
         (\<forall>k. k \<noteq> ReplicaPatchesAnnotation \<longrightarrow> fmlookup (ra_Annotations ra') k = fmlookup (ra_Annotations ra) k) \<and>
         ra'\<lparr>ra_Annotations := ra_Annotations ra\<rparr> = ra"
proof -
  have k: "purgePatches env clk 0 ps = kept" by (simp add: kept_def purgePatches_eq)
  have all: "kept = ps" if "length kept = length ps"
  proof -
    have "filter (\<lambda>(p, i). \<not> patchExpired env (clk i) p) (zip ps [0..<length ps]) = zip ps [0..<length ps]"
      using that by (intro filter_id_conv [THEN iffD2])
        (metis (no_types, lifting) kept_def length_map length_zip length_upt diff_zero min.idem
          length_filter_conv_card filter_True length_filter_less less_irrefl)
    then show ?thesis by (simp add: kept_def)
  qed
  show ?thesis
    using assms(1-5) k all
    by (auto simp: PurgeUnusedReplicaPatches_def GetReplicaPatches_def Let_def split: if_splits sum.splits)
qed

theorem PurgeUnusedReplicaPatches_exact_witness:
  defines "p start \<equiv> \<lparr>rp_Timezone = ''UTC'', rp_Start = start, rp_End = ''2022-12-28 12:10'',
                rp_RetentionSeconds = Some 60, rp_MinReplicas = 10, rp_MaxReplicas = 20\<rparr>"
  defines "old \<equiv> p ''2022-12-28 11:00''" and "daily \<equiv> p ''0 9 * * *''"
  defines "marshal qs \<equiv> if qs = [daily] then Inr ''b'' else Inl (errNew ''too long'')"
    and "unmarshal str \<equiv> if str = ''a'' then Inr (Some [old, daily]) else Inr (Some [daily])"
  defines "ra \<equiv> \<lparr>ra_Name = ''x'', ra_Namespace = ''y'', ra_Generation = 1, ra_DeletionTimestamp = None,
                 ra_Annotations = fmap_of_list [(ReplicaPatchesAnnotation, ''a'')],
                 ra_Spec = \<lparr>spec_Replicator = None, spec_ReplicatorSettings = None,
                   spec_ScaleTargetRef = \<lparr>ref_Kind = [], ref_Name = [], ref_APIVersion = []\<rparr>,
                   spec_MinReplicas = Some 1, spec_MaxReplicas = 2, spec_Targets = [],
                   spec_Strategy = None, spec_Exhaust = None\<rparr>, ra_Status = zeroStatus\<rparr>"
  shows "GetReplicaPatches unmarshal (snd (PurgeUnusedReplicaPatches unmarshal marshal utcEnv
           (\<lambda>_. 1700000000 * Second) ra)) = Inr (Some [daily])"
proof -
  have d: "isDigit CHR ''0''" "isDigit CHR ''1''" "isDigit CHR ''2''" "isDigit CHR ''8''" "isDigit CHR ''9''"
    "\<not> isDigit CHR '' ''"
    "digitVal CHR ''0'' = 0" "digitVal CHR ''1'' = 1" "digitVal CHR ''2'' = 2" "digitVal CHR ''8'' = 8"
    by (simp_all add: isDigit_def digitVal_def)
  have sec: "seconds 60 = 60 * Second" by (simp add: seconds_int32 is_int32_iff)
  have e: "patchExpired utcEnv (1700000000 * Second) old"
    by (simp add: patchExpired_def utcEnv_def old_def p_def NewDateScheduler_def sec
        ParseInLocation_def parseDate_def d time_Date_def civilUnix_def daysToYear_def daysBefore_def
        isLeap_def daysIn_def fixedZone_def GetEndTime_def)
  have n: "\<not> patchExpired utcEnv (1700000000 * Second) daily"
    by (simp add: patchExpired_def utcEnv_def daily_def p_def NewDateScheduler_def
        ParseInLocation_def parseDate_def d)
  obtain ra' where ra': "PurgeUnusedReplicaPatches unmarshal marshal utcEnv (\<lambda>_. 1700000000 * Second) ra = (None, ra')"
    using e n by (simp add: PurgeUnusedReplicaPatches_def GetReplicaPatches_def ra_def unmarshal_def
        marshal_def fmlookup_of_list)
  have "GetReplicaPatches unmarshal ra' = Inr (Some [daily])"
    using PurgeUnusedReplicaPatches_exact [of marshal unmarshal ra "''a''" "[old, daily]" utcEnv
        "\<lambda>_. 1700000000 * Second" ra'] ra' e n
    by (auto simp: ra_def unmarshal_def marshal_def fmlookup_of_list upt_rec split: if_splits)
  with ra' show ?thesis by simp
qed

end
