(* ===== verification/Go_Float64.thy ===== *)
theory Go_Float64
  imports Wing_Prelude
begin

text \<open>
  Go's \<^verbatim>\<open>float64\<close> (IEEE 754 binary64, round to nearest, ties to even) with the operations the
  scalers use: conversion from integers, \<^verbatim>\<open>+ - * /\<close>, comparisons, \<^verbatim>\<open>math.Abs\<close>,
  \<^verbatim>\<open>math.Ceil\<close> and the conversions to \<^verbatim>\<open>int32\<close> and \<^verbatim>\<open>int64\<close>.

  A finite value is its rational value, so the two zeros are one value: a zero's sign is visible in Go
  only through division by it (and \<^verbatim>\<open>math.Signbit\<close> and the like, which the program never calls), and
  every divisor in the program is a converted integer or a setting validated to be positive, neither of
  which is a negative zero. A conversion to an integer type that cannot hold the truncated value is
  implementation dependent in Go; its result is the argument \<open>oor\<close>.

  The lemmas give what the scalers need of rounding: it is monotone (\<open>round64_mono\<close>), exact on
  representable values (\<open>round64_exact\<close>), and has relative error at most \<open>2^-53\<close>
  (\<open>round64_rel_error\<close>). From these follow the direction and accuracy lemmas of
  \<^verbatim>\<open>int32(math.Ceil(ratio * float64(n)))\<close> at the end.
\<close>

subsection \<open>Rounding\<close>

text \<open>\<open>\<lfloor>log2 n\<rfloor>\<close> of a positive integer.\<close>

function ilog2 :: "int \<Rightarrow> int" where
  "ilog2 n = (if n \<le> 1 then 0 else 1 + ilog2 (n div 2))"
  by pat_completeness auto
termination
  by (relation "measure nat") auto

declare ilog2.simps [simp del]

definition pow2 :: "int \<Rightarrow> rat" where
  "pow2 e = (if 0 \<le> e then of_int (2 ^ nat e) else 1 / of_int (2 ^ nat (- e)))"

text \<open>The binary exponent of a positive rational: \<open>2^rexp x \<le> x < 2^(rexp x + 1)\<close>.\<close>

definition rexp :: "rat \<Rightarrow> int" where
  "rexp x = (let (n, d) = quotient_of x; k = ilog2 n - ilog2 d
             in if pow2 k \<le> x then k else k - 1)"

text \<open>Nearest integer, ties to even.\<close>

definition rne :: "rat \<Rightarrow> int" where
  "rne x = (let f = \<lfloor>x\<rfloor>; r = x - of_int f
            in if r < 1 / 2 then f else if 1 / 2 < r then f + 1
               else if even f then f else f + 1)"

datatype float64 = NaN | Inf bool | Fin rat

text \<open>Exponent of the unit in the last place: 53 significant bits, not below the subnormal unit.\<close>

definition ulp_exp :: "rat \<Rightarrow> int" where
  "ulp_exp x = max (- 1074) (rexp x - 52)"

definition round_pos :: "rat \<Rightarrow> float64" where
  "round_pos x = (let e = ulp_exp x; m = rne (x / pow2 e)
                  in if 971 < e \<or> e = 971 \<and> 2 ^ 53 \<le> m then Inf True
                     else Fin (of_int m * pow2 e))"

fun f64_neg :: "float64 \<Rightarrow> float64" where
  "f64_neg NaN = NaN"
| "f64_neg (Inf s) = Inf (\<not> s)"
| "f64_neg (Fin x) = Fin (- x)"

definition round64 :: "rat \<Rightarrow> float64" where
  "round64 x = (if x = 0 then Fin 0 else if 0 < x then round_pos x
                else f64_neg (round_pos (- x)))"

subsection \<open>Exponents\<close>

lemma pow2_pos [simp]: "0 < pow2 e"
  by (simp add: pow2_def)

lemma pow2_nonzero [simp]: "pow2 e \<noteq> 0"
  by (simp add: pow2_def)

lemma pow2_powi: "pow2 e = 2 powi e"
  by (simp add: pow2_def power_int_def inverse_eq_divide power_one_over)

lemma pow2_add: "pow2 (a + b) = pow2 a * pow2 b"
  by (simp add: pow2_powi power_int_add)

lemma pow2_0 [simp]: "pow2 0 = 1"
  by (simp add: pow2_def)

lemma pow2_mono: "a \<le> b \<Longrightarrow> pow2 a \<le> pow2 b"
  by (simp add: pow2_powi power_int_increasing)

lemma pow2_strict_mono: "a < b \<Longrightarrow> pow2 a < pow2 b"
  by (simp add: pow2_powi power_int_strict_increasing)

lemma ilog2_bounds: "1 \<le> n \<Longrightarrow> 0 \<le> ilog2 n \<and> 2 ^ nat (ilog2 n) \<le> n \<and> n < 2 ^ (nat (ilog2 n) + 1)"
proof (induction n rule: ilog2.induct)
  case (1 n)
  show ?case
  proof (cases "n \<le> 1")
    case True
    with "1.prems" have "n = 1" by simp
    then show ?thesis by (simp add: ilog2.simps)
  next
    case False
    define m where "m = n div 2"
    from False have m: "1 \<le> m" "2 * m \<le> n" "n < 2 * m + 2" unfolding m_def by auto
    from "1.IH" [OF False] m have IH: "0 \<le> ilog2 m" "2 ^ nat (ilog2 m) \<le> m" "m < 2 ^ (nat (ilog2 m) + 1)"
      unfolding m_def by auto
    have l: "ilog2 n = 1 + ilog2 m"
      using False by (simp add: ilog2.simps [of n] m_def)
    have s: "nat (1 + ilog2 m) = Suc (nat (ilog2 m))" using IH(1) by (simp add: nat_add_distrib)
    show ?thesis using IH m by (simp add: l s)
  qed
qed

lemma rexp_bounds:
  assumes "0 < x"
  shows "pow2 (rexp x) \<le> x" and "x < pow2 (rexp x + 1)"
proof -
  obtain n d where nd: "quotient_of x = (n, d)" by (cases "quotient_of x")
  have d: "0 < d" using quotient_of_denom_pos [OF nd] .
  have x: "x = of_int n / of_int d" using quotient_of_div [OF nd] .
  from assms x d have n: "0 < n" by (simp add: zero_less_divide_iff)
  let ?a = "ilog2 n" and ?b = "ilog2 d"
  from n d have A: "0 \<le> ?a" "2 ^ nat ?a \<le> n" "n < 2 ^ (nat ?a + 1)"
    and B: "0 \<le> ?b" "2 ^ nat ?b \<le> d" "d < 2 ^ (nat ?b + 1)"
    using ilog2_bounds [of n] ilog2_bounds [of d] by auto
  have a: "pow2 ?a \<le> of_int n" "of_int n < pow2 (?a + 1)"
    using A by (simp_all add: pow2_def nat_add_distrib del: of_int_power of_int_mult)
  have b: "pow2 ?b \<le> of_int d" "of_int d < pow2 (?b + 1)"
    using B by (simp_all add: pow2_def nat_add_distrib del: of_int_power of_int_mult)
  have lo: "pow2 (?a - ?b - 1) \<le> x"
  proof -
    have "pow2 (?a - ?b - 1) * of_int d \<le> pow2 (?a - ?b - 1) * pow2 (?b + 1)"
      using b(2) by (intro mult_left_mono) (auto simp: less_imp_le)
    also have "\<dots> = pow2 ?a" by (simp add: pow2_add [symmetric])
    also have "\<dots> \<le> of_int n" by (rule a)
    finally show ?thesis using d by (simp add: x pos_le_divide_eq)
  qed
  have hi: "x < pow2 (?a - ?b + 1)"
  proof -
    have "of_int n < pow2 (?a + 1)" by (rule a)
    also have "\<dots> = pow2 (?a - ?b + 1) * pow2 ?b" by (simp add: pow2_add [symmetric])
    also have "\<dots> \<le> pow2 (?a - ?b + 1) * of_int d"
      using b(1) by (intro mult_left_mono) (auto simp: less_imp_le)
    finally show ?thesis using d by (simp add: x pos_divide_less_eq)
  qed
  show "pow2 (rexp x) \<le> x" using lo by (auto simp: rexp_def nd Let_def)
  show "x < pow2 (rexp x + 1)" using hi by (auto simp: rexp_def nd Let_def)
qed

lemma rexp_mono:
  assumes "0 < x" "x \<le> y" shows "rexp x \<le> rexp y"
proof (rule ccontr)
  assume "\<not> rexp x \<le> rexp y"
  then have "pow2 (rexp y + 1) \<le> pow2 (rexp x)" by (intro pow2_mono) simp
  then show False using rexp_bounds [of x] rexp_bounds [of y] assms by linarith
qed

lemma rne_bounds: "of_int (rne x) \<le> x + 1/2" "x - 1/2 \<le> of_int (rne x)"
  unfolding rne_def Let_def by (auto; linarith)+

lemma rne_of_int [simp]: "rne (of_int k) = k"
  by (simp add: rne_def)

lemma rne_mono:
  assumes "x \<le> y" shows "rne x \<le> rne y"
proof (cases "\<lfloor>x\<rfloor> = \<lfloor>y\<rfloor>")
  case True
  then show ?thesis using assms by (auto simp: rne_def Let_def)
next
  case False
  with assms have "\<lfloor>x\<rfloor> + 1 \<le> \<lfloor>y\<rfloor>" using floor_mono [OF assms] by linarith
  moreover have "rne x \<le> \<lfloor>x\<rfloor> + 1" "\<lfloor>y\<rfloor> \<le> rne y" by (auto simp: rne_def Let_def)
  ultimately show ?thesis by linarith
qed


subsection \<open>Monotonicity, exactness and error of rounding\<close>

text \<open>The rounded value of a positive rational before the overflow test.\<close>

definition rnd :: "rat \<Rightarrow> rat" where
  "rnd x = of_int (rne (x / pow2 (ulp_exp x))) * pow2 (ulp_exp x)"

lemma pow2_sub: "pow2 (a - b) = pow2 a / pow2 b"
proof -
  have "pow2 (a - b) * pow2 b = pow2 a" by (simp add: pow2_add [symmetric])
  then show ?thesis by (simp add: eq_divide_eq)
qed

lemma pow2_nat: "pow2 (int n) = 2 ^ n"
  by (simp add: pow2_def)

lemma pow2_numeral: "pow2 (numeral k) = 2 ^ numeral k"
  by (simp add: pow2_def)

lemma ulp_exp_mono: "0 < x \<Longrightarrow> x \<le> y \<Longrightarrow> ulp_exp x \<le> ulp_exp y"
  using rexp_mono [of x y] by (auto simp: ulp_exp_def)

lemma scaled_less:
  assumes "0 < x" shows "x / pow2 (ulp_exp x) < 2 ^ 53"
proof -
  have "x < pow2 (rexp x + 1)" using assms by (rule rexp_bounds)
  also have "\<dots> \<le> pow2 (ulp_exp x + 53)" by (rule pow2_mono) (simp add: ulp_exp_def)
  also have "\<dots> = pow2 (ulp_exp x) * 2 ^ 53" by (simp add: pow2_add pow2_numeral)
  finally show ?thesis by (simp add: pos_divide_less_eq mult.commute)
qed

lemma rne_scaled_le:
  assumes "0 < x" shows "rne (x / pow2 (ulp_exp x)) \<le> 2 ^ 53"
proof -
  have "rne (x / pow2 (ulp_exp x)) \<le> rne (of_int (2 ^ 53))"
    using scaled_less [OF assms] by (intro rne_mono) simp
  then show ?thesis by (simp only: rne_of_int)
qed

lemma rne_nonneg: "0 \<le> x \<Longrightarrow> 0 \<le> rne x"
  using rne_mono [of 0 x] rne_of_int [of 0] by simp

lemma rnd_nonneg: "0 < x \<Longrightarrow> 0 \<le> rnd x"
  by (simp add: rnd_def rne_nonneg less_imp_le)

lemma rnd_mono:
  assumes "0 < x" "x \<le> y" shows "rnd x \<le> rnd y"
proof (cases "ulp_exp x = ulp_exp y")
  case True
  have "x / pow2 (ulp_exp y) \<le> y / pow2 (ulp_exp y)"
    using assms by (intro divide_right_mono) (auto simp: less_imp_le)
  then have "rne (x / pow2 (ulp_exp y)) \<le> rne (y / pow2 (ulp_exp y))" by (rule rne_mono)
  then show ?thesis unfolding rnd_def True by (intro mult_right_mono) (auto simp: less_imp_le)
next
  case False
  with ulp_exp_mono [OF assms] have lt: "ulp_exp x < ulp_exp y" by simp
  have ey: "ulp_exp y = rexp y - 52" using lt by (auto simp: ulp_exp_def split: if_splits)
  have y: "0 < y" using assms by simp
  have "rnd x \<le> of_int (2 ^ 53) * pow2 (ulp_exp x)"
    unfolding rnd_def using rne_scaled_le [OF assms(1)] by (intro mult_right_mono) (auto simp: less_imp_le simp del: of_int_power of_int_numeral)
  also have "\<dots> = pow2 (ulp_exp x + 53)" by (simp add: pow2_add pow2_numeral mult.commute)
  also have "\<dots> \<le> pow2 (ulp_exp y + 52)" using lt by (intro pow2_mono) simp
  also have "\<dots> = of_int (2 ^ 52) * pow2 (ulp_exp y)" by (simp add: pow2_add pow2_numeral)
  also have "\<dots> \<le> rnd y"
  proof -
    have "pow2 (rexp y) \<le> y" using y by (rule rexp_bounds)
    then have "of_int (2 ^ 52) \<le> y / pow2 (ulp_exp y)"
      by (simp add: ey pow2_sub pow2_numeral pos_le_divide_eq)
    then have "rne (of_int (2 ^ 52)) \<le> rne (y / pow2 (ulp_exp y))" by (rule rne_mono)
    then have "2 ^ 52 \<le> rne (y / pow2 (ulp_exp y))" by (simp only: rne_of_int)
    then show ?thesis
      unfolding rnd_def by (intro mult_right_mono) (auto simp: less_imp_le simp del: of_int_power)
  qed
  finally show ?thesis .
qed

text \<open>Values with at most 53 significant bits are not changed.\<close>

definition representable :: "rat \<Rightarrow> bool" where
  "representable x \<longleftrightarrow> (\<exists>m e. \<bar>m\<bar> < 2 ^ 53 \<and> - 1074 \<le> e \<and> e \<le> 971 \<and> x = of_int m * pow2 e)"

lemma rnd_exact:
  assumes x: "0 < x" and r: "x = of_int m * pow2 e" and m: "m < 2 ^ 53" and e: "- 1074 \<le> e"
  shows "rnd x = x"
proof -
  have "x < pow2 (e + 53)"
  proof -
    have "(of_int m :: rat) < of_int (2 ^ 53)" using m by (simp only: of_int_less_iff)
    then have "of_int m * pow2 e < of_int (2 ^ 53) * pow2 e" by (intro mult_strict_right_mono) auto
    then show ?thesis by (simp add: r pow2_add pow2_numeral mult.commute)
  qed
  then have "pow2 (rexp x) < pow2 (e + 53)" using rexp_bounds(1) [OF x] by linarith
  then have "rexp x < e + 53" using pow2_mono [of "e + 53" "rexp x"] by (meson not_le)
  then have u: "ulp_exp x \<le> e" using e by (simp add: ulp_exp_def)
  have "x / pow2 (ulp_exp x) = of_int (m * 2 ^ nat (e - ulp_exp x))"
  proof -
    have "pow2 e = pow2 (e - ulp_exp x) * pow2 (ulp_exp x)" by (simp add: pow2_add [symmetric])
    moreover have "pow2 (e - ulp_exp x) = of_int (2 ^ nat (e - ulp_exp x))"
      using u by (simp add: pow2_def)
    ultimately have "x / pow2 (ulp_exp x) = of_int m * of_int (2 ^ nat (e - ulp_exp x))"
      by (subst r) simp
    then show ?thesis by (simp only: of_int_mult)
  qed
  then have "of_int (rne (x / pow2 (ulp_exp x))) = x / pow2 (ulp_exp x)" by (simp only: rne_of_int)
  then show ?thesis by (simp add: rnd_def)
qed


lemma scaled_ge:
  assumes "0 < x" "- 1074 < ulp_exp x" shows "2 ^ 52 \<le> rne (x / pow2 (ulp_exp x))"
proof -
  have e: "ulp_exp x = rexp x - 52" using assms(2) by (auto simp: ulp_exp_def split: if_splits)
  have "pow2 (rexp x) \<le> x" using assms(1) by (rule rexp_bounds)
  then have "of_int (2 ^ 52) \<le> x / pow2 (ulp_exp x)"
    by (simp add: e pow2_sub pow2_numeral pos_le_divide_eq)
  then have "rne (of_int (2 ^ 52)) \<le> rne (x / pow2 (ulp_exp x))" by (rule rne_mono)
  then show ?thesis by (simp only: rne_of_int)
qed

lemma of_int_le_pow2: "n \<le> 2 ^ k \<Longrightarrow> (of_int n :: rat) \<le> 2 ^ k"
  by (metis of_int_le_iff of_int_numeral of_int_power)

lemma of_int_less_pow2: "n < 2 ^ k \<Longrightarrow> (of_int n :: rat) < 2 ^ k"
  by (metis of_int_less_iff of_int_numeral of_int_power)

lemma of_int_ge_pow2: "2 ^ k \<le> n \<Longrightarrow> 2 ^ k \<le> (of_int n :: rat)"
  by (metis of_int_le_iff of_int_numeral of_int_power)

lemma round_pos_rnd:
  assumes "0 < x"
  shows "round_pos x = (if rnd x < pow2 1024 then Fin (rnd x) else Inf True)"
proof -
  let ?e = "ulp_exp x" and ?m = "rne (x / pow2 (ulp_exp x))"
  have m: "?m \<le> 2 ^ 53" using assms by (rule rne_scaled_le)
  have "(971 < ?e \<or> ?e = 971 \<and> 2 ^ 53 \<le> ?m) = (pow2 1024 \<le> rnd x)"
  proof (cases "971 < ?e")
    case True
    then have "pow2 1024 \<le> pow2 (52 + ?e)" by (intro pow2_mono) simp
    also have "\<dots> = 2 ^ 52 * pow2 ?e" by (simp add: pow2_add pow2_numeral)
    also have "\<dots> \<le> rnd x" unfolding rnd_def
      using scaled_ge [OF assms] True of_int_ge_pow2 [of 52 ?m]
      by (intro mult_right_mono) (auto simp: less_imp_le)
    finally show ?thesis using True by simp
  next
    case False
    show ?thesis
    proof (cases "?e = 971")
      case True
      have "(pow2 1024 \<le> rnd x) = (2 ^ 53 * pow2 971 \<le> of_int ?m * pow2 971)"
        using pow2_add [of 53 971] by (simp add: rnd_def True pow2_numeral)
      also have "\<dots> = (of_int (2 ^ 53) \<le> (of_int ?m :: rat))"
        by (subst mult_le_cancel_right_pos) auto
      also have "\<dots> = (2 ^ 53 \<le> ?m)" by (simp only: of_int_le_iff)
      finally show ?thesis using True by simp
    next
      case F2: False
      have "rnd x \<le> 2 ^ 53 * pow2 ?e"
        unfolding rnd_def using of_int_le_pow2 [OF m] by (intro mult_right_mono) (auto simp: less_imp_le)
      also have "\<dots> = pow2 (53 + ?e)" by (simp add: pow2_add pow2_numeral)
      also have "\<dots> < pow2 1024" using False F2 by (intro pow2_strict_mono) simp
      finally show ?thesis using False F2 by simp
    qed
  qed
  then show ?thesis by (auto simp: round_pos_def Let_def rnd_def)
qed

text \<open>Comparison: every comparison with \<^verbatim>\<open>NaN\<close> is false.\<close>

fun f64_le :: "float64 \<Rightarrow> float64 \<Rightarrow> bool" where
  "f64_le NaN _ = False"
| "f64_le _ NaN = False"
| "f64_le (Inf s) (Inf t) = (s \<longrightarrow> t)"
| "f64_le (Inf s) (Fin _) = (\<not> s)"
| "f64_le (Fin _) (Inf t) = t"
| "f64_le (Fin x) (Fin y) = (x \<le> y)"

lemma round64_mono:
  assumes "x \<le> y" shows "f64_le (round64 x) (round64 y)"
proof -
  consider "0 < x" | "x \<le> 0" "0 < y" | "x < 0" "y = 0" | "x = 0" "y = 0" | "y < 0" using assms by linarith
  then show ?thesis
  proof cases
    case 1
    with assms rnd_mono [of x y] show ?thesis by (auto simp: round64_def round_pos_rnd)
  next
    case 2
    then show ?thesis using rnd_nonneg [of y] rnd_nonneg [of "- x"]
      by (auto simp: round64_def round_pos_rnd)
  next
    case 3
    then show ?thesis using rnd_nonneg [of "- x"] by (auto simp: round64_def round_pos_rnd)
  next
    case 4
    then show ?thesis by (simp add: round64_def)
  next
    case 5
    with assms rnd_mono [of "- y" "- x"] show ?thesis by (auto simp: round64_def round_pos_rnd)
  qed
qed

lemma round64_exact_pos:
  assumes "0 < x" "x = of_int m * pow2 e" "m < 2 ^ 53" "- 1074 \<le> e" "e \<le> 971"
  shows "round64 x = Fin x"
proof -
  have r: "rnd x = x" using assms by (intro rnd_exact)
  have "of_int m * pow2 e < 2 ^ 53 * pow2 e"
    using of_int_less_pow2 [OF assms(3)] by (intro mult_strict_right_mono) auto
  also have "\<dots> = pow2 (53 + e)" by (simp add: pow2_add pow2_numeral)
  also have "\<dots> \<le> pow2 1024" using assms(5) by (intro pow2_mono) simp
  finally show ?thesis using assms(1,2) r by (simp add: round64_def round_pos_rnd)
qed

lemma round64_neg: "round64 (- x) = f64_neg (round64 x)"
proof -
  have "f64_neg (f64_neg a) = a" for a by (cases a) auto
  then show ?thesis by (auto simp: round64_def)
qed

lemma round64_exact:
  assumes "representable x" shows "round64 x = Fin x"
proof -
  from assms obtain m e where r: "\<bar>m\<bar> < 2 ^ 53" "- 1074 \<le> e" "e \<le> 971" "x = of_int m * pow2 e"
    by (auto simp: representable_def)
  consider "0 < x" | "x = 0" | "x < 0" by linarith
  then show ?thesis
  proof cases
    case 1
    with r show ?thesis by (intro round64_exact_pos [of x m e]) auto
  next
    case 2
    then show ?thesis by (simp add: round64_def)
  next
    case 3
    with r have "round64 (- x) = Fin (- x)" by (intro round64_exact_pos [of "- x" "- m" e]) auto
    then show ?thesis using round64_neg [of "- x"] by simp
  qed
qed

lemma representable_int: "\<bar>n\<bar> < 2 ^ 53 \<Longrightarrow> representable (of_int n)"
  unfolding representable_def by (rule exI [of _ n], rule exI [of _ 0]) simp

lemma round64_int: "\<bar>n\<bar> < 2 ^ 53 \<Longrightarrow> round64 (of_int n) = Fin (of_int n)"
  by (intro round64_exact representable_int)

lemma round64_between:
  assumes "of_int a \<le> x" "x \<le> of_int b" "\<bar>a\<bar> < 2 ^ 53" "\<bar>b\<bar> < 2 ^ 53"
  obtains v where "round64 x = Fin v" "of_int a \<le> v" "v \<le> of_int b"
proof -
  have "f64_le (Fin (of_int a)) (round64 x)" "f64_le (round64 x) (Fin (of_int b))"
    using round64_mono [OF assms(1)] round64_mono [OF assms(2)] assms(3,4) by (simp_all add: round64_int)
  then show ?thesis using that by (cases "round64 x") auto
qed

lemma rnd_error:
  assumes "0 < x" shows "\<bar>rnd x - x\<bar> \<le> pow2 (ulp_exp x) / 2"
proof -
  let ?p = "pow2 (ulp_exp x)"
  have "rnd x - x = (of_int (rne (x / ?p)) - x / ?p) * ?p" by (simp add: rnd_def field_simps)
  moreover have "\<bar>of_int (rne (x / ?p)) - x / ?p\<bar> \<le> 1 / 2"
    using rne_bounds [of "x / ?p"] by linarith
  then have "\<bar>of_int (rne (x / ?p)) - x / ?p\<bar> * ?p \<le> 1 / 2 * ?p"
    by (rule mult_right_mono) (simp add: less_imp_le)
  ultimately show ?thesis by (simp add: abs_mult less_imp_le)
qed

lemma round64_rel_error:
  assumes "pow2 (- 1022) \<le> x" "round64 x = Fin v"
  shows "\<bar>v - x\<bar> \<le> x / 2 ^ 53"
proof -
  have x: "0 < x" using assms(1) pow2_pos [of "- 1022"] by linarith
  have v: "v = rnd x" using assms(2) x by (auto simp: round64_def round_pos_rnd split: if_splits)
  have "pow2 (- 1022) < pow2 (rexp x + 1)" using rexp_bounds(2) [OF x] assms(1) by linarith
  then have "- 1022 < rexp x + 1" using pow2_mono [of "rexp x + 1" "- 1022"] by (meson not_le)
  then have e: "ulp_exp x = rexp x - 52" by (simp add: ulp_exp_def)
  have "pow2 (ulp_exp x) = pow2 (rexp x) / 2 ^ 52" by (simp add: e pow2_sub pow2_numeral)
  also have "\<dots> \<le> x / 2 ^ 52" using rexp_bounds(1) [OF x] by (intro divide_right_mono) auto
  finally have "pow2 (ulp_exp x) / 2 \<le> x / 2 ^ 53" by simp
  with rnd_error [OF x] v show ?thesis by linarith
qed


subsection \<open>Operations\<close>

definition f64_of_int :: "int \<Rightarrow> float64" where
  "f64_of_int n = round64 (of_int n)"

fun f64_add :: "float64 \<Rightarrow> float64 \<Rightarrow> float64" where
  "f64_add (Fin a) (Fin b) = round64 (a + b)"
| "f64_add (Inf s) (Fin _) = Inf s"
| "f64_add (Fin _) (Inf s) = Inf s"
| "f64_add (Inf s) (Inf t) = (if s = t then Inf s else NaN)"
| "f64_add _ _ = NaN"

definition f64_sub :: "float64 \<Rightarrow> float64 \<Rightarrow> float64" where
  "f64_sub a b = f64_add a (f64_neg b)"

fun f64_mul :: "float64 \<Rightarrow> float64 \<Rightarrow> float64" where
  "f64_mul (Fin a) (Fin b) = round64 (a * b)"
| "f64_mul (Inf s) (Fin b) = (if b = 0 then NaN else Inf (s = (0 < b)))"
| "f64_mul (Fin a) (Inf s) = (if a = 0 then NaN else Inf (s = (0 < a)))"
| "f64_mul (Inf s) (Inf t) = Inf (s = t)"
| "f64_mul _ _ = NaN"

fun f64_div :: "float64 \<Rightarrow> float64 \<Rightarrow> float64" where
  "f64_div (Fin a) (Fin b) =
     (if b = 0 then (if a = 0 then NaN else Inf (0 < a)) else round64 (a / b))"
| "f64_div (Inf s) (Fin b) = Inf (s = (0 \<le> b))"
| "f64_div (Fin a) (Inf s) = Fin 0"
| "f64_div _ _ = NaN"

fun f64_abs :: "float64 \<Rightarrow> float64" where
  "f64_abs NaN = NaN"
| "f64_abs (Inf s) = Inf True"
| "f64_abs (Fin x) = Fin \<bar>x\<bar>"

fun f64_ceil :: "float64 \<Rightarrow> float64" where
  "f64_ceil (Fin x) = Fin (of_int \<lceil>x\<rceil>)"
| "f64_ceil a = a"

definition f64_lt :: "float64 \<Rightarrow> float64 \<Rightarrow> bool" where
  "f64_lt a b \<longleftrightarrow> f64_le a b \<and> \<not> f64_le b a"

definition f64_eq :: "float64 \<Rightarrow> float64 \<Rightarrow> bool" where
  "f64_eq a b \<longleftrightarrow> f64_le a b \<and> f64_le b a"

text \<open>Conversion to a signed integer of \<open>w\<close> bits truncates towards zero.\<close>

definition trunc_rat :: "rat \<Rightarrow> int" where
  "trunc_rat x = (if 0 \<le> x then \<lfloor>x\<rfloor> else \<lceil>x\<rceil>)"

definition f64_to_int :: "nat \<Rightarrow> (float64 \<Rightarrow> int) \<Rightarrow> float64 \<Rightarrow> int" where
  "f64_to_int w oor x =
     (case x of
        Fin v \<Rightarrow> (if - (2 ^ (w - 1)) \<le> trunc_rat v \<and> trunc_rat v < 2 ^ (w - 1)
                  then trunc_rat v else oor x)
      | _ \<Rightarrow> oor x)"

lemma f64_of_int_small: "\<bar>n\<bar> < 2 ^ 53 \<Longrightarrow> f64_of_int n = Fin (of_int n)"
  by (simp add: f64_of_int_def round64_int)

lemma trunc_rat_of_int [simp]: "trunc_rat (of_int n) = n"
  by (simp add: trunc_rat_def)

lemma f64_to_int_of_int: "in_range w k \<Longrightarrow> f64_to_int w oor (Fin (of_int k)) = k"
  by (simp add: f64_to_int_def in_range_def)

subsection \<open>Scaling a replica count\<close>

text \<open>\<^verbatim>\<open>int32(math.Ceil(r * float64(n)))\<close>.\<close>

definition ceil_mul :: "(float64 \<Rightarrow> int) \<Rightarrow> float64 \<Rightarrow> int \<Rightarrow> int" where
  "ceil_mul oor r n = f64_to_int 32 oor (f64_ceil (f64_mul r (f64_of_int n)))"

lemma ceil_mul_down:
  assumes "0 \<le> r" "r \<le> 1" "0 \<le> n" "n < 2 ^ 31"
  shows "0 \<le> ceil_mul oor (Fin r) n \<and> ceil_mul oor (Fin r) n \<le> n"
proof -
  have nf: "f64_of_int n = Fin (of_int n)" using assms by (intro f64_of_int_small) simp
  have p: "of_int 0 \<le> r * of_int n" "r * of_int n \<le> of_int n"
    using assms mult_right_mono [of r 1 "of_int n"] by auto
  obtain v where v: "round64 (r * of_int n) = Fin v" "of_int 0 \<le> v" "v \<le> of_int n"
    using p assms by (elim round64_between [of 0 "r * of_int n" n]) auto
  have c: "0 \<le> \<lceil>v\<rceil>" "\<lceil>v\<rceil> \<le> n" using v by (auto simp: ceiling_le_iff)
  then show ?thesis using assms v nf by (simp add: ceil_mul_def f64_to_int_def)
qed

lemma ceil_mul_up:
  assumes "1 \<le> r" "0 \<le> n" "n < 2 ^ 31" "r * of_int n \<le> 2 ^ 31 - 1"
  shows "n \<le> ceil_mul oor (Fin r) n \<and> ceil_mul oor (Fin r) n < 2 ^ 31"
proof -
  have nf: "f64_of_int n = Fin (of_int n)" using assms by (intro f64_of_int_small) simp
  have p: "of_int n \<le> r * of_int n"
    using assms mult_right_mono [of 1 r "of_int n"] by auto
  obtain v where v: "round64 (r * of_int n) = Fin v" "of_int n \<le> v" "v \<le> of_int (2 ^ 31 - 1)"
    using p assms by (elim round64_between [of n "r * of_int n" "2 ^ 31 - 1"]) auto
  have "n \<le> \<lceil>v\<rceil>" using ceiling_mono [OF v(2)] by simp
  moreover have "\<lceil>v\<rceil> \<le> 2 ^ 31 - 1" using v(3) by (simp only: ceiling_le_iff)
  ultimately show ?thesis using assms v nf by (simp add: ceil_mul_def f64_to_int_def)
qed


lemma two_roundings:
  fixes X r v q n :: rat
  assumes "\<bar>r - q\<bar> \<le> q / 2 ^ 53" "\<bar>v - r * n\<bar> \<le> r * n / 2 ^ 53" "0 \<le> q" "0 \<le> n"
  shows "\<bar>v - q * n\<bar> \<le> q * n / 2 ^ 51"
proof -
  have "\<bar>r * n - q * n\<bar> = \<bar>r - q\<bar> * n" using assms(4) by (simp add: abs_mult left_diff_distrib [symmetric])
  also have "\<dots> \<le> q / 2 ^ 53 * n" using assms(1,4) by (rule mult_right_mono)
  finally have a: "\<bar>r * n - q * n\<bar> \<le> q * n / 2 ^ 53" by simp
  have qn: "0 \<le> q * n" using assms by simp
  define Y where "Y = q * n"
  define Z where "Z = r * n"
  have "\<bar>Z - Y\<bar> \<le> Y / 2 ^ 53" "\<bar>v - Z\<bar> \<le> Z / 2 ^ 53" "0 \<le> Y"
    using a assms(2) qn by (simp_all add: Y_def Z_def)
  then have "\<bar>v - Y\<bar> \<le> Y / 2 ^ 51" by (simp add: abs_if split: if_splits)
  then show ?thesis by (simp add: Y_def)
qed

lemma round64_upto:
  assumes "0 \<le> x" "x \<le> of_int b" "b < 2 ^ 53"
  shows "\<exists>v. round64 x = Fin v \<and> 0 \<le> v \<and> v \<le> of_int b"
proof -
  have "0 \<le> b" using assms(1,2) by (metis of_int_0_le_iff order_trans)
  then show ?thesis using assms round64_between [of 0 x b] by auto
qed

lemma div_int_normal:
  assumes "1 \<le> a" "1 \<le> b" "b < 2 ^ 53"
  shows "2 * pow2 (- 1022) \<le> of_int a / of_int b"
proof -
  have "2 * pow2 (- 1022) = pow2 (1 + - 1022)" by (simp only: pow2_add) (simp add: pow2_def)
  also have "\<dots> \<le> pow2 (- 53)" by (rule pow2_mono) simp
  also have "\<dots> = 1 / 2 ^ 53" by (simp add: pow2_def)
  also have "\<dots> \<le> 1 / of_int b" using assms of_int_less_pow2 [OF assms(3)] by (intro divide_left_mono) auto
  also have "\<dots> \<le> of_int a / of_int b" using assms by (intro divide_right_mono) auto
  finally show ?thesis .
qed

lemma ceil_scale_close:
  assumes "1 \<le> a" "1 \<le> b" "1 \<le> n" "b < 2 ^ 31" "a * n < 2 ^ 51"
  shows "\<exists>r v. f64_div (f64_of_int a) (f64_of_int b) = Fin r \<and> round64 (r * of_int n) = Fin v
               \<and> f64_of_int n = Fin (of_int n)
               \<and> \<bar>v - of_int (a * n) / of_int b\<bar> < 1 / of_int b"
proof -
  let ?q = "of_int a / of_int b :: rat"
  have an: "a \<le> a * n" "n \<le> a * n" using assms mult_mono [of 1 a n n] mult_mono [of a a 1 n] by auto
  have small: "a < 2 ^ 53" "n < 2 ^ 53" "a * n < 2 ^ 53" "b < 2 ^ 53"
    using an assms(4,5) power_strict_increasing [of 51 53 "2::int"] power_strict_increasing [of 31 53 "2::int"]
    by linarith+
  have fi: "f64_of_int a = Fin (of_int a)" "f64_of_int b = Fin (of_int b)" "f64_of_int n = Fin (of_int n)"
    using assms small by (auto intro!: f64_of_int_small)
  have q: "2 * pow2 (- 1022) \<le> ?q" using assms small by (intro div_int_normal)
  have q0: "0 \<le> ?q" "?q \<le> of_int a" using assms by (auto simp: pos_divide_le_eq)
  then obtain r where r: "round64 ?q = Fin r" "0 \<le> r" "r \<le> of_int a"
    using round64_upto small(1) by blast
  have "pow2 (- 1022) \<le> ?q" using q pow2_pos [of "- 1022"] by linarith
  then have e1: "\<bar>r - ?q\<bar> \<le> ?q / 2 ^ 53" using r(1) by (rule round64_rel_error)
  then have "?q / 2 \<le> r" using q0(1) by (simp add: abs_if split: if_splits)
  moreover have "r * 1 \<le> r * of_int n" using r(2) assms by (intro mult_left_mono) auto
  moreover have "pow2 (- 1022) \<le> ?q / 2" using q by simp
  ultimately have p: "pow2 (- 1022) \<le> r * of_int n" by (metis mult.right_neutral order_trans)
  have "r * of_int n \<le> of_int (a * n)" using r(3) assms by (simp add: mult_right_mono)
  moreover have "0 \<le> r * of_int n" using r(2) assms by simp
  ultimately obtain v where v: "round64 (r * of_int n) = Fin v"
    using round64_upto small(3) by blast
  have e2: "\<bar>v - r * of_int n\<bar> \<le> r * of_int n / 2 ^ 53" using p v by (rule round64_rel_error)
  have "\<bar>v - ?q * of_int n\<bar> \<le> ?q * of_int n / 2 ^ 51"
    using e1 e2 q0 assms(3) by (intro two_roundings) auto
  also have "\<dots> = of_int (a * n) / 2 ^ 51 / of_int b" by simp
  also have "\<dots> < 1 / of_int b"
    using assms(2) of_int_less_pow2 [OF assms(5)] by (intro divide_strict_right_mono) auto
  finally have "\<bar>v - of_int (a * n) / of_int b\<bar> < 1 / of_int b" by simp
  moreover have "f64_div (f64_of_int a) (f64_of_int b) = Fin r" using r(1) fi assms(2) by simp
  ultimately show ?thesis using v fi(3) by blast
qed

lemma ceil_near_quotient:
  fixes v :: rat
  assumes "1 \<le> b" "\<bar>v - of_int c / of_int b\<bar> < 1 / of_int b"
  defines "k \<equiv> \<lceil>of_int c / of_int b :: rat\<rceil>"
  shows "k \<le> \<lceil>v\<rceil>" and "\<lceil>v\<rceil> \<le> k + 1" and "\<not> b dvd c \<Longrightarrow> \<lceil>v\<rceil> = k"
proof -
  let ?X = "of_int c / of_int b :: rat"
  have b: "0 < (of_int b :: rat)" using assms(1) by simp
  have X: "?X \<le> of_int k" "of_int k - 1 < ?X" unfolding k_def by linarith+
  have "of_int (b * (k - 1)) < (of_int c :: rat)" using X(2) b by (simp add: field_simps)
  then have "b * (k - 1) + 1 \<le> c" by (simp only: of_int_less_iff)
  then have "of_int (b * (k - 1) + 1) \<le> (of_int c :: rat)" by (simp only: of_int_le_iff)
  then have "of_int (b * (k - 1) + 1) / of_int b \<le> ?X" using b by (intro divide_right_mono) auto
  then have lo: "of_int k - 1 + 1 / of_int b \<le> ?X" using b by (simp add: add_divide_distrib)
  then have "of_int k - 1 < v" using assms(2) by linarith
  then show kl: "k \<le> \<lceil>v\<rceil>" by linarith
  have "1 / of_int b \<le> (1::rat)" using assms(1) by simp
  then have "v < of_int k + 1" using assms(2) X by linarith
  then show "\<lceil>v\<rceil> \<le> k + 1" by linarith
  show "\<lceil>v\<rceil> = k" if nd: "\<not> b dvd c"
  proof -
    have "of_int c \<le> (of_int (b * k) :: rat)" using X(1) b by (simp add: field_simps)
    then have "c \<le> b * k" by (simp only: of_int_le_iff)
    moreover have "c \<noteq> b * k" using nd by auto
    ultimately have "c + 1 \<le> b * k" by simp
    then have "of_int (c + 1) \<le> (of_int (b * k) :: rat)" by (simp only: of_int_le_iff)
    then have "of_int (c + 1) / of_int b \<le> of_int (b * k) / (of_int b :: rat)"
      using b by (intro divide_right_mono) auto
    then have "?X \<le> of_int k - 1 / of_int b" using b by (simp add: add_divide_distrib)
    then have "v < of_int k" using assms(2) by linarith
    then show ?thesis using kl by linarith
  qed
qed


text \<open>
  For integers \<open>a\<close>, \<open>b\<close>, \<open>n\<close> of moderate size the scaled count is the exact ceiling of
  \<open>a * n / b\<close>, except that it may be one more when the exact value is itself an integer.
\<close>

lemma ceil_mul_quotient:
  fixes oor a b n
  assumes "1 \<le> a" "1 \<le> b" "1 \<le> n" "b < 2 ^ 31" "a * n < 2 ^ 51"
    and fits: "a * n \<le> b * (2 ^ 31 - 2)"
  defines "k \<equiv> \<lceil>of_int (a * n) / of_int b :: rat\<rceil>"
    and "c \<equiv> ceil_mul oor (f64_div (f64_of_int a) (f64_of_int b)) n"
  shows "k \<le> c" and "c \<le> k + 1" and "\<not> b dvd a * n \<Longrightarrow> c = k"
proof -
  obtain r v where rv: "f64_div (f64_of_int a) (f64_of_int b) = Fin r"
      "round64 (r * of_int n) = Fin v" "f64_of_int n = Fin (of_int n)"
      "\<bar>v - of_int (a * n) / of_int b\<bar> < 1 / of_int b"
    using ceil_scale_close [OF assms(1-5)] by blast
  note near = ceil_near_quotient [OF assms(2) rv(4), folded k_def]
  have "of_int (a * n) \<le> (of_int (b * (2 ^ 31 - 2)) :: rat)" using fits by (simp only: of_int_le_iff)
  then have "of_int (a * n) / of_int b \<le> (of_int (2 ^ 31 - 2) :: rat)"
    using assms(2) by (simp add: pos_divide_le_eq mult.commute)
  then have "k \<le> 2 ^ 31 - 2" unfolding k_def by (simp only: ceiling_le_iff)
  then have "k \<le> 2147483646" by simp
  moreover have "0 \<le> (of_int (a * n) / of_int b :: rat)" using assms(1-3) by simp
  then have "0 \<le> k" unfolding k_def by linarith
  ultimately have "is_int32 \<lceil>v\<rceil>" using near(1,2) unfolding is_int32_iff by linarith
  then have "c = \<lceil>v\<rceil>" by (simp only: c_def ceil_mul_def rv f64_mul.simps f64_ceil.simps f64_to_int_of_int)
  then show "k \<le> c" "c \<le> k + 1" "\<not> b dvd a * n \<Longrightarrow> c = k" using near by auto
qed

text \<open>Rounding the quotient of two 32-bit integers keeps its comparison with one.\<close>

lemma representable_near_one: "representable (1 - 1 / 2 ^ 31)" "representable (1 + 1 / 2 ^ 31)"
  unfolding representable_def
  by (rule exI [of _ "2 ^ 31 - 1"], rule exI [of _ "- 31"], simp add: pow2_def)
    (rule exI [of _ "2 ^ 31 + 1"], rule exI [of _ "- 31"], simp add: pow2_def)

lemma quotient_gap:
  assumes "1 \<le> t" "t < 2 ^ 31"
  shows "u < t \<Longrightarrow> of_int u / of_int t \<le> (1 - 1 / 2 ^ 31 :: rat)" "t < u \<Longrightarrow> (1 + 1 / 2 ^ 31 :: rat) \<le> of_int u / of_int t"
proof -
  have t: "0 < (of_int t :: rat)" "(of_int t :: rat) < 2 ^ 31" using assms of_int_less_pow2 by auto
  then have g: "1 / 2 ^ 31 < (1 / of_int t :: rat)" by (intro divide_strict_left_mono) auto
  show "of_int u / of_int t \<le> (1 - 1 / 2 ^ 31 :: rat)" if "u < t"
  proof -
    have "(of_int u :: rat) \<le> of_int t - 1" using that by (metis int_one_le_iff_zero_less of_int_1 of_int_diff of_int_le_iff zless_imp_add1_zle le_diff_eq)
    then have "of_int u / of_int t \<le> (of_int t - 1) / (of_int t :: rat)" using t by (intro divide_right_mono) auto
    also have "\<dots> = 1 - 1 / of_int t" using t by (simp add: diff_divide_distrib)
    finally show ?thesis using g by linarith
  qed
  show "(1 + 1 / 2 ^ 31 :: rat) \<le> of_int u / of_int t" if "t < u"
  proof -
    have "(of_int t :: rat) + 1 \<le> of_int u" using that by (metis of_int_1 of_int_add of_int_le_iff zless_imp_add1_zle)
    then have "(of_int t + 1) / of_int t \<le> (of_int u / of_int t :: rat)" using t by (intro divide_right_mono) auto
    moreover have "(of_int t + 1) / of_int t = (1 + 1 / of_int t :: rat)" using t by (simp add: add_divide_distrib)
    ultimately show ?thesis using g by linarith
  qed
qed

lemma div_int32_direction:
  assumes "is_int32 u" "1 \<le> t" "t < 2 ^ 31"
  obtains r where "f64_div (f64_of_int u) (f64_of_int t) = Fin r" "r < 1 \<longleftrightarrow> u < t" "1 < r \<longleftrightarrow> t < u"
proof -
  have ub: "- (2 ^ 31) \<le> u" "u < 2 ^ 31" using assms(1) by (simp_all add: is_int32_iff)
  have fi: "f64_of_int u = Fin (of_int u)" "f64_of_int t = Fin (of_int t)"
    using ub assms(2,3) by (auto intro!: f64_of_int_small)
  let ?x = "of_int u / of_int t :: rat"
  have t: "1 \<le> (of_int t :: rat)" using assms(2) by simp
  have "\<bar>?x\<bar> \<le> \<bar>of_int u\<bar>" using t divide_left_mono [of 1 "of_int t" "\<bar>of_int u :: rat\<bar>"] by simp
  moreover have "\<bar>of_int u :: rat\<bar> \<le> 2 ^ 31" using ub of_int_le_pow2 [of u 31] of_int_le_pow2 [of "- u" 31] by (auto simp: abs_le_iff)
  ultimately have "\<bar>?x\<bar> \<le> 2 ^ 31" by (rule order_trans)
  from abs_le_D1 [OF this] abs_le_D2 [OF this] have "of_int (- (2 ^ 31)) \<le> ?x" "?x \<le> of_int (2 ^ 31)"
    by (simp_all only: of_int_minus of_int_power of_int_numeral minus_le_iff)
  then obtain r where r: "round64 ?x = Fin r" by (rule round64_between) simp_all
  have d: "f64_div (f64_of_int u) (f64_of_int t) = Fin r" using r fi assms(2) by simp
  note e = representable_near_one [THEN round64_exact]
  consider "u < t" | "u = t" | "t < u" by linarith
  then show thesis
  proof cases
    case 1
    with round64_mono [OF quotient_gap(1) [OF assms(2,3), of u]] have "r \<le> 1 - 1 / 2 ^ 31" by (simp only: r e f64_le.simps)
    then have "r < 1" by simp
    with 1 d that show thesis by auto
  next
    case 2
    then have "r = 1" using r t round64_int [of 1] by simp
    with 2 d that show thesis by auto
  next
    case 3
    with round64_mono [OF quotient_gap(2) [OF assms(2,3), of u]] have "1 + 1 / 2 ^ 31 \<le> r" by (simp only: r e f64_le.simps)
    then have "1 < r" by simp
    with 3 d that show thesis by auto
  qed
qed

lemma f64_lt_Fin [simp]: "f64_lt (Fin a) (Fin b) \<longleftrightarrow> a < b"
  by (auto simp: f64_lt_def)

lemma round64_dyadic: "\<bar>m\<bar> < 2 ^ 53 \<Longrightarrow> k \<le> 1074 \<Longrightarrow> round64 (of_int m / 2 ^ k) = Fin (of_int m / 2 ^ k)"
  by (rule round64_exact, unfold representable_def, rule exI [of _ m], rule exI [of _ "- int k"]) (auto simp: pow2_def)

subsection \<open>Bounds of a rounding\<close>

lemma round64_le_representable:
  "representable b \<Longrightarrow> x \<le> b \<Longrightarrow> round64 x = Fin r \<Longrightarrow> r \<le> b"
  using round64_mono [of x b] by (simp add: round64_exact)

lemma round64_ge_representable:
  "representable b \<Longrightarrow> b \<le> x \<Longrightarrow> round64 x = Fin r \<Longrightarrow> b \<le> r"
  using round64_mono [of b x] by (simp add: round64_exact)

lemma round64_0_upto:
  assumes "representable b" "0 \<le> x" "x \<le> b" obtains r where "round64 x = Fin r" "0 \<le> r" "r \<le> b"
proof -
  have "f64_le (Fin 0) (round64 x)" "f64_le (round64 x) (Fin b)"
    using round64_mono [OF assms(2)] round64_mono [OF assms(3)] assms(1) by (simp_all add: round64_exact round64_def [of 0])
  then show thesis using that by (cases "round64 x") auto
qed

lemma representable_1: "representable 1"
  using representable_int [of 1] by simp

lemma round64_finite:
  assumes "0 \<le> x" "x \<le> 2 ^ 128" obtains r where "round64 x = Fin r" "0 \<le> r"
proof -
  have "representable (2 ^ 128)" unfolding representable_def by (intro exI [of _ 1] exI [of _ 128]) (simp add: pow2_def)
  from round64_0_upto [OF this assms] that show thesis by blast
qed

lemma normal_if: "1 / 2 ^ 200 \<le> x \<Longrightarrow> pow2 (- 1022) \<le> x"
  using pow2_mono [of "- 1022" "- 200"] by (simp add: pow2_def)

lemma round64_rel:
  assumes "1 / 2 ^ k \<le> x" "x \<le> 2 ^ l" "k \<le> 200" "l \<le> 128"
  obtains r where "round64 x = Fin r" "0 \<le> r" "\<bar>r - x\<bar> \<le> x / 2 ^ 53"
proof -
  have "1 / 2 ^ 200 \<le> (1 / 2 ^ k :: rat)" using assms(3) by (intro divide_left_mono power_increasing) simp_all
  with assms(1) have n: "1 / 2 ^ 200 \<le> x" by (rule order_trans [rotated])
  have "0 < (1 / 2 ^ k :: rat)" by simp
  with assms(1) have "0 \<le> x" by linarith
  moreover have "x \<le> 2 ^ 128" using assms(2) power_increasing [OF assms(4), of "2 :: rat"] by linarith
  ultimately obtain r where r: "round64 x = Fin r" "0 \<le> r" using round64_finite by blast
  from round64_rel_error [OF normal_if [OF n] r(1)] r show thesis using that by blast
qed

text \<open>Absolutely, for numbers of the size of a percentage.\<close>

lemma round64_percent:
  assumes "\<bar>x\<bar> \<le> 2 ^ 11" "round64 x = Fin r"
  shows "\<bar>r - x\<bar> \<le> 1 / 2 ^ 40"
proof -
  have pos: "\<bar>r - x\<bar> \<le> 1 / 2 ^ 40" if "0 < x" "x \<le> 2 ^ 11" "round64 x = Fin r" for x r
  proof -
    have "pow2 (rexp x) \<le> pow2 11" using rexp_bounds(1) [OF that(1)] that(2) by (simp add: pow2_numeral)
    then have "rexp x \<le> 11" using pow2_strict_mono [of 11 "rexp x"] by linarith
    then have "pow2 (ulp_exp x) \<le> pow2 (- 41)" by (intro pow2_mono) (simp add: ulp_exp_def)
    moreover have "r = rnd x" using that by (auto simp: round64_def round_pos_rnd split: if_splits)
    ultimately show ?thesis using rnd_error [OF that(1)] by (simp add: pow2_def)
  qed
  consider "0 < x" | "x = 0" | "x < 0" by linarith
  then show ?thesis
  proof cases
    case 1
    with pos assms show ?thesis by simp
  next
    case 2
    with assms show ?thesis by (simp add: round64_def)
  next
    case 3
    have "round64 (- x) = Fin (- r)" using assms(2) by (simp add: round64_neg)
    from pos [OF _ _ this] 3 assms(1) show ?thesis by (simp add: abs_minus_commute)
  qed
qed

end
