(* ===== verification/Panic_Mode.thy ===== *)
theory Panic_Mode
  imports Go_Float64 Api_Types
begin

text \<open>
  Panic mode (\<^verbatim>\<open>utils/panicmode.go\<close>): when a change of the replica count is large enough to enter
  it, and how long it lasts. \<^verbatim>\<open>resource.Quantity.AsApproximateFloat64\<close> is the parameter
  \<open>approx\<close>.

  Shown: the entry test against the exact ratio, that it is monotone in the desired count, that a
  threshold above one is never reached by keeping or lowering the count, and that the window is counted
  from the first entry: entering again while the condition is already true does not extend it.
\<close>

subsection \<open>Operations\<close>

definition IsPanicModeConfigured :: "ReplicaAutoscalerStrategy option \<Rightarrow> bool" where
  "IsPanicModeConfigured strategy =
     (case strategy of
        None \<Rightarrow> False
      | Some s \<Rightarrow> PanicThreshold s \<noteq> None \<and> PanicWindowSeconds s \<noteq> None)"

definition ShouldEnterPanicMode ::
  "(Quantity \<Rightarrow> float64) \<Rightarrow> int \<Rightarrow> int \<Rightarrow> ReplicaAutoscalerStrategy option \<Rightarrow> bool" where
  "ShouldEnterPanicMode approx desiredReplicas currentReplicas strategy =
     (if \<not> IsPanicModeConfigured strategy \<or> desiredReplicas = 0 then False
      else if currentReplicas = 0 \<and> 0 < desiredReplicas then True
      else
        let percentage = f64_div (f64_of_int desiredReplicas) (f64_of_int currentReplicas)
        in f64_le (approx (the (PanicThreshold (the strategy)))) percentage)"

text \<open>\<open>now\<close> is the clock reading of \<^verbatim>\<open>time.Since\<close>. The window is an \<^verbatim>\<open>int32\<close> of seconds.\<close>

definition StillInPanicMode ::
  "Time \<Rightarrow> ReplicaAutoscalerStatus \<Rightarrow> ReplicaAutoscalerStrategy option \<Rightarrow> bool" where
  "StillInPanicMode now status strategy =
     (if \<not> IsPanicModeConfigured strategy then False
      else
        let condition = GetCondition (st_Conditions status) ConditionPanicMode
        in cond_Type condition = ConditionPanicMode \<and> cond_Status condition = ConditionTrue \<and>
           time_Sub now (cond_LastTransitionTime condition)
             < seconds (the (PanicWindowSeconds (the strategy))))"

subsection \<open>The entry test\<close>

lemma configured_Some [simp]:
  "IsPanicModeConfigured (Some \<lparr>PanicWindowSeconds = Some w, PanicThreshold = Some th\<rparr>)"
  by (simp add: IsPanicModeConfigured_def)

lemma ShouldEnterPanicMode_ratio:
  assumes "0 < c" "0 < d" "is_int32 c" "is_int32 d"
  shows "ShouldEnterPanicMode approx d c (Some \<lparr>PanicWindowSeconds = Some w, PanicThreshold = Some th\<rparr>)
         \<longleftrightarrow> f64_le (approx th) (round64 (of_int d / of_int c))"
proof -
  have "\<bar>c\<bar> < 2 ^ 53" "\<bar>d\<bar> < 2 ^ 53" using assms by (auto simp: is_int32_iff)
  with assms show ?thesis by (simp add: ShouldEnterPanicMode_def f64_of_int_small Let_def)
qed

subsection \<open>Setting the condition again and again\<close>

definition panicOn :: Condition where
  "panicOn = mkCondition ConditionPanicMode ConditionTrue [] []"

lemma panicOn_repeated:
  "GetCondition (SetCondition entered conds panicOn) ConditionPanicMode = c \<Longrightarrow>
   GetCondition (fold (\<lambda>t cs. SetCondition t cs panicOn) ts (SetCondition entered conds panicOn)) ConditionPanicMode = c"
proof (induction ts arbitrary: entered conds)
  case (Cons t ts)
  have "GetCondition (SetCondition t (SetCondition entered conds panicOn) panicOn) ConditionPanicMode
        = GetCondition (SetCondition entered conds panicOn) ConditionPanicMode"
    by (simp add: GetCondition_SetCondition find_SetCondition panicOn_def)
  then show ?case using Cons.IH [of t "SetCondition entered conds panicOn"] Cons.prems by simp
qed simp

subsection \<open>Properties\<close>

text \<open>
  With a threshold whose value is the finite number \<open>q\<close>, a scaling from \<open>c > 0\<close> to
  \<open>d > 0\<close> replicas enters panic mode whenever \<open>d / c\<close> is at least \<open>q\<close>; once some
  \<open>d\<close> enters, every larger count does; and if \<open>q > 1\<close> then keeping or lowering the count never
  enters. Scaling from zero to a positive count always enters.
\<close>

theorem ShouldEnterPanicMode_threshold:
  fixes w :: int
  assumes "0 < c" "is_int32 c" "0 < d" "d \<le> d'" "is_int32 d'"
    and "approx th = Fin q" "representable q"
  defines "s \<equiv> Some \<lparr>PanicWindowSeconds = Some w, PanicThreshold = Some th\<rparr>"
  shows "(q * of_int c \<le> of_int d \<longrightarrow> ShouldEnterPanicMode approx d c s) \<and>
         (ShouldEnterPanicMode approx d c s \<longrightarrow> ShouldEnterPanicMode approx d' c s) \<and>
         (1 < q \<and> d \<le> c \<longrightarrow> \<not> ShouldEnterPanicMode approx d c s) \<and>
         ShouldEnterPanicMode approx d 0 s"
proof -
  have d: "is_int32 d" "0 < d'" using assms by (auto simp: is_int32_iff)
  note r = ShouldEnterPanicMode_ratio [OF assms(1,3,2) d(1), of approx w th, folded s_def]
    ShouldEnterPanicMode_ratio [OF assms(1) d(2) assms(2,5), of approx w th, folded s_def]
  have q: "approx th = round64 q" using assms(6) round64_exact [OF assms(7)] by simp
  have 1: "ShouldEnterPanicMode approx d c s" if "q * of_int c \<le> of_int d"
  proof -
    have "q \<le> of_int d / of_int c" using that assms(1) by (simp add: pos_le_divide_eq)
    then show ?thesis using r q round64_mono by simp
  qed
  have 2: "ShouldEnterPanicMode approx d' c s" if "ShouldEnterPanicMode approx d c s"
  proof -
    have "of_int d / of_int c \<le> (of_int d' / of_int c :: rat)"
      using assms(1,4) by (intro divide_right_mono) auto
    from round64_mono [OF this] show ?thesis using that r assms(6)
      by (cases "round64 (of_int d / of_int c)"; cases "round64 (of_int d' / of_int c)") auto
  qed
  have 3: "\<not> ShouldEnterPanicMode approx d c s" if "1 < q" "d \<le> c"
  proof -
    have "of_int d / of_int c \<le> (of_int 1 :: rat)" "of_int 0 \<le> (of_int d / of_int c :: rat)"
      using that(2) assms(1,3) by (auto simp: pos_divide_le_eq)
    then obtain v where "round64 (of_int d / of_int c) = Fin v" "v \<le> 1"
      using round64_between [of 0 "of_int d / of_int c" 1] by auto
    then show ?thesis using r that(1) assms(6) by simp
  qed
  show ?thesis using 1 2 3 assms(3) by (auto simp: ShouldEnterPanicMode_def s_def)
qed

theorem ShouldEnterPanicMode_threshold_witness:
  "ShouldEnterPanicMode (\<lambda>_. Fin (3 / 2)) 15 10
     (Some \<lparr>PanicWindowSeconds = Some 60, PanicThreshold = Some \<lparr>q_value = 15, q_scale = - 1\<rparr>\<rparr>)"
proof -
  have "representable (3 / 2)"
    unfolding representable_def by (rule exI [of _ 3], rule exI [of _ "- 1"]) (simp add: pow2_def)
  then show ?thesis
    using ShouldEnterPanicMode_threshold [of 10 15 15 "\<lambda>_. Fin (3 / 2)" "\<lparr>q_value = 15, q_scale = - 1\<rparr>" "3 / 2" 60]
    by (simp add: is_int32_iff)
qed

text \<open>
  (C34) The panic window is counted from the first entry: if the condition was not already true (with an
  empty reason) when panic mode was entered at \<open>entered\<close>, then after any number of further entries
  \<open>StillInPanicMode\<close> holds at \<open>now\<close> exactly while \<open>now - entered\<close> is less than the window.
\<close>

theorem panic_window_from_first_entry:
  fixes ts :: "Time list" and entered :: Time
  assumes "\<nexists>m. condition_lookup (st_Conditions st) ConditionPanicMode =
                 Some (ConditionPanicMode, ConditionTrue, [], m)"
    and "is_int32 w"
  defines "conds \<equiv> fold (\<lambda>t cs. SetCondition t cs panicOn) ts (SetCondition entered (st_Conditions st) panicOn)"
  shows "StillInPanicMode now (st\<lparr>st_Conditions := conds\<rparr>)
           (Some \<lparr>PanicWindowSeconds = Some w, PanicThreshold = Some th\<rparr>) \<longleftrightarrow> now - entered < w * Second"
proof -
  let ?s = "Some \<lparr>PanicWindowSeconds = Some w, PanicThreshold = Some th\<rparr>"
  have "cond_LastTransitionTime (GetCondition (SetCondition entered (st_Conditions st) panicOn) ConditionPanicMode) = entered"
    using assms(1)
    by (auto simp: GetCondition_SetCondition condition_lookup_def condition_value_def panicOn_def
        find_Some_iff split: option.splits)
  then have c: "GetCondition conds ConditionPanicMode = panicOn\<lparr>cond_LastTransitionTime := entered\<rparr>"
    unfolding conds_def by (intro panicOn_repeated) (simp add: GetCondition_SetCondition panicOn_def mkCondition_def)
  have "time_Sub now entered < w * Second \<longleftrightarrow> now - entered < w * Second"
    using assms(2) by (intro time_Sub_less_iff) (auto simp: is_int32_iff)
  then show ?thesis
    using c assms(2) by (simp add: StillInPanicMode_def Let_def panicOn_def seconds_int32)
qed

theorem panic_window_from_first_entry_witness:
  "\<not> StillInPanicMode (61 * Second)
      (zeroStatus\<lparr>st_Conditions := fold (\<lambda>t cs. SetCondition t cs panicOn) [15 * Second, 30 * Second, 59 * Second]
                   (SetCondition 0 [] panicOn)\<rparr>)
      (Some \<lparr>PanicWindowSeconds = Some 60, PanicThreshold = Some \<lparr>q_value = 2, q_scale = 0\<rparr>\<rparr>)"
  using panic_window_from_first_entry [where st = zeroStatus and w = 60
      and ts = "[15 * Second, 30 * Second, 59 * Second]" and entered = 0 and now = "61 * Second"
      and th = "\<lparr>q_value = 2, q_scale = 0\<rparr>"]
  by (simp add: zeroStatus_def condition_lookup_def initIfEmpty_def InitializeConditions_def is_int32_iff
      condition_types)

end
