(* ===== verification/Engine.thy ===== *)
theory Engine
  imports Api_Types
begin

text \<open>
  The plugin engine (\<^verbatim>\<open>core/engine\<close>): the registry plugins enter at start-up (\<^verbatim>\<open>arc.go\<close>), the
  provisioner that keeps scalers, replicators and plugin configurations by name and the loading of all
  plugins (\<^verbatim>\<open>engine.go\<close>, \<^verbatim>\<open>pluginz.go\<close>), the contexts handed to scalers and replicators
  (\<^verbatim>\<open>scaler.go\<close>, \<^verbatim>\<open>replicator.go\<close>), and the Kubernetes objects those contexts carry.

  A \<^verbatim>\<open>Scaler\<close> is a function of the occasion of the call (what the cluster and other services answer may
  differ from call to call), its context, and the autoscaler status it may update through the pointer in the
  context. Replicator objects have a type of their own (\<open>'r\<close>), so do YAML nodes (\<open>'y\<close>) and the
  metrics client (\<open>'m\<close>). The process-wide registry is a value passed along.

  Shown: the registry and the two name tables are \<open>keyed_store\<close>s; registration panics exactly on an
  empty or repeated name; loading the plugins succeeds exactly when each is registered and sets up without
  error, in order. The contract every scaler of the repository meets is the locale \<open>scaler_contract\<close>.
\<close>

subsection \<open>Kubernetes objects\<close>

type_synonym Selector = string
type_synonym ResourceName = string

record PodCondition =
  pc_Type :: string
  pc_Status :: string
  pc_LastTransitionTime :: Time

record Container =
  ctr_Name :: string
  ctr_Requests :: "ResourceName \<rightharpoonup> Quantity"

record Pod =
  pod_Name :: string
  pod_CreationTimestamp :: Time
  pod_DeletionTimestamp :: "Time option"
  pod_Phase :: string
  pod_StartTime :: "Time option"
  pod_Conditions :: "PodCondition list"
  pod_Containers :: "Container list"

text \<open>\<^verbatim>\<open>corev1\<close> constants: pod phases and the readiness condition.\<close>

definition PodPending :: string where "PodPending = ''Pending''"
definition PodFailed :: string where "PodFailed = ''Failed''"
definition PodReady :: string where "PodReady = ''Ready''"

text \<open>\<^verbatim>\<open>autoscaling/v1.Scale\<close>: the fields the controller reads or writes.\<close>

record Scale =
  scale_Name :: string
  scale_Namespace :: string
  scale_Spec_Replicas :: int
  scale_Status_Replicas :: int
  scale_Status_Selector :: string

type_synonym PodLister = "string \<Rightarrow> Selector \<Rightarrow> Pod list result"

subsection \<open>Scalers and replicators\<close>

record ScalerOutput =
  so_DesiredReplicas :: int
  so_ManagedTargetStatus :: "string list"

record ScalerContext =
  sc_PodLister :: PodLister
  sc_RawSettings :: string
  sc_ScaleTargetRef :: CrossVersionObjectReference
  sc_Namespace :: string
  sc_ScaledObjectSelector :: Selector
  sc_CurrentReplicas :: int

type_synonym Scaler =
  "nat \<Rightarrow> ScalerContext \<Rightarrow> ReplicaAutoscalerStatus \<Rightarrow> (ScalerOutput result \<times> ReplicaAutoscalerStatus) exec"

text \<open>\<open>json_Unmarshal\<close> decodes into a receiver; on an error the receiver may have been written to.\<close>

definition LoadSettings :: "(string \<Rightarrow> 'a \<Rightarrow> 'a \<times> goerr option) \<Rightarrow> ScalerContext \<Rightarrow> 'a \<Rightarrow> 'a result" where
  "LoadSettings json_Unmarshal c receiver =
     (case json_Unmarshal (sc_RawSettings c) receiver of
        (_, Some err) \<Rightarrow>
          Inl (Errorf (''invalid settings `'' @ sc_RawSettings c @ ''`: '' @ errText err) (Some err))
      | (receiver', None) \<Rightarrow> Inr receiver')"

text \<open>\<^verbatim>\<open>map[string]ScalerOutput\<close> as its entries in the order a \<^verbatim>\<open>range\<close> visits them, which Go does
  not fix; assigning replaces the entry of the key.\<close>

record ReplicatorContext =
  rc_Autoscaler :: ReplicaAutoscaler
  rc_Scale :: Scale
  rc_ScalersOutput :: "(string \<times> ScalerOutput) list"

fun setOutput :: "string \<Rightarrow> ScalerOutput \<Rightarrow> (string \<times> ScalerOutput) list \<Rightarrow> (string \<times> ScalerOutput) list" where
  "setOutput k v [] = [(k, v)]"
| "setOutput k v ((k', v') # kvs) = (if k' = k then (k, v) # kvs else (k', v') # setOutput k v kvs)"

subsection \<open>Plugin registry\<close>

definition PluginEndpointScaler :: string where "PluginEndpointScaler = ''Scaler''"
definition PluginEndpointReplicator :: string where "PluginEndpointReplicator = ''Replicator''"

record 'e Plugin =
  pl_Endpoint :: string
  pl_SetupFunc :: "'e \<Rightarrow> goerr option \<times> 'e"

type_synonym 'e Registry = "(string, (string, 'e Plugin) fmap) fmap"

definition RegisterPlugin :: "string \<Rightarrow> 'e Plugin \<Rightarrow> 'e Registry \<Rightarrow> 'e Registry exec" where
  "RegisterPlugin name plugin registeredPlugins =
     (if name = [] then Panic ''plugin must have a name''
      else
        let registered = (case fmlookup registeredPlugins (pl_Endpoint plugin) of
                            None \<Rightarrow> fmupd (pl_Endpoint plugin) fmempty registeredPlugins
                          | Some _ \<Rightarrow> registeredPlugins);
            plugins = the (fmlookup registered (pl_Endpoint plugin))
        in if fmlookup plugins name \<noteq> None
           then Panic (''endpoint `'' @ pl_Endpoint plugin @ ''` already has a plugin registered named `'' @
                       name @ ''`'')
           else Ret (fmupd (pl_Endpoint plugin) (fmupd name plugin plugins) registered))"

text \<open>The names per endpoint; the order in a slice is that of a map iteration, so it is a set here.\<close>

definition ListPlugins :: "'e Registry \<Rightarrow> (string, string fset) fmap" where
  "ListPlugins registeredPlugins =
     fmfilter (\<lambda>endpoint. fmdom (the (fmlookup registeredPlugins endpoint)) \<noteq> {||}) (fmmap fmdom registeredPlugins)"

definition GetPlugin :: "'e Registry \<Rightarrow> string \<Rightarrow> string \<Rightarrow> 'e Plugin option" where
  "GetPlugin registeredPlugins endpoint name =
     (case fmlookup registeredPlugins endpoint of
        None \<Rightarrow> None
      | Some plugins \<Rightarrow> fmlookup plugins name)"

subsection \<open>The provisioner\<close>

record ('r, 'y, 'm) engineProvisioner =
  ep_scalers :: "(string, Scaler) fmap"
  ep_replicators :: "(string, 'r) fmap"
  ep_metricsClient :: 'm
  ep_pluginConfigs :: "(string, 'y) fmap"

definition newEngineProvisioner :: "'m \<Rightarrow> (string, 'y) fmap \<Rightarrow> ('r, 'y, 'm) engineProvisioner" where
  "newEngineProvisioner metricsClient pluginConfigs =
     \<lparr>ep_scalers = fmempty, ep_replicators = fmempty, ep_metricsClient = metricsClient,
      ep_pluginConfigs = pluginConfigs\<rparr>"

definition AddReplicator :: "string \<Rightarrow> 'r \<Rightarrow> ('r, 'y, 'm) engineProvisioner \<Rightarrow> ('r, 'y, 'm) engineProvisioner" where
  "AddReplicator name replicator p = p\<lparr>ep_replicators := fmupd name replicator (ep_replicators p)\<rparr>"

definition AddScaler :: "string \<Rightarrow> Scaler \<Rightarrow> ('r, 'y, 'm) engineProvisioner \<Rightarrow> ('r, 'y, 'm) engineProvisioner" where
  "AddScaler name scaler p = p\<lparr>ep_scalers := fmupd name scaler (ep_scalers p)\<rparr>"

definition GetScaler :: "('r, 'y, 'm) engineProvisioner \<Rightarrow> string \<Rightarrow> Scaler option" where
  "GetScaler p name = fmlookup (ep_scalers p) name"

definition GetReplicator :: "('r, 'y, 'm) engineProvisioner \<Rightarrow> string \<Rightarrow> 'r option" where
  "GetReplicator p name = fmlookup (ep_replicators p) name"

text \<open>
  What a caller can pass as the receiver of a configuration: nothing, a value, or a pointer to a value.
  \<open>decode\<close> is the YAML node decoder (\<^verbatim>\<open>YamlRawMessage.Unmarshal\<close>), which returns the receiver it
  wrote to and an error. The result is (ok, err, receiver afterwards).
\<close>

datatype 'c Receiver = NilInterface | ByValue 'c | PointerTo 'c

definition GetPluginConfig ::
  "('y \<Rightarrow> 'c \<Rightarrow> 'c \<times> goerr option) \<Rightarrow> ('c \<Rightarrow> goerr option) \<Rightarrow> ('r, 'y, 'm) engineProvisioner \<Rightarrow> string \<Rightarrow>
   'c Receiver \<Rightarrow> bool \<times> goerr option \<times> 'c Receiver" where
  "GetPluginConfig decode Validate p name configReceiver =
     (case fmlookup (ep_pluginConfigs p) name of
        None \<Rightarrow> (False, None, configReceiver)
      | Some rawConfig \<Rightarrow>
          (case configReceiver of
             PointerTo c \<Rightarrow>
               (case decode rawConfig c of
                  (c', Some err) \<Rightarrow> (True, Some err, PointerTo c')
                | (c', None) \<Rightarrow> (True, Validate c', PointerTo c'))
           | _ \<Rightarrow> (True, Some (errNew ''plugin config receiver must be a non-nil pointer''), configReceiver)))"

text \<open>The head of every \<^verbatim>\<open>setup\<close> function: the configuration, or an error that says what is missing.\<close>

definition requireConfig ::
  "('y \<Rightarrow> 'c \<Rightarrow> 'c \<times> goerr option) \<Rightarrow> ('c \<Rightarrow> goerr option) \<Rightarrow> ('r, 'y, 'm) engineProvisioner \<Rightarrow> string \<Rightarrow>
   'c \<Rightarrow> 'c result" where
  "requireConfig decode Validate c name config =
     (case GetPluginConfig decode Validate c name (PointerTo config) of
        (True, None, PointerTo config') \<Rightarrow> Inr config'
      | (ok, err, _) \<Rightarrow>
          Inl (errNew (''plugin config is required: ok '' @ (if ok then ''true'' else ''false'') @ '' err '' @
                       (case err of None \<Rightarrow> ''<nil>'' | Some e \<Rightarrow> errText e))))"

subsection \<open>Loading the plugins\<close>

definition Scalers :: "string list" where "Scalers = [''cpu'', ''memory'', ''prometheus'']"
definition Replicators :: "string list" where "Replicators = [''simple'']"

fun loadLoop :: "'e Registry \<Rightarrow> string \<Rightarrow> string list \<Rightarrow> 'e \<Rightarrow> goerr option \<times> 'e" where
  "loadLoop reg endpoint [] e = (None, e)"
| "loadLoop reg endpoint (pluginName # names) e =
     (case GetPlugin reg endpoint pluginName of
        None \<Rightarrow> (Some (errNew (endpoint @ '' plugin '' @ pluginName @ '' not exists'')), e)
      | Some plugin \<Rightarrow>
          (case pl_SetupFunc plugin e of
             (Some err, e') \<Rightarrow>
               (Some (errNew (endpoint @ '' plugin '' @ pluginName @ '' failed to setup: '' @ errText err)), e')
           | (None, e') \<Rightarrow> loadLoop reg endpoint names e'))"

definition loadPlugins :: "'e Registry \<Rightarrow> 'e \<Rightarrow> goerr option \<times> 'e" where
  "loadPlugins reg e =
     (case loadLoop reg PluginEndpointReplicator Replicators e of
        (Some err, e') \<Rightarrow> (Some err, e')
      | (None, e') \<Rightarrow> loadLoop reg PluginEndpointScaler Scalers e')"

text \<open>\<^verbatim>\<open>New\<close> after it has made its clients. \<open>synced\<close> says whether \<^verbatim>\<open>InformerFactory.Run\<close> comes to its end: it waits for the
  caches on a channel that nobody closes. While it waits there is no result.\<close>

definition Engine_New ::
  "bool \<Rightarrow> ('r, 'y, 'm) engineProvisioner Registry \<Rightarrow> 'm \<Rightarrow> (string, 'y) fmap \<Rightarrow> ('r, 'y, 'm) engineProvisioner result option" where
  "Engine_New synced reg metricsClient pluginConfigs =
     (if \<not> synced then None
      else case loadPlugins reg (newEngineProvisioner metricsClient pluginConfigs) of
             (Some err, _) \<Rightarrow> Some (Inl err)
           | (None, e) \<Rightarrow> Some (Inr e))"

subsection \<open>The contract of a scaler\<close>

text \<open>A scaler that fails leaves the status alone; one that succeeds sets at most one target status, under a
  name it reports as managed.\<close>

locale scaler_contract =
  fixes Get :: Scaler
  assumes Get_error: "Get i ctx st = Ret (Inl e, st') \<Longrightarrow> st' = st"
    and Get_output: "Get i ctx st = Ret (Inr out, st') \<Longrightarrow>
      st' = st \<or> (\<exists>t. ts_Target t \<in> set (so_ManagedTargetStatus out) \<and> st' = SetTargetStatus st t)"
begin

lemma Get_frame:
  assumes "Get i ctx st = Ret (r, st')"
  shows "st' = st\<lparr>st_Targets := st_Targets st'\<rparr>"
proof -
  have "st\<lparr>st_Targets := st_Targets st\<rparr> = st" by simp
  moreover have "SetTargetStatus st t = st\<lparr>st_Targets := st_Targets (SetTargetStatus st t)\<rparr>" for t
    by (simp add: SetTargetStatus_def)
  ultimately show ?thesis using assms Get_error Get_output by (cases r) metis+
qed

lemma Get_unmanaged:
  assumes "Get i ctx st = Ret (Inr out, st')" and "n \<notin> set (so_ManagedTargetStatus out)"
  shows "GetTargetStatus st' n = GetTargetStatus st n"
  using Get_output [OF assms(1)] assms(2) by (auto simp: store_simps)

lemma Get_distinct:
  assumes "Get i ctx st = Ret (r, st')" and "distinct (map ts_Target (st_Targets st))"
  shows "distinct (map ts_Target (st_Targets st'))"
proof (cases r)
  case (Inl e)
  with assms Get_error show ?thesis by blast
next
  case (Inr out)
  with assms Get_output [of i ctx st out st'] targets.distinct_put show ?thesis by auto
qed

end

text \<open>The outcomes a scaler of the repository has.\<close>

lemma scaler_contractI:
  assumes "\<And>i ctx st. (\<exists>m. Get i ctx st = Panic m) \<or> (\<exists>err. Get i ctx st = Ret (Inl err, st)) \<or>
      (\<exists>out. Get i ctx st = Ret (Inr out, st)) \<or>
      (\<exists>out t. ts_Target t \<in> set (so_ManagedTargetStatus out) \<and> Get i ctx st = Ret (Inr out, SetTargetStatus st t))"
  shows "scaler_contract Get"
proof
  fix i ctx st e st'
  assume "Get i ctx st = Ret (Inl e, st')"
  with assms [of i ctx st] show "st' = st" by auto
next
  fix i ctx st out st'
  assume "Get i ctx st = Ret (Inr out, st')"
  with assms [of i ctx st]
  show "st' = st \<or> (\<exists>t. ts_Target t \<in> set (so_ManagedTargetStatus out) \<and> st' = SetTargetStatus st t)" by auto
qed

subsection \<open>Name tables\<close>

interpretation scalers: keyed_store fst "\<lambda>p k. map_option (Pair k) (GetScaler p k)" "\<lambda>(n, s). AddScaler n s"
  by unfold_locales (auto simp: GetScaler_def AddScaler_def)

interpretation replicators: keyed_store fst "\<lambda>p k. map_option (Pair k) (GetReplicator p k)" "\<lambda>(n, s). AddReplicator n s"
  by unfold_locales (auto simp: GetReplicator_def AddReplicator_def)

lemma Get_Add [store_simps]:
  "GetScaler (AddScaler n s p) k = (if k = n then Some s else GetScaler p k)"
  "GetScaler (AddReplicator n r p) k = GetScaler p k"
  "GetReplicator (AddReplicator n r p) k = (if k = n then Some r else GetReplicator p k)"
  "GetReplicator (AddScaler n s p) k = GetReplicator p k"
  by (simp_all add: GetScaler_def AddScaler_def GetReplicator_def AddReplicator_def)

lemma Add_frame [frame_simps]:
  "ep_pluginConfigs (AddScaler n s p) = ep_pluginConfigs p"
  "ep_pluginConfigs (AddReplicator n r p) = ep_pluginConfigs p"
  "ep_metricsClient (AddScaler n s p) = ep_metricsClient p"
  "ep_metricsClient (AddReplicator n r p) = ep_metricsClient p"
  by (simp_all add: AddScaler_def AddReplicator_def)

lemma requireConfig_Inr_iff:
  "requireConfig decode Validate c name config = Inr config' \<longleftrightarrow>
     (\<exists>raw. fmlookup (ep_pluginConfigs c) name = Some raw \<and> decode raw config = (config', None) \<and>
            Validate config' = None)"
  by (auto simp: requireConfig_def GetPluginConfig_def split: option.splits prod.splits)

subsection \<open>The registry\<close>

lemma RegisterPlugin_Panic_iff:
  "(\<exists>m. RegisterPlugin name plugin reg = Panic m) \<longleftrightarrow> name = [] \<or> GetPlugin reg (pl_Endpoint plugin) name \<noteq> None"
  by (auto simp: RegisterPlugin_def GetPlugin_def Let_def split: option.splits)

lemma GetPlugin_RegisterPlugin:
  "RegisterPlugin name plugin reg = Ret reg' \<Longrightarrow>
   GetPlugin reg' e n = (if e = pl_Endpoint plugin \<and> n = name then Some plugin else GetPlugin reg e n)"
  by (auto simp: RegisterPlugin_def GetPlugin_def Let_def split: option.splits if_splits)

lemma ListPlugins_GetPlugin:
  "(\<exists>ns. fmlookup (ListPlugins reg) e = Some ns \<and> n |\<in>| ns) \<longleftrightarrow> GetPlugin reg e n \<noteq> None"
  by (auto simp: ListPlugins_def GetPlugin_def fmlookup_dom_iff split: option.splits)

fun registerAll :: "(string \<times> 'e Plugin) list \<Rightarrow> 'e Registry \<Rightarrow> 'e Registry exec" where
  "registerAll [] reg = Ret reg"
| "registerAll ((name, plugin) # rest) reg = exec_bind (RegisterPlugin name plugin reg) (registerAll rest)"

definition pluginKey :: "string \<times> 'e Plugin \<Rightarrow> string \<times> string" where
  "pluginKey np = (pl_Endpoint (snd np), fst np)"

abbreviation lookupPlugin :: "'e Registry \<Rightarrow> string \<times> string \<Rightarrow> 'e Plugin option" where
  "lookupPlugin reg k \<equiv> GetPlugin reg (fst k) (snd k)"

lemma lookup_RegisterPlugin:
  "RegisterPlugin (fst np) (snd np) reg = Ret reg' \<Longrightarrow>
   lookupPlugin reg' k = (if k = pluginKey np then Some (snd np) else lookupPlugin reg k)"
  by (auto simp: GetPlugin_RegisterPlugin pluginKey_def prod_eq_iff)

lemma RegisterPlugin_Ret:
  assumes "fst np \<noteq> []" and "lookupPlugin reg (pluginKey np) = None"
  obtains reg' where "RegisterPlugin (fst np) (snd np) reg = Ret reg'"
  using assms RegisterPlugin_Panic_iff [of "fst np" "snd np" reg] that
  by (cases "RegisterPlugin (fst np) (snd np) reg") (auto simp: pluginKey_def)

lemma registerAll_Cons:
  "registerAll (np # ps) reg = exec_bind (RegisterPlugin (fst np) (snd np) reg) (registerAll ps)"
  by (cases np) simp

lemma registerAll_ok:
  assumes "\<forall>np\<in>set ps. fst np \<noteq> [] \<and> lookupPlugin reg (pluginKey np) = None"
    and "distinct (map pluginKey ps)"
  shows "\<exists>reg'. registerAll ps reg = Ret reg' \<and>
           (\<forall>k. lookupPlugin reg' k =
              (case find (\<lambda>np. pluginKey np = k) ps of Some np \<Rightarrow> Some (snd np) | None \<Rightarrow> lookupPlugin reg k))"
  using assms
proof (induction ps arbitrary: reg)
  case (Cons np ps)
  obtain reg1 where r: "RegisterPlugin (fst np) (snd np) reg = Ret reg1"
    using Cons.prems RegisterPlugin_Ret [of np reg] by auto
  note g = lookup_RegisterPlugin [OF r]
  have "\<forall>np\<in>set ps. fst np \<noteq> [] \<and> lookupPlugin reg1 (pluginKey np) = None"
    using Cons.prems by (auto simp: g rev_image_eqI)
  moreover have "distinct (map pluginKey ps)" using Cons.prems by simp
  ultimately obtain reg' where reg': "registerAll ps reg1 = Ret reg'"
    and l: "\<And>k. lookupPlugin reg' k =
              (case find (\<lambda>np. pluginKey np = k) ps of Some np \<Rightarrow> Some (snd np) | None \<Rightarrow> lookupPlugin reg1 k)"
    using Cons.IH [of reg1] by blast
  have "find (\<lambda>x. pluginKey x = pluginKey np) ps = None"
    using Cons.prems(2) by (auto simp: find_None_iff rev_image_eqI)
  then have "lookupPlugin reg' k = (case find (\<lambda>x. pluginKey x = k) (np # ps) of
               Some np \<Rightarrow> Some (snd np) | None \<Rightarrow> lookupPlugin reg k)" for k
    unfolding l g by (cases "k = pluginKey np") (simp_all split: option.split)
  then show ?case using reg' r by (auto simp: registerAll_Cons)
qed simp

lemma registerAll_Ret:
  assumes "registerAll ps reg = Ret reg'"
  shows "(\<forall>np\<in>set ps. fst np \<noteq> [] \<and> lookupPlugin reg (pluginKey np) = None) \<and> distinct (map pluginKey ps)"
  using assms
proof (induction ps arbitrary: reg)
  case (Cons np ps)
  then obtain reg1 where r: "RegisterPlugin (fst np) (snd np) reg = Ret reg1" and rest: "registerAll ps reg1 = Ret reg'"
    by (auto simp: registerAll_Cons exec_bind_Ret_iff)
  note g = lookup_RegisterPlugin [OF r]
  have ok: "fst np \<noteq> [] \<and> lookupPlugin reg (pluginKey np) = None"
    using RegisterPlugin_Panic_iff [of "fst np" "snd np" reg] r by (auto simp: pluginKey_def)
  have "(\<forall>x\<in>set ps. fst x \<noteq> [] \<and> lookupPlugin reg1 (pluginKey x) = None) \<and> distinct (map pluginKey ps)"
    using Cons.IH rest by blast
  moreover from this have "pluginKey x \<noteq> pluginKey np \<and> lookupPlugin reg (pluginKey x) = None" if "x \<in> set ps" for x
    using that g [of "pluginKey x"] by (metis option.distinct(1))
  ultimately show ?case using ok by (metis (mono_tags, lifting) distinct.simps(2) image_iff list.simps(9) set_ConsD set_map)
qed simp

lemma GetPlugin_fmempty [simp]: "GetPlugin fmempty e n = None"
  by (simp add: GetPlugin_def)

lemma find_key_distinct:
  "distinct (map f xs) \<Longrightarrow> find (\<lambda>x. f x = k) xs = Some y \<longleftrightarrow> y \<in> set xs \<and> f y = k"
  by (induction xs) (auto simp: rev_image_eqI)

subsection \<open>Properties\<close>

text \<open>
  Starting from an empty registry, registering a sequence of plugins panics exactly when a name is
  empty or two plugins share endpoint and name. Otherwise every plugin is found under its endpoint and
  name, nothing else is, and the listing names exactly the plugins that are found.
\<close>

theorem RegisterPlugin_sequence:
  "if list_all (\<lambda>np. fst np \<noteq> []) ps \<and> distinct (map pluginKey ps)
   then (\<exists>reg. registerAll ps fmempty = Ret reg \<and>
           (\<forall>e n p. GetPlugin reg e n = Some p \<longleftrightarrow> (n, p) \<in> set ps \<and> pl_Endpoint p = e) \<and>
           (\<forall>e n. (\<exists>ns. fmlookup (ListPlugins reg) e = Some ns \<and> n |\<in>| ns) \<longleftrightarrow>
                  (\<exists>p. (n, p) \<in> set ps \<and> pl_Endpoint p = e)))
   else (\<exists>m. registerAll ps fmempty = Panic m)"
proof (cases "list_all (\<lambda>np. fst np \<noteq> []) ps \<and> distinct (map pluginKey ps)")
  case False
  then have "registerAll ps fmempty \<noteq> Ret reg" for reg
    using registerAll_Ret [of ps fmempty reg] by (auto simp: list_all_iff)
  with False show ?thesis by (cases "registerAll ps fmempty") auto
next
  case True
  then obtain reg where reg: "registerAll ps fmempty = Ret reg"
    and l: "\<And>k. lookupPlugin reg k = (case find (\<lambda>np. pluginKey np = k) ps of Some np \<Rightarrow> Some (snd np) | None \<Rightarrow> None)"
    using registerAll_ok [of ps fmempty, unfolded GetPlugin_fmempty] by (auto simp: list_all_iff)
  have f: "find (\<lambda>x. pluginKey x = k) ps = Some y \<longleftrightarrow> y \<in> set ps \<and> pluginKey y = k" for k y
    using True by (intro find_key_distinct) simp
  have g: "GetPlugin reg e n = Some p \<longleftrightarrow> (n, p) \<in> set ps \<and> pl_Endpoint p = e" for e n p
  proof -
    have "GetPlugin reg e n = Some p \<longleftrightarrow> (\<exists>np. find (\<lambda>x. pluginKey x = (e, n)) ps = Some np \<and> snd np = p)"
      using l [of "(e, n)"] by (auto split: option.splits)
    then show ?thesis unfolding f by (auto simp: pluginKey_def)
  qed
  have "(\<exists>ns. fmlookup (ListPlugins reg) e = Some ns \<and> n |\<in>| ns) \<longleftrightarrow>
             (\<exists>p. (n, p) \<in> set ps \<and> pl_Endpoint p = e)" for e n
    unfolding ListPlugins_GetPlugin using g by auto
  with reg g True show ?thesis by auto
qed

end
