(* ===== verification/Reconciler.thy ===== *)
theory Reconciler
  imports Gvkr Scheduling Panic_Mode Engine
begin

text \<open>
  The reconciliation of one \<^verbatim>\<open>ReplicaAutoscaler\<close> (\<^verbatim>\<open>controllers/\<close>): from reading the object to
  the scale update and the write-back of annotations and status.

  Everything outside the repository is a field of the record \<open>World\<close>: the Kubernetes API calls with their
  answers, label selectors, percentages, quantities, JSON coding, and the clock, which has one reading per
  place where the code reads it (\<open>Site\<close>, in program order). The state \<open>RState\<close> holds what a
  reconciliation changes: the object in memory, the process-wide scalability cache, the engine (whose
  replicator objects have state), and, in order, the events emitted, the scale updates and the object writes
  sent to the API server.

  A scaler answers according to the occasion on which it is called. \<open>w_Occasion\<close> gives the occasion of the call for the
  \<open>i\<close>-th target; it belongs to the world of one request, so that no two calls, in the same request or in different ones,
  are forced to get the same answers from the metrics services or to read the same time.

  A method that returns early is a function whose result says so; nil dereferences are panics.
\<close>

subsection \<open>Constants, events, the outside world\<close>

definition NotRequeue :: Duration where "NotRequeue = 0"
definition RequeueDelayOnErrorState :: Duration where "RequeueDelayOnErrorState = 30 * Second"
definition RequeueDelayOnNormalState :: Duration where "RequeueDelayOnNormalState = 60 * Second"
definition RequeueDelayOnPanicState :: Duration where "RequeueDelayOnPanicState = 15 * Second"
definition DefaultRequeueDelay :: Duration where "DefaultRequeueDelay = RequeueDelayOnNormalState"
definition DefaultScalingColdDown :: Duration where "DefaultScalingColdDown = 30 * Second"
definition DefaultReplicator :: string where "DefaultReplicator = ''simple''"

lemmas requeue_delays = NotRequeue_def RequeueDelayOnErrorState_def RequeueDelayOnNormalState_def
  RequeueDelayOnPanicState_def DefaultRequeueDelay_def

definition ErrRefTargetIsNotExists :: goerr where "ErrRefTargetIsNotExists = errNew ''ref target is not exists''"
definition ErrRefTargetIsNotScalable :: goerr where "ErrRefTargetIsNotScalable = errNew ''ref target is not scalable''"

definition EventTypeNormal :: string where "EventTypeNormal = ''Normal''"
definition EventTypeWarning :: string where "EventTypeWarning = ''Warning''"
definition EventReasonScaling :: string where "EventReasonScaling = ''Scaling''"
definition EventReasonPanicMode :: string where "EventReasonPanicMode = ''PanicMode''"

record Event =
  ev_Type :: string
  ev_Reason :: string
  ev_Message :: string

text \<open>The places that read the clock.\<close>

datatype Site =
    AtPurge nat | AtNoTarget | AtPendingStart | AtPendingSince | AtSetExhausted
  | AtStillPanic | AtColdDown | AtReconcile | AtNoScaler | AtNoReplicator | AtReplicator nat
  | AtUnpatched | AtWorkingPatch | AtPatched | AtLimited | AtFailedToScale | AtLastScale
  | AtPanicOn | AtStillPanicAfter | AtPanicOff | AtReady

record World =
  w_Clock :: "Site \<Rightarrow> Time"
  w_ParseGroupVersion :: "string \<Rightarrow> (string \<times> string) result"
  w_RESTMapping :: "string \<times> string \<Rightarrow> string \<Rightarrow> string result"
  w_GroupResourceString :: "string \<times> string \<Rightarrow> string"
  w_ScalesGet :: "string \<Rightarrow> string \<times> string \<Rightarrow> string \<Rightarrow> Scale result"
  w_ScalesUpdate :: "string \<Rightarrow> string \<times> string \<Rightarrow> Scale \<Rightarrow> goerr option"
  w_ClientGet :: "string \<Rightarrow> string \<Rightarrow> string \<times> string \<times> string \<Rightarrow> goerr option"
  w_IsNotFound :: "goerr \<Rightarrow> bool"
  w_LabelsParse :: "string \<Rightarrow> Selector result"
  w_PodLister :: "nat \<Rightarrow> PodLister"
  w_Occasion :: "nat \<Rightarrow> nat"
  w_ScaledValue :: "IntOrString \<Rightarrow> int \<Rightarrow> bool \<Rightarrow> int result"
  w_AsApproximateFloat64 :: "Quantity \<Rightarrow> float64"
  w_MergePatch :: "string \<Rightarrow> string \<Rightarrow> string result"
  w_TimeEnv :: TimeEnv
  w_UnmarshalPatches :: "string \<Rightarrow> ReplicaPatch list option result"
  w_MarshalPatches :: "ReplicaPatch list \<Rightarrow> string result"
  w_FormatFloat2 :: "float64 \<Rightarrow> string"
  w_DurationString :: "Duration \<Rightarrow> string"
  w_AnnotationsEqual :: "(string, string) fmap \<Rightarrow> (string, string) fmap \<Rightarrow> bool"
  w_StatusEqual :: "ReplicaAutoscalerStatus \<Rightarrow> ReplicaAutoscalerStatus \<Rightarrow> bool"
  w_CacheGet :: "string \<Rightarrow> string \<Rightarrow> ReplicaAutoscaler result"
  w_StatusPatch :: "ReplicaAutoscaler \<Rightarrow> goerr option"
  w_Patch :: "ReplicaAutoscaler \<Rightarrow> goerr option"

record ScaleUpdate =
  su_Namespace :: string
  su_Resource :: "string \<times> string"
  su_Scale :: Scale

datatype ObjectWrite = StatusPatch ReplicaAutoscaler | ObjectPatch ReplicaAutoscaler

record ('r, 'y, 'm) RState =
  rs_Autoscaler :: ReplicaAutoscaler
  rs_ScalableCache :: "(string, bool) fmap"
  rs_Engine :: "('r, 'y, 'm) engineProvisioner"
  rs_Events :: "Event list"
  rs_Updates :: "ScaleUpdate list"
  rs_Writes :: "ObjectWrite list"

text \<open>Field updates of the autoscaler's status through the state.\<close>

abbreviation rs_Status :: "('r, 'y, 'm) RState \<Rightarrow> ReplicaAutoscalerStatus" where
  "rs_Status st \<equiv> ra_Status (rs_Autoscaler st)"

definition setStatus :: "ReplicaAutoscalerStatus \<Rightarrow> ('r, 'y, 'm) RState \<Rightarrow> ('r, 'y, 'm) RState" where
  "setStatus s st = st\<lparr>rs_Autoscaler := (rs_Autoscaler st)\<lparr>ra_Status := s\<rparr>\<rparr>"

definition setCond :: "Time \<Rightarrow> Condition \<Rightarrow> ('r, 'y, 'm) RState \<Rightarrow> ('r, 'y, 'm) RState" where
  "setCond now c st =
     setStatus ((rs_Status st)\<lparr>st_Conditions := SetCondition now (st_Conditions (rs_Status st)) c\<rparr>) st"

definition Eventf :: "string \<Rightarrow> string \<Rightarrow> string \<Rightarrow> ('r, 'y, 'm) RState \<Rightarrow> ('r, 'y, 'm) RState" where
  "Eventf ty reason msg st =
     st\<lparr>rs_Events := rs_Events st @ [\<lparr>ev_Type = ty, ev_Reason = reason, ev_Message = msg\<rparr>]\<rparr>"

subsection \<open>Finding the scale target\<close>

definition finalizeAutoscaler :: Duration where
  "finalizeAutoscaler = DefaultRequeueDelay"

definition isTargetScalable ::
  "World \<Rightarrow> GroupVersionKindResource \<Rightarrow> string \<Rightarrow> string \<Rightarrow> (string, bool) fmap \<Rightarrow> Scale result \<times> (string, bool) fmap" where
  "isTargetScalable w gvkr namespace name cache =
     (let targetGR = GroupResource gvkr in
      case w_ScalesGet w namespace targetGR name of
        Inl _ \<Rightarrow>
          (case w_ClientGet w name namespace (GetGVKRUnstructured gvkr) of
             None \<Rightarrow> (Inl ErrRefTargetIsNotScalable, cache)
           | Some err \<Rightarrow>
               if w_IsNotFound w err then (Inl ErrRefTargetIsNotExists, cache) else (Inl err, cache))
      | Inr scale \<Rightarrow>
          (let (knownScalable, _) = GetGroupResourceKnownScalable cache (w_GroupResourceString w targetGR) in
           (Inr scale,
            if \<not> knownScalable then SetGroupResourceKnownScalable (w_GroupResourceString w targetGR) True cache
            else cache)))"

definition getScaleTarget ::
  "World \<Rightarrow> ReplicaAutoscaler \<Rightarrow> (string, bool) fmap \<Rightarrow>
   (GroupVersionKindResource \<times> Scale) result \<times> (string, bool) fmap" where
  "getScaleTarget w autoscaler cache =
     (let ref = spec_ScaleTargetRef (ra_Spec autoscaler) in
      if ref_Name ref = [] \<or> ref_Kind ref = []
      then (Inl (errNew ''autoscaler.Spec.ScaleTargetRef.Name or autoscaler.Spec.ScaleTargetRef.Kind missing''), cache)
      else
        case ParseGVKR (w_ParseGroupVersion w) (w_RESTMapping w) (ref_APIVersion ref) (ref_Kind ref) of
          Inl err \<Rightarrow> (Inl err, cache)
        | Inr gvkr \<Rightarrow>
            (case isTargetScalable w gvkr (ra_Namespace autoscaler) (ref_Name ref) cache of
               (Inl err, cache') \<Rightarrow> (Inl err, cache')
             | (Inr scale, cache') \<Rightarrow> (Inr (gvkr, scale), cache')))"

subsection \<open>Writing the replica count\<close>

definition scaleReplicas ::
  "World \<Rightarrow> GroupVersionKindResource \<Rightarrow> Scale \<Rightarrow> int \<Rightarrow> ('r, 'y, 'm) RState \<Rightarrow> goerr option \<times> ('r, 'y, 'm) RState" where
  "scaleReplicas w gvkr scale desiredReplicas st0 =
     (let st = setStatus ((rs_Status st0)\<lparr>st_DesiredReplicas := desiredReplicas\<rparr>) st0 in
      if scale_Spec_Replicas scale = desiredReplicas then (None, st)
      else
        let dryRunFlag = (case fmlookup (ra_Annotations (rs_Autoscaler st)) DryRunAnnotation of
                            None \<Rightarrow> [] | Some v \<Rightarrow> v);
            stamp = (\<lambda>st. setStatus ((rs_Status st)\<lparr>st_LastScaleTime := Some (w_Clock w AtLastScale)\<rparr>) st)
        in if dryRunFlag = ''false'' then
             let scale' = scale\<lparr>scale_Spec_Replicas := desiredReplicas\<rparr>;
                 st1 = st\<lparr>rs_Updates := rs_Updates st @
                            [\<lparr>su_Namespace = scale_Namespace scale, su_Resource = GroupResource gvkr,
                              su_Scale = scale'\<rparr>]\<rparr>
             in (case w_ScalesUpdate w (scale_Namespace scale) (GroupResource gvkr) scale' of
                   Some err \<Rightarrow>
                     (Some err,
                      setCond (w_Clock w AtFailedToScale)
                        (mkCondition ConditionReady ConditionFalse ''FailedToScale''
                           (''Failed to scale target: '' @ errText err)) st1)
                 | None \<Rightarrow> (None, stamp st1))
           else (None, stamp st))"

subsection \<open>Exhaustion\<close>

text \<open>(\<^verbatim>\<open>pendingCount\<close>, \<^verbatim>\<open>oldestPendingBornAt\<close>).\<close>

fun pendingLoop :: "Pod list \<Rightarrow> int \<times> Time \<Rightarrow> int \<times> Time" where
  "pendingLoop [] acc = acc"
| "pendingLoop (pod # pods) (pendingCount, oldest) =
     (if pod_Phase pod \<noteq> PodPending then pendingLoop pods (pendingCount, oldest)
      else pendingLoop pods (pendingCount + 1,
             if pod_CreationTimestamp pod < oldest then pod_CreationTimestamp pod else oldest))"

definition updateExhaustedAutoscaler ::
  "World \<Rightarrow> Scale \<Rightarrow> ('r, 'y, 'm) RState \<Rightarrow> (Duration \<times> goerr option \<times> ('r, 'y, 'm) RState) exec" where
  "updateExhaustedAutoscaler w scale st =
     (let autoscaler = rs_Autoscaler st;
          notExhausted = mkCondition ConditionExhausted ConditionFalse [] [];
          finish = (\<lambda>c. Ret (NotRequeue, None, setCond (w_Clock w AtSetExhausted) c st));
          fail = (\<lambda>err. Ret (RequeueDelayOnErrorState, Some err, st))
      in case spec_Exhaust (ra_Spec autoscaler) of
           None \<Rightarrow> finish notExhausted
         | Some exhaust \<Rightarrow>
             if ex_Type exhaust \<noteq> ExhaustOnPending then finish notExhausted
             else
               (case w_LabelsParse w (scale_Status_Selector scale) of
                  Inl err \<Rightarrow> fail err
                | Inr scaledObjectSelector \<Rightarrow>
                    (case w_PodLister w 0 (ra_Namespace autoscaler) scaledObjectSelector of
                       Inl err \<Rightarrow> fail err
                     | Inr pods \<Rightarrow>
                         (let (pendingCount, oldestPendingBornAt) = pendingLoop pods (0, w_Clock w AtPendingStart) in
                          case ex_Pending exhaust of
                            None \<Rightarrow> nilDeref
                          | Some pending \<Rightarrow>
                              (case w_ScaledValue w (ep_Threshold pending) (st_CurrentReplicas (rs_Status st)) True of
                                 Inl err \<Rightarrow> fail err
                               | Inr numberThreshold \<Rightarrow>
                                   if numberThreshold < pendingCount \<and>
                                      seconds (ep_TimeoutSeconds pending)
                                        < time_Sub (w_Clock w AtPendingSince) oldestPendingBornAt
                                   then finish (mkCondition ConditionExhausted ConditionTrue ''ExhaustedOnPending''
                                      (''Pending pods count is over threshold `'' @ show_int numberThreshold @
                                       ''` and oldest pending pod waiting over timeout `'' @
                                       show_int (ep_TimeoutSeconds pending) @ ''` second(s)''))
                                   else finish notExhausted)))))"

subsection \<open>Asking the scalers\<close>

definition zeroRef :: CrossVersionObjectReference where
  "zeroRef = \<lparr>ref_Kind = [], ref_Name = [], ref_APIVersion = []\<rparr>"

text \<open>
  The loop over the targets. The result is the delay of an early return or the outputs and managed names
  collected; \<open>i\<close> counts the targets, and \<open>w_Occasion w i\<close> is the occasion of the scaler call.
\<close>

fun scalerLoop ::
  "World \<Rightarrow> Time \<Rightarrow> Selector \<Rightarrow> Scale \<Rightarrow> nat \<Rightarrow> ReplicaAutoscalerTarget list \<Rightarrow>
   (string \<times> ScalerOutput) list \<Rightarrow> string list \<Rightarrow> ('r, 'y, 'm) RState \<Rightarrow>
   ((Duration + (string \<times> ScalerOutput) list \<times> string list) \<times> ('r, 'y, 'm) RState) exec" where
  "scalerLoop w now selector scale i [] outputs managed st = Ret (Inr (outputs, managed), st)"
| "scalerLoop w now selector scale i (target # targets) outputs managed st =
     (case GetScheduledSettingsRaw (w_MergePatch w) (w_TimeEnv w) now (tgt_Settings target) of
        Panic m \<Rightarrow> Panic m
      | Ret (Inl err) \<Rightarrow> Ret (Inl RequeueDelayOnErrorState, st)
      | Ret (Inr scheduledTargetSettings) \<Rightarrow>
          (case GetScaler (rs_Engine st) (tgt_Metric target) of
             None \<Rightarrow>
               Ret (Inl DefaultRequeueDelay,
                    setCond (w_Clock w AtNoScaler)
                      (mkCondition ConditionReady ConditionFalse ''ScalerNotExists''
                         (''Scaler `'' @ tgt_Metric target @ ''` not exists for target'')) st)
           | Some scaler \<Rightarrow>
               (case scaler (w_Occasion w i)
                       \<lparr>sc_PodLister = w_PodLister w (Suc i), sc_RawSettings = scheduledTargetSettings,
                        sc_ScaleTargetRef = zeroRef, sc_Namespace = ra_Namespace (rs_Autoscaler st),
                        sc_ScaledObjectSelector = selector, sc_CurrentReplicas = scale_Spec_Replicas scale\<rparr>
                       (rs_Status st) of
                  Panic m \<Rightarrow> Panic m
                | Ret (Inl err, status) \<Rightarrow> Ret (Inl RequeueDelayOnErrorState, setStatus status st)
                | Ret (Inr scalerOutput, status) \<Rightarrow>
                    scalerLoop w now selector scale (Suc i) targets
                      (setOutput (tgt_Metric target) scalerOutput outputs)
                      (managed @ so_ManagedTargetStatus scalerOutput) (setStatus status st))))"

subsection \<open>Limiting the replica count\<close>

definition getWorkingReplicaPatch :: "World \<Rightarrow> ReplicaAutoscaler \<Rightarrow> ReplicaPatch option result exec" where
  "getWorkingReplicaPatch w autoscaler =
     (case GetReplicaPatches (w_UnmarshalPatches w) autoscaler of
        Inl err \<Rightarrow> Ret (Inl err)
      | Inr replicaPatches \<Rightarrow>
          GetReplicaPatch (w_TimeEnv w) (w_Clock w AtWorkingPatch)
            (case replicaPatches of None \<Rightarrow> [] | Some ps \<Rightarrow> ps))"

text \<open>The range in force, (\<^verbatim>\<open>minReplicas\<close>, \<^verbatim>\<open>maxReplicas\<close>), with the condition that reports it.\<close>

definition replicaRange ::
  "World \<Rightarrow> ('r, 'y, 'm) RState \<Rightarrow> (int \<times> int \<times> ('r, 'y, 'm) RState) exec" where
  "replicaRange w st =
     (let spec = ra_Spec (rs_Autoscaler st);
          maxReplicas = spec_MaxReplicas spec;
          minReplicas = (case spec_MinReplicas spec of None \<Rightarrow> DefaultMinReplicas | Some n \<Rightarrow> n);
          st1 = setCond (w_Clock w AtUnpatched)
                  (mkCondition ConditionReplicaPatched ConditionFalse ''No replica patch applied'' []) st
      in case getWorkingReplicaPatch w (rs_Autoscaler st1) of
           Panic m \<Rightarrow> Panic m
         | Ret (Inl err) \<Rightarrow> Ret (minReplicas, maxReplicas, st1)
         | Ret (Inr None) \<Rightarrow> Ret (minReplicas, maxReplicas, st1)
         | Ret (Inr (Some p)) \<Rightarrow>
             Ret (rp_MinReplicas p, rp_MaxReplicas p,
                  setCond (w_Clock w AtPatched)
                    (mkCondition ConditionReplicaPatched ConditionTrue
                       (''Applied replica patch ['' @ show_int (rp_MinReplicas p) @ '', '' @
                        show_int (rp_MaxReplicas p) @ '']'') []) st1))"

text \<open>(the limited count, \<^verbatim>\<open>scalingLimitedReason\<close>): the maximum first, then the minimum.\<close>

definition limitReplicas :: "int \<Rightarrow> int \<Rightarrow> int \<Rightarrow> int \<times> string" where
  "limitReplicas minReplicas maxReplicas desiredReplicas =
     (let (d1, reason1) = (if maxReplicas < desiredReplicas then (maxReplicas, ''ReachMaxReplicas'')
                           else (desiredReplicas, []))
      in if d1 < minReplicas then (minReplicas, ''ReachMinimalReplicas'') else (d1, reason1))"

definition scalingEvent :: "int \<Rightarrow> int \<Rightarrow> ('r, 'y, 'm) RState \<Rightarrow> ('r, 'y, 'm) RState" where
  "scalingEvent current desiredReplicas st =
     (if current = desiredReplicas then st
      else if current < desiredReplicas
      then Eventf EventTypeNormal EventReasonScaling
             (''New replica '' @ show_int desiredReplicas @ ''; resource(s) are requiring scale-up'') st
      else Eventf EventTypeNormal EventReasonScaling
             (''New replica '' @ show_int desiredReplicas @
              ''; all resources are below target trying to scale-down'') st)"

definition limitedCondition :: "string \<Rightarrow> Condition" where
  "limitedCondition reason =
     (if reason \<noteq> [] then mkCondition ConditionScaleLimited ConditionTrue reason []
      else mkCondition ConditionScaleLimited ConditionFalse [] [])"

subsection \<open>Panic mode\<close>

definition updatePanicMode ::
  "World \<Rightarrow> bool \<Rightarrow> Scale \<Rightarrow> int \<Rightarrow> ('r, 'y, 'm) RState \<Rightarrow> Duration \<times> ('r, 'y, 'm) RState" where
  "updatePanicMode w underPanicModeCurrently scale desiredReplicas st =
     (let strategy = spec_Strategy (ra_Spec (rs_Autoscaler st)) in
      if ShouldEnterPanicMode (w_AsApproximateFloat64 w) desiredReplicas (scale_Spec_Replicas scale) strategy then
        let st1 = (if underPanicModeCurrently then st
                   else Eventf EventTypeWarning EventReasonPanicMode
                     (''Enter panic mode: '' @ show_int (scale_Spec_Replicas scale) @ '' -> '' @
                      show_int desiredReplicas @ ''(threshold '' @
                      w_FormatFloat2 w (w_AsApproximateFloat64 w (the (PanicThreshold (the strategy)))) @
                      '' with window '' @
                      w_DurationString w (seconds (the (PanicWindowSeconds (the strategy)))) @ '').'') st)
        in (RequeueDelayOnPanicState,
            setCond (w_Clock w AtPanicOn) (mkCondition ConditionPanicMode ConditionTrue [] []) st1)
      else
        let st2 =
          (if StillInPanicMode (w_Clock w AtStillPanicAfter) (rs_Status st) strategy then st
           else
             let st1 = (if cond_Status (GetCondition (st_Conditions (rs_Status st)) ConditionPanicMode) = ConditionTrue
                        then Eventf EventTypeWarning EventReasonPanicMode
                               (''Exit panic mode: '' @ show_int (scale_Spec_Replicas scale) @ '' -> '' @
                                show_int desiredReplicas @ ''.'') st
                        else st)
             in setCond (w_Clock w AtPanicOff) (mkCondition ConditionPanicMode ConditionFalse [] []) st1)
        in (DefaultRequeueDelay, st2))"

subsection \<open>The autoscaling flow\<close>

type_synonym 'r GetDesired = "(nat \<Rightarrow> Time) \<Rightarrow> ReplicatorContext \<Rightarrow> 'r \<Rightarrow> int result \<times> 'r"

text \<open>From the replicator's count to the scale update and panic mode.\<close>

definition applyReplicas ::
  "World \<Rightarrow> bool \<Rightarrow> GroupVersionKindResource \<Rightarrow> Scale \<Rightarrow> int \<Rightarrow> ('r, 'y, 'm) RState \<Rightarrow>
   (Duration \<times> ('r, 'y, 'm) RState) exec" where
  "applyReplicas w underPanicModeCurrently gvkr scale wanted st =
     exec_bind (replicaRange w st) (\<lambda>(minReplicas, maxReplicas, st1).
       let (desiredReplicas, scalingLimitedReason) = limitReplicas minReplicas maxReplicas wanted;
           st2 = scalingEvent (scale_Spec_Replicas scale) desiredReplicas st1;
           st3 = setCond (w_Clock w AtLimited) (limitedCondition scalingLimitedReason) st2
       in case scaleReplicas w gvkr scale desiredReplicas st3 of
            (Some err, st4) \<Rightarrow> Ret (RequeueDelayOnErrorState, st4)
          | (None, st4) \<Rightarrow> Ret (updatePanicMode w underPanicModeCurrently scale desiredReplicas st4))"

definition askReplicator ::
  "'r GetDesired \<Rightarrow> World \<Rightarrow> bool \<Rightarrow> GroupVersionKindResource \<Rightarrow> Scale \<Rightarrow> (string \<times> ScalerOutput) list \<Rightarrow>
   ('r, 'y, 'm) RState \<Rightarrow> (Duration \<times> ('r, 'y, 'm) RState) exec" where
  "askReplicator getDesired w underPanicModeCurrently gvkr scale outputs st =
     (let selectedReplicator = (case spec_Replicator (ra_Spec (rs_Autoscaler st)) of
                                  None \<Rightarrow> DefaultReplicator | Some n \<Rightarrow> n)
      in case GetReplicator (rs_Engine st) selectedReplicator of
           None \<Rightarrow>
             Ret (NotRequeue,
                  setCond (w_Clock w AtNoReplicator)
                    (mkCondition ConditionReady ConditionFalse ''ReplicatorNotExists''
                       (''Replicator `'' @ selectedReplicator @ ''` not exists for target'')) st)
         | Some replicator \<Rightarrow>
             (case getDesired (\<lambda>k. w_Clock w (AtReplicator k))
                     \<lparr>rc_Autoscaler = rs_Autoscaler st, rc_Scale = scale, rc_ScalersOutput = outputs\<rparr> replicator of
                (r, replicator') \<Rightarrow>
                  (let st1 = st\<lparr>rs_Engine := AddReplicator selectedReplicator replicator' (rs_Engine st)\<rparr> in
                   case r of
                     Inl err \<Rightarrow> Ret (RequeueDelayOnErrorState, st1)
                   | Inr desiredReplicas \<Rightarrow>
                       applyReplicas w underPanicModeCurrently gvkr scale desiredReplicas st1)))"

definition coldDown :: "World \<Rightarrow> ReplicaAutoscalerStatus \<Rightarrow> bool \<Rightarrow> bool" where
  "coldDown w status underPanicModeCurrently =
     (case st_LastScaleTime status of
        None \<Rightarrow> False
      | Some t \<Rightarrow> time_Sub (w_Clock w AtColdDown) t < DefaultScalingColdDown \<and> \<not> underPanicModeCurrently)"

definition reconcileAutoscaling ::
  "'r GetDesired \<Rightarrow> World \<Rightarrow> GroupVersionKindResource \<Rightarrow> Scale \<Rightarrow> ('r, 'y, 'm) RState \<Rightarrow>
   (Duration \<times> ('r, 'y, 'm) RState) exec" where
  "reconcileAutoscaling getDesired w gvkr scale st =
     (case w_LabelsParse w (scale_Status_Selector scale) of
        Inl err \<Rightarrow> Ret (RequeueDelayOnErrorState, st)
      | Inr scaledObjectSelector \<Rightarrow>
          (let underPanicModeCurrently =
                 StillInPanicMode (w_Clock w AtStillPanic) (rs_Status st) (spec_Strategy (ra_Spec (rs_Autoscaler st)))
           in if coldDown w (rs_Status st) underPanicModeCurrently then Ret (DefaultRequeueDelay, st)
              else
                exec_bind
                  (scalerLoop w (w_Clock w AtReconcile) scaledObjectSelector scale 0
                     (spec_Targets (ra_Spec (rs_Autoscaler st))) [] [] st)
                  (\<lambda>(r, st1).
                     case r of
                       Inl delay \<Rightarrow> Ret (delay, st1)
                     | Inr (outputs, managedTargetStatus) \<Rightarrow>
                         askReplicator getDesired w underPanicModeCurrently gvkr scale outputs
                           (setStatus (PurgeTargetStatus managedTargetStatus (rs_Status st1)) st1))))"

definition reconcile ::
  "'r GetDesired \<Rightarrow> World \<Rightarrow> ('r, 'y, 'm) RState \<Rightarrow> (Duration \<times> ('r, 'y, 'm) RState) exec" where
  "reconcile getDesired w st =
     (if ra_DeletionTimestamp (rs_Autoscaler st) \<noteq> None then Ret (finalizeAutoscaler, st)
      else
        case getScaleTarget w (rs_Autoscaler st) (rs_ScalableCache st) of
          (Inl err, cache) \<Rightarrow>
            Ret (NotRequeue,
                 setCond (w_Clock w AtNoTarget)
                   (mkCondition ConditionReady ConditionFalse ''FailedToGetScaleTarget''
                      (''Failed to get scale target: '' @ errText err)) (st\<lparr>rs_ScalableCache := cache\<rparr>))
        | (Inr (gvkr, scale), cache) \<Rightarrow>
            exec_bind (updateExhaustedAutoscaler w scale (st\<lparr>rs_ScalableCache := cache\<rparr>)) (\<lambda>(delay, err, st1).
              if err \<noteq> None then Ret (RequeueDelayOnErrorState, st1)
              else
                let st2 = setStatus ((rs_Status st1)\<lparr>st_ObservedGeneration := Some (ra_Generation (rs_Autoscaler st1)),
                                                     st_CurrentReplicas := scale_Status_Replicas scale\<rparr>) st1
                in exec_bind
                     (if spec_MinReplicas (ra_Spec (rs_Autoscaler st2)) = None
                      then (case scaleReplicas w gvkr scale (spec_MaxReplicas (ra_Spec (rs_Autoscaler st2))) st2 of
                              (Some err, st3) \<Rightarrow> Ret (RequeueDelayOnErrorState, st3)
                            | (None, st3) \<Rightarrow> Ret (delay, st3))
                      else reconcileAutoscaling getDesired w gvkr scale st2)
                     (\<lambda>(requeueDelay, st3).
                        Ret (requeueDelay,
                             setCond (w_Clock w AtReady) (mkCondition ConditionReady ConditionTrue [] []) st3))))"

subsection \<open>One reconciliation request\<close>

definition updateAutoscalerIfNeeded ::
  "World \<Rightarrow> ReplicaAutoscaler \<Rightarrow> ('r, 'y, 'm) RState \<Rightarrow> (Duration \<times> goerr option) \<times> ('r, 'y, 'm) RState" where
  "updateAutoscalerIfNeeded w observedAutoscaler st =
     (let replicaAutoscaler = rs_Autoscaler st;
          annotationsEqual = w_AnnotationsEqual w (ra_Annotations replicaAutoscaler) (ra_Annotations observedAutoscaler);
          statusEqual = w_StatusEqual w (ra_Status replicaAutoscaler) (ra_Status observedAutoscaler)
      in if annotationsEqual \<and> statusEqual then ((0, None), st)
         else
           let observed = observedAutoscaler\<lparr>ra_Annotations := ra_Annotations replicaAutoscaler,
                                             ra_Status := ra_Status replicaAutoscaler\<rparr>;
               answer = (\<lambda>err. case err of None \<Rightarrow> (0, None) | Some e \<Rightarrow> (RequeueDelayOnErrorState, Some e))
           in if annotationsEqual \<and> \<not> statusEqual
              then (answer (w_StatusPatch w observed), st\<lparr>rs_Writes := rs_Writes st @ [StatusPatch observed]\<rparr>)
              else (answer (w_Patch w observed), st\<lparr>rs_Writes := rs_Writes st @ [ObjectPatch observed]\<rparr>))"

text \<open>\<^verbatim>\<open>Reconcile\<close> for the request \<open>namespace/name\<close>: (\<^verbatim>\<open>RequeueAfter\<close>, error). The state
  between requests is everything but the object, which is read again.\<close>

definition Reconcile ::
  "'r GetDesired \<Rightarrow> World \<Rightarrow> string \<Rightarrow> string \<Rightarrow> ('r, 'y, 'm) RState \<Rightarrow>
   ((Duration \<times> goerr option) \<times> ('r, 'y, 'm) RState) exec" where
  "Reconcile getDesired w namespace name st =
     (case w_CacheGet w namespace name of
        Inl err \<Rightarrow> Ret ((0, Some err), st)
      | Inr replicaAutoscaler \<Rightarrow>
          (let purged = snd (PurgeUnusedReplicaPatches (w_UnmarshalPatches w) (w_MarshalPatches w) (w_TimeEnv w)
                               (\<lambda>i. w_Clock w (AtPurge i)) replicaAutoscaler)
           in exec_bind (reconcile getDesired w (st\<lparr>rs_Autoscaler := purged\<rparr>)) (\<lambda>(requeueDelay, st1).
                case updateAutoscalerIfNeeded w replicaAutoscaler st1 of
                  ((updateRequeueDelay, Some err), st2) \<Rightarrow> Ret ((updateRequeueDelay, Some err), st2)
                | ((_, None), st2) \<Rightarrow> Ret ((requeueDelay, None), st2))))"

end
