(* ===== verification/Reconciler_Frame.thy ===== *)
theory Reconciler_Frame
  imports Reconciler
begin

text \<open>
  What each step of a reconciliation leaves alone and what it adds: one lemma per operation of
  \<^verbatim>\<open>controllers/\<close>, from the field updates up to \<^verbatim>\<open>reconcile\<close> and \<^verbatim>\<open>Reconcile\<close>. The properties
  of the controller are read off these.
\<close>

subsection \<open>Field updates\<close>

lemma setStatus_frame [simp]:
  "rs_Status (setStatus s st) = s"
  "rs_Events (setStatus s st) = rs_Events st"
  "rs_Updates (setStatus s st) = rs_Updates st"
  "rs_Writes (setStatus s st) = rs_Writes st"
  "rs_Engine (setStatus s st) = rs_Engine st"
  "rs_ScalableCache (setStatus s st) = rs_ScalableCache st"
  "ra_Spec (rs_Autoscaler (setStatus s st)) = ra_Spec (rs_Autoscaler st)"
  "ra_Annotations (rs_Autoscaler (setStatus s st)) = ra_Annotations (rs_Autoscaler st)"
  "ra_Namespace (rs_Autoscaler (setStatus s st)) = ra_Namespace (rs_Autoscaler st)"
  "ra_Name (rs_Autoscaler (setStatus s st)) = ra_Name (rs_Autoscaler st)"
  "ra_Generation (rs_Autoscaler (setStatus s st)) = ra_Generation (rs_Autoscaler st)"
  "ra_DeletionTimestamp (rs_Autoscaler (setStatus s st)) = ra_DeletionTimestamp (rs_Autoscaler st)"
  by (simp_all add: setStatus_def)

lemma setCond_status [simp]:
  "st_Conditions (rs_Status (setCond now c st)) = SetCondition now (st_Conditions (rs_Status st)) c"
  "st_LastScaleTime (rs_Status (setCond now c st)) = st_LastScaleTime (rs_Status st)"
  "st_DesiredReplicas (rs_Status (setCond now c st)) = st_DesiredReplicas (rs_Status st)"
  "st_CurrentReplicas (rs_Status (setCond now c st)) = st_CurrentReplicas (rs_Status st)"
  "st_Targets (rs_Status (setCond now c st)) = st_Targets (rs_Status st)"
  "st_ObservedGeneration (rs_Status (setCond now c st)) = st_ObservedGeneration (rs_Status st)"
  by (simp_all add: setCond_def)

lemma setCond_frame [simp]:
  "rs_Events (setCond now c st) = rs_Events st"
  "rs_Updates (setCond now c st) = rs_Updates st"
  "rs_Writes (setCond now c st) = rs_Writes st"
  "rs_Engine (setCond now c st) = rs_Engine st"
  "ra_Spec (rs_Autoscaler (setCond now c st)) = ra_Spec (rs_Autoscaler st)"
  "ra_Annotations (rs_Autoscaler (setCond now c st)) = ra_Annotations (rs_Autoscaler st)"
  "ra_Namespace (rs_Autoscaler (setCond now c st)) = ra_Namespace (rs_Autoscaler st)"
  "ra_Generation (rs_Autoscaler (setCond now c st)) = ra_Generation (rs_Autoscaler st)"
  by (simp_all add: setCond_def)

lemma Eventf_frame [simp]:
  "rs_Autoscaler (Eventf ty re msg st) = rs_Autoscaler st"
  "rs_Updates (Eventf ty re msg st) = rs_Updates st"
  "rs_Writes (Eventf ty re msg st) = rs_Writes st"
  "rs_Engine (Eventf ty re msg st) = rs_Engine st"
  by (simp_all add: Eventf_def)

lemma scalingEvent_frame [simp]:
  "rs_Autoscaler (scalingEvent c d st) = rs_Autoscaler st"
  "rs_Updates (scalingEvent c d st) = rs_Updates st"
  "rs_Writes (scalingEvent c d st) = rs_Writes st"
  "rs_Engine (scalingEvent c d st) = rs_Engine st"
  by (simp_all add: scalingEvent_def)

subsection \<open>The object during a reconciliation\<close>

text \<open>Only the status of the object changes, its conditions only through \<^verbatim>\<open>SetCondition\<close> on the given
  types, and nothing is written to the API server.\<close>

definition conds_reach :: "ConditionType set \<Rightarrow> Conditions \<Rightarrow> Conditions \<Rightarrow> bool" where
  "conds_reach T cs cs' \<longleftrightarrow>
     (\<exists>calls. snd ` set calls \<subseteq> {c. cond_Type c \<in> T} \<and> cs' = fold (\<lambda>(now, c) cs. SetCondition now cs c) calls cs)"

lemma conds_reach_refl [simp, intro]: "conds_reach T cs cs"
  unfolding conds_reach_def by (rule exI [of _ "[]"]) simp

lemma conds_reach_set [intro]: "conds_reach T cs cs' \<Longrightarrow> cond_Type c \<in> T \<Longrightarrow> conds_reach T cs (SetCondition now cs' c)"
  unfolding conds_reach_def
proof (elim exE conjE)
  fix calls
  assume "snd ` set calls \<subseteq> {c. cond_Type c \<in> T}" "cond_Type c \<in> T"
    "cs' = fold (\<lambda>(now, c) cs. SetCondition now cs c) calls cs"
  then show "\<exists>calls. snd ` set calls \<subseteq> {c. cond_Type c \<in> T} \<and>
     SetCondition now cs' c = fold (\<lambda>(now, c) cs. SetCondition now cs c) calls cs"
    by (intro exI [of _ "calls @ [(now, c)]"]) auto
qed

lemma conds_reach_trans: "conds_reach T cs cs' \<Longrightarrow> conds_reach T cs' cs'' \<Longrightarrow> conds_reach T cs cs''"
  unfolding conds_reach_def
proof (elim exE conjE)
  fix xs ys
  assume "snd ` set xs \<subseteq> {c. cond_Type c \<in> T}" "snd ` set ys \<subseteq> {c. cond_Type c \<in> T}"
    "cs' = fold (\<lambda>(now, c) cs. SetCondition now cs c) xs cs"
    "cs'' = fold (\<lambda>(now, c) cs. SetCondition now cs c) ys cs'"
  then show "\<exists>calls. snd ` set calls \<subseteq> {c. cond_Type c \<in> T} \<and>
     cs'' = fold (\<lambda>(now, c) cs. SetCondition now cs c) calls cs"
    by (intro exI [of _ "xs @ ys"]) auto
qed

lemma conds_reach_mono: "conds_reach T cs cs' \<Longrightarrow> T \<subseteq> T' \<Longrightarrow> conds_reach T' cs cs'"
  unfolding conds_reach_def by fastforce

lemma conds_reach_other:
  assumes "conds_reach T cs cs'" "ty \<notin> T"
  shows "GetCondition cs' ty = GetCondition cs ty"
proof -
  have "GetCondition (fold (\<lambda>(now, c) cs. SetCondition now cs c) calls cs) ty = GetCondition cs ty"
    if "snd ` set calls \<subseteq> {c. cond_Type c \<in> T}" for calls
    using that assms(2)
    by (induction calls arbitrary: cs) (auto simp: GetCondition_SetCondition)
  then show ?thesis using assms(1) by (auto simp: conds_reach_def)
qed

lemma conds_reach_distinct:
  assumes "conds_reach T cs cs'" "distinct (map cond_Type cs)"
  shows "distinct (map cond_Type cs')"
proof -
  have "distinct (map cond_Type (fold (\<lambda>(now, c) cs. SetCondition now cs c) calls cs))" for calls
    using assms(2) by (induction calls arbitrary: cs) (auto simp: SetCondition_distinct)
  then show ?thesis using assms(1) by (auto simp: conds_reach_def)
qed

definition same_object :: "('r, 'y, 'm) RState \<Rightarrow> ('r, 'y, 'm) RState \<Rightarrow> bool" where
  "same_object st st' \<longleftrightarrow> (\<exists>s. rs_Autoscaler st' = (rs_Autoscaler st)\<lparr>ra_Status := s\<rparr>) \<and>
                          rs_Writes st' = rs_Writes st"

lemma same_object_refl [simp]: "same_object st st"
  unfolding same_object_def by (intro conjI exI [of _ "rs_Status st"]) simp_all

lemma same_object_trans: "same_object st st1 \<Longrightarrow> same_object st1 st2 \<Longrightarrow> same_object st st2"
  by (auto simp: same_object_def)

lemma same_object_fields:
  assumes "same_object st st'"
  shows "ra_Spec (rs_Autoscaler st') = ra_Spec (rs_Autoscaler st)"
    and "ra_Annotations (rs_Autoscaler st') = ra_Annotations (rs_Autoscaler st)"
    and "ra_Namespace (rs_Autoscaler st') = ra_Namespace (rs_Autoscaler st)"
    and "ra_Generation (rs_Autoscaler st') = ra_Generation (rs_Autoscaler st)"
    and "rs_Writes st' = rs_Writes st"
  using assms by (auto simp: same_object_def)

lemma same_object_steps [simp]:
  "same_object st (setStatus s st)"
  "same_object st (setCond now c st)"
  "same_object st (Eventf ty re msg st)"
  "same_object st (scalingEvent a b st)"
  unfolding same_object_def setCond_def setStatus_def Eventf_def scalingEvent_def
  by (auto intro: exI [of _ "rs_Status st"])

subsection \<open>Summary of a step\<close>

text \<open>A step that keeps the object (up to its status), sets conditions of the types \<open>T\<close> only, and sends
  the scale updates \<open>us\<close>.\<close>

definition step_sum ::
  "ConditionType set \<Rightarrow> ScaleUpdate list \<Rightarrow> ('r, 'y, 'm) RState \<Rightarrow> ('r, 'y, 'm) RState \<Rightarrow> bool" where
  "step_sum T us st st' \<longleftrightarrow> same_object st st' \<and>
     conds_reach T (st_Conditions (rs_Status st)) (st_Conditions (rs_Status st')) \<and>
     rs_Updates st' = rs_Updates st @ us \<and> ep_scalers (rs_Engine st') = ep_scalers (rs_Engine st)"

lemma step_sum_trans:
  "step_sum T us st st1 \<Longrightarrow> step_sum T us' st1 st2 \<Longrightarrow> step_sum T (us @ us') st st2"
  unfolding step_sum_def by (auto intro: same_object_trans conds_reach_trans)

lemma step_sum_trans_quiet:
  "step_sum T [] st st1 \<Longrightarrow> step_sum T us st1 st2 \<Longrightarrow> step_sum T us st st2"
  "step_sum T us st st1 \<Longrightarrow> step_sum T [] st1 st2 \<Longrightarrow> step_sum T us st st2"
  using step_sum_trans [of T "[]" st st1 us st2] step_sum_trans [of T us st st1 "[]" st2] by simp_all

lemma step_sum_mono: "step_sum T us st st' \<Longrightarrow> T \<subseteq> T' \<Longrightarrow> step_sum T' us st st'"
  unfolding step_sum_def by (auto intro: conds_reach_mono)

lemma step_sum_refl [simp]: "step_sum T [] st st"
  by (simp add: step_sum_def)

lemma step_sum_setCond: "cond_Type c \<in> T \<Longrightarrow> step_sum T [] st (setCond now c st)"
  by (auto simp: step_sum_def)

lemma step_sum_setStatus: "st_Conditions s = st_Conditions (rs_Status st) \<Longrightarrow> step_sum T [] st (setStatus s st)"
  by (simp add: step_sum_def)

lemma step_sum_event [simp]:
  "step_sum T [] st (Eventf ty re msg st)" "step_sum T [] st (scalingEvent a b st)"
  by (simp_all add: step_sum_def)

lemma step_sum_engine [simp]:
  "step_sum T [] st (st\<lparr>rs_Engine := AddReplicator n r (rs_Engine st)\<rparr>)" "step_sum T [] st (st\<lparr>rs_ScalableCache := c\<rparr>)"
  unfolding step_sum_def same_object_def AddReplicator_def by (auto intro: exI [of _ "rs_Status st"])

lemma step_sumD:
  assumes "step_sum T us st st'"
  shows "same_object st st'" "rs_Updates st' = rs_Updates st @ us"
    "ty \<notin> T \<Longrightarrow> GetCondition (st_Conditions (rs_Status st')) ty = GetCondition (st_Conditions (rs_Status st)) ty"
  using assms conds_reach_other unfolding step_sum_def by auto

subsection \<open>Operations\<close>

definition scaleUpdates :: "ReplicaAutoscaler \<Rightarrow> GroupVersionKindResource \<Rightarrow> Scale \<Rightarrow> int \<Rightarrow> ScaleUpdate list" where
  "scaleUpdates ra gvkr scale d =
     (if scale_Spec_Replicas scale = d \<or> fmlookup (ra_Annotations ra) DryRunAnnotation \<noteq> Some ''false'' then []
      else [\<lparr>su_Namespace = scale_Namespace scale, su_Resource = GroupResource gvkr,
             su_Scale = scale\<lparr>scale_Spec_Replicas := d\<rparr>\<rparr>])"

lemma scaleReplicas_sum:
  assumes "scaleReplicas w gvkr scale d st = (err, st')"
  shows "step_sum {ConditionReady} (scaleUpdates (rs_Autoscaler st) gvkr scale d) st st'"
    and "st_DesiredReplicas (rs_Status st') = d"
    and "st_LastScaleTime (rs_Status st') =
           (if scale_Spec_Replicas scale = d \<or> err \<noteq> None then st_LastScaleTime (rs_Status st)
            else Some (w_Clock w AtLastScale))"
    and "rs_Engine st' = rs_Engine st" and "rs_Events st' = rs_Events st"
    and "st_Targets (rs_Status st') = st_Targets (rs_Status st)"
    and "err \<noteq> None \<longrightarrow> scaleUpdates (rs_Autoscaler st) gvkr scale d \<noteq> []"
proof -
  have flag: "(case fmlookup m k of None \<Rightarrow> [] | Some v \<Rightarrow> v) = ''false'' \<longleftrightarrow> fmlookup m k = Some ''false''"
    for m :: "(string, string) fmap" and k by (auto split: option.splits)
  note defs = scaleReplicas_def Let_def flag scaleUpdates_def
  show "step_sum {ConditionReady} (scaleUpdates (rs_Autoscaler st) gvkr scale d) st st'"
    using assms unfolding defs step_sum_def same_object_def
    by (auto simp: setStatus_def setCond_def intro!: conds_reach_set split: if_splits option.splits)
  show "st_DesiredReplicas (rs_Status st') = d" "rs_Engine st' = rs_Engine st" "rs_Events st' = rs_Events st"
    "st_Targets (rs_Status st') = st_Targets (rs_Status st)"
    "st_LastScaleTime (rs_Status st') =
           (if scale_Spec_Replicas scale = d \<or> err \<noteq> None then st_LastScaleTime (rs_Status st)
            else Some (w_Clock w AtLastScale))"
    "err \<noteq> None \<longrightarrow> scaleUpdates (rs_Autoscaler st) gvkr scale d \<noteq> []"
    using assms unfolding defs by (auto simp: setStatus_def setCond_def split: if_splits option.splits)
qed

definition scalers_ok :: "('r, 'y, 'm) engineProvisioner \<Rightarrow> bool" where
  "scalers_ok e \<longleftrightarrow> (\<forall>n s. GetScaler e n = Some s \<longrightarrow> scaler_contract s)"

lemma scalerLoop_ConsE:
  assumes "scalerLoop w now sel scale i (target # targets) outs managed st = Ret (r, st')"
  obtains (stopped) d where "r = Inl d" "st' = st"
  | (unknown) d c where "r = Inl d" "st' = setCond (w_Clock w AtNoScaler) c st" "cond_Type c = ConditionReady"
  | (failed) d scaler ctx e status where "r = Inl d" "GetScaler (rs_Engine st) (tgt_Metric target) = Some scaler"
      "scaler (w_Occasion w i) ctx (rs_Status st) = Ret (Inl e, status)" "st' = setStatus status st"
  | (answered) scaler ctx out status where "GetScaler (rs_Engine st) (tgt_Metric target) = Some scaler"
      "scaler (w_Occasion w i) ctx (rs_Status st) = Ret (Inr out, status)"
      "scalerLoop w now sel scale (Suc i) targets (setOutput (tgt_Metric target) out outs)
         (managed @ so_ManagedTargetStatus out) (setStatus status st) = Ret (r, st')"
  using assms that
  by (auto simp only: scalerLoop.simps split: exec.splits sum.splits option.splits prod.splits) auto

lemma scalerLoop_object:
  "scalerLoop w now sel scale i targets outs managed st = Ret (r, st') \<Longrightarrow>
   same_object st st' \<and> rs_Updates st' = rs_Updates st \<and> rs_Events st' = rs_Events st \<and> rs_Engine st' = rs_Engine st"
proof (induction targets arbitrary: i outs managed st)
  case (Cons target targets)
  from Cons.prems show ?case
  proof (cases rule: scalerLoop_ConsE)
    case (answered scaler ctx out status)
    from Cons.IH [OF answered(3)] show ?thesis
      using same_object_trans [OF same_object_steps(1) [of st status]] by auto
  qed auto
qed simp

lemma scalerLoop_delay:
  "scalerLoop w now sel scale i targets outs managed st = Ret (Inl d, st') \<Longrightarrow> d \<noteq> RequeueDelayOnPanicState"
proof (induction targets arbitrary: i outs managed st)
  case (Cons target targets)
  then show ?case
    by (auto simp: requeue_delays split: exec.splits sum.splits option.splits prod.splits)
qed simp

lemma scaler_frame:
  assumes "scalers_ok e" "GetScaler e n = Some f" "f i ctx s = Ret (x, s')"
  shows "st_Conditions s' = st_Conditions s" "st_LastScaleTime s' = st_LastScaleTime s"
    "st_DesiredReplicas s' = st_DesiredReplicas s"
proof -
  have "s' = s\<lparr>st_Targets := st_Targets s'\<rparr>"
    using scaler_contract.Get_frame assms unfolding scalers_ok_def by blast
  then obtain ts where "s' = s\<lparr>st_Targets := ts\<rparr>" by blast
  then show "st_Conditions s' = st_Conditions s" "st_LastScaleTime s' = st_LastScaleTime s"
    "st_DesiredReplicas s' = st_DesiredReplicas s" by simp_all
qed

lemma scalerLoop_sum:
  "scalerLoop w now sel scale i targets outs managed st = Ret (r, st') \<Longrightarrow> scalers_ok (rs_Engine st) \<Longrightarrow>
   step_sum {ConditionReady} [] st st' \<and>
   st_LastScaleTime (rs_Status st') = st_LastScaleTime (rs_Status st) \<and>
   st_DesiredReplicas (rs_Status st') = st_DesiredReplicas (rs_Status st)"
proof (induction targets arbitrary: i outs managed st)
  case (Cons target targets)
  note ok = Cons.prems(2)
  from Cons.prems(1) show ?case
  proof (cases rule: scalerLoop_ConsE)
    case (failed d scaler ctx e status)
    then show ?thesis using scaler_frame [OF ok failed(2,3)] by (simp add: step_sum_setStatus)
  next
    case (answered scaler ctx out status)
    note f = scaler_frame [OF ok answered(1,2)]
    have "step_sum {ConditionReady} [] st (setStatus status st)" using f by (intro step_sum_setStatus) simp
    with Cons.IH [OF answered(3)] ok f show ?thesis by (auto intro: step_sum_trans_quiet)
  qed (auto simp: step_sum_setCond)
qed simp

subsection \<open>The range in force\<close>

definition effectiveRange :: "World \<Rightarrow> ReplicaAutoscaler \<Rightarrow> int \<times> int" where
  "effectiveRange w ra =
     (case getWorkingReplicaPatch w ra of
        Ret (Inr (Some p)) \<Rightarrow> (rp_MinReplicas p, rp_MaxReplicas p)
      | _ \<Rightarrow> (case spec_MinReplicas (ra_Spec ra) of None \<Rightarrow> DefaultMinReplicas | Some n \<Rightarrow> n,
              spec_MaxReplicas (ra_Spec ra)))"

lemma getWorkingReplicaPatch_status [simp]:
  "getWorkingReplicaPatch w (ra\<lparr>ra_Status := s\<rparr>) = getWorkingReplicaPatch w ra"
  by (simp add: getWorkingReplicaPatch_def GetReplicaPatches_def)

lemma effectiveRange_same:
  assumes "same_object st st'" shows "effectiveRange w (rs_Autoscaler st') = effectiveRange w (rs_Autoscaler st)"
  using assms by (auto simp: same_object_def effectiveRange_def split: exec.splits sum.splits option.splits)

lemma replicaRange_sum:
  assumes "replicaRange w st = Ret (lo, hi, st')"
  shows "step_sum {ConditionReplicaPatched} [] st st'" "(lo, hi) = effectiveRange w (rs_Autoscaler st)"
    "rs_Engine st' = rs_Engine st" "rs_Events st' = rs_Events st"
    "st_LastScaleTime (rs_Status st') = st_LastScaleTime (rs_Status st)"
proof -
  define st1 where "st1 = setCond (w_Clock w AtUnpatched)
      (mkCondition ConditionReplicaPatched ConditionFalse ''No replica patch applied'' []) st"
  have s1: "step_sum {ConditionReplicaPatched} [] st st1" unfolding st1_def by (intro step_sum_setCond) simp
  have g: "getWorkingReplicaPatch w (rs_Autoscaler st1) = getWorkingReplicaPatch w (rs_Autoscaler st)"
    by (simp add: st1_def setCond_def setStatus_def)
  have f1: "rs_Engine st1 = rs_Engine st" "rs_Events st1 = rs_Events st"
    "st_LastScaleTime (rs_Status st1) = st_LastScaleTime (rs_Status st)" by (simp_all add: st1_def)
  note r = assms [unfolded replicaRange_def Let_def, folded st1_def, unfolded g]
  have st': "st' = st1 \<or> (\<exists>now c. cond_Type c = ConditionReplicaPatched \<and> st' = setCond now c st1)"
    using r by (auto split: exec.splits sum.splits option.splits) (metis mkCondition_sel(1))
  then show "step_sum {ConditionReplicaPatched} [] st st'"
    using s1 by (auto intro: step_sum_trans_quiet step_sum_setCond)
  show "rs_Engine st' = rs_Engine st" "rs_Events st' = rs_Events st"
    "st_LastScaleTime (rs_Status st') = st_LastScaleTime (rs_Status st)" using st' f1 by auto
  show "(lo, hi) = effectiveRange w (rs_Autoscaler st)"
    using r by (auto simp: effectiveRange_def split: exec.splits sum.splits option.splits)
qed

lemma limitReplicas_value: "fst (limitReplicas lo hi d) = max lo (min hi d)"
  by (auto simp: limitReplicas_def)

lemma limitReplicas_reason:
  "snd (limitReplicas lo hi d) =
     (if min hi d < lo then ''ReachMinimalReplicas'' else if hi < d then ''ReachMaxReplicas'' else [])"
  by (auto simp: limitReplicas_def)

subsection \<open>Panic mode\<close>

abbreviation panicCondition :: "('r, 'y, 'm) RState \<Rightarrow> Condition" where
  "panicCondition st \<equiv> GetCondition (st_Conditions (rs_Status st)) ConditionPanicMode"

lemma StillInPanicMode_cong:
  "GetCondition (st_Conditions s) ConditionPanicMode = GetCondition (st_Conditions s') ConditionPanicMode \<Longrightarrow>
   StillInPanicMode now s strategy = StillInPanicMode now s' strategy"
  by (simp add: StillInPanicMode_def)

text \<open>How a completed flow leaves panic mode: it requeues after 30 seconds when the scale update failed and
  then leaves the condition alone, after 15 seconds when panic mode was entered, and otherwise after 60.\<close>

definition panic_outcome :: "World \<Rightarrow> int \<Rightarrow> Scale \<Rightarrow> Duration \<Rightarrow> ('r, 'y, 'm) RState \<Rightarrow> ('r, 'y, 'm) RState \<Rightarrow> bool" where
  "panic_outcome w d scale delay st st' \<longleftrightarrow>
     (let strategy = spec_Strategy (ra_Spec (rs_Autoscaler st));
          enter = ShouldEnterPanicMode (w_AsApproximateFloat64 w) d (scale_Spec_Replicas scale) strategy
      in delay = RequeueDelayOnErrorState \<and> panicCondition st' = panicCondition st \<or>
         delay = RequeueDelayOnPanicState \<and> enter \<and> cond_Status (panicCondition st') = ConditionTrue \<or>
         delay = DefaultRequeueDelay \<and> \<not> enter \<and>
           (if StillInPanicMode (w_Clock w AtStillPanicAfter) (rs_Status st) strategy
            then panicCondition st' = panicCondition st
            else cond_Status (panicCondition st') = ConditionFalse))"

lemma updatePanicMode_sum:
  assumes "updatePanicMode w u scale d st = (delay, st')"
  shows "step_sum {ConditionPanicMode} [] st st'" "panic_outcome w d scale delay st st'"
    "rs_Engine st' = rs_Engine st"
    "st_LastScaleTime (rs_Status st') = st_LastScaleTime (rs_Status st)"
    "st_DesiredReplicas (rs_Status st') = st_DesiredReplicas (rs_Status st)"
proof -
  have q: "step_sum T [] st (setCond now (mkCondition ConditionPanicMode a b c) (Eventf ty re msg st))"
    if "ConditionPanicMode \<in> T" for T now a b c ty re msg
    using that by (intro step_sum_trans_quiet(1) [OF step_sum_event(1) step_sum_setCond]) simp
  show "step_sum {ConditionPanicMode} [] st st'"
    using assms by (auto simp: updatePanicMode_def Let_def q step_sum_setCond split: if_splits)
  show "panic_outcome w d scale delay st st'"
    using assms unfolding updatePanicMode_def panic_outcome_def Let_def
    by (auto simp: Status_SetCondition split: if_splits)
  show "rs_Engine st' = rs_Engine st" "st_LastScaleTime (rs_Status st') = st_LastScaleTime (rs_Status st)"
    "st_DesiredReplicas (rs_Status st') = st_DesiredReplicas (rs_Status st)"
    using assms by (auto simp: updatePanicMode_def Let_def split: if_splits)
qed

subsection \<open>The flow\<close>

definition flowTypes :: "ConditionType set" where
  "flowTypes = {ConditionReady, ConditionReplicaPatched, ConditionScaleLimited, ConditionPanicMode}"

definition limited :: "World \<Rightarrow> ReplicaAutoscaler \<Rightarrow> int \<Rightarrow> int" where
  "limited w ra n = (case effectiveRange w ra of (lo, hi) \<Rightarrow> max lo (min hi n))"

lemma limited_same: "same_object st st' \<Longrightarrow> limited w (rs_Autoscaler st') n = limited w (rs_Autoscaler st) n"
  by (simp add: limited_def effectiveRange_same)

lemma scaleUpdates_same:
  "same_object st st' \<Longrightarrow> scaleUpdates (rs_Autoscaler st') g sc d = scaleUpdates (rs_Autoscaler st) g sc d"
  by (simp add: scaleUpdates_def same_object_fields)

lemma limitedCondition_type [simp]: "cond_Type (limitedCondition r) = ConditionScaleLimited"
  by (simp add: limitedCondition_def)

text \<open>What a flow that reached the replica count \<open>d\<close> has done.\<close>

definition flow_sum ::
  "World \<Rightarrow> GroupVersionKindResource \<Rightarrow> Scale \<Rightarrow> int \<Rightarrow> Duration \<Rightarrow> ('r, 'y, 'm) RState \<Rightarrow> ('r, 'y, 'm) RState \<Rightarrow> bool" where
  "flow_sum w gvkr scale d delay st st' \<longleftrightarrow>
     step_sum flowTypes (scaleUpdates (rs_Autoscaler st) gvkr scale d) st st' \<and>
     st_DesiredReplicas (rs_Status st') = d \<and> panic_outcome w d scale delay st st' \<and>
     (st_LastScaleTime (rs_Status st') = st_LastScaleTime (rs_Status st) \<or>
      scale_Spec_Replicas scale \<noteq> d \<and> st_LastScaleTime (rs_Status st') = Some (w_Clock w AtLastScale))"

lemma panic_outcome_cong:
  assumes "same_object st st1" "panicCondition st1 = panicCondition st"
  shows "panic_outcome w d scale delay st1 st' = panic_outcome w d scale delay st st'"
  unfolding panic_outcome_def Let_def same_object_fields(1) [OF assms(1)] StillInPanicMode_cong [OF assms(2)] assms(2)
  by (rule refl)

lemma flow_sum_prefix:
  assumes "step_sum flowTypes [] st st1" "panicCondition st1 = panicCondition st"
    "st_LastScaleTime (rs_Status st1) = st_LastScaleTime (rs_Status st)" "flow_sum w gvkr scale d delay st1 st'"
  shows "flow_sum w gvkr scale d delay st st'"
proof -
  note same = step_sumD(1) [OF assms(1)]
  show ?thesis
    using assms(3,4) step_sum_trans_quiet(1) [OF assms(1)] panic_outcome_cong [OF same assms(2)]
    by (simp add: flow_sum_def scaleUpdates_same [OF same])
qed

lemma step_sum_flow: "step_sum {t} us st st' \<Longrightarrow> t \<in> flowTypes \<Longrightarrow> step_sum flowTypes us st st'"
  by (rule step_sum_mono) auto

lemma panic_type_other:
  "ConditionPanicMode \<noteq> ConditionReady" "ConditionPanicMode \<noteq> ConditionReplicaPatched"
  "ConditionPanicMode \<noteq> ConditionScaleLimited" "ConditionPanicMode \<noteq> ConditionExhausted"
  by (simp_all add: condition_types)

text \<open>The last two steps: the scale update, and panic mode when it succeeded.\<close>

lemma scale_and_panic_sum:
  assumes "scaleReplicas w gvkr scale d st = (err, st4)"
    and "(case err of Some e \<Rightarrow> (RequeueDelayOnErrorState, st4) | None \<Rightarrow> updatePanicMode w u scale d st4) = (delay, st')"
  shows "flow_sum w gvkr scale d delay st st'"
proof -
  note S = scaleReplicas_sum [OF assms(1)]
  have s4: "step_sum flowTypes (scaleUpdates (rs_Autoscaler st) gvkr scale d) st st4"
    by (rule step_sum_flow [OF S(1)]) (simp add: flowTypes_def)
  have p: "panicCondition st4 = panicCondition st"
    using step_sumD(3) [OF S(1)] panic_type_other by simp
  show ?thesis
  proof (cases err)
    case (Some e)
    then show ?thesis using assms(2) s4 S(2,3) p by (simp add: flow_sum_def panic_outcome_def Let_def)
  next
    case None
    then have u: "updatePanicMode w u scale d st4 = (delay, st')" using assms(2) by simp
    note U = updatePanicMode_sum [OF u]
    have "step_sum flowTypes (scaleUpdates (rs_Autoscaler st) gvkr scale d) st st'"
      by (rule step_sum_trans_quiet(2) [OF s4 step_sum_flow [OF U(1)]]) (simp add: flowTypes_def)
    moreover have "panic_outcome w d scale delay st st'"
      using U(2) panic_outcome_cong [OF step_sumD(1) [OF s4] p] by blast
    ultimately show ?thesis using U(4,5) S(2,3) None by (auto simp: flow_sum_def)
  qed
qed

lemma applyReplicas_sum:
  assumes "applyReplicas w u gvkr scale n st = Ret (delay, st')"
  shows "flow_sum w gvkr scale (limited w (rs_Autoscaler st) n) delay st st'"
proof -
  define d where "d = limited w (rs_Autoscaler st) n"
  obtain lo hi st1 where rr: "replicaRange w st = Ret (lo, hi, st1)"
    using assms(1) by (auto simp: applyReplicas_def exec_bind_Ret_iff)
  note R = replicaRange_sum [OF rr]
  obtain reason where dl: "limitReplicas lo hi n = (d, reason)"
    using that [of "snd (limitReplicas lo hi n)"]
    by (simp add: d_def limited_def R(2) [symmetric] limitReplicas_value [symmetric])
  define st3 where "st3 = setCond (w_Clock w AtLimited) (limitedCondition reason)
                            (scalingEvent (scale_Spec_Replicas scale) d st1)"
  obtain err st4 where sc: "scaleReplicas w gvkr scale d st3 = (err, st4)" by (cases "scaleReplicas w gvkr scale d st3")
  have "step_sum flowTypes [] st1 st3"
    unfolding st3_def by (rule step_sum_trans_quiet(1) [OF step_sum_event(2) step_sum_setCond]) (simp add: flowTypes_def)
  then have s: "step_sum flowTypes [] st st3"
    by (rule step_sum_trans_quiet(1) [OF step_sum_flow [OF R(1)], rotated]) (simp add: flowTypes_def)
  have p: "panicCondition st3 = panicCondition st"
    using step_sumD(3) [OF R(1)] panic_type_other by (simp add: st3_def GetCondition_SetCondition)
  have "(case err of Some e \<Rightarrow> (RequeueDelayOnErrorState, st4) | None \<Rightarrow> updatePanicMode w u scale d st4) = (delay, st')"
    using assms(1) sc by (simp add: applyReplicas_def rr dl st3_def [symmetric] split: option.splits)
  from scale_and_panic_sum [OF sc this] show ?thesis
    unfolding d_def [symmetric] using R(5) by (intro flow_sum_prefix [OF s p]) (simp_all add: st3_def)
qed

text \<open>
  The whole autoscaling flow: either it stops early, having sent no scale update and left the desired count,
  the scale time and panic mode alone, or it reaches the limited count of the replicator.
\<close>

lemma askReplicator_sum:
  assumes "askReplicator getDesired w u gvkr scale outs st = Ret (delay, st')"
  shows "step_sum {ConditionReady} [] st st' \<and> st_DesiredReplicas (rs_Status st') = st_DesiredReplicas (rs_Status st) \<and>
           st_LastScaleTime (rs_Status st') = st_LastScaleTime (rs_Status st) \<and> delay \<noteq> RequeueDelayOnPanicState \<or>
         (\<exists>clk ctx r r' n. getDesired clk ctx r = (Inr n, r') \<and> rc_ScalersOutput ctx = outs \<and> rc_Scale ctx = scale \<and>
            rc_Autoscaler ctx = rs_Autoscaler st \<and>
            flow_sum w gvkr scale (limited w (rs_Autoscaler st) n) delay st st')"
proof -
  define sel where "sel = (case spec_Replicator (ra_Spec (rs_Autoscaler st)) of None \<Rightarrow> DefaultReplicator | Some n \<Rightarrow> n)"
  note a = assms [unfolded askReplicator_def Let_def, folded sel_def]
  show ?thesis
  proof (cases "GetReplicator (rs_Engine st) sel")
    case None
    with a show ?thesis by (auto simp: step_sum_setCond requeue_delays)
  next
    case (Some rep)
    obtain r rep' where g: "getDesired (\<lambda>k. w_Clock w (AtReplicator k))
       \<lparr>rc_Autoscaler = rs_Autoscaler st, rc_Scale = scale, rc_ScalersOutput = outs\<rparr> rep = (r, rep')"
      by (metis surj_pair)
    define st1 where "st1 = st\<lparr>rs_Engine := AddReplicator sel rep' (rs_Engine st)\<rparr>"
    have s1: "step_sum flowTypes [] st st1" "step_sum {ConditionReady} [] st st1" by (simp_all add: st1_def)
    show ?thesis
    proof (cases r)
      case (Inl e)
      then have "st' = st1" "delay = RequeueDelayOnErrorState" using a Some g by (simp_all add: st1_def)
      then show ?thesis using s1 by (simp add: st1_def requeue_delays)
    next
      case (Inr n)
      then have "applyReplicas w u gvkr scale n st1 = Ret (delay, st')" using a Some g by (simp add: st1_def)
      from applyReplicas_sum [OF this] have "flow_sum w gvkr scale (limited w (rs_Autoscaler st) n) delay st st'"
        by (intro flow_sum_prefix [OF s1(1)]) (simp_all add: st1_def)
      with g Inr show ?thesis by fastforce
    qed
  qed
qed

lemma scalers_then_replicator_sum:
  assumes "scalerLoop w now sel scale 0 targets [] [] st = Ret (Inr (outs, managed), st1)" "scalers_ok (rs_Engine st)"
    and "askReplicator getDesired w u gvkr scale outs (setStatus (PurgeTargetStatus managed (rs_Status st1)) st1)
           = Ret (delay, st')"
  shows "step_sum {ConditionReady} [] st st' \<and> st_DesiredReplicas (rs_Status st') = st_DesiredReplicas (rs_Status st) \<and>
           st_LastScaleTime (rs_Status st') = st_LastScaleTime (rs_Status st) \<and> delay \<noteq> RequeueDelayOnPanicState \<or>
         (\<exists>clk ctx r r' n. getDesired clk ctx r = (Inr n, r') \<and> rc_Scale ctx = scale \<and> rc_ScalersOutput ctx = outs \<and>
            flow_sum w gvkr scale (limited w (rs_Autoscaler st) n) delay st st')"
proof -
  note L = scalerLoop_sum [OF assms(1,2)]
  define st2 where "st2 = setStatus (PurgeTargetStatus managed (rs_Status st1)) st1"
  have s12: "step_sum T [] st1 st2" for T
    unfolding st2_def by (intro step_sum_setStatus) (simp add: frame_simps)
  have s2: "step_sum {ConditionReady} [] st st2" by (rule step_sum_trans_quiet(1) [OF conjunct1 [OF L] s12])
  have f2: "st_LastScaleTime (rs_Status st2) = st_LastScaleTime (rs_Status st)"
    "st_DesiredReplicas (rs_Status st2) = st_DesiredReplicas (rs_Status st)"
    using L by (simp_all add: st2_def frame_simps)
  have p2: "panicCondition st2 = panicCondition st" using step_sumD(3) [OF s2] panic_type_other by simp
  have fl: "step_sum flowTypes [] st st2" by (rule step_sum_flow [OF s2]) (simp add: flowTypes_def)
  from askReplicator_sum [OF assms(3), folded st2_def] show ?thesis
  proof (elim disjE exE conjE)
    assume "step_sum {ConditionReady} [] st2 st'"
    from step_sum_trans_quiet(1) [OF s2 this] f2
    show "st_DesiredReplicas (rs_Status st') = st_DesiredReplicas (rs_Status st2) \<Longrightarrow>
        st_LastScaleTime (rs_Status st') = st_LastScaleTime (rs_Status st2) \<Longrightarrow> delay \<noteq> RequeueDelayOnPanicState \<Longrightarrow> ?thesis" by simp
  next
    fix clk ctx r r' n
    assume g: "getDesired clk ctx r = (Inr n, r')" "rc_Scale ctx = scale" "rc_ScalersOutput ctx = outs"
      and f: "flow_sum w gvkr scale (limited w (rs_Autoscaler st2) n) delay st2 st'"
    have "flow_sum w gvkr scale (limited w (rs_Autoscaler st) n) delay st st'"
      using f flow_sum_prefix [OF fl p2 f2(1)] limited_same [OF step_sumD(1) [OF s2]] by simp
    with g show ?thesis by blast
  qed
qed

abbreviation panicking :: "World \<Rightarrow> ('r, 'y, 'm) RState \<Rightarrow> bool" where
  "panicking w st \<equiv>
     StillInPanicMode (w_Clock w AtStillPanic) (rs_Status st) (spec_Strategy (ra_Spec (rs_Autoscaler st)))"

lemma reconcileAutoscaling_sum:
  assumes "reconcileAutoscaling getDesired w gvkr scale st = Ret (delay, st')" "scalers_ok (rs_Engine st)"
  shows "step_sum {ConditionReady} [] st st' \<and> st_DesiredReplicas (rs_Status st') = st_DesiredReplicas (rs_Status st) \<and>
           st_LastScaleTime (rs_Status st') = st_LastScaleTime (rs_Status st) \<and> delay \<noteq> RequeueDelayOnPanicState \<or>
         \<not> coldDown w (rs_Status st) (panicking w st) \<and>
         (\<exists>clk ctx r r' n. getDesired clk ctx r = (Inr n, r') \<and> rc_Scale ctx = scale \<and>
            flow_sum w gvkr scale (limited w (rs_Autoscaler st) n) delay st st')"
proof (cases "w_LabelsParse w (scale_Status_Selector scale)")
  case (Inl e)
  then show ?thesis using assms(1) by (auto simp: reconcileAutoscaling_def requeue_delays)
next
  case (Inr sel)
  note a = assms(1) [unfolded reconcileAutoscaling_def Let_def Inr sum.case]
  show ?thesis
  proof (cases "coldDown w (rs_Status st) (panicking w st)")
    case True
    then show ?thesis using a by (auto simp: requeue_delays)
  next
    case False
    with a obtain r st1 where l: "scalerLoop w (w_Clock w AtReconcile) sel scale 0
          (spec_Targets (ra_Spec (rs_Autoscaler st))) [] [] st = Ret (r, st1)"
      and rest: "(case r of Inl delay \<Rightarrow> Ret (delay, st1)
                  | Inr (outputs, managed) \<Rightarrow> askReplicator getDesired w (panicking w st) gvkr scale outputs
                           (setStatus (PurgeTargetStatus managed (rs_Status st1)) st1)) = Ret (delay, st')"
      by (auto simp: exec_bind_Ret_iff)
    show ?thesis
    proof (cases r)
      case (Inl d)
      then show ?thesis using rest scalerLoop_sum [OF l assms(2)] scalerLoop_delay [OF l [unfolded Inl]] by simp
    next
      case (Inr om)
      obtain outs managed where om: "om = (outs, managed)" by (cases om)
      have "askReplicator getDesired w (panicking w st) gvkr scale outs
              (setStatus (PurgeTargetStatus managed (rs_Status st1)) st1) = Ret (delay, st')"
        using rest by (simp add: Inr om)
      from scalers_then_replicator_sum [OF l [unfolded Inr om] assms(2) this] False show ?thesis by blast
    qed
  qed
qed

subsection \<open>Exhaustion and the whole reconciliation\<close>

lemma updateExhaustedAutoscaler_sum:
  assumes "updateExhaustedAutoscaler w scale st = Ret (delay, err, st')"
  shows "step_sum {ConditionExhausted} [] st st'" "err = None \<Longrightarrow> delay = NotRequeue"
    "st_DesiredReplicas (rs_Status st') = st_DesiredReplicas (rs_Status st)"
    "st_LastScaleTime (rs_Status st') = st_LastScaleTime (rs_Status st)" "rs_Engine st' = rs_Engine st"
proof -
  have "st' = st \<and> err \<noteq> None \<or>
        (\<exists>c. cond_Type c = ConditionExhausted \<and> st' = setCond (w_Clock w AtSetExhausted) c st \<and> delay = NotRequeue)"
    using assms unfolding updateExhaustedAutoscaler_def Let_def
    by (auto simp: nilDeref_def case_prod_beta split: option.splits sum.splits if_splits)
      (metis mkCondition_sel(1))+
  then show "step_sum {ConditionExhausted} [] st st'" "err = None \<Longrightarrow> delay = NotRequeue"
    "st_DesiredReplicas (rs_Status st') = st_DesiredReplicas (rs_Status st)"
    "st_LastScaleTime (rs_Status st') = st_LastScaleTime (rs_Status st)" "rs_Engine st' = rs_Engine st"
    by (auto intro: step_sum_setCond)
qed

definition allTypes :: "ConditionType set" where
  "allTypes = insert ConditionExhausted flowTypes"

text \<open>The states before the branch on the kind of scaling, and after it.\<close>

definition observe :: "Scale \<Rightarrow> ('r, 'y, 'm) RState \<Rightarrow> ('r, 'y, 'm) RState" where
  "observe scale st = setStatus ((rs_Status st)\<lparr>st_ObservedGeneration := Some (ra_Generation (rs_Autoscaler st)),
                                                st_CurrentReplicas := scale_Status_Replicas scale\<rparr>) st"

definition ready :: "World \<Rightarrow> ('r, 'y, 'm) RState \<Rightarrow> ('r, 'y, 'm) RState" where
  "ready w st = setCond (w_Clock w AtReady) (mkCondition ConditionReady ConditionTrue [] []) st"

lemma reconcileE:
  assumes "reconcile getDesired w st = Ret (delay, st')"
  obtains (deleted) "ra_DeletionTimestamp (rs_Autoscaler st) \<noteq> None" "delay = DefaultRequeueDelay" "st' = st"
  | (no_target) err cache c where "getScaleTarget w (rs_Autoscaler st) (rs_ScalableCache st) = (Inl err, cache)"
      "delay = NotRequeue" "st' = setCond (w_Clock w AtNoTarget) c (st\<lparr>rs_ScalableCache := cache\<rparr>)"
      "cond_Type c = ConditionReady" "cond_Status c = ConditionFalse" "ra_DeletionTimestamp (rs_Autoscaler st) = None"
  | (no_exhaust) gvkr scale cache d e where
      "getScaleTarget w (rs_Autoscaler st) (rs_ScalableCache st) = (Inr (gvkr, scale), cache)"
      "updateExhaustedAutoscaler w scale (st\<lparr>rs_ScalableCache := cache\<rparr>) = Ret (d, Some e, st')"
      "delay = RequeueDelayOnErrorState"
  | (static) gvkr scale cache d st1 err st3 where
      "getScaleTarget w (rs_Autoscaler st) (rs_ScalableCache st) = (Inr (gvkr, scale), cache)"
      "updateExhaustedAutoscaler w scale (st\<lparr>rs_ScalableCache := cache\<rparr>) = Ret (d, None, st1)"
      "spec_MinReplicas (ra_Spec (rs_Autoscaler st1)) = None"
      "scaleReplicas w gvkr scale (spec_MaxReplicas (ra_Spec (rs_Autoscaler st1))) (observe scale st1) = (err, st3)"
      "delay = (if err = None then d else RequeueDelayOnErrorState)" "st' = ready w st3"
  | (scaled) gvkr scale cache d st1 st3 where
      "getScaleTarget w (rs_Autoscaler st) (rs_ScalableCache st) = (Inr (gvkr, scale), cache)"
      "updateExhaustedAutoscaler w scale (st\<lparr>rs_ScalableCache := cache\<rparr>) = Ret (d, None, st1)"
      "spec_MinReplicas (ra_Spec (rs_Autoscaler st1)) \<noteq> None"
      "reconcileAutoscaling getDesired w gvkr scale (observe scale st1) = Ret (delay, st3)" "st' = ready w st3"
proof (cases "ra_DeletionTimestamp (rs_Autoscaler st)")
  case (Some t)
  then show thesis using deleted assms by (simp add: reconcile_def finalizeAutoscaler_def)
next
  case None
  obtain r cache where t: "getScaleTarget w (rs_Autoscaler st) (rs_ScalableCache st) = (r, cache)" by fastforce
  show thesis
  proof (cases r)
    case (Inl err)
    then show thesis using assms None t
      by (intro no_target [of err cache "mkCondition ConditionReady ConditionFalse ''FailedToGetScaleTarget''
            (''Failed to get scale target: '' @ errText err)"]) (simp_all add: reconcile_def)
  next
    case (Inr gs)
    obtain gvkr scale where gs: "gs = (gvkr, scale)" by (cases gs)
    note a = assms [unfolded reconcile_def t Inr gs prod.case sum.case]
    obtain d err st1 where u: "updateExhaustedAutoscaler w scale (st\<lparr>rs_ScalableCache := cache\<rparr>) = Ret (d, err, st1)"
      using a None by (auto simp: exec_bind_Ret_iff)
    show thesis
    proof (cases err)
      case (Some e)
      then show thesis using a None u t Inr gs by (intro no_exhaust [of gvkr scale cache d e]) auto
    next
      case no_err: None
      note a' = a [unfolded u exec_bind.simps prod.case no_err Let_def, folded observe_def ready_def]
      show thesis
      proof (cases "spec_MinReplicas (ra_Spec (rs_Autoscaler st1))")
        case smin: None
        obtain err2 st3 where "scaleReplicas w gvkr scale (spec_MaxReplicas (ra_Spec (rs_Autoscaler st1))) (observe scale st1)
            = (err2, st3)" by fastforce
        then show thesis using a' smin None u t Inr gs no_err
          by (intro static [of gvkr scale cache d st1 err2 st3]) (auto simp: observe_def split: option.splits)
      next
        case (Some m)
        then show thesis using a' None u t Inr gs no_err
          by (auto simp: exec_bind_Ret_iff observe_def intro: scaled [of gvkr scale cache d st1])
      qed
    qed
  qed
qed

end
