(* ===== verification/Replicator_Simple.thy ===== *)
theory Replicator_Simple
  imports Engine
begin

text \<open>
  The default replicator (\<^verbatim>\<open>plugins/replicator_simple\<close>): it takes the largest replica count any scaler
  asks for and stabilises it over a window, so that a scale-down happens only when every recommendation of
  the window agrees.

  The object's state is the map from an autoscaler's key to its recommendations. A call reads the clock up to
  three times (the first recommendation of an autoscaler, the cut-off, the stamp of the new recommendation):
  \<open>clk 0\<close>, \<open>clk 1\<close>, \<open>clk 2\<close>.

  Shown: the code, which overwrites an outdated slot, refines a specification that keeps the whole history
  (\<open>run_refines\<close>, by a simulation); the result does not depend on the iteration order of the scaler
  outputs; the object meets the contract the controller relies on (locale \<open>replicator_contract\<close>).
\<close>

subsection \<open>Configuration and state\<close>

definition DefaultDownscaleStabilizationWindow :: Duration where
  "DefaultDownscaleStabilizationWindow = 30 * Second"

record SimpleConfig =
  DownscaleStabilizationWindow :: Duration

definition Simple_NewDefaultConfig :: SimpleConfig where
  "Simple_NewDefaultConfig = \<lparr>DownscaleStabilizationWindow = DefaultDownscaleStabilizationWindow\<rparr>"

definition Simple_Validate :: "SimpleConfig \<Rightarrow> goerr option" where
  "Simple_Validate c =
     (if DownscaleStabilizationWindow c < 0
      then Some (errNew ''downscale stabilization window must be positive'') else None)"

record timestampedRecommendation =
  timestamp :: Time
  replicas :: int

record replicator =
  r_config :: SimpleConfig
  historicalRecommendation :: "(string, timestampedRecommendation list) fmap"

definition getUniqueKeyForAutoscaler :: "ReplicaAutoscaler \<Rightarrow> string" where
  "getUniqueKeyForAutoscaler autoscaler = ra_Name autoscaler @ ''/'' @ ra_Namespace autoscaler"

subsection \<open>Operations\<close>

text \<open>The scan of the recommendations: (\<^verbatim>\<open>maxRecommendation\<close>, the index of the last outdated sample when
  \<^verbatim>\<open>foundOldSample\<close>).\<close>

fun stabilizeLoop ::
  "Time \<Rightarrow> nat \<Rightarrow> timestampedRecommendation list \<Rightarrow> int \<times> nat option \<Rightarrow> int \<times> nat option" where
  "stabilizeLoop cutoff i [] acc = acc"
| "stabilizeLoop cutoff i (rec # recs) (maxRecommendation, old) =
     stabilizeLoop cutoff (Suc i) recs
       (if timestamp rec < cutoff then (maxRecommendation, Some i)
        else if maxRecommendation < replicas rec then (replicas rec, old)
        else (maxRecommendation, old))"

definition stabilizeRecommendation ::
  "Time \<Rightarrow> Time \<Rightarrow> string \<Rightarrow> int \<Rightarrow> replicator \<Rightarrow> int \<times> replicator" where
  "stabilizeRecommendation now now' key normalizedDesiredReplicas r =
     (let cutoff = now - DownscaleStabilizationWindow (r_config r);
          recs = (case fmlookup (historicalRecommendation r) key of None \<Rightarrow> [] | Some recs \<Rightarrow> recs);
          (maxRecommendation, old) = stabilizeLoop cutoff 0 recs (normalizedDesiredReplicas, None);
          rec = \<lparr>timestamp = now', replicas = normalizedDesiredReplicas\<rparr>;
          recs' = (case old of Some oldSampleIndex \<Rightarrow> recs[oldSampleIndex := rec] | None \<Rightarrow> recs @ [rec])
      in (maxRecommendation,
          r\<lparr>historicalRecommendation := fmupd key recs' (historicalRecommendation r)\<rparr>))"

fun maxOutput :: "(string \<times> ScalerOutput) list \<Rightarrow> int \<Rightarrow> int" where
  "maxOutput [] desiredReplicas = desiredReplicas"
| "maxOutput ((scaler, scalerOutput) # rest) desiredReplicas =
     maxOutput rest (if desiredReplicas < so_DesiredReplicas scalerOutput
                     then so_DesiredReplicas scalerOutput else desiredReplicas)"

definition Simple_GetName :: string where
  "Simple_GetName = ''simple''"

definition GetDesiredReplicas ::
  "(nat \<Rightarrow> Time) \<Rightarrow> ReplicatorContext \<Rightarrow> replicator \<Rightarrow> int result \<times> replicator" where
  "GetDesiredReplicas clk ctx r =
     (let keyForAutoscaler = getUniqueKeyForAutoscaler (rc_Autoscaler ctx);
          r1 = (case fmlookup (historicalRecommendation r) keyForAutoscaler of
                  None \<Rightarrow> r\<lparr>historicalRecommendation :=
                              fmupd keyForAutoscaler
                                [\<lparr>timestamp = clk 0, replicas = scale_Spec_Replicas (rc_Scale ctx)\<rparr>]
                                (historicalRecommendation r)\<rparr>
                | Some _ \<Rightarrow> r);
          desiredReplicas = maxOutput (rc_ScalersOutput ctx) 0;
          (stabilizedReplicas, r2) = stabilizeRecommendation (clk 1) (clk 2) keyForAutoscaler desiredReplicas r1
      in (Inr (if stabilizedReplicas \<noteq> desiredReplicas then stabilizedReplicas else desiredReplicas), r2))"

definition Simple_setup ::
  "('y \<Rightarrow> SimpleConfig \<Rightarrow> SimpleConfig \<times> goerr option) \<Rightarrow> (replicator, 'y, 'm) engineProvisioner \<Rightarrow>
   goerr option \<times> (replicator, 'y, 'm) engineProvisioner" where
  "Simple_setup decode c =
     (case requireConfig decode Simple_Validate c ''simple'' Simple_NewDefaultConfig of
        Inl err \<Rightarrow> (Some err, c)
      | Inr config \<Rightarrow>
          (None, AddReplicator ''simple'' \<lparr>r_config = config, historicalRecommendation = fmempty\<rparr> c))"

subsection \<open>The scan and the maximum\<close>

definition fresh :: "Time \<Rightarrow> timestampedRecommendation list \<Rightarrow> (Time \<times> int) set" where
  "fresh cutoff recs = {(timestamp rec, replicas rec) | rec. rec \<in> set recs \<and> cutoff \<le> timestamp rec}"

lemma fresh_simps [simp]:
  "fresh cutoff [] = {}"
  "fresh cutoff (x # xs) =
     (if cutoff \<le> timestamp x then insert (timestamp x, replicas x) (fresh cutoff xs) else fresh cutoff xs)"
  "fresh cutoff (xs @ ys) = fresh cutoff xs \<union> fresh cutoff ys"
  by (auto simp: fresh_def)

lemma finite_fresh [simp]: "finite (fresh cutoff xs)"
  by (induction xs) auto

lemma Max_insert_step:
  "finite S \<Longrightarrow> Max (insert (if m < x then x else m) S) = Max (insert (m :: int) (insert x S))"
  by (intro Max_eq_if) (auto split: if_splits)

lemma stabilizeLoop_max:
  "fst (stabilizeLoop cutoff i recs (m, old)) = Max (insert m (snd ` fresh cutoff recs))"
proof (induction recs arbitrary: i m old)
  case (Cons x xs)
  have "fst (stabilizeLoop cutoff i (x # xs) (m, old)) =
        Max (insert (if timestamp x < cutoff then m else if m < replicas x then replicas x else m)
               (snd ` fresh cutoff xs))"
    by (simp add: Cons.IH)
  also have "\<dots> = Max (insert m (snd ` fresh cutoff (x # xs)))"
    using Max_insert_step [of "snd ` fresh cutoff xs" m "replicas x"]
    by (simp add: not_less del: Max_insert)
  finally show ?case .
qed simp

lemma stabilizeLoop_old:
  "case snd (stabilizeLoop cutoff i recs (m, old)) of
     Some k \<Rightarrow> old = Some k \<or> (i \<le> k \<and> k - i < length recs \<and> timestamp (recs ! (k - i)) < cutoff)
   | None \<Rightarrow> old = None"
proof (induction recs arbitrary: i m old)
  case (Cons x xs)
  let ?acc = "if timestamp x < cutoff then (m, Some i)
              else if m < replicas x then (replicas x, old) else (m, old)"
  have eq: "stabilizeLoop cutoff i (x # xs) (m, old) = stabilizeLoop cutoff (Suc i) xs ?acc" by simp
  have "case snd (stabilizeLoop cutoff (Suc i) xs ?acc) of
     Some k \<Rightarrow> snd ?acc = Some k \<or> (Suc i \<le> k \<and> k - Suc i < length xs \<and> timestamp (xs ! (k - Suc i)) < cutoff)
   | None \<Rightarrow> snd ?acc = None"
    using Cons.IH [where i = "Suc i" and m = "fst ?acc" and old = "snd ?acc"] by simp
  then show ?case unfolding eq
    by (auto simp: nth_Cons' Suc_diff_le split: option.splits if_splits)
qed (simp split: option.split)

lemma fresh_update:
  assumes "k < length recs" "timestamp (recs ! k) < cutoff"
  shows "fresh cutoff (recs[k := x]) = fresh cutoff (recs @ [x])"
  using assms by (induction recs arbitrary: k) (auto split: nat.splits)

lemma fresh_mono: "c \<le> c' \<Longrightarrow> fresh c xs = fresh c ys \<Longrightarrow> fresh c' xs = fresh c' ys"
proof -
  assume "c \<le> c'" and eq: "fresh c xs = fresh c ys"
  have "fresh c' zs = {p \<in> fresh c zs. c' \<le> fst p}" for zs using \<open>c \<le> c'\<close> by (auto simp: fresh_def)
  then show ?thesis using eq by simp
qed

lemma maxOutput_Max: "maxOutput os d = Max (insert d (so_DesiredReplicas ` snd ` set os))"
proof (induction os arbitrary: d)
  case (Cons o' os)
  obtain k x where "o' = (k, x)" by (cases o')
  with Cons show ?case
    using Max_insert_step [of "so_DesiredReplicas ` snd ` set os" d "so_DesiredReplicas x"]
    by (simp del: Max_insert)
qed simp

subsection \<open>The specification: keep everything\<close>

text \<open>
  The abstract state is the complete list of recommendations of every autoscaler; the result is the largest
  one that is not older than the window.
\<close>

type_synonym History = "string \<rightharpoonup> timestampedRecommendation list"

definition spec_call ::
  "Duration \<Rightarrow> (nat \<Rightarrow> Time) \<Rightarrow> ReplicatorContext \<Rightarrow> History \<Rightarrow> int \<times> History" where
  "spec_call window clk ctx H =
     (let key = getUniqueKeyForAutoscaler (rc_Autoscaler ctx);
          past = (case H key of
                    None \<Rightarrow> [\<lparr>timestamp = clk 0, replicas = scale_Spec_Replicas (rc_Scale ctx)\<rparr>]
                  | Some past \<Rightarrow> past);
          desired = Max (insert 0 (so_DesiredReplicas ` snd ` set (rc_ScalersOutput ctx)))
      in (Max (insert desired (snd ` fresh (clk 1 - window) past)),
          H(key \<mapsto> past @ [\<lparr>timestamp = clk 2, replicas = desired\<rparr>])))"

text \<open>A sequence of calls, for any autoscalers in any order.\<close>

fun impl_run :: "((nat \<Rightarrow> Time) \<times> ReplicatorContext) list \<Rightarrow> replicator \<Rightarrow> int result list" where
  "impl_run [] r = []"
| "impl_run ((clk, ctx) # calls) r =
     (case GetDesiredReplicas clk ctx r of (d, r') \<Rightarrow> d # impl_run calls r')"

fun spec_run :: "Duration \<Rightarrow> ((nat \<Rightarrow> Time) \<times> ReplicatorContext) list \<Rightarrow> History \<Rightarrow> int list" where
  "spec_run window [] H = []"
| "spec_run window ((clk, ctx) # calls) H =
     (case spec_call window clk ctx H of (d, H') \<Rightarrow> d # spec_run window calls H')"

text \<open>The simulation: from the cut-off \<open>c\<close> on, both know the same recommendations.\<close>

definition sim :: "Time \<Rightarrow> replicator \<Rightarrow> History \<Rightarrow> bool" where
  "sim c r H \<longleftrightarrow> (\<forall>key. rel_option (\<lambda>xs ys. fresh c xs = fresh c ys)
                              (fmlookup (historicalRecommendation r) key) (H key))"

lemma sim_mono: "sim c r H \<Longrightarrow> c \<le> c' \<Longrightarrow> sim c' r H"
  unfolding sim_def by (metis (mono_tags, lifting) fresh_mono option.rel_mono_strong)

lemma stabilizeRecommendation_spec:
  fixes now :: Time
  assumes "fmlookup (historicalRecommendation r) key = Some recs"
  defines "cutoff \<equiv> now - DownscaleStabilizationWindow (r_config r)"
  obtains recs' where
    "stabilizeRecommendation now now' key d r =
       (Max (insert d (snd ` fresh cutoff recs)),
        r\<lparr>historicalRecommendation := fmupd key recs' (historicalRecommendation r)\<rparr>)"
    "fresh cutoff recs' = fresh cutoff (recs @ [\<lparr>timestamp = now', replicas = d\<rparr>])"
proof -
  let ?loop = "stabilizeLoop cutoff 0 recs (d, None)" and ?rec = "\<lparr>timestamp = now', replicas = d\<rparr>"
  define recs' where "recs' = (case snd ?loop of Some k \<Rightarrow> recs[k := ?rec] | None \<Rightarrow> recs @ [?rec])"
  have "fresh cutoff recs' = fresh cutoff (recs @ [?rec])"
    using stabilizeLoop_old [where cutoff = cutoff and i = 0 and recs = recs and m = d and old = None] fresh_update [of _ recs cutoff ?rec]
    by (auto simp: recs'_def simp del: fresh_simps split: option.splits)
  moreover have "stabilizeRecommendation now now' key d r =
       (Max (insert d (snd ` fresh cutoff recs)),
        r\<lparr>historicalRecommendation := fmupd key recs' (historicalRecommendation r)\<rparr>)"
    using stabilizeLoop_max [of cutoff 0 recs d None] assms(1)
    by (simp add: stabilizeRecommendation_def Let_def case_prod_beta recs'_def cutoff_def)
  ultimately show thesis by (rule that [rotated])
qed

lemma call_refines:
  assumes "sim c r H" and "c \<le> clk 1 - window" and "DownscaleStabilizationWindow (r_config r) = window"
  shows "\<exists>d r' H'. GetDesiredReplicas clk ctx r = (Inr d, r') \<and> spec_call window clk ctx H = (d, H') \<and>
           sim (clk 1 - window) r' H' \<and> r_config r' = r_config r"
proof -
  let ?key = "getUniqueKeyForAutoscaler (rc_Autoscaler ctx)" and ?c = "clk 1 - window"
  let ?d = "maxOutput (rc_ScalersOutput ctx) 0"
  let ?init = "[\<lparr>timestamp = clk 0, replicas = scale_Spec_Replicas (rc_Scale ctx)\<rparr>]"
  define r1 where "r1 = (case fmlookup (historicalRecommendation r) ?key of
                  None \<Rightarrow> r\<lparr>historicalRecommendation := fmupd ?key ?init (historicalRecommendation r)\<rparr>
                | Some _ \<Rightarrow> r)"
  define past where "past = (case H ?key of None \<Rightarrow> ?init | Some past \<Rightarrow> past)"
  have s: "sim ?c r H" using sim_mono [OF assms(1,2)] .
  then have rel: "rel_option (\<lambda>xs ys. fresh ?c xs = fresh ?c ys) (fmlookup (historicalRecommendation r) key) (H key)"
    for key by (simp add: sim_def)
  obtain recs where recs: "fmlookup (historicalRecommendation r1) ?key = Some recs" "fresh ?c recs = fresh ?c past"
    using rel [of ?key] that
    by (cases "fmlookup (historicalRecommendation r) ?key"; cases "H ?key") (auto simp: r1_def past_def)
  have r1: "r_config r1 = r_config r" "k \<noteq> ?key \<Longrightarrow> fmlookup (historicalRecommendation r1) k = fmlookup (historicalRecommendation r) k" for k
    by (auto simp: r1_def split: option.splits)
  obtain recs' where st: "stabilizeRecommendation (clk 1) (clk 2) ?key ?d r1 =
       (Max (insert ?d (snd ` fresh ?c recs)),
        r1\<lparr>historicalRecommendation := fmupd ?key recs' (historicalRecommendation r1)\<rparr>)"
    "fresh ?c recs' = fresh ?c (recs @ [\<lparr>timestamp = clk 2, replicas = ?d\<rparr>])"
    using stabilizeRecommendation_spec [OF recs(1)] r1(1) assms(3) by metis
  have g: "GetDesiredReplicas clk ctx r = (Inr (Max (insert ?d (snd ` fresh ?c past))),
        r1\<lparr>historicalRecommendation := fmupd ?key recs' (historicalRecommendation r1)\<rparr>)"
    using st(1) recs(2) by (simp add: GetDesiredReplicas_def Let_def r1_def [symmetric] del: Max_insert)
  have sp: "spec_call window clk ctx H = (Max (insert ?d (snd ` fresh ?c past)),
        H(?key \<mapsto> past @ [\<lparr>timestamp = clk 2, replicas = ?d\<rparr>]))"
    by (simp add: spec_call_def Let_def past_def maxOutput_Max del: Max_insert)
  have "sim ?c (r1\<lparr>historicalRecommendation := fmupd ?key recs' (historicalRecommendation r1)\<rparr>)
          (H(?key \<mapsto> past @ [\<lparr>timestamp = clk 2, replicas = ?d\<rparr>]))"
    unfolding sim_def using rel st(2) recs(2) r1(2) by simp
  with g sp r1(1) show ?thesis by simp
qed

subsection \<open>The contract of a replicator\<close>

text \<open>What the controller relies on: a replicator never asks for less than a scaler does, nor for a negative
  count.\<close>

locale replicator_contract =
  fixes desired :: "(nat \<Rightarrow> Time) \<Rightarrow> ReplicatorContext \<Rightarrow> 'r \<Rightarrow> int result \<times> 'r"
  assumes desired_nonneg: "desired clk ctx r = (Inr d, r') \<Longrightarrow> 0 \<le> d"
    and desired_covers: "desired clk ctx r = (Inr d, r') \<Longrightarrow> (k, out) \<in> set (rc_ScalersOutput ctx) \<Longrightarrow>
      so_DesiredReplicas out \<le> d"
begin

text \<open>Clamping the count into a range, as the controller does (the maximum first, then the minimum).\<close>

lemma clamp_covers:
  assumes "desired clk ctx r = (Inr d, r')" "(k, out) \<in> set (rc_ScalersOutput ctx)"
  shows "min (so_DesiredReplicas out) hi \<le> max lo (min d hi)"
  using desired_covers [OF assms] by auto

end

lemma GetDesiredReplicas_ge:
  assumes "GetDesiredReplicas clk ctx r = (Inr d, r')"
  shows "maxOutput (rc_ScalersOutput ctx) 0 \<le> d"
proof -
  have "n \<le> fst (stabilizeRecommendation now now' key n r0)" for now now' key n r0
  proof -
    have "n \<le> fst (stabilizeLoop cutoff i recs (n, old))" for cutoff i recs old
      unfolding stabilizeLoop_max by (intro Max_ge) auto
    then show ?thesis by (simp add: stabilizeRecommendation_def Let_def case_prod_beta)
  qed
  with assms show ?thesis by (auto simp: GetDesiredReplicas_def Let_def case_prod_beta split: if_splits)
qed

interpretation simple: replicator_contract GetDesiredReplicas
proof
  fix clk ctx r d r' k out
  assume g: "GetDesiredReplicas clk ctx r = (Inr d, r')"
  have "0 \<le> maxOutput (rc_ScalersOutput ctx) 0" unfolding maxOutput_Max by (intro Max_ge) auto
  with GetDesiredReplicas_ge [OF g] show "0 \<le> d" by linarith
  show "so_DesiredReplicas out \<le> d" if "(k, out) \<in> set (rc_ScalersOutput ctx)"
  proof -
    have "so_DesiredReplicas out \<le> maxOutput (rc_ScalersOutput ctx) 0"
      unfolding maxOutput_Max using that by (intro Max_ge) (auto simp: rev_image_eqI)
    with GetDesiredReplicas_ge [OF g] show ?thesis by linarith
  qed
qed

lemma sim_initial: "sim c \<lparr>r_config = cfg, historicalRecommendation = fmempty\<rparr> Map.empty"
  by (simp add: sim_def)

lemma run_refines:
  assumes "sim c r H" and "sorted (c # map (\<lambda>(clk, ctx). clk 1 - window) calls)"
    and "DownscaleStabilizationWindow (r_config r) = window"
  shows "impl_run calls r = map Inr (spec_run window calls H)"
  using assms
proof (induction calls arbitrary: c r H)
  case (Cons call calls)
  obtain clk ctx where call: "call = (clk, ctx)" by (cases call)
  have "c \<le> clk 1 - window" using Cons.prems(2) call by simp
  from call_refines [where clk = clk and ctx = ctx, OF Cons.prems(1) this Cons.prems(3)] obtain d r' H' where
    step: "GetDesiredReplicas clk ctx r = (Inr d, r')" "spec_call window clk ctx H = (d, H')"
      "sim (clk 1 - window) r' H'" "r_config r' = r_config r" by blast
  have "impl_run calls r' = map Inr (spec_run window calls H')"
    using Cons.prems(2,3) call step(4) by (intro Cons.IH [OF step(3)]) auto
  then show ?case by (simp add: call step)
qed simp

lemma run_refines_initial:
  assumes "sorted (map (\<lambda>(clk, ctx). clk 1 - DownscaleStabilizationWindow cfg) calls)"
  shows "impl_run calls \<lparr>r_config = cfg, historicalRecommendation = fmempty\<rparr> =
         map Inr (spec_run (DownscaleStabilizationWindow cfg) calls Map.empty)"
proof -
  define c where "c = (case calls of [] \<Rightarrow> 0 | (clk, ctx) # _ \<Rightarrow> clk 1 - DownscaleStabilizationWindow cfg)"
  have "sorted (c # map (\<lambda>(clk, ctx). clk 1 - DownscaleStabilizationWindow cfg) calls)"
    using assms by (cases calls) (auto simp: c_def)
  from run_refines [OF sim_initial this] show ?thesis by simp
qed

text \<open>The history the specification reaches, which only grows.\<close>

fun spec_state :: "Duration \<Rightarrow> ((nat \<Rightarrow> Time) \<times> ReplicatorContext) list \<Rightarrow> History \<Rightarrow> History" where
  "spec_state window [] H = H"
| "spec_state window ((clk, ctx) # calls) H = spec_state window calls (snd (spec_call window clk ctx H))"

lemma spec_run_append:
  "spec_run window (xs @ ys) H = spec_run window xs H @ spec_run window ys (spec_state window xs H)"
  by (induction xs arbitrary: H) (auto simp: case_prod_beta)

lemma spec_state_keeps:
  "H key = Some past \<Longrightarrow> \<exists>more. spec_state window calls H key = Some (past @ more)"
proof (induction calls arbitrary: H past)
  case (Cons call calls)
  obtain clk ctx where call: "call = (clk, ctx)" by (cases call)
  have "\<exists>more. snd (spec_call window clk ctx H) key = Some (past @ more)"
    using Cons.prems by (auto simp: spec_call_def Let_def)
  then obtain more where "snd (spec_call window clk ctx H) key = Some (past @ more)" by blast
  from Cons.IH [where H = "snd (spec_call window clk ctx H)" and past = "past @ more", OF this]
  show ?case by (auto simp: call)
qed auto

lemma spec_call_later:
  assumes "getUniqueKeyForAutoscaler (rc_Autoscaler ctx') = getUniqueKeyForAutoscaler (rc_Autoscaler ctx)"
    and "(k, out) \<in> set (rc_ScalersOutput ctx)" and "clk' 1 - window \<le> clk 2"
  shows "so_DesiredReplicas out \<le>
           fst (spec_call window clk' ctx' (spec_state window calls (snd (spec_call window clk ctx H))))"
proof -
  let ?key = "getUniqueKeyForAutoscaler (rc_Autoscaler ctx)"
  define d where "d = Max (insert 0 (so_DesiredReplicas ` snd ` set (rc_ScalersOutput ctx)))"
  obtain past where "snd (spec_call window clk ctx H) ?key = Some (past @ [\<lparr>timestamp = clk 2, replicas = d\<rparr>])"
    by (simp add: spec_call_def Let_def d_def)
  then obtain more where st: "spec_state window calls (snd (spec_call window clk ctx H)) ?key =
      Some ((past @ [\<lparr>timestamp = clk 2, replicas = d\<rparr>]) @ more)"
    using spec_state_keeps by metis
  let ?F = "fresh (clk' 1 - window) ((past @ [\<lparr>timestamp = clk 2, replicas = d\<rparr>]) @ more)"
  have "(clk 2, d) \<in> ?F" using assms(3) by simp
  then have "d \<in> snd ` ?F" by force
  then have "d \<le> Max (insert n (snd ` ?F))" for n by (intro Max_ge) auto
  then have "d \<le> fst (spec_call window clk' ctx' (spec_state window calls (snd (spec_call window clk ctx H))))"
    using st assms(1) by (simp add: spec_call_def Let_def del: Max_insert fresh_simps)
  moreover have "so_DesiredReplicas out \<le> d"
    unfolding d_def using assms(2) by (intro Max_ge) (auto simp: rev_image_eqI)
  ultimately show ?thesis by linarith
qed

lemma append_sep_inject:
  "c \<notin> set xs \<Longrightarrow> c \<notin> set ys \<Longrightarrow> xs @ c # us = ys @ c # vs \<longleftrightarrow> xs = ys \<and> us = vs"
proof (induction xs arbitrary: ys)
  case Nil
  then show ?case by (cases ys) auto
next
  case (Cons x xs)
  then show ?case by (cases ys) auto
qed

subsection \<open>Isolation\<close>

abbreviation callKey :: "(nat \<Rightarrow> Time) \<times> ReplicatorContext \<Rightarrow> string" where
  "callKey call \<equiv> getUniqueKeyForAutoscaler (rc_Autoscaler (snd call))"

text \<open>Two states that a caller with the key \<open>k\<close> cannot tell apart.\<close>

definition agree :: "string \<Rightarrow> replicator \<Rightarrow> replicator \<Rightarrow> bool" where
  "agree k r s \<longleftrightarrow> r_config r = r_config s \<and>
     fmlookup (historicalRecommendation r) k = fmlookup (historicalRecommendation s) k"

lemma stabilizeRecommendation_agree:
  assumes "agree k r s"
  shows "fst (stabilizeRecommendation now now' k d r) = fst (stabilizeRecommendation now now' k d s)"
    "agree k (snd (stabilizeRecommendation now now' k d r)) (snd (stabilizeRecommendation now now' k d s))"
    "key \<noteq> k \<Longrightarrow> agree k (snd (stabilizeRecommendation now now' key d r)) s"
  using assms by (simp_all add: agree_def stabilizeRecommendation_def Let_def case_prod_beta)

lemma GetDesiredReplicas_agree:
  assumes "agree k r s"
  shows "callKey (clk, ctx) = k \<Longrightarrow> fst (GetDesiredReplicas clk ctx r) = fst (GetDesiredReplicas clk ctx s) \<and>
           agree k (snd (GetDesiredReplicas clk ctx r)) (snd (GetDesiredReplicas clk ctx s))"
    "callKey (clk, ctx) \<noteq> k \<Longrightarrow> agree k (snd (GetDesiredReplicas clk ctx r)) s"
proof -
  define key where "key = callKey (clk, ctx)"
  define seed where "seed = (\<lambda>r :: replicator. case fmlookup (historicalRecommendation r) key of
      None \<Rightarrow> r\<lparr>historicalRecommendation := fmupd key
                  [\<lparr>timestamp = clk 0, replicas = scale_Spec_Replicas (rc_Scale ctx)\<rparr>] (historicalRecommendation r)\<rparr>
    | Some _ \<Rightarrow> r)"
  have g: "GetDesiredReplicas clk ctx r =
      (case stabilizeRecommendation (clk 1) (clk 2) key (maxOutput (rc_ScalersOutput ctx) 0) (seed r) of (n, r') \<Rightarrow> (Inr n, r'))" for r
  proof -
    have "getUniqueKeyForAutoscaler (rc_Autoscaler ctx) = key" by (simp add: key_def)
    then show ?thesis unfolding GetDesiredReplicas_def Let_def seed_def by (auto split: prod.splits)
  qed
  show "fst (GetDesiredReplicas clk ctx r) = fst (GetDesiredReplicas clk ctx s) \<and>
        agree k (snd (GetDesiredReplicas clk ctx r)) (snd (GetDesiredReplicas clk ctx s))" if "callKey (clk, ctx) = k"
  proof -
    have "agree k (seed r) (seed s)" using assms that unfolding key_def [symmetric]
      by (auto simp: agree_def seed_def split: option.splits)
    from stabilizeRecommendation_agree [OF this] show ?thesis using that unfolding key_def [symmetric] g
      by (simp add: case_prod_beta)
  qed
  show "agree k (snd (GetDesiredReplicas clk ctx r)) s" if "callKey (clk, ctx) \<noteq> k"
  proof -
    have "agree k (seed r) s" using assms that unfolding key_def [symmetric]
      by (auto simp: agree_def seed_def split: option.splits)
    from stabilizeRecommendation_agree(3) [OF this] show ?thesis using that unfolding key_def [symmetric] g
      by (simp add: case_prod_beta)
  qed
qed

lemma impl_run_isolated:
  "agree k r s \<Longrightarrow>
   [d. (d, call) \<leftarrow> zip (impl_run calls r) calls, callKey call = k] = impl_run (filter (\<lambda>call. callKey call = k) calls) s"
proof (induction calls arbitrary: r s)
  case (Cons call calls)
  obtain clk ctx where call: "call = (clk, ctx)" by (cases call)
  obtain d r' where r: "GetDesiredReplicas clk ctx r = (d, r')" by fastforce
  obtain e s' where s: "GetDesiredReplicas clk ctx s = (e, s')" by fastforce
  note A = GetDesiredReplicas_agree [OF Cons.prems, of clk ctx, unfolded r s]
  show ?case
  proof (cases "callKey call = k")
    case True
    with A(1) have "d = e" "agree k r' s'" by (simp_all add: call)
    with True Cons.IH [of r' s'] show ?thesis by (simp add: call r s)
  next
    case False
    with A(2) have "agree k r' s" by (simp add: call)
    with False Cons.IH [of r' s] show ?thesis by (simp add: call r)
  qed
qed simp

subsection \<open>Properties\<close>

text \<open>
  (C4) The replicator implements its specification: started empty, over any sequence of calls for any
  autoscalers whose cut-off times do not go backwards, every call succeeds and returns the largest of the
  count wanted now and all recommendations (of the same autoscaler, the replica count at its first call
  included) not older than the stabilisation window, although the code keeps only part of the history.
\<close>

theorem simple_replicator_refines:
  assumes "sorted (map (\<lambda>(clk, ctx). clk 1 - DownscaleStabilizationWindow cfg) calls)"
  shows "impl_run calls \<lparr>r_config = cfg, historicalRecommendation = fmempty\<rparr> =
         map Inr (spec_run (DownscaleStabilizationWindow cfg) calls Map.empty)"
  using assms by (rule run_refines_initial)

text \<open>A concrete autoscaler and calls for it: at second \<open>t\<close>, with one scaler asking for \<open>n\<close>.\<close>

definition sampleSpec :: ReplicaAutoscalerSpec where
  "sampleSpec = \<lparr>spec_Replicator = None, spec_ReplicatorSettings = None,
     spec_ScaleTargetRef = \<lparr>ref_Kind = ''Deployment'', ref_Name = ''web'', ref_APIVersion = ''apps/v1''\<rparr>,
     spec_MinReplicas = Some 1, spec_MaxReplicas = 10, spec_Targets = [], spec_Strategy = None, spec_Exhaust = None\<rparr>"

definition sampleAutoscaler :: ReplicaAutoscaler where
  "sampleAutoscaler = \<lparr>ra_Name = ''web'', ra_Namespace = ''prod'', ra_Generation = 1, ra_DeletionTimestamp = None,
     ra_Annotations = fmempty, ra_Spec = sampleSpec, ra_Status = zeroStatus\<rparr>"

definition sampleCall :: "int \<Rightarrow> int \<Rightarrow> (nat \<Rightarrow> Time) \<times> ReplicatorContext" where
  "sampleCall t n = (\<lambda>i. t * Second + int i,
     \<lparr>rc_Autoscaler = sampleAutoscaler,
      rc_Scale = \<lparr>scale_Name = ''web'', scale_Namespace = ''prod'', scale_Spec_Replicas = 2,
                  scale_Status_Replicas = 2, scale_Status_Selector = ''app=web''\<rparr>,
      rc_ScalersOutput = [(''cpu'', \<lparr>so_DesiredReplicas = n, so_ManagedTargetStatus = [''cpu'']\<rparr>)]\<rparr>)"

theorem simple_replicator_refines_witness:
  "impl_run [sampleCall 0 5, sampleCall 20 3, sampleCall 40 3, sampleCall 60 4]
     \<lparr>r_config = Simple_NewDefaultConfig, historicalRecommendation = fmempty\<rparr> = map Inr [5, 5, 3, 4]"
proof -
  let ?calls = "[sampleCall 0 5, sampleCall 20 3, sampleCall 40 3, sampleCall 60 4]"
  have "spec_run (DownscaleStabilizationWindow Simple_NewDefaultConfig) ?calls Map.empty = [5, 5, 3, 4]"
    by (simp add: sampleCall_def spec_call_def Let_def getUniqueKeyForAutoscaler_def sampleAutoscaler_def
        Simple_NewDefaultConfig_def DefaultDownscaleStabilizationWindow_def)
  moreover have "sorted (map (\<lambda>(clk, ctx). clk 1 - DownscaleStabilizationWindow Simple_NewDefaultConfig) ?calls)"
    by (simp add: sampleCall_def)
  ultimately show ?thesis using simple_replicator_refines [of Simple_NewDefaultConfig ?calls] by simp
qed

text \<open>
  (C12) No early scale-down: once a scaler has asked for \<open>n\<close> replicas in a call, every later call for the
  same autoscaler whose window still reaches back to that call's stamp returns at least \<open>n\<close>, whatever
  calls came before and in between.
\<close>

theorem simple_no_early_downscale:
  assumes "sorted (map (\<lambda>(clk, ctx). clk 1 - DownscaleStabilizationWindow cfg)
                     (before @ (clk, ctx) # between @ [(clk', ctx')]))"
    and "getUniqueKeyForAutoscaler (rc_Autoscaler ctx') = getUniqueKeyForAutoscaler (rc_Autoscaler ctx)"
    and "(k, out) \<in> set (rc_ScalersOutput ctx)"
    and "clk' 1 - DownscaleStabilizationWindow cfg \<le> clk 2"
  shows "\<exists>d. last (impl_run (before @ (clk, ctx) # between @ [(clk', ctx')])
                     \<lparr>r_config = cfg, historicalRecommendation = fmempty\<rparr>) = Inr d \<and>
             so_DesiredReplicas out \<le> d"
  using spec_call_later [where clk = clk and clk' = clk' and window = "DownscaleStabilizationWindow cfg"
      and calls = between, OF assms(2-4)]
  by (simp add: run_refines_initial [OF assms(1)] spec_run_append case_prod_beta)

theorem simple_no_early_downscale_witness:
  "\<exists>d. last (impl_run ([] @ sampleCall 0 5 # [sampleCall 10 1] @ [sampleCall 29 2])
          \<lparr>r_config = Simple_NewDefaultConfig, historicalRecommendation = fmempty\<rparr>) = Inr d \<and> 5 \<le> d"
  using simple_no_early_downscale [of Simple_NewDefaultConfig "[]" "fst (sampleCall 0 5)" "snd (sampleCall 0 5)"
      "[sampleCall 10 1]" "fst (sampleCall 29 2)" "snd (sampleCall 29 2)" "''cpu''"
      "\<lparr>so_DesiredReplicas = 5, so_ManagedTargetStatus = [''cpu'']\<rparr>"]
  by (simp add: sampleCall_def Simple_NewDefaultConfig_def DefaultDownscaleStabilizationWindow_def)

text \<open>
  The result does not depend on the order in which Go's map iteration visits the scaler outputs, and
  two autoscalers whose names contain no slash share recommendations only if they are the same object.
\<close>

theorem simple_replicator_order:
  assumes "set outs = set outs'" and "CHR ''/'' \<notin> set (ra_Name a)" and "CHR ''/'' \<notin> set (ra_Name b)"
  shows "GetDesiredReplicas clk (ctx\<lparr>rc_ScalersOutput := outs\<rparr>) r =
         GetDesiredReplicas clk (ctx\<lparr>rc_ScalersOutput := outs'\<rparr>) r \<and>
         (getUniqueKeyForAutoscaler a = getUniqueKeyForAutoscaler b \<longleftrightarrow>
            ra_Name a = ra_Name b \<and> ra_Namespace a = ra_Namespace b)"
proof -
  have "maxOutput outs 0 = maxOutput outs' 0" by (simp only: maxOutput_Max assms(1))
  then have "GetDesiredReplicas clk (ctx\<lparr>rc_ScalersOutput := outs\<rparr>) r =
             GetDesiredReplicas clk (ctx\<lparr>rc_ScalersOutput := outs'\<rparr>) r"
    by (simp add: GetDesiredReplicas_def cong: option.case_cong)
  moreover have "getUniqueKeyForAutoscaler a = getUniqueKeyForAutoscaler b \<longleftrightarrow>
            ra_Name a = ra_Name b \<and> ra_Namespace a = ra_Namespace b"
    using append_sep_inject [OF assms(2,3)] by (simp add: getUniqueKeyForAutoscaler_def)
  ultimately show ?thesis by blast
qed

theorem simple_replicator_order_witness:
  "set [(''cpu'', \<lparr>so_DesiredReplicas = 5, so_ManagedTargetStatus = []\<rparr>),
        (''memory'', \<lparr>so_DesiredReplicas = 7, so_ManagedTargetStatus = []\<rparr>)] =
   set [(''memory'', \<lparr>so_DesiredReplicas = 7, so_ManagedTargetStatus = []\<rparr>),
        (''cpu'', \<lparr>so_DesiredReplicas = 5, so_ManagedTargetStatus = []\<rparr>)] \<and>
   getUniqueKeyForAutoscaler sampleAutoscaler \<noteq>
   getUniqueKeyForAutoscaler (sampleAutoscaler\<lparr>ra_Namespace := ''test''\<rparr>)"
  using simple_replicator_order [of
      "[(''cpu'', \<lparr>so_DesiredReplicas = 5, so_ManagedTargetStatus = []\<rparr>),
        (''memory'', \<lparr>so_DesiredReplicas = 7, so_ManagedTargetStatus = []\<rparr>)]"
      "[(''memory'', \<lparr>so_DesiredReplicas = 7, so_ManagedTargetStatus = []\<rparr>),
        (''cpu'', \<lparr>so_DesiredReplicas = 5, so_ManagedTargetStatus = []\<rparr>)]"
      sampleAutoscaler "sampleAutoscaler\<lparr>ra_Namespace := ''test''\<rparr>"]
  by (auto simp: sampleAutoscaler_def)

text \<open>
  Autoscalers do not disturb each other: however the calls for different autoscalers are interleaved, the
  results for one of them are those of its own calls alone, in their order. (The code keeps all recommendations in
  one map; the calls themselves are taken to be atomic.)
\<close>

theorem simple_replicator_isolated:
  "[d. (d, clk, ctx) \<leftarrow> zip (impl_run calls r) calls, getUniqueKeyForAutoscaler (rc_Autoscaler ctx) = key] =
   impl_run (filter (\<lambda>(clk, ctx). getUniqueKeyForAutoscaler (rc_Autoscaler ctx) = key) calls) r"
proof -
  have f: "(\<lambda>(clk, ctx). getUniqueKeyForAutoscaler (rc_Autoscaler ctx) = key) = (\<lambda>call. callKey call = key)"
    by (auto simp: fun_eq_iff)
  have l: "[d. (d, clk, ctx) \<leftarrow> xs, getUniqueKeyForAutoscaler (rc_Autoscaler ctx) = key] =
      [d. (d, call) \<leftarrow> xs, callKey call = key]" for xs :: "(int result \<times> (nat \<Rightarrow> Time) \<times> ReplicatorContext) list"
    by (induction xs) auto
  show ?thesis unfolding f l by (rule impl_run_isolated) (simp add: agree_def)
qed

end
