(* ===== verification/Reconciler_Safety.thy ===== *)
theory Reconciler_Safety
  imports Reconciler_Frame Replicator_Simple
begin

text \<open>
  Properties of a whole reconciliation: which replica counts are ever sent to the API server and when, how
  the conditions end up, and when panic mode begins and ends. They hold for every engine whose scalers meet
  \<open>scaler_contract\<close> and for any replicator; the sample world at the end evaluates one reconciliation
  with the simple replicator.
\<close>

lemma step_sum_all: "step_sum {t} us st st' \<Longrightarrow> t \<in> allTypes \<Longrightarrow> step_sum allTypes us st st'"
  by (rule step_sum_mono) auto

lemma step_sum_flow_all: "step_sum flowTypes us st st' \<Longrightarrow> step_sum allTypes us st st'"
  by (rule step_sum_mono) (auto simp: allTypes_def)

lemma ready_sum:
  "step_sum allTypes [] st (ready w st)" "panicCondition (ready w st) = panicCondition st"
  "st_DesiredReplicas (rs_Status (ready w st)) = st_DesiredReplicas (rs_Status st)"
  "st_LastScaleTime (rs_Status (ready w st)) = st_LastScaleTime (rs_Status st)"
  "cond_Status (GetCondition (st_Conditions (rs_Status (ready w st))) ConditionReady) = ConditionTrue"
  by (simp_all add: ready_def step_sum_setCond allTypes_def flowTypes_def GetCondition_SetCondition panic_type_other)

lemma panic_outcome_ready: "panic_outcome w d scale delay st (ready w st') = panic_outcome w d scale delay st st'"
  unfolding panic_outcome_def ready_sum(2) by (rule refl)

text \<open>From reading the scale target to the branch on the kind of scaling.\<close>

lemma prepare_sum:
  assumes "updateExhaustedAutoscaler w scale (st\<lparr>rs_ScalableCache := cache\<rparr>) = Ret (d, err, st1)"
  shows "step_sum allTypes [] st (observe scale st1)" "panicCondition (observe scale st1) = panicCondition st"
    "st_DesiredReplicas (rs_Status (observe scale st1)) = st_DesiredReplicas (rs_Status st)"
    "st_LastScaleTime (rs_Status (observe scale st1)) = st_LastScaleTime (rs_Status st)"
    "rs_Engine (observe scale st1) = rs_Engine st" "step_sum allTypes [] st st1"
    "panicCondition st1 = panicCondition st"
    "st_DesiredReplicas (rs_Status st1) = st_DesiredReplicas (rs_Status st)"
    "st_LastScaleTime (rs_Status st1) = st_LastScaleTime (rs_Status st)"
proof -
  note E = updateExhaustedAutoscaler_sum [OF assms]
  have "step_sum allTypes [] (st\<lparr>rs_ScalableCache := cache\<rparr>) st1"
    using E(1) by (rule step_sum_all) (simp add: allTypes_def)
  then show s1: "step_sum allTypes [] st st1" by (rule step_sum_trans_quiet(1) [OF step_sum_engine(2)])
  show "step_sum allTypes [] st (observe scale st1)"
    unfolding observe_def by (rule step_sum_trans_quiet(1) [OF s1 step_sum_setStatus]) simp
  show p: "panicCondition st1 = panicCondition st"
    using step_sumD(3) [OF E(1), of ConditionPanicMode] panic_type_other by simp
  show "panicCondition (observe scale st1) = panicCondition st" using p by (simp add: observe_def)
  show "st_DesiredReplicas (rs_Status (observe scale st1)) = st_DesiredReplicas (rs_Status st)"
    "st_LastScaleTime (rs_Status (observe scale st1)) = st_LastScaleTime (rs_Status st)"
    "rs_Engine (observe scale st1) = rs_Engine st"
    "st_DesiredReplicas (rs_Status st1) = st_DesiredReplicas (rs_Status st)"
    "st_LastScaleTime (rs_Status st1) = st_LastScaleTime (rs_Status st)"
    using E(3-5) by (simp_all add: observe_def)
qed

lemma reconcile_flow_sum:
  assumes t: "updateExhaustedAutoscaler w scale (st\<lparr>rs_ScalableCache := cache\<rparr>) = Ret (d0, None, st1)"
    and r: "reconcileAutoscaling getDesired w gvkr scale (observe scale st1) = Ret (delay, st3)"
    and ok: "scalers_ok (rs_Engine st)"
  shows "step_sum allTypes [] st (ready w st3) \<and>
           st_DesiredReplicas (rs_Status st3) = st_DesiredReplicas (rs_Status st) \<and>
           st_LastScaleTime (rs_Status st3) = st_LastScaleTime (rs_Status st) \<and>
           panicCondition (ready w st3) = panicCondition st \<and> delay \<noteq> RequeueDelayOnPanicState \<or>
         \<not> coldDown w (rs_Status st) (panicking w st) \<and>
         (\<exists>clk ctx r r' n d. getDesired clk ctx r = (Inr n, r') \<and> d = limited w (rs_Autoscaler st) n \<and>
            step_sum allTypes (scaleUpdates (rs_Autoscaler st) gvkr scale d) st (ready w st3) \<and>
            st_DesiredReplicas (rs_Status st3) = d \<and> panic_outcome w d scale delay st (ready w st3))"
proof -
  let ?st2 = "observe scale st1"
  note P = prepare_sum [OF t]
  note same = step_sumD(1) [OF P(1)]
  have cold: "coldDown w (rs_Status ?st2) (panicking w ?st2) = coldDown w (rs_Status st) (panicking w st)"
    using StillInPanicMode_cong [OF P(2)] P(4) same_object_fields(1) [OF same] by (simp add: coldDown_def)
  have ok2: "scalers_ok (rs_Engine ?st2)" using ok P(5) by simp
  from reconcileAutoscaling_sum [OF r ok2] show ?thesis
  proof (elim disjE conjE exE)
    assume s: "step_sum {ConditionReady} [] ?st2 st3"
      and d: "st_DesiredReplicas (rs_Status st3) = st_DesiredReplicas (rs_Status ?st2)"
             "st_LastScaleTime (rs_Status st3) = st_LastScaleTime (rs_Status ?st2)" "delay \<noteq> RequeueDelayOnPanicState"
    have "step_sum allTypes [] ?st2 st3" by (rule step_sum_all [OF s]) (simp add: allTypes_def flowTypes_def)
    from step_sum_trans_quiet(1) [OF step_sum_trans_quiet(1) [OF P(1) this] ready_sum(1)]
    have "step_sum allTypes [] st (ready w st3)" .
    moreover have "panicCondition st3 = panicCondition st"
      using step_sumD(3) [OF s, of ConditionPanicMode] panic_type_other P(2) by simp
    ultimately show ?thesis using d P(3,4) ready_sum(2) [of w st3] by simp
  next
    fix clk ctx r r' n
    assume g: "getDesired clk ctx r = (Inr n, r')" and nc: "\<not> coldDown w (rs_Status ?st2) (panicking w ?st2)"
      and f: "flow_sum w gvkr scale (limited w (rs_Autoscaler ?st2) n) delay ?st2 st3"
    define d where "d = limited w (rs_Autoscaler st) n"
    have dl: "limited w (rs_Autoscaler ?st2) n = d" by (simp add: d_def limited_same [OF same])
    note f' = f [unfolded dl flow_sum_def scaleUpdates_same [OF same]]
    have "step_sum allTypes (scaleUpdates (rs_Autoscaler st) gvkr scale d) st (ready w st3)"
      using f' by (auto intro: step_sum_trans_quiet(1) [OF P(1)] step_sum_trans_quiet(2) [OF _ ready_sum(1)]
          step_sum_flow_all)
    moreover have "panic_outcome w d scale delay st (ready w st3)"
      using f' unfolding panic_outcome_ready panic_outcome_cong [OF same P(2)] by blast
    ultimately show ?thesis using g nc cold f' d_def by blast
  qed
qed

lemma reconcile_sum:
  assumes "reconcile getDesired w st = Ret (delay, st')" "scalers_ok (rs_Engine st)"
  obtains (quiet) "step_sum allTypes [] st st'"
      "st_DesiredReplicas (rs_Status st') = st_DesiredReplicas (rs_Status st)"
      "st_LastScaleTime (rs_Status st') = st_LastScaleTime (rs_Status st)" "panicCondition st' = panicCondition st"
      "delay \<noteq> RequeueDelayOnPanicState"
  | (static) gvkr scale cache where
      "getScaleTarget w (rs_Autoscaler st) (rs_ScalableCache st) = (Inr (gvkr, scale), cache)"
      "spec_MinReplicas (ra_Spec (rs_Autoscaler st)) = None"
      "step_sum allTypes (scaleUpdates (rs_Autoscaler st) gvkr scale (spec_MaxReplicas (ra_Spec (rs_Autoscaler st)))) st st'"
      "st_DesiredReplicas (rs_Status st') = spec_MaxReplicas (ra_Spec (rs_Autoscaler st))"
      "panicCondition st' = panicCondition st" "delay \<noteq> RequeueDelayOnPanicState"
  | (flow) gvkr scale cache clk ctx r r' n where
      "getScaleTarget w (rs_Autoscaler st) (rs_ScalableCache st) = (Inr (gvkr, scale), cache)"
      "spec_MinReplicas (ra_Spec (rs_Autoscaler st)) \<noteq> None"
      "\<not> coldDown w (rs_Status st) (panicking w st)" "getDesired clk ctx r = (Inr n, r')"
      "step_sum allTypes (scaleUpdates (rs_Autoscaler st) gvkr scale (limited w (rs_Autoscaler st) n)) st st'"
      "st_DesiredReplicas (rs_Status st') = limited w (rs_Autoscaler st) n"
      "panic_outcome w (limited w (rs_Autoscaler st) n) scale delay st st'"
  using assms(1)
proof (cases rule: reconcileE)
  case deleted
  then show thesis by (intro quiet) (simp_all add: requeue_delays)
next
  case (no_target err cache c)
  have "step_sum allTypes [] st st'" unfolding no_target(3)
    by (rule step_sum_trans_quiet(1) [OF step_sum_engine(2) step_sum_setCond])
      (simp add: no_target(4) allTypes_def flowTypes_def)
  then show thesis using no_target(2,3,4)
    by (intro quiet) (simp_all add: GetCondition_SetCondition panic_type_other requeue_delays)
next
  case (no_exhaust gvkr scale cache d e)
  from prepare_sum(6-9) [OF no_exhaust(2)] no_exhaust(3) show thesis by (intro quiet) (simp_all add: requeue_delays)
next
  case (static gvkr scale cache d st1 err st3)
  note P = prepare_sum [OF static(2)] and S = scaleReplicas_sum [OF static(4)]
  note same1 = step_sumD(1) [OF P(6)] and same = step_sumD(1) [OF P(1)]
  have "step_sum allTypes (scaleUpdates (rs_Autoscaler st) gvkr scale (spec_MaxReplicas (ra_Spec (rs_Autoscaler st)))) st st3"
    using step_sum_trans_quiet(1) [OF P(1) step_sum_all [OF S(1)]]
    by (simp add: scaleUpdates_same [OF same] same_object_fields(1) [OF same1] allTypes_def flowTypes_def)
  from step_sum_trans_quiet(2) [OF this ready_sum(1)] show thesis
    using static P S(2) step_sumD(3) [OF S(1), of ConditionPanicMode] panic_type_other ready_sum(2,3) [of w st3]
      updateExhaustedAutoscaler_sum(2) [OF static(2)]
    by (intro that(2)) (simp_all add: same_object_fields(1) [OF same1] requeue_delays)
next
  case (scaled gvkr scale cache d st1 st3)
  have "spec_MinReplicas (ra_Spec (rs_Autoscaler st)) \<noteq> None"
    using scaled(3) same_object_fields(1) [OF step_sumD(1) [OF prepare_sum(6) [OF scaled(2)]]] by simp
  with reconcile_flow_sum [OF scaled(2,4) assms(2)] scaled(1,5) ready_sum(3,4) [of w st3] that(1,3) show thesis
    by metis
qed

subsection \<open>No panic\<close>

lemma not_Panic_iff: "(\<forall>m. x \<noteq> Panic m) \<longleftrightarrow> (\<exists>y. x = Ret y)"
  by (cases x) auto

lemma GetScheduledSettingsRaw_returns:
  assumes "set_Default s \<noteq> None" "\<forall>x\<in>set (set_Schedules s). sch_Settings x \<noteq> None"
  shows "\<exists>r. GetScheduledSettingsRaw mp env t s = Ret r"
proof -
  have "findSchedule env t (set_Schedules s) \<noteq> Panic m" for m
    using schedules.loop_panic_iff [of env t "set_Schedules s" m] scheduleInForce_no_panic by auto
  then obtain r where r: "findSchedule env t (set_Schedules s) = Ret r"
    by (cases "findSchedule env t (set_Schedules s)") auto
  have hit: "sch_Settings x \<noteq> None" if "findSchedule env t (set_Schedules s) = Ret (Inr (Some x))" for x
    using assms(2) that schedules.loop_hit_iff [of env t "set_Schedules s" x] reached_by_mem by fastforce
  show ?thesis
  proof (cases r)
    case (Inl e)
    then show ?thesis using assms(1) r by (auto simp: GetScheduledSettingsRaw_def)
  next
    case (Inr h)
    then show ?thesis using assms(1) r hit by (cases h) (auto simp: GetScheduledSettingsRaw_def)
  qed
qed

lemma getWorkingReplicaPatch_returns: "\<exists>r. getWorkingReplicaPatch w ra = Ret r"
proof -
  have "GetReplicaPatch env t ps \<noteq> Panic m" for env t ps m
    using patches.loop_panic_iff [of env t ps m] patchInForce_no_panic by auto
  then have "\<exists>r. GetReplicaPatch env t ps = Ret r" for env t ps by (cases "GetReplicaPatch env t ps") auto
  then show ?thesis by (auto simp: getWorkingReplicaPatch_def split: sum.splits)
qed

lemma applyReplicas_returns: "\<exists>x. applyReplicas w u gvkr scale n st = Ret x"
proof -
  have "\<exists>lo hi st'. replicaRange w st = Ret (lo, hi, st')" for st :: "('a, 'b, 'c) RState"
  proof -
    define st1 where "st1 = setCond (w_Clock w AtUnpatched)
      (mkCondition ConditionReplicaPatched ConditionFalse ''No replica patch applied'' []) st"
    obtain r where "getWorkingReplicaPatch w (rs_Autoscaler st1) = Ret r" using getWorkingReplicaPatch_returns by blast
    then show ?thesis unfolding replicaRange_def Let_def st1_def [symmetric]
      by (auto split: sum.splits option.splits)
  qed
  then obtain lo hi st' where "replicaRange w st = Ret (lo, hi, st')" by blast
  then show ?thesis by (auto simp: applyReplicas_def Let_def split: prod.splits option.splits)
qed

text \<open>What the code dereferences without a check.\<close>

definition no_nil :: "ReplicaAutoscalerSpec \<Rightarrow> bool" where
  "no_nil spec \<longleftrightarrow>
     (\<forall>t\<in>set (spec_Targets spec). set_Default (tgt_Settings t) \<noteq> None \<and>
        (\<forall>s\<in>set (set_Schedules (tgt_Settings t)). sch_Settings s \<noteq> None)) \<and>
     (case spec_Exhaust spec of None \<Rightarrow> True | Some e \<Rightarrow> ex_Type e = ExhaustOnPending \<longrightarrow> ex_Pending e \<noteq> None)"

text \<open>A property every target status in the status has. Scalers may rely on it when they keep it; everything else
  the reconciliation does leaves the target statuses alone or drops some.\<close>

definition targets_ok :: "(TargetStatus \<Rightarrow> bool) \<Rightarrow> ReplicaAutoscalerStatus \<Rightarrow> bool" where
  "targets_ok okT status \<longleftrightarrow> (\<forall>t\<in>set (st_Targets status). okT t)"

definition scalers_return :: "(TargetStatus \<Rightarrow> bool) \<Rightarrow> ('r, 'y, 'm) engineProvisioner \<Rightarrow> bool" where
  "scalers_return okT e \<longleftrightarrow> (\<forall>n s i ctx status. GetScaler e n = Some s \<longrightarrow> targets_ok okT status \<longrightarrow>
     (\<exists>r status'. s i ctx status = Ret (r, status') \<and> targets_ok okT status'))"

lemma targets_ok_cong: "st_Targets s' = st_Targets s \<Longrightarrow> targets_ok okT s' = targets_ok okT s"
  by (simp add: targets_ok_def)

lemma targets_ok_purge: "targets_ok okT s \<Longrightarrow> targets_ok okT (PurgeTargetStatus managed s)"
  by (auto simp: targets_ok_def PurgeTargetStatus_def purgeOuter_eq)

lemma setCond_targets [simp]: "st_Targets (rs_Status (setCond now c st)) = st_Targets (rs_Status st)"
  by (simp add: setCond_def setStatus_def)

lemma setStatus_targets [simp]: "rs_Status (setStatus s st) = s"
  by (simp add: setStatus_def)

lemma Eventf_targets [simp]: "rs_Autoscaler (Eventf a b c st) = rs_Autoscaler st"
  by (simp add: Eventf_def)

lemma scaleReplicas_targets:
  "st_Targets (rs_Status (snd (scaleReplicas w gvkr scale d st))) = st_Targets (rs_Status st)"
  by (auto simp: scaleReplicas_def Let_def setStatus_def setCond_def split: option.splits)

lemma updatePanicMode_targets:
  "st_Targets (rs_Status (snd (updatePanicMode w u scale d st))) = st_Targets (rs_Status st)"
  by (simp add: updatePanicMode_def Let_def)

lemma replicaRange_targets: "replicaRange w st = Ret (lo, hi, st') \<Longrightarrow> st_Targets (rs_Status st') = st_Targets (rs_Status st)"
  by (auto simp: replicaRange_def Let_def split: exec.splits sum.splits option.splits)

lemma scalingEvent_targets [simp]: "rs_Autoscaler (scalingEvent a b st) = rs_Autoscaler st"
  by (simp add: scalingEvent_def)

lemma updateExhaustedAutoscaler_targets:
  "updateExhaustedAutoscaler w scale st = Ret (d, err, st') \<Longrightarrow> st_Targets (rs_Status st') = st_Targets (rs_Status st)"
  by (auto simp: updateExhaustedAutoscaler_def nilDeref_def Let_def case_prod_beta split: option.splits sum.splits if_splits)

lemma applyReplicas_targets:
  assumes "applyReplicas w u gvkr scale n st = Ret (d, st')"
  shows "st_Targets (rs_Status st') = st_Targets (rs_Status st)"
proof -
  obtain lo hi st1 where r: "replicaRange w st = Ret (lo, hi, st1)"
    using assms by (cases "replicaRange w st") (auto simp: applyReplicas_def)
  define k where "k = limitReplicas lo hi n"
  define st3 where "st3 = setCond (w_Clock w AtLimited) (limitedCondition (snd k)) (scalingEvent (scale_Spec_Replicas scale) (fst k) st1)"
  have t: "st_Targets (rs_Status st3) = st_Targets (rs_Status st)"
    using replicaRange_targets [OF r] by (simp add: st3_def)
  obtain e st4 where sc: "scaleReplicas w gvkr scale (fst k) st3 = (e, st4)" by fastforce
  have "st_Targets (rs_Status st4) = st_Targets (rs_Status st)"
    using scaleReplicas_targets [of w gvkr scale "fst k" st3] t by (simp add: sc)
  moreover have "(d, st') = (case e of None \<Rightarrow> updatePanicMode w u scale (fst k) st4 | Some _ \<Rightarrow> (RequeueDelayOnErrorState, st4))"
    using assms by (simp add: applyReplicas_def r Let_def k_def [symmetric] st3_def [symmetric] case_prod_beta sc split: option.splits)
  ultimately show ?thesis
    using updatePanicMode_targets [of w u scale "fst k" st4] by (cases e) (auto dest: arg_cong [where f = snd])
qed

lemma askReplicator_targets:
  "askReplicator getDesired w u gvkr scale outs st = Ret (d, st') \<Longrightarrow> st_Targets (rs_Status st') = st_Targets (rs_Status st)"
  by (auto simp: askReplicator_def Let_def case_prod_beta dest!: applyReplicas_targets split: option.splits sum.splits)

lemma scalerLoop_returns:
  assumes "\<forall>t\<in>set targets. set_Default (tgt_Settings t) \<noteq> None \<and>
             (\<forall>s\<in>set (set_Schedules (tgt_Settings t)). sch_Settings s \<noteq> None)"
    and "scalers_return okT (rs_Engine st)" "targets_ok okT (rs_Status st)"
  shows "\<exists>r st'. scalerLoop w now sel scale i targets outs managed st = Ret (r, st') \<and> targets_ok okT (rs_Status st')"
  using assms
proof (induction targets arbitrary: i outs managed st)
  case (Cons target targets)
  obtain s where s: "GetScheduledSettingsRaw (w_MergePatch w) (w_TimeEnv w) now (tgt_Settings target) = Ret s"
    using GetScheduledSettingsRaw_returns Cons.prems(1) by (metis list.set_intros(1))
  show ?case
  proof (cases s)
    case (Inr raw)
    show ?thesis
    proof (cases "GetScaler (rs_Engine st) (tgt_Metric target)")
      case None
      then show ?thesis using Cons.prems(3) by (simp add: s Inr targets_ok_def)
    next
      case (Some f)
      let ?ctx = "\<lparr>sc_PodLister = w_PodLister w (Suc i), sc_RawSettings = raw,
                    sc_ScaleTargetRef = zeroRef, sc_Namespace = ra_Namespace (rs_Autoscaler st),
                    sc_ScaledObjectSelector = sel, sc_CurrentReplicas = scale_Spec_Replicas scale\<rparr>"
      obtain r status where f: "f (w_Occasion w i) ?ctx (rs_Status st) = Ret (r, status)" "targets_ok okT status"
        using Cons.prems(2,3) Some unfolding scalers_return_def by metis
      show ?thesis using Cons.IH [of "setStatus status st"] Cons.prems s Inr Some f by (cases r) auto
    qed
  qed (use Cons.prems(3) in \<open>simp add: s\<close>)
qed simp

lemma updateExhaustedAutoscaler_returns:
  assumes "no_nil (ra_Spec (rs_Autoscaler st))"
  shows "\<exists>x. updateExhaustedAutoscaler w scale st = Ret x"
  using assms unfolding updateExhaustedAutoscaler_def Let_def no_nil_def
  by (auto simp: case_prod_beta split: option.splits sum.splits)

lemma askReplicator_returns: "\<exists>d st'. askReplicator getDesired w u gvkr scale outs st = Ret (d, st')"
  using applyReplicas_returns [of w u gvkr scale]
  by (auto simp: askReplicator_def Let_def case_prod_beta split: option.splits sum.splits)

lemma reconcileAutoscaling_returns:
  assumes "no_nil (ra_Spec (rs_Autoscaler st))" "scalers_return okT (rs_Engine st)" "targets_ok okT (rs_Status st)"
  shows "\<exists>d st'. reconcileAutoscaling getDesired w gvkr scale st = Ret (d, st') \<and> targets_ok okT (rs_Status st')"
proof (cases "w_LabelsParse w (scale_Status_Selector scale)")
  case (Inr sel)
  let ?u = "StillInPanicMode (w_Clock w AtStillPanic) (rs_Status st) (spec_Strategy (ra_Spec (rs_Autoscaler st)))"
  obtain r st1 where l: "scalerLoop w (w_Clock w AtReconcile) sel scale 0
      (spec_Targets (ra_Spec (rs_Autoscaler st))) [] [] st = Ret (r, st1)" and ok: "targets_ok okT (rs_Status st1)"
    using scalerLoop_returns [of "spec_Targets (ra_Spec (rs_Autoscaler st))" okT st w "w_Clock w AtReconcile" sel scale 0 "[]" "[]"]
      assms unfolding no_nil_def by blast
  show ?thesis
  proof (cases r)
    case (Inl d)
    then show ?thesis using assms(3) ok by (simp add: reconcileAutoscaling_def Let_def Inr l)
  next
    case r: (Inr om)
    obtain outs managed where om: "om = (outs, managed)" by (cases om)
    let ?st2 = "setStatus (PurgeTargetStatus managed (rs_Status st1)) st1"
    obtain d st3 where a: "askReplicator getDesired w ?u gvkr scale outs ?st2 = Ret (d, st3)" using askReplicator_returns by blast
    have "targets_ok okT (rs_Status st3)"
      using targets_ok_cong [OF askReplicator_targets [OF a]] targets_ok_purge [OF ok] by simp
    then show ?thesis using assms(3) by (simp add: reconcileAutoscaling_def Let_def Inr l r om a)
  qed
qed (simp add: reconcileAutoscaling_def assms(3))

lemma reconcile_returns_ok:
  assumes "no_nil (ra_Spec (rs_Autoscaler st))" "scalers_return okT (rs_Engine st)" "targets_ok okT (rs_Status st)"
  shows "\<exists>delay st'. reconcile getDesired w st = Ret (delay, st') \<and> targets_ok okT (rs_Status st')"
proof (cases "ra_DeletionTimestamp (rs_Autoscaler st)")
  case None
  obtain r cache where t: "getScaleTarget w (rs_Autoscaler st) (rs_ScalableCache st) = (r, cache)" by fastforce
  show ?thesis
  proof (cases r)
    case (Inl e)
    then show ?thesis using assms(3) by (simp add: reconcile_def t None targets_ok_def)
  next
    case (Inr gs)
    obtain gvkr scale where gs: "gs = (gvkr, scale)" by (cases gs)
    obtain d err st1 where u: "updateExhaustedAutoscaler w scale (st\<lparr>rs_ScalableCache := cache\<rparr>) = Ret (d, err, st1)"
      using updateExhaustedAutoscaler_returns [of "st\<lparr>rs_ScalableCache := cache\<rparr>"] assms(1) by fastforce
    note P = prepare_sum [OF u]
    have t1: "st_Targets (rs_Status st1) = st_Targets (rs_Status st)" using updateExhaustedAutoscaler_targets [OF u] by simp
    then have t2: "st_Targets (rs_Status (observe scale st1)) = st_Targets (rs_Status st)" by (simp add: observe_def)
    note ok1 = targets_ok_cong [OF t1, of okT] and ok2 = targets_ok_cong [OF t2, of okT]
    obtain e st4 where sc: "scaleReplicas w gvkr scale (spec_MaxReplicas (ra_Spec (rs_Autoscaler (observe scale st1)))) (observe scale st1) = (e, st4)"
      by fastforce
    have ok4: "targets_ok okT (rs_Status st4)"
      using targets_ok_cong [of "rs_Status st4" "rs_Status (observe scale st1)" okT] ok2 assms(3) sc
        scaleReplicas_targets [of w gvkr scale "spec_MaxReplicas (ra_Spec (rs_Autoscaler (observe scale st1)))" "observe scale st1"]
      by simp
    obtain d2 st3 where a: "reconcileAutoscaling getDesired w gvkr scale (observe scale st1) = Ret (d2, st3)" "targets_ok okT (rs_Status st3)"
      using reconcileAutoscaling_returns [of "observe scale st1" okT getDesired w gvkr scale] assms ok2 P(5)
        same_object_fields(1) [OF step_sumD(1) [OF P(1)]] by auto
    have keep: "targets_ok okT (rs_Status (setCond now c st5)) = targets_ok okT (rs_Status st5)" for now c and st5 :: "('a, 'b, 'c) RState"
      by (simp add: targets_ok_def)
    show ?thesis using a sc ok1 ok4 assms(3)
      unfolding reconcile_def t Inr gs None prod.case sum.case u exec_bind.simps Let_def observe_def [symmetric]
      by (cases err; cases "spec_MinReplicas (ra_Spec (rs_Autoscaler (observe scale st1)))"; cases e) (simp_all add: keep)
  qed
qed (use assms(3) in \<open>simp add: reconcile_def\<close>)

lemma reconcile_returns:
  assumes "no_nil (ra_Spec (rs_Autoscaler st))" "scalers_return okT (rs_Engine st)" "targets_ok okT (rs_Status st)"
  shows "\<exists>delay st'. reconcile getDesired w st = Ret (delay, st')"
  using reconcile_returns_ok [OF assms] by blast

subsection \<open>The request\<close>

definition purgedObject :: "World \<Rightarrow> ReplicaAutoscaler \<Rightarrow> ReplicaAutoscaler" where
  "purgedObject w ra = snd (PurgeUnusedReplicaPatches (w_UnmarshalPatches w) (w_MarshalPatches w) (w_TimeEnv w)
                              (\<lambda>i. w_Clock w (AtPurge i)) ra)"

lemma purgedObject_frame:
  "ra_Spec (purgedObject w ra) = ra_Spec ra" "ra_Status (purgedObject w ra) = ra_Status ra"
  "k \<noteq> ReplicaPatchesAnnotation \<Longrightarrow> fmlookup (ra_Annotations (purgedObject w ra)) k = fmlookup (ra_Annotations ra) k"
  by (auto simp: purgedObject_def PurgeUnusedReplicaPatches_def Let_def split: sum.splits option.splits)

lemma updateAutoscalerIfNeeded_sum:
  assumes "updateAutoscalerIfNeeded w observed st = ((d, e), st')"
  defines "new \<equiv> observed\<lparr>ra_Annotations := ra_Annotations (rs_Autoscaler st), ra_Status := rs_Status st\<rparr>"
    and "annEq \<equiv> w_AnnotationsEqual w (ra_Annotations (rs_Autoscaler st)) (ra_Annotations observed)"
    and "statEq \<equiv> w_StatusEqual w (rs_Status st) (ra_Status observed)"
  shows "st' = st\<lparr>rs_Writes := rs_Writes st @
                   (if annEq \<and> statEq then [] else if annEq then [StatusPatch new] else [ObjectPatch new])\<rparr>"
    and "e = (if annEq \<and> statEq then None else if annEq then w_StatusPatch w new else w_Patch w new)"
    and "d = (if e = None then 0 else RequeueDelayOnErrorState)"
  using assms(1) unfolding updateAutoscalerIfNeeded_def Let_def new_def annEq_def statEq_def
  by (auto split: if_splits option.splits)

lemma ReconcileE:
  assumes "Reconcile getDesired w namespace name st = Ret ((d, e), st')"
  obtains (unread) err where "w_CacheGet w namespace name = Inl err" "e = Some err" "st' = st"
  | (read) ra delay st1 du where "w_CacheGet w namespace name = Inr ra"
      "reconcile getDesired w (st\<lparr>rs_Autoscaler := purgedObject w ra\<rparr>) = Ret (delay, st1)"
      "updateAutoscalerIfNeeded w ra st1 = ((du, e), st')" "d = (if e = None then delay else du)"
proof (cases "w_CacheGet w namespace name")
  case (Inl err)
  then show thesis using assms unread by (simp add: Reconcile_def)
next
  case (Inr ra)
  then obtain delay st1 where r: "reconcile getDesired w (st\<lparr>rs_Autoscaler := purgedObject w ra\<rparr>) = Ret (delay, st1)"
    using assms by (auto simp: Reconcile_def Let_def purgedObject_def exec_bind_Ret_iff)
  obtain du e' st2 where u: "updateAutoscalerIfNeeded w ra st1 = ((du, e'), st2)" by (metis surj_pair)
  have "e' = e \<and> st2 = st' \<and> d = (if e = None then delay else du)"
    using assms r unfolding Reconcile_def Inr Let_def purgedObject_def [symmetric] by (cases e') (auto simp: u)
  with Inr r u read show thesis by blast
qed

lemma Reconcile_returns:
  assumes "w_CacheGet w namespace name = Inr ra" "no_nil (ra_Spec ra)" "scalers_return okT (rs_Engine st)"
    and "targets_ok okT (ra_Status ra)"
  shows "\<exists>d e st'. Reconcile getDesired w namespace name st = Ret ((d, e), st')"
proof -
  obtain delay st1 where r: "reconcile getDesired w (st\<lparr>rs_Autoscaler := purgedObject w ra\<rparr>) = Ret (delay, st1)"
    using reconcile_returns [of "st\<lparr>rs_Autoscaler := purgedObject w ra\<rparr>" okT getDesired w] assms(2-4)
    by (auto simp: purgedObject_frame)
  obtain du e st2 where u: "updateAutoscalerIfNeeded w ra st1 = ((du, e), st2)" by (metis surj_pair)
  show ?thesis
    using r u unfolding Reconcile_def assms(1) Let_def purgedObject_def [symmetric] by (cases e) auto
qed

text \<open>The code scales only when the dry-run annotation is exactly \<^verbatim>\<open>false\<close>.\<close>

definition scaling_off :: "ReplicaAutoscaler \<Rightarrow> bool" where
  "scaling_off ra \<longleftrightarrow> fmlookup (ra_Annotations ra) DryRunAnnotation \<noteq> Some ''false''"

lemma Reconcile_off:
  assumes "Reconcile getDesired w namespace name st = Ret ((d, err), st')" "scalers_ok (rs_Engine st)"
    and "w_CacheGet w namespace name = Inr obj" "scaling_off obj"
  shows "rs_Updates st' = rs_Updates st"
  using assms(1)
proof (cases rule: ReconcileE)
  case (read ra delay st1 du)
  let ?st = "st\<lparr>rs_Autoscaler := purgedObject w obj\<rparr>"
  have r: "reconcile getDesired w ?st = Ret (delay, st1)" and ok: "scalers_ok (rs_Engine ?st)"
    using read(1,2) assms(2,3) by simp_all
  have none: "scaleUpdates (purgedObject w obj) gvkr scale n = []" for gvkr scale n
    using assms(4) purgedObject_frame(3) [of DryRunAnnotation w obj]
    by (simp add: scaleUpdates_def scaling_off_def DryRunAnnotation_def ReplicaPatchesAnnotation_def)
  from r ok have "rs_Updates st1 = rs_Updates ?st"
    by (cases rule: reconcile_sum) (auto simp: step_sum_def none)
  then show ?thesis using updateAutoscalerIfNeeded_sum(1) [OF read(3)] by simp
qed simp

subsection \<open>A sample world\<close>

text \<open>A cluster with one deployment of two replicas, one scaler that asks for \<open>n\<close> replicas, and an API
  server that answers a scale update with \<open>answer\<close>. The clock stands at 1000 seconds.\<close>

definition constScaler :: "int \<Rightarrow> Scaler" where
  "constScaler n = (\<lambda>i ctx st. Ret (Inr \<lparr>so_DesiredReplicas = n, so_ManagedTargetStatus = []\<rparr>, st))"

interpretation const_scaler: scaler_contract "constScaler n" for n
  by unfold_locales (auto simp: constScaler_def)

definition sampleScale :: Scale where
  "sampleScale = \<lparr>scale_Name = ''web'', scale_Namespace = ''prod'', scale_Spec_Replicas = 2,
                  scale_Status_Replicas = 2, scale_Status_Selector = ''app=web''\<rparr>"

definition sampleWorld :: "goerr option \<Rightarrow> World" where
  "sampleWorld answer =
     \<lparr>w_Clock = (\<lambda>_. 1000 * Second),
      w_ParseGroupVersion = (\<lambda>s. Inr (''apps'', ''v1'')),
      w_RESTMapping = (\<lambda>_ _. Inl (errNew ''no mapping'')),
      w_GroupResourceString = (\<lambda>(g, r). r @ ''.'' @ g),
      w_ScalesGet = (\<lambda>_ _ _. Inr sampleScale),
      w_ScalesUpdate = (\<lambda>_ _ _. answer),
      w_ClientGet = (\<lambda>_ _ _. None),
      w_IsNotFound = (\<lambda>_. False),
      w_LabelsParse = (\<lambda>s. Inr s),
      w_PodLister = (\<lambda>_ _ _. Inr []), w_Occasion = (\<lambda>i. i),
      w_ScaledValue = (\<lambda>_ _ _. Inr 0),
      w_AsApproximateFloat64 = (\<lambda>q. Fin (of_int (q_value q))),
      w_MergePatch = (\<lambda>a b. Inr b),
      w_TimeEnv = utcEnv,
      w_UnmarshalPatches = (\<lambda>_. Inr None),
      w_MarshalPatches = (\<lambda>_. Inr ''[]''),
      w_FormatFloat2 = (\<lambda>_. ''?''),
      w_DurationString = (\<lambda>_. ''?''),
      w_AnnotationsEqual = (=),
      w_StatusEqual = (=),
      w_CacheGet = (\<lambda>_ _. Inr (sampleAutoscaler\<lparr>ra_Annotations := fmap_of_list [(DryRunAnnotation, ''false'')],
         ra_Spec := sampleSpec\<lparr>spec_Targets := [\<lparr>tgt_Metric = ''cpu'', tgt_MetricType = [],
            tgt_Settings = \<lparr>set_Default = Some \<lparr>Raw = []\<rparr>, set_Schedules = []\<rparr>\<rparr>]\<rparr>\<rparr>)),
      w_StatusPatch = (\<lambda>_. None),
      w_Patch = (\<lambda>_. None)\<rparr>"

definition sampleEngine :: "int \<Rightarrow> (replicator, unit, unit) engineProvisioner" where
  "sampleEngine n = AddScaler ''cpu'' (constScaler n)
     (AddReplicator ''simple'' \<lparr>r_config = Simple_NewDefaultConfig, historicalRecommendation = fmempty\<rparr>
        (newEngineProvisioner () fmempty))"

definition sampleState :: "int \<Rightarrow> (replicator, unit, unit) RState" where
  "sampleState n =
     \<lparr>rs_Autoscaler = sampleAutoscaler\<lparr>ra_Annotations := fmap_of_list [(DryRunAnnotation, ''false'')],
         ra_Spec := sampleSpec\<lparr>spec_Targets := [\<lparr>tgt_Metric = ''cpu'', tgt_MetricType = [],
            tgt_Settings = \<lparr>set_Default = Some \<lparr>Raw = []\<rparr>, set_Schedules = []\<rparr>\<rparr>]\<rparr>\<rparr>,
      rs_ScalableCache = isScalableCache_init, rs_Engine = sampleEngine n, rs_Events = [], rs_Updates = [],
      rs_Writes = []\<rparr>"

lemma sampleEngine_ok [simp]: "scalers_ok (sampleEngine n)"
  by (auto simp: scalers_ok_def sampleEngine_def store_simps GetScaler_def newEngineProvisioner_def AddScaler_def
      AddReplicator_def const_scaler.scaler_contract_axioms split: if_splits)

lemma any_targets_ok [simp]: "targets_ok (\<lambda>_. True) status"
  by (simp add: targets_ok_def)

lemma sample_scalers_return: "scalers_return (\<lambda>_. True) (rs_Engine (sampleState n))"
  by (auto simp: scalers_return_def sampleState_def sampleEngine_def store_simps GetScaler_def
      newEngineProvisioner_def AddScaler_def AddReplicator_def constScaler_def split: if_splits)

lemma sample_returns:
  obtains delay st' where "reconcile GetDesiredReplicas (sampleWorld a) (sampleState n) = Ret (delay, st')"
proof -
  have "no_nil (ra_Spec (rs_Autoscaler (sampleState n)))"
    by (simp add: no_nil_def sampleState_def sampleSpec_def)
  then show thesis using reconcile_returns [OF _ sample_scalers_return any_targets_ok] that by blast
qed

lemma sample_target:
  "getScaleTarget (sampleWorld a) (rs_Autoscaler (sampleState n)) (rs_ScalableCache (sampleState n)) =
     (Inr (\<lparr>gvkr_Group = ''apps'', gvkr_Version = ''v1'', gvkr_Kind = ''Deployment'', gvkr_Resource = ''deployments''\<rparr>,
           sampleScale), isScalableCache_init)"
  by (simp add: getScaleTarget_def isTargetScalable_def ParseGVKR_def getResource_def gvkr_defaults sampleState_def
      sampleAutoscaler_def sampleSpec_def sampleWorld_def isScalableCache_init_def GetGroupResourceKnownScalable_def
      GroupResource_def fmlookup_of_list)

lemma sample_range: "effectiveRange (sampleWorld a) (rs_Autoscaler (sampleState n)) = (1, 10)"
  by (simp add: effectiveRange_def getWorkingReplicaPatch_def GetReplicaPatches_def sampleWorld_def sampleState_def
      sampleSpec_def fmlookup_of_list DryRunAnnotation_def ReplicaPatchesAnnotation_def)

subsection \<open>Properties\<close>

text \<open>
  (C6) A reconciliation does not panic: if every target has default settings, every schedule has settings,
  a pending-exhaustion policy has its parameters, and the scalers return on statuses whose entries satisfy a
  property that they keep, then on such a status it returns a requeue delay and a new state whose entries
  satisfy it again, whatever the cluster, the clock and the replicator answer.
\<close>

theorem reconcile_never_panics:
  assumes "no_nil (ra_Spec (rs_Autoscaler st))" and "scalers_return okT (rs_Engine st)" and "targets_ok okT (rs_Status st)"
  shows "\<exists>delay st'. reconcile getDesired w st = Ret (delay, st') \<and> targets_ok okT (rs_Status st')"
  using assms by (rule reconcile_returns_ok)

theorem reconcile_never_panics_witness:
  "\<exists>delay st'. reconcile GetDesiredReplicas (sampleWorld None) (sampleState 5) = Ret (delay, st')"
proof -
  have "no_nil (ra_Spec (rs_Autoscaler (sampleState 5)))" by (simp add: no_nil_def sampleState_def sampleSpec_def)
  from reconcile_never_panics [OF this sample_scalers_return any_targets_ok] show ?thesis by blast
qed

text \<open>
  (C2) What a reconciliation sends to the API server: at most one scale update, only when the dry-run
  annotation is \<^verbatim>\<open>false\<close>, with the replica count it reports as desired. With a fixed count (no minimum in
  the spec) that is the maximum of the spec; otherwise it lies in the range in force, which is that of the
  first replica patch in force or else that of the spec.
\<close>

theorem reconcile_scale_in_range:
  assumes "reconcile getDesired w st = Ret (delay, st')" and "scalers_ok (rs_Engine st)"
    and "effectiveRange w (rs_Autoscaler st) = (lo, hi)" and "lo \<le> hi"
  shows "\<exists>us. rs_Updates st' = rs_Updates st @ us \<and> length us \<le> 1 \<and>
           list_all (\<lambda>u. let n = scale_Spec_Replicas (su_Scale u) in
             fmlookup (ra_Annotations (rs_Autoscaler st)) DryRunAnnotation = Some ''false'' \<and>
             n = st_DesiredReplicas (rs_Status st') \<and>
             (case spec_MinReplicas (ra_Spec (rs_Autoscaler st)) of
                None \<Rightarrow> n = spec_MaxReplicas (ra_Spec (rs_Autoscaler st))
              | Some _ \<Rightarrow> lo \<le> n \<and> n \<le> hi)) us"
  using assms(1,2)
proof (cases rule: reconcile_sum)
  case quiet
  then show ?thesis by (intro exI [of _ "[]"]) (simp add: step_sum_def)
next
  case (static gvkr scale cache)
  note up = step_sumD(2) [OF static(3)]
  show ?thesis unfolding up by (rule exI, rule conjI, rule refl) (simp add: scaleUpdates_def static(2,4))
next
  case (flow gvkr scale cache clk ctx r r' n)
  have "limited w (rs_Autoscaler st) n = max lo (min hi n)" by (simp add: limited_def assms(3))
  then have range: "lo \<le> limited w (rs_Autoscaler st) n" "limited w (rs_Autoscaler st) n \<le> hi" using assms(4) by auto
  note up = step_sumD(2) [OF flow(5)]
  show ?thesis unfolding up
    by (rule exI, rule conjI, rule refl) (use flow(2,6) range in \<open>auto simp: scaleUpdates_def Let_def\<close>)
qed

theorem reconcile_scale_in_range_witness:
  "\<exists>delay st' us. reconcile GetDesiredReplicas (sampleWorld None) (sampleState 50) = Ret (delay, st') \<and>
     rs_Updates st' = us \<and> length us \<le> 1 \<and> list_all (\<lambda>u. scale_Spec_Replicas (su_Scale u) \<le> 10) us"
proof -
  obtain delay st' where r: "reconcile GetDesiredReplicas (sampleWorld None) (sampleState 50) = Ret (delay, st')"
    by (rule sample_returns)
  have "scalers_ok (rs_Engine (sampleState 50))" by (simp add: sampleState_def)
  from reconcile_scale_in_range [OF r this sample_range] show ?thesis
    using r by (auto simp: sampleState_def sampleSpec_def Let_def list_all_iff)
qed

text \<open>
  (C9) Cold-down: a reconciliation of an autoscaler with a range (a minimum in its spec) that sends a scale
  update, or moves the scale time, happens at least 30 seconds after the last scale time, unless panic mode
  was in force when it began.
\<close>

theorem scale_respects_cold_down:
  assumes "reconcile getDesired w st = Ret (delay, st')" and "scalers_ok (rs_Engine st)"
    and "spec_MinReplicas (ra_Spec (rs_Autoscaler st)) \<noteq> None"
    and "st_LastScaleTime (rs_Status st) = Some t"
    and "rs_Updates st' \<noteq> rs_Updates st \<or> st_LastScaleTime (rs_Status st') \<noteq> Some t"
  shows "30 * Second \<le> w_Clock w AtColdDown - t \<or>
         StillInPanicMode (w_Clock w AtStillPanic) (rs_Status st) (spec_Strategy (ra_Spec (rs_Autoscaler st)))"
  using assms(1,2)
proof (cases rule: reconcile_sum)
  case quiet
  then show ?thesis using assms(4,5) by (simp add: step_sum_def)
next
  case (flow gvkr scale cache clk ctx r r' n)
  have "time_Sub (w_Clock w AtColdDown) t < DefaultScalingColdDown \<longleftrightarrow> w_Clock w AtColdDown - t < 30 * Second"
    unfolding DefaultScalingColdDown_def by (rule time_Sub_less_iff) simp_all
  with flow(3) assms(4) show ?thesis by (auto simp: coldDown_def)
qed (use assms(3) in simp)

theorem scale_respects_cold_down_witness:
  "\<exists>delay st'. reconcile GetDesiredReplicas (sampleWorld None)
       ((sampleState 50)\<lparr>rs_Autoscaler := (rs_Autoscaler (sampleState 50))\<lparr>ra_Status :=
           zeroStatus\<lparr>st_LastScaleTime := Some (990 * Second)\<rparr>\<rparr>\<rparr>) = Ret (delay, st') \<and>
     rs_Updates st' = []"
proof -
  define st where "st = (sampleState 50)\<lparr>rs_Autoscaler := (rs_Autoscaler (sampleState 50))\<lparr>ra_Status :=
           zeroStatus\<lparr>st_LastScaleTime := Some (990 * Second)\<rparr>\<rparr>\<rparr>"
  have "no_nil (ra_Spec (rs_Autoscaler st))" by (simp add: no_nil_def st_def sampleState_def sampleSpec_def)
  moreover have "scalers_return (\<lambda>_. True) (rs_Engine st)" using sample_scalers_return by (simp add: st_def)
  ultimately obtain delay st' where r: "reconcile GetDesiredReplicas (sampleWorld None) st = Ret (delay, st')"
    using reconcile_returns [OF _ _ any_targets_ok] by blast
  have "scalers_ok (rs_Engine st)" "spec_MinReplicas (ra_Spec (rs_Autoscaler st)) \<noteq> None"
    "st_LastScaleTime (rs_Status st) = Some (990 * Second)" "rs_Updates st = []"
    "\<not> 30 * Second \<le> w_Clock (sampleWorld None) AtColdDown - 990 * Second"
    "\<not> StillInPanicMode now s (spec_Strategy (ra_Spec (rs_Autoscaler st)))" for now s
    by (simp_all add: st_def sampleState_def sampleSpec_def sampleWorld_def StillInPanicMode_def IsPanicModeConfigured_def)
  with scale_respects_cold_down [OF r] have "rs_Updates st' = []" by fastforce
  with r show ?thesis unfolding st_def by blast
qed

text \<open>
  (C10) Panic mode is a state machine over reconciliations. It begins only in a reconciliation whose change of the replica count reaches
  the threshold, and which asks to be run again after 15 seconds. It ends only in one that asks for the usual 60 seconds, after its window has
  passed and with a change that does not reach the threshold. In between it stays: whenever a reconciliation asks for 15 seconds it has reached
  the threshold, and one that does not ask for them leaves the condition as it was, the window still running unless it stopped short of a new count.

  So the short interval lasts only as long as the threshold is reached anew: within the window, a reconciliation that does not reach it asks for 60 seconds
  although panic mode stays. The documentation (\<^verbatim>\<open>docs/Wing_zh-CN.md\<close>) has it kept for the whole window.
\<close>

theorem panic_mode_transitions:
  assumes "reconcile getDesired w st = Ret (delay, st')" and "scalers_ok (rs_Engine st)"
  defines "was \<equiv> GetCondition (st_Conditions (rs_Status st)) ConditionPanicMode"
    and "now_is \<equiv> GetCondition (st_Conditions (rs_Status st')) ConditionPanicMode"
    and "reached hit \<equiv> \<exists>gvkr scale cache.
           getScaleTarget w (rs_Autoscaler st) (rs_ScalableCache st) = (Inr (gvkr, scale), cache) \<and>
           ShouldEnterPanicMode (w_AsApproximateFloat64 w) (st_DesiredReplicas (rs_Status st'))
             (scale_Spec_Replicas scale) (spec_Strategy (ra_Spec (rs_Autoscaler st))) = hit"
    and "window \<equiv> StillInPanicMode (w_Clock w AtStillPanicAfter) (rs_Status st) (spec_Strategy (ra_Spec (rs_Autoscaler st)))"
  shows "(cond_Status was \<noteq> ConditionTrue \<and> cond_Status now_is = ConditionTrue \<longrightarrow> delay = 15 * Second \<and> reached True) \<and>
         (cond_Status was = ConditionTrue \<and> cond_Status now_is \<noteq> ConditionTrue \<longrightarrow>
            delay = 60 * Second \<and> cond_Status now_is = ConditionFalse \<and> \<not> window \<and> reached False) \<and>
         (delay = 15 * Second \<longrightarrow> cond_Status now_is = ConditionTrue \<and> reached True) \<and>
         (cond_Status was = ConditionTrue \<and> cond_Status now_is = ConditionTrue \<and> delay \<noteq> 15 * Second \<longrightarrow>
            now_is = was \<and>
            (delay = 60 * Second \<and> window \<and> reached False \<or> delay = 30 * Second \<or>
             spec_MinReplicas (ra_Spec (rs_Autoscaler st)) = None \<or>
             st_DesiredReplicas (rs_Status st') = st_DesiredReplicas (rs_Status st) \<and> rs_Updates st' = rs_Updates st))"
  using assms(1,2)
proof (cases rule: reconcile_sum)
  case quiet
  then show ?thesis using step_sumD(2) [OF quiet(1)] by (simp add: was_def now_is_def requeue_delays)
next
  case (static gvkr scale cache)
  then show ?thesis by (simp add: was_def now_is_def requeue_delays)
next
  case (flow gvkr scale cache clk ctx r r' n)
  define enter where "enter = ShouldEnterPanicMode (w_AsApproximateFloat64 w) (limited w (rs_Autoscaler st) n)
      (scale_Spec_Replicas scale) (spec_Strategy (ra_Spec (rs_Autoscaler st)))"
  have reached: "reached hit \<longleftrightarrow> enter = hit" for hit using flow(1,6) by (auto simp: reached_def enter_def)
  have no: "ConditionFalse \<noteq> ConditionTrue" by (simp add: condition_statuses)
  from flow(7) consider "delay = 30 * Second" "now_is = was"
    | "delay = 15 * Second" enter "cond_Status now_is = ConditionTrue"
    | "delay = 60 * Second" "\<not> enter" window "now_is = was"
    | "delay = 60 * Second" "\<not> enter" "\<not> window" "cond_Status now_is = ConditionFalse"
    unfolding panic_outcome_def Let_def was_def now_is_def window_def requeue_delays enter_def by (auto split: if_splits)
  then show ?thesis
  proof cases
    case 1
    then show ?thesis by simp
  next
    case 2
    then show ?thesis by (simp add: reached)
  next
    case 3
    then show ?thesis by (simp add: reached)
  next
    case 4
    then show ?thesis by (simp add: reached no)
  qed
qed

theorem panic_mode_transitions_witness:
  defines "st \<equiv> (sampleState 50)\<lparr>rs_Autoscaler := (rs_Autoscaler (sampleState 50))\<lparr>ra_Status := zeroStatus\<lparr>
       st_Conditions := [mkCondition ConditionPanicMode ConditionTrue [] []]\<rparr>\<rparr>\<rparr>"
  shows "\<exists>delay st'. reconcile GetDesiredReplicas (sampleWorld None) st = Ret (delay, st') \<and> delay \<noteq> 15 * Second \<and>
           (cond_Status (GetCondition (st_Conditions (rs_Status st')) ConditionPanicMode) = ConditionTrue \<or>
            delay = 60 * Second \<and> cond_Status (GetCondition (st_Conditions (rs_Status st')) ConditionPanicMode) = ConditionFalse)"
proof -
  have "no_nil (ra_Spec (rs_Autoscaler st))" "scalers_return (\<lambda>_. True) (rs_Engine st)" and ok: "scalers_ok (rs_Engine st)"
    using sample_scalers_return by (simp_all add: st_def no_nil_def) (simp_all add: sampleState_def sampleSpec_def)
  then obtain delay st' where r: "reconcile GetDesiredReplicas (sampleWorld None) st = Ret (delay, st')"
    using reconcile_returns [OF _ _ any_targets_ok] by blast
  have was: "cond_Status (GetCondition (st_Conditions (rs_Status st)) ConditionPanicMode) = ConditionTrue"
    by (simp add: st_def GetCondition_def)
  have never: "\<not> ShouldEnterPanicMode f d c (spec_Strategy (ra_Spec (rs_Autoscaler st)))" for f d c
    by (simp add: st_def sampleState_def sampleSpec_def ShouldEnterPanicMode_def IsPanicModeConfigured_def)
  note T = panic_mode_transitions [OF r ok]
  have "delay \<noteq> 15 * Second" using T never by blast
  with T was r show ?thesis by blast
qed

text \<open>
  (C39) Readiness does not report failures of the flow: whenever the scale target was found and the
  exhaustion check made no error, the object ends with the condition \<^verbatim>\<open>Ready\<close> true (with empty reason
  and message), also when no scaler or replicator of the wanted name exists or the scale update was refused
  and the code had set it to false a moment before.
\<close>

theorem ready_after_failed_scale:
  assumes "reconcile getDesired w st = Ret (delay, st')"
    and "ra_DeletionTimestamp (rs_Autoscaler st) = None"
    and "getScaleTarget w (rs_Autoscaler st) (rs_ScalableCache st) = (Inr (gvkr, scale), cache)"
    and "\<forall>d e st1. updateExhaustedAutoscaler w scale (st\<lparr>rs_ScalableCache := cache\<rparr>) \<noteq> Ret (d, Some e, st1)"
  shows "condition_lookup (st_Conditions (rs_Status st')) ConditionReady = Some (ConditionReady, ConditionTrue, [], [])"
  using assms(1)
proof (cases rule: reconcileE)
  case (static gvkr scale cache d st1 err st3)
  then show ?thesis
    by (simp add: ready_def condition_lookup_def find_SetCondition condition_value_def)
next
  case (scaled gvkr scale cache d st1 st3)
  then show ?thesis
    by (simp add: ready_def condition_lookup_def find_SetCondition condition_value_def)
qed (use assms(2-4) in auto)

theorem ready_after_failed_scale_witness:
  "\<exists>delay st'. reconcile GetDesiredReplicas (sampleWorld (Some (errNew ''forbidden''))) (sampleState 50) = Ret (delay, st') \<and>
     condition_lookup (st_Conditions (rs_Status st')) ConditionReady = Some (ConditionReady, ConditionTrue, [], [])"
proof -
  obtain delay st' where r: "reconcile GetDesiredReplicas (sampleWorld (Some (errNew ''forbidden''))) (sampleState 50)
      = Ret (delay, st')" by (rule sample_returns)
  have "ra_DeletionTimestamp (rs_Autoscaler (sampleState 50)) = None"
    by (simp add: sampleState_def sampleAutoscaler_def)
  moreover have "\<forall>d e st1. updateExhaustedAutoscaler (sampleWorld a) sampleScale
      ((sampleState 50)\<lparr>rs_ScalableCache := isScalableCache_init\<rparr>) \<noteq> Ret (d, Some e, st1)" for a
    by (simp add: updateExhaustedAutoscaler_def sampleState_def sampleSpec_def)
  ultimately show ?thesis
    using ready_after_failed_scale [OF r _ sample_target] r by blast
qed

end
