(* ===== verification/Controller_Loop.thy ===== *)
theory Controller_Loop
  imports Reconciler_Safety
begin

text \<open>
  The controller over time: a cluster holds the stored object, its earlier versions and the controller's process state; it moves by
  a reconciliation request for the object (in any world whose cache returns the stored object or, being stale, one of the earlier versions, with whatever
  other answers) and by a user's edit of anything but the status.

  How the API server applies a write is the parameter \<open>server\<close>: what is used of it is that a write of the
  object or its status leaves each of the stored conditions, the stored target statuses and every single annotation either as it was or as written
  (\<open>honest\<close>). A merge patch replaces a list as a whole and sets the keys of a map one by one, so this holds of a patch against a stale base too, whose result
  may be a mixture of the two objects.

  Shown by rule induction over the reachable clusters: conditions stay one per type, the engine's scalers stay
  as they were, and a cluster in which scaling is never switched on never gets a scale update.
\<close>

record ('r, 'y, 'm) Cluster =
  cl_Object :: ReplicaAutoscaler
  cl_Earlier :: "ReplicaAutoscaler list"
  cl_State :: "('r, 'y, 'm) RState"

text \<open>What the cache may show.\<close>

definition versions :: "('r, 'y, 'm) Cluster \<Rightarrow> ReplicaAutoscaler list" where
  "versions c = cl_Object c # cl_Earlier c"

fun written :: "ObjectWrite \<Rightarrow> ReplicaAutoscaler" where
  "written (StatusPatch ra) = ra"
| "written (ObjectPatch ra) = ra"

definition honest :: "(ObjectWrite \<Rightarrow> ReplicaAutoscaler \<Rightarrow> ReplicaAutoscaler) \<Rightarrow> bool" where
  "honest server \<longleftrightarrow> (\<forall>wr obj.
     st_Conditions (ra_Status (server wr obj)) \<in> {st_Conditions (ra_Status obj), st_Conditions (ra_Status (written wr))} \<and>
     st_Targets (ra_Status (server wr obj)) \<in> {st_Targets (ra_Status obj), st_Targets (ra_Status (written wr))} \<and>
     (\<forall>k. fmlookup (ra_Annotations (server wr obj)) k \<in> {fmlookup (ra_Annotations obj) k, fmlookup (ra_Annotations (written wr)) k}))"

text \<open>The writes of one request, and the object after the server has applied them.\<close>

definition stored ::
  "(ObjectWrite \<Rightarrow> ReplicaAutoscaler \<Rightarrow> ReplicaAutoscaler) \<Rightarrow> ('r, 'y, 'm) RState \<Rightarrow> ('r, 'y, 'm) RState \<Rightarrow>
   goerr option \<Rightarrow> ReplicaAutoscaler \<Rightarrow> ReplicaAutoscaler" where
  "stored server st st' err obj =
     (if err \<noteq> None then obj else fold server (drop (length (rs_Writes st)) (rs_Writes st')) obj)"

inductive cluster_step ::
  "'r GetDesired \<Rightarrow> (ObjectWrite \<Rightarrow> ReplicaAutoscaler \<Rightarrow> ReplicaAutoscaler) \<Rightarrow>
   ('r, 'y, 'm) Cluster \<Rightarrow> ('r, 'y, 'm) Cluster \<Rightarrow> bool"
  for getDesired server where
  reconciled: "w_CacheGet w namespace name = Inr obj \<Longrightarrow> obj \<in> set (versions c) \<Longrightarrow>
     Reconcile getDesired w namespace name (cl_State c) = Ret ((d, err), st') \<Longrightarrow>
     cluster_step getDesired server c
       \<lparr>cl_Object = stored server (cl_State c) st' err (cl_Object c), cl_Earlier = versions c, cl_State = st'\<rparr>"
| edited: "ra_Status obj = ra_Status (cl_Object c) \<Longrightarrow>
     cluster_step getDesired server c (c\<lparr>cl_Object := obj, cl_Earlier := versions c\<rparr>)"

inductive cluster_reach ::
  "'r GetDesired \<Rightarrow> (ObjectWrite \<Rightarrow> ReplicaAutoscaler \<Rightarrow> ReplicaAutoscaler) \<Rightarrow> (ReplicaAutoscaler \<Rightarrow> bool) \<Rightarrow>
   ('r, 'y, 'm) Cluster \<Rightarrow> ('r, 'y, 'm) Cluster \<Rightarrow> bool"
  for getDesired server P c0 where
  start: "P (cl_Object c0) \<Longrightarrow> cl_Earlier c0 = [] \<Longrightarrow> cluster_reach getDesired server P c0 c0"
| step: "cluster_reach getDesired server P c0 c \<Longrightarrow> cluster_step getDesired server c c' \<Longrightarrow> P (cl_Object c') \<Longrightarrow>
     cluster_reach getDesired server P c0 c'"

inductive_cases cluster_stepE: "cluster_step getDesired server c c'"

lemma cluster_reach_versions:
  assumes "cluster_reach getDesired server P c0 c"
  shows "\<forall>obj\<in>set (versions c). P obj" "versions c0 = [cl_Object c0]"
  using assms by (induction rule: cluster_reach.induct) (auto simp: versions_def elim!: cluster_stepE)

subsection \<open>One step\<close>

lemma reconcile_object:
  assumes "reconcile getDesired w st = Ret (delay, st')" "scalers_ok (rs_Engine st)"
  shows "same_object st st'" "conds_reach allTypes (st_Conditions (rs_Status st)) (st_Conditions (rs_Status st'))"
    "ep_scalers (rs_Engine st') = ep_scalers (rs_Engine st)"
  using assms by (cases rule: reconcile_sum; simp add: step_sum_def)+

lemma Reconcile_step:
  assumes "Reconcile getDesired w namespace name st = Ret ((d, err), st')" "scalers_ok (rs_Engine st)"
    and "w_CacheGet w namespace name = Inr obj"
  obtains ws where "rs_Writes st' = rs_Writes st @ ws"
    "\<forall>wr\<in>set ws. ra_Annotations (written wr) = ra_Annotations (purgedObject w obj) \<and>
       conds_reach allTypes (st_Conditions (ra_Status obj)) (st_Conditions (ra_Status (written wr)))"
    "scalers_ok (rs_Engine st')"
  using assms(1)
proof (cases rule: ReconcileE)
  case (read ra delay st1 du)
  have ra: "ra = obj" using read(1) assms(3) by simp
  let ?st = "st\<lparr>rs_Autoscaler := purgedObject w obj\<rparr>"
  have ok: "scalers_ok (rs_Engine ?st)" using assms(2) by simp
  note R = reconcile_object [OF read(2) [unfolded ra] ok]
  note U = updateAutoscalerIfNeeded_sum(1) [OF read(3)]
  define ws where "ws = drop (length (rs_Writes st)) (rs_Writes st')"
  have st1: "rs_Writes st1 = rs_Writes st" "ra_Annotations (rs_Autoscaler st1) = ra_Annotations (purgedObject w obj)"
    using same_object_fields [OF R(1)] by simp_all
  have ws: "rs_Writes st' = rs_Writes st @ ws" using U st1(1) by (simp add: ws_def)
  have "\<forall>wr\<in>set ws. ra_Annotations (written wr) = ra_Annotations (rs_Autoscaler st1) \<and> ra_Status (written wr) = rs_Status st1"
    using U st1(1) by (simp add: ws_def)
  then have "\<forall>wr\<in>set ws. ra_Annotations (written wr) = ra_Annotations (purgedObject w obj) \<and>
       conds_reach allTypes (st_Conditions (ra_Status obj)) (st_Conditions (ra_Status (written wr)))"
    using R(2) st1(2) by (simp add: purgedObject_frame)
  moreover have "scalers_ok (rs_Engine st')" using R(3) ok U by (simp add: scalers_ok_def GetScaler_def)
  ultimately show thesis using ws that by blast
qed (use assms that in auto)

lemma stored_invariant:
  assumes "honest server" "rs_Writes st' = rs_Writes st @ ws" "Q obj"
    and "\<And>o' o'' wr. Q o' \<Longrightarrow> wr \<in> set ws \<Longrightarrow>
            st_Conditions (ra_Status o'') \<in> {st_Conditions (ra_Status o'), st_Conditions (ra_Status (written wr))} \<Longrightarrow>
            st_Targets (ra_Status o'') \<in> {st_Targets (ra_Status o'), st_Targets (ra_Status (written wr))} \<Longrightarrow>
            \<forall>k. fmlookup (ra_Annotations o'') k \<in> {fmlookup (ra_Annotations o') k, fmlookup (ra_Annotations (written wr)) k} \<Longrightarrow> Q o''"
  shows "Q (stored server st st' err obj)"
proof -
  have "Q (fold server vs o')" if "set vs \<subseteq> set ws" "Q o'" for vs o'
    using that
  proof (induction vs arbitrary: o')
    case (Cons v vs)
    have "v \<in> set ws" using Cons.prems(1) by simp
    with assms(1) have "Q (server v o')" unfolding honest_def by (intro assms(4) [OF Cons.prems(2)]) blast+
    with Cons show ?case by simp
  qed simp
  then show ?thesis using assms(2,3) by (simp add: stored_def)
qed

subsection \<open>Invariants\<close>

definition conditions_ok :: "ReplicaAutoscaler \<Rightarrow> bool" where
  "conditions_ok ra \<longleftrightarrow> distinct (map cond_Type (st_Conditions (ra_Status ra)))"

abbreviation all_ok :: "('r, 'y, 'm) Cluster \<Rightarrow> bool" where
  "all_ok c \<equiv> scalers_ok (rs_Engine (cl_State c)) \<and> (\<forall>obj\<in>set (versions c). conditions_ok obj)"

lemma cluster_step_ok:
  assumes "cluster_step getDesired server c c'" "honest server" "all_ok c"
  shows "all_ok c'"
  using assms(1)
proof (rule cluster_stepE)
  fix w namespace name obj d err st'
  assume c': "c' = \<lparr>cl_Object = stored server (cl_State c) st' err (cl_Object c), cl_Earlier = versions c, cl_State = st'\<rparr>"
    and get: "w_CacheGet w namespace name = Inr obj" and obj: "obj \<in> set (versions c)"
    and rec: "Reconcile getDesired w namespace name (cl_State c) = Ret ((d, err), st')"
  obtain ws where ws: "rs_Writes st' = rs_Writes (cl_State c) @ ws"
    and a: "\<forall>wr\<in>set ws. conds_reach allTypes (st_Conditions (ra_Status obj)) (st_Conditions (ra_Status (written wr)))"
    and e: "scalers_ok (rs_Engine st')"
    using Reconcile_step [OF rec _ get] assms(3) by metis
  have "\<forall>wr\<in>set ws. conditions_ok (written wr)"
    using a assms(3) obj conds_reach_distinct by (auto simp: conditions_ok_def)
  moreover have "conditions_ok (cl_Object c)" using assms(3) by (simp add: versions_def)
  ultimately have "conditions_ok (stored server (cl_State c) st' err (cl_Object c))"
    by (intro stored_invariant [where Q = conditions_ok, OF assms(2) ws]) (auto simp: conditions_ok_def)
  with e c' assms(3) show ?thesis by (simp add: versions_def)
next
  fix obj
  assume "c' = c\<lparr>cl_Object := obj, cl_Earlier := versions c\<rparr>" "ra_Status obj = ra_Status (cl_Object c)"
  then show ?thesis using assms(3) by (simp add: conditions_ok_def versions_def)
qed

lemma cluster_reach_ok:
  assumes "cluster_reach getDesired server P c0 c" "honest server" "scalers_ok (rs_Engine (cl_State c0))"
    and "conditions_ok (cl_Object c0)"
  shows "all_ok c"
proof -
  have "all_ok c0" using assms(3,4) cluster_reach_versions(2) [OF assms(1)] by simp
  with assms(1) show ?thesis by (induction rule: cluster_reach.induct) (blast dest: cluster_step_ok [OF _ assms(2)])+
qed

subsection \<open>Scale updates over time\<close>

lemma cluster_reach_off:
  assumes "cluster_reach getDesired server scaling_off c0 c" "honest server" "scalers_ok (rs_Engine (cl_State c0))"
    and "conditions_ok (cl_Object c0)"
  shows "rs_Updates (cl_State c) = rs_Updates (cl_State c0)"
  using assms
proof (induction rule: cluster_reach.induct)
  case (step c c')
  have ok: "scalers_ok (rs_Engine (cl_State c))" using cluster_reach_ok [OF step(1)] step.prems by blast
  have off: "scaling_off obj" if "obj \<in> set (versions c)" for obj using cluster_reach_versions(1) [OF step(1)] that by blast
  have "rs_Updates (cl_State c') = rs_Updates (cl_State c)"
    using step(2) by (rule cluster_stepE) (auto dest: Reconcile_off [OF _ ok] off)
  then show ?case using step by simp
qed simp

subsection \<open>No panic over time\<close>

lemma scalers_return_cong: "ep_scalers e' = ep_scalers e \<Longrightarrow> scalers_return okT e' = scalers_return okT e"
  by (simp add: scalers_return_def GetScaler_def)

lemma Reconcile_keeps_targets:
  assumes "Reconcile getDesired w namespace name st = Ret ((d, err), st')" "w_CacheGet w namespace name = Inr obj"
    and "scalers_ok (rs_Engine st)" "scalers_return okT (rs_Engine st)" "no_nil (ra_Spec obj)" "targets_ok okT (ra_Status obj)"
  obtains ws where "rs_Writes st' = rs_Writes st @ ws" "\<forall>wr\<in>set ws. targets_ok okT (ra_Status (written wr))"
    "scalers_return okT (rs_Engine st')"
  using assms(1)
proof (cases rule: ReconcileE)
  case (read ra delay st1 du)
  have ra: "ra = obj" using read(1) assms(2) by simp
  let ?st = "st\<lparr>rs_Autoscaler := purgedObject w obj\<rparr>"
  have "targets_ok okT (rs_Status st1)"
    using reconcile_returns_ok [of ?st okT getDesired w] read(2) assms(4-6) by (auto simp: ra purgedObject_frame)
  moreover note R = reconcile_object [OF read(2) [unfolded ra]]
  have "rs_Writes st1 = rs_Writes st" "ep_scalers (rs_Engine st1) = ep_scalers (rs_Engine st)"
    using same_object_fields [OF R(1)] R(3) assms(3) by simp_all
  moreover note U = updateAutoscalerIfNeeded_sum(1) [OF read(3)]
  define ws where "ws = drop (length (rs_Writes st)) (rs_Writes st')"
  ultimately have "rs_Writes st' = rs_Writes st @ ws" "\<forall>wr\<in>set ws. targets_ok okT (ra_Status (written wr))"
    "ep_scalers (rs_Engine st') = ep_scalers (rs_Engine st)"
    using U by (simp_all add: ws_def)
  then show thesis using that scalers_return_cong assms(4) by blast
qed (use assms that in auto)

lemma cluster_step_targets:
  assumes "cluster_step getDesired server c c'" "honest server" "all_ok c" "scalers_return okT (rs_Engine (cl_State c))"
    and "\<forall>obj\<in>set (versions c). targets_ok okT (ra_Status obj) \<and> no_nil (ra_Spec obj)"
  shows "scalers_return okT (rs_Engine (cl_State c')) \<and> (\<forall>obj\<in>set (versions c'). targets_ok okT (ra_Status obj))"
  using assms(1)
proof (rule cluster_stepE)
  fix w namespace name obj d err st'
  assume c': "c' = \<lparr>cl_Object = stored server (cl_State c) st' err (cl_Object c), cl_Earlier = versions c, cl_State = st'\<rparr>"
    and get: "w_CacheGet w namespace name = Inr obj" and obj: "obj \<in> set (versions c)"
    and rec: "Reconcile getDesired w namespace name (cl_State c) = Ret ((d, err), st')"
  obtain ws where ws: "rs_Writes st' = rs_Writes (cl_State c) @ ws" "\<forall>wr\<in>set ws. targets_ok okT (ra_Status (written wr))"
    and e: "scalers_return okT (rs_Engine st')"
    using Reconcile_keeps_targets [OF rec get _ assms(4)] assms(3,5) obj by metis
  have "targets_ok okT (ra_Status (cl_Object c))" using assms(5) by (simp add: versions_def)
  then have "targets_ok okT (ra_Status (stored server (cl_State c) st' err (cl_Object c)))"
    using ws(2) by (intro stored_invariant [where Q = "\<lambda>ra. targets_ok okT (ra_Status ra)", OF assms(2) ws(1)])
      (auto simp: targets_ok_def)
  with e c' assms(5) show ?thesis by (simp add: versions_def)
next
  fix obj
  assume "c' = c\<lparr>cl_Object := obj, cl_Earlier := versions c\<rparr>" "ra_Status obj = ra_Status (cl_Object c)"
  then show ?thesis using assms(4,5) by (simp add: versions_def)
qed

lemma cluster_reach_targets:
  assumes "cluster_reach getDesired server (\<lambda>ra. no_nil (ra_Spec ra)) c0 c" "honest server"
    and "scalers_ok (rs_Engine (cl_State c0))" "conditions_ok (cl_Object c0)"
    and "scalers_return okT (rs_Engine (cl_State c0))" "targets_ok okT (ra_Status (cl_Object c0))"
  shows "scalers_return okT (rs_Engine (cl_State c)) \<and> (\<forall>obj\<in>set (versions c). targets_ok okT (ra_Status obj) \<and> no_nil (ra_Spec obj))"
  using assms
proof (induction rule: cluster_reach.induct)
  case (step c c')
  have ok: "all_ok c" by (rule cluster_reach_ok [OF step(1) step.prems(1-3)])
  have "scalers_return okT (rs_Engine (cl_State c))" "\<forall>obj\<in>set (versions c). targets_ok okT (ra_Status obj) \<and> no_nil (ra_Spec obj)"
    using step by blast+
  from cluster_step_targets [OF step(2) step.prems(1) ok this]
    cluster_reach_versions(1) [OF cluster_reach.step [OF step(1-3)]] show ?case by blast
qed (simp add: versions_def)

subsection \<open>A sample run\<close>

definition sampleServer :: "ObjectWrite \<Rightarrow> ReplicaAutoscaler \<Rightarrow> ReplicaAutoscaler" where
  "sampleServer wr obj = (case wr of
     StatusPatch ra \<Rightarrow> obj\<lparr>ra_Status := ra_Status ra\<rparr>
   | ObjectPatch ra \<Rightarrow> obj\<lparr>ra_Annotations := ra_Annotations ra\<rparr>)"

lemma sampleServer_honest: "honest sampleServer"
  by (auto simp: honest_def sampleServer_def split: ObjectWrite.splits)

definition sampleCluster :: "(replicator, unit, unit) Cluster" where
  "sampleCluster = \<lparr>cl_Object = sampleAutoscaler, cl_Earlier = [], cl_State = sampleState 50\<rparr>"

lemma sampleCluster_step:
  obtains c where "cluster_step GetDesiredReplicas sampleServer sampleCluster c"
    "cluster_reach GetDesiredReplicas sampleServer (\<lambda>_. True) sampleCluster c"
proof -
  let ?w = "(sampleWorld None)\<lparr>w_CacheGet := (\<lambda>_ _. Inr sampleAutoscaler)\<rparr>"
  have get: "w_CacheGet ?w ''prod'' ''web'' = Inr (cl_Object sampleCluster)" by (simp add: sampleCluster_def)
  have "no_nil (ra_Spec sampleAutoscaler)" by (simp add: no_nil_def sampleAutoscaler_def sampleSpec_def)
  then obtain d e st' where
    "Reconcile GetDesiredReplicas ?w ''prod'' ''web'' (cl_State sampleCluster) = Ret ((d, e), st')"
    using Reconcile_returns [OF get, of "\<lambda>_. True" "sampleState 50" GetDesiredReplicas] sample_scalers_return [of 50]
    by (auto simp: sampleCluster_def)
  from reconciled [OF get _ this] have step: "cluster_step GetDesiredReplicas sampleServer sampleCluster
      \<lparr>cl_Object = stored sampleServer (cl_State sampleCluster) st' e (cl_Object sampleCluster), cl_Earlier = versions sampleCluster,
       cl_State = st'\<rparr>" by (simp add: versions_def)
  have "cluster_reach GetDesiredReplicas sampleServer (\<lambda>_. True) sampleCluster sampleCluster"
    by (rule start) (simp_all add: sampleCluster_def)
  then show thesis by (intro that [OF step] cluster_reach.step [OF _ step]) simp_all
qed

subsection \<open>Properties\<close>

text \<open>
  (C7) In every cluster reachable by reconciliations (in any worlds, from whatever version of the object the cache shows) and user edits from one whose conditions
  have one entry per type, the stored conditions have one entry per type, and the scalers of the engine are
  still those that meet the scaler contract.
\<close>

theorem controller_run_invariant:
  assumes "cluster_reach getDesired server (\<lambda>_. True) c0 c" and "honest server"
    and "scalers_ok (rs_Engine (cl_State c0))"
    and "distinct (map cond_Type (st_Conditions (ra_Status (cl_Object c0))))"
  shows "distinct (map cond_Type (st_Conditions (ra_Status (cl_Object c)))) \<and> scalers_ok (rs_Engine (cl_State c))"
  using cluster_reach_ok [OF assms(1-3)] assms(4) by (simp add: conditions_ok_def versions_def)

theorem controller_run_invariant_witness:
  "\<exists>c. cluster_step GetDesiredReplicas sampleServer sampleCluster c \<and>
       distinct (map cond_Type (st_Conditions (ra_Status (cl_Object c))))"
proof -
  obtain c where c: "cluster_step GetDesiredReplicas sampleServer sampleCluster c"
    "cluster_reach GetDesiredReplicas sampleServer (\<lambda>_. True) sampleCluster c" by (rule sampleCluster_step)
  have "scalers_ok (rs_Engine (cl_State sampleCluster))"
    "distinct (map cond_Type (st_Conditions (ra_Status (cl_Object sampleCluster))))"
    by (simp_all add: sampleCluster_def sampleState_def sampleAutoscaler_def zeroStatus_def)
  from controller_run_invariant [OF c(2) sampleServer_honest this] c(1) show ?thesis by blast
qed

text \<open>
  (C8) Scaling happens only on demand: as long as the dry-run annotation of the stored object is never exactly
  \<^verbatim>\<open>false\<close> (in particular as long as it is absent, or \<^verbatim>\<open>true\<close>), no run of reconciliations and edits sends a scale
  update, whatever the scalers, the replicator and the cluster answer.

  This is the meaning of the name of the annotation, and the code's. The comment at its declaration has it the other way round: performed on
  \<^verbatim>\<open>true\<close>, skipped on \<^verbatim>\<open>false\<close>. The sample run has the value \<^verbatim>\<open>true\<close> and a scaler that asks for 50 replicas.
\<close>

theorem no_scaling_while_dry_run:
  assumes "cluster_reach getDesired server
             (\<lambda>ra. fmlookup (ra_Annotations ra) DryRunAnnotation \<noteq> Some ''false'') c0 c"
    and "honest server" and "scalers_ok (rs_Engine (cl_State c0))"
    and "distinct (map cond_Type (st_Conditions (ra_Status (cl_Object c0))))"
  shows "rs_Updates (cl_State c) = rs_Updates (cl_State c0)"
  using cluster_reach_off [of getDesired server c0 c] assms unfolding scaling_off_def conditions_ok_def by blast

definition dryObject :: ReplicaAutoscaler where
  "dryObject = (rs_Autoscaler (sampleState 50))\<lparr>ra_Annotations := fmap_of_list [(DryRunAnnotation, ''true'')]\<rparr>"

definition dryCluster :: "(replicator, unit, unit) Cluster" where
  "dryCluster = \<lparr>cl_Object = dryObject, cl_Earlier = [], cl_State = sampleState 50\<rparr>"

lemma dry_reconciled:
  obtains d err st' c where
    "Reconcile GetDesiredReplicas ((sampleWorld None)\<lparr>w_CacheGet := (\<lambda>_ _. Inr dryObject)\<rparr>) ''prod'' ''web'' (sampleState 50) = Ret ((d, err), st')"
    "cluster_step GetDesiredReplicas sampleServer dryCluster c" "cl_State c = st'"
    "fmlookup (ra_Annotations (cl_Object c)) DryRunAnnotation = Some ''true''"
proof -
  let ?w = "(sampleWorld None)\<lparr>w_CacheGet := (\<lambda>_ _. Inr dryObject)\<rparr>"
  let ?Q = "\<lambda>ra. fmlookup (ra_Annotations ra) DryRunAnnotation = Some ''true''"
  have get: "w_CacheGet ?w ''prod'' ''web'' = Inr (cl_Object dryCluster)" by (simp add: dryCluster_def)
  have "no_nil (ra_Spec dryObject)" by (simp add: no_nil_def dryObject_def sampleState_def sampleSpec_def)
  then obtain d e st' where r: "Reconcile GetDesiredReplicas ?w ''prod'' ''web'' (sampleState 50) = Ret ((d, e), st')"
    using Reconcile_returns [OF get, of "\<lambda>_. True" "sampleState 50" GetDesiredReplicas] sample_scalers_return [of 50]
    by (auto simp: dryCluster_def)
  let ?c = "\<lparr>cl_Object = stored sampleServer (sampleState 50) st' e dryObject, cl_Earlier = [dryObject], cl_State = st'\<rparr>"
  have step: "cluster_step GetDesiredReplicas sampleServer dryCluster ?c"
    using reconciled [OF get, of dryCluster GetDesiredReplicas d e st' sampleServer] r by (simp add: dryCluster_def versions_def)
  have ok: "scalers_ok (rs_Engine (sampleState 50))" by (simp add: sampleState_def)
  obtain ws where ws: "rs_Writes st' = rs_Writes (sampleState 50) @ ws"
    "\<forall>wr\<in>set ws. ra_Annotations (written wr) = ra_Annotations (purgedObject ?w dryObject)"
    using Reconcile_step [OF r ok get] unfolding dryCluster_def by (metis Cluster.select_convs(1))
  have Q: "?Q dryObject" by (simp add: dryObject_def fmlookup_of_list)
  then have "?Q (purgedObject ?w dryObject)"
    using purgedObject_frame(3) [of DryRunAnnotation ?w dryObject] by (simp add: DryRunAnnotation_def ReplicaPatchesAnnotation_def)
  then have "?Q o''" if "?Q o'" "wr \<in> set ws"
    "\<forall>k. fmlookup (ra_Annotations o'') k \<in> {fmlookup (ra_Annotations o') k, fmlookup (ra_Annotations (written wr)) k}" for o' o'' wr
    using ws(2) that(1,2) that(3) [rule_format, of DryRunAnnotation] by auto
  then have "?Q (stored sampleServer (sampleState 50) st' e dryObject)"
    by (rule stored_invariant [where Q = ?Q, OF sampleServer_honest ws(1) Q])
  then show thesis using that [OF r step] by simp
qed

theorem no_scaling_while_dry_run_witness:
  "\<exists>d err st' c. Reconcile GetDesiredReplicas ((sampleWorld None)\<lparr>w_CacheGet := (\<lambda>_ _. Inr dryObject)\<rparr>) ''prod'' ''web'' (sampleState 50) =
       Ret ((d, err), st') \<and>
     cluster_step GetDesiredReplicas sampleServer dryCluster c \<and> cl_State c = st' \<and> rs_Updates st' = []"
proof -
  let ?P = "\<lambda>ra. fmlookup (ra_Annotations ra) DryRunAnnotation \<noteq> Some ''false''"
  obtain d err st' c where c:
    "Reconcile GetDesiredReplicas ((sampleWorld None)\<lparr>w_CacheGet := (\<lambda>_ _. Inr dryObject)\<rparr>) ''prod'' ''web'' (sampleState 50) = Ret ((d, err), st')"
    "cluster_step GetDesiredReplicas sampleServer dryCluster c" "cl_State c = st'"
    "fmlookup (ra_Annotations (cl_Object c)) DryRunAnnotation = Some ''true''" by (rule dry_reconciled)
  have "cluster_reach GetDesiredReplicas sampleServer ?P dryCluster dryCluster"
    by (rule start) (simp_all add: dryCluster_def dryObject_def fmlookup_of_list)
  then have reach: "cluster_reach GetDesiredReplicas sampleServer ?P dryCluster c" by (rule step [OF _ c(2)]) (simp add: c(4))
  have "scalers_ok (rs_Engine (cl_State dryCluster))"
    "distinct (map cond_Type (st_Conditions (ra_Status (cl_Object dryCluster))))"
    by (simp_all add: dryCluster_def dryObject_def sampleState_def sampleAutoscaler_def zeroStatus_def)
  from no_scaling_while_dry_run [OF reach sampleServer_honest this] c show ?thesis
    by (auto simp: dryCluster_def sampleState_def)
qed

text \<open>
  The controller never panics: start from any object with one condition per type, an engine whose scalers
  meet their contract and return on target statuses with a property they keep, and target statuses that have
  it. Then after any run of reconciliations and edits that never leave out what the code dereferences
  unchecked, the next request returns, in whatever world and on whatever version of the object the cache shows.
\<close>

theorem controller_never_panics:
  assumes "cluster_reach getDesired server (\<lambda>ra. no_nil (ra_Spec ra)) c0 c" and "honest server"
    and "scalers_ok (rs_Engine (cl_State c0))" and "scalers_return okT (rs_Engine (cl_State c0))"
    and "distinct (map cond_Type (st_Conditions (ra_Status (cl_Object c0))))" and "targets_ok okT (ra_Status (cl_Object c0))"
    and "obj \<in> set (versions c)" and "w_CacheGet w namespace name = Inr obj"
  shows "\<exists>delay err st'. Reconcile getDesired w namespace name (cl_State c) = Ret ((delay, err), st')"
  using cluster_reach_targets [OF assms(1-3) _ assms(4,6)] assms(5) Reconcile_returns [OF assms(8)] assms(7)
  unfolding conditions_ok_def by blast

theorem controller_never_panics_witness:
  "\<exists>delay err st'. Reconcile GetDesiredReplicas ((sampleWorld None)\<lparr>w_CacheGet := (\<lambda>_ _. Inr sampleAutoscaler)\<rparr>)
     ''prod'' ''web'' (cl_State sampleCluster) = Ret ((delay, err), st')"
proof (rule controller_never_panics [of _ _ _ sampleCluster _ sampleAutoscaler])
  show "cluster_reach GetDesiredReplicas sampleServer (\<lambda>ra. no_nil (ra_Spec ra)) sampleCluster sampleCluster"
    by (rule cluster_reach.start) (simp_all add: sampleCluster_def no_nil_def sampleAutoscaler_def sampleSpec_def)
  show "scalers_return (\<lambda>_. True) (rs_Engine (cl_State sampleCluster))"
    using sample_scalers_return by (simp add: sampleCluster_def)
qed (simp_all add: sampleServer_honest sampleCluster_def sampleState_def sampleAutoscaler_def zeroStatus_def versions_def)

end
