(* ===== verification/Metrics.thy ===== *)
theory Metrics
  imports Go_Float64 Engine "HOL-Library.AList" "HOL-Library.Multiset"
begin

text \<open>
  The metrics library (\<^verbatim>\<open>utils/metrics\<close>): reading pod, custom and external metrics into per-pod values
  (\<^verbatim>\<open>client.go\<close>) and relating them to requests (\<^verbatim>\<open>utilization.go\<close>).

  A Go map is an association list with one entry per key, in the order a \<^verbatim>\<open>range\<close> visits it (which Go does
  not fix, so what is shown holds for every order); assignment and \<^verbatim>\<open>delete\<close> are \<open>AList.update\<close> and
  \<open>AList.delete\<close>. \<^verbatim>\<open>Quantity.MilliValue\<close> is the parameter \<open>MilliValue\<close>, and the answers of
  the metrics APIs are arguments.

  Shown: the utilisation is the exact integer percentage whenever the sums fit an \<^verbatim>\<open>int64\<close>, in every
  iteration order; which pods get a value and which.
\<close>

subsection \<open>Data\<close>

record PodMetric =
  pm_Timestamp :: Time
  pm_Window :: Duration
  pm_Value :: int

type_synonym PodMetricsInfo = "(string \<times> PodMetric) list"

text \<open>The items of the resource-metrics and custom-metrics APIs.\<close>

record ContainerMetrics =
  cm_Name :: string
  cm_Usage :: "ResourceName \<rightharpoonup> Quantity"

record PodMetrics =
  pms_Name :: string
  pms_Namespace :: string
  pms_Timestamp :: Time
  pms_Window :: Duration
  pms_Containers :: "ContainerMetrics list"

record MetricValue =
  mv_DescribedObject :: string
  mv_Timestamp :: Time
  mv_WindowSeconds :: "int option"
  mv_Value :: Quantity

subsection \<open>Utilisation\<close>

text \<open>(\<^verbatim>\<open>metricsTotal\<close>, \<^verbatim>\<open>requestsTotal\<close>, \<^verbatim>\<open>numEntries\<close>).\<close>

fun utilizationLoop :: "(string \<times> int) list \<Rightarrow> PodMetricsInfo \<Rightarrow> int \<times> int \<times> int \<Rightarrow> int \<times> int \<times> int" where
  "utilizationLoop requests [] acc = acc"
| "utilizationLoop requests ((podName, metric) # rest) (metricsTotal, requestsTotal, numEntries) =
     (case map_of requests podName of
        None \<Rightarrow> utilizationLoop requests rest (metricsTotal, requestsTotal, numEntries)
      | Some request \<Rightarrow>
          utilizationLoop requests rest
            (wrap64 (metricsTotal + pm_Value metric), wrap64 (requestsTotal + request), numEntries + 1))"

text \<open>(\<^verbatim>\<open>utilizationRatio\<close>, \<^verbatim>\<open>currentUtilization\<close>, \<^verbatim>\<open>rawAverageValue\<close>). A non-zero
  \<^verbatim>\<open>requestsTotal\<close> means at least one entry, so the division by \<^verbatim>\<open>numEntries\<close> is defined.\<close>

definition GetResourceUtilizationRatio ::
  "PodMetricsInfo \<Rightarrow> (string \<times> int) list \<Rightarrow> int \<Rightarrow> (float64 \<times> int \<times> int) result" where
  "GetResourceUtilizationRatio metrics requests targetUtilization =
     (let (metricsTotal, requestsTotal, numEntries) = utilizationLoop requests metrics (0, 0, 0) in
      if requestsTotal = 0 then Inl (errNew ''no metrics returned matched known pods'')
      else
        let currentUtilization = wrap32 (wrap64 (go_quot (wrap64 (metricsTotal * 100)) requestsTotal))
        in Inr (f64_div (f64_of_int currentUtilization) (f64_of_int targetUtilization), currentUtilization,
                wrap64 (go_quot metricsTotal numEntries)))"

fun totalLoop :: "PodMetricsInfo \<Rightarrow> int \<Rightarrow> int" where
  "totalLoop [] metricsTotal = metricsTotal"
| "totalLoop ((podName, metric) # rest) metricsTotal = totalLoop rest (wrap64 (metricsTotal + pm_Value metric))"

definition GetMetricUtilizationRatio :: "PodMetricsInfo \<Rightarrow> int \<Rightarrow> (float64 \<times> int) exec" where
  "GetMetricUtilizationRatio metrics targetUtilization =
     (if metrics = [] then Panic ''integer divide by zero''
      else
        let currentUtilization = wrap64 (go_quot (totalLoop metrics 0) (int (length metrics)))
        in Ret (f64_div (f64_of_int currentUtilization) (f64_of_int targetUtilization), currentUtilization))"

subsection \<open>Reading metrics\<close>

definition metricServerDefaultMetricWindow :: Duration where
  "metricServerDefaultMetricWindow = Minute"

fun findContainer :: "string \<Rightarrow> ContainerMetrics list \<Rightarrow> ContainerMetrics option" where
  "findContainer container [] = None"
| "findContainer container (c # cs) = (if cm_Name c = container then Some c else findContainer container cs)"

fun containerMetricsLoop ::
  "(Quantity \<Rightarrow> int) \<Rightarrow> ResourceName \<Rightarrow> string \<Rightarrow> PodMetrics list \<Rightarrow> PodMetricsInfo \<Rightarrow> PodMetricsInfo result" where
  "containerMetricsLoop MilliValue resource container [] res = Inr res"
| "containerMetricsLoop MilliValue resource container (m # ms) res =
     (case findContainer container (pms_Containers m) of
        None \<Rightarrow> Inl (errNew (''container '' @ container @ '' not present in metrics for pod '' @
                              pms_Namespace m @ ''/'' @ pms_Name m))
      | Some c \<Rightarrow>
          containerMetricsLoop MilliValue resource container ms
            (case cm_Usage c resource of
               None \<Rightarrow> res
             | Some val \<Rightarrow> AList.update (pms_Name m)
                 \<lparr>pm_Timestamp = pms_Timestamp m, pm_Window = pms_Window m, pm_Value = MilliValue val\<rparr> res))"

definition getContainerMetrics ::
  "(Quantity \<Rightarrow> int) \<Rightarrow> PodMetrics list \<Rightarrow> ResourceName \<Rightarrow> string \<Rightarrow> PodMetricsInfo result" where
  "getContainerMetrics MilliValue rawMetrics resource container =
     containerMetricsLoop MilliValue resource container rawMetrics []"

text \<open>The sum over a pod's containers, or nothing when one lacks the resource.\<close>

fun sumContainers :: "(Quantity \<Rightarrow> int) \<Rightarrow> ResourceName \<Rightarrow> ContainerMetrics list \<Rightarrow> int \<Rightarrow> int option" where
  "sumContainers MilliValue resource [] podSum = Some podSum"
| "sumContainers MilliValue resource (c # cs) podSum =
     (case cm_Usage c resource of
        None \<Rightarrow> None
      | Some resValue \<Rightarrow> sumContainers MilliValue resource cs (wrap64 (podSum + MilliValue resValue)))"

fun podMetricsLoop ::
  "(Quantity \<Rightarrow> int) \<Rightarrow> ResourceName \<Rightarrow> PodMetrics list \<Rightarrow> PodMetricsInfo \<Rightarrow> PodMetricsInfo" where
  "podMetricsLoop MilliValue resource [] res = res"
| "podMetricsLoop MilliValue resource (m # ms) res =
     podMetricsLoop MilliValue resource ms
       (if pms_Containers m = [] then res
        else case sumContainers MilliValue resource (pms_Containers m) 0 of
               None \<Rightarrow> res
             | Some podSum \<Rightarrow> AList.update (pms_Name m)
                 \<lparr>pm_Timestamp = pms_Timestamp m, pm_Window = pms_Window m, pm_Value = podSum\<rparr> res)"

definition getPodMetrics :: "(Quantity \<Rightarrow> int) \<Rightarrow> PodMetrics list \<Rightarrow> ResourceName \<Rightarrow> PodMetricsInfo" where
  "getPodMetrics MilliValue rawMetrics resource = podMetricsLoop MilliValue resource rawMetrics []"

text \<open>\<open>answer\<close> is what the resource-metrics API returns for the namespace and selector.\<close>

definition GetResourceMetric ::
  "(Quantity \<Rightarrow> int) \<Rightarrow> PodMetrics list result \<Rightarrow> ResourceName \<Rightarrow> string \<Rightarrow> (PodMetricsInfo \<times> Time) result" where
  "GetResourceMetric MilliValue answer resource container =
     (case answer of
        Inl err \<Rightarrow> Inl (errNew (''unable to fetch metrics from resource metrics API: '' @ errText err))
      | Inr [] \<Rightarrow> Inl (errNew ''no metrics returned from resource metrics API'')
      | Inr (m # ms) \<Rightarrow>
          (case (if container \<noteq> [] then getContainerMetrics MilliValue (m # ms) resource container
                 else Inr (getPodMetrics MilliValue (m # ms) resource)) of
             Inl err \<Rightarrow> Inl (errNew (''failed to get container metrics: '' @ errText err))
           | Inr res \<Rightarrow> Inr (res, pms_Timestamp m)))"

fun rawMetricsLoop :: "(Quantity \<Rightarrow> int) \<Rightarrow> MetricValue list \<Rightarrow> PodMetricsInfo \<Rightarrow> PodMetricsInfo" where
  "rawMetricsLoop MilliValue [] res = res"
| "rawMetricsLoop MilliValue (m # ms) res =
     rawMetricsLoop MilliValue ms
       (AList.update (mv_DescribedObject m)
          \<lparr>pm_Timestamp = mv_Timestamp m,
           pm_Window = (case mv_WindowSeconds m of None \<Rightarrow> metricServerDefaultMetricWindow | Some n \<Rightarrow> seconds n),
           pm_Value = MilliValue (mv_Value m)\<rparr> res)"

definition GetRawMetric :: "(Quantity \<Rightarrow> int) \<Rightarrow> MetricValue list result \<Rightarrow> (PodMetricsInfo \<times> Time) result" where
  "GetRawMetric MilliValue answer =
     (case answer of
        Inl err \<Rightarrow> Inl (errNew (''unable to fetch metrics from custom metrics API: '' @ errText err))
      | Inr [] \<Rightarrow> Inl (errNew ''no metrics returned from custom metrics API'')
      | Inr (m # ms) \<Rightarrow> Inr (rawMetricsLoop MilliValue (m # ms) [], mv_Timestamp m))"

text \<open>The client's two ways of asking for one object: \<open>rootScoped (group, kind) name\<close> for namespaces and
  \<open>namespaced namespace (group, kind) name\<close> for everything else.\<close>

definition GetObjectMetric ::
  "(Quantity \<Rightarrow> int) \<Rightarrow> (string \<Rightarrow> string \<Rightarrow> string \<times> string) \<Rightarrow> (string \<times> string \<Rightarrow> string \<Rightarrow> MetricValue result) \<Rightarrow>
   (string \<Rightarrow> string \<times> string \<Rightarrow> string \<Rightarrow> MetricValue result) \<Rightarrow> string \<Rightarrow> CrossVersionObjectReference \<Rightarrow>
   (int \<times> Time) result" where
  "GetObjectMetric MilliValue groupKind rootScoped namespaced namespace objectRef =
     (let (g, k) = groupKind (ref_APIVersion objectRef) (ref_Kind objectRef);
          answer = (if k = ''Namespace'' \<and> g = [] then rootScoped (g, k) namespace
                    else namespaced namespace (g, k) (ref_Name objectRef))
      in case answer of
           Inl err \<Rightarrow> Inl (errNew (''unable to fetch metrics from custom metrics API: '' @ errText err))
         | Inr metricValue \<Rightarrow> Inr (MilliValue (mv_Value metricValue), mv_Timestamp metricValue))"

definition GetExternalMetric :: "(Quantity \<Rightarrow> int) \<Rightarrow> MetricValue list result \<Rightarrow> (int list \<times> Time) result" where
  "GetExternalMetric MilliValue answer =
     (case answer of
        Inl err \<Rightarrow> Inl (errNew (''unable to fetch metrics from external metrics API: '' @ errText err))
      | Inr [] \<Rightarrow> Inl (errNew ''no metrics returned from external metrics API'')
      | Inr (m # ms) \<Rightarrow> Inr (map (\<lambda>v. MilliValue (mv_Value v)) (m # ms), mv_Timestamp m))"

subsection \<open>The sums in closed form\<close>

definition matched :: "(string \<times> int) list \<Rightarrow> PodMetricsInfo \<Rightarrow> PodMetricsInfo" where
  "matched requests metrics = filter (\<lambda>(p, m). map_of requests p \<noteq> None) metrics"

definition metricSum :: "PodMetricsInfo \<Rightarrow> int" where
  "metricSum metrics = sum_list (map (\<lambda>(p, m). pm_Value m) metrics)"

definition requestSum :: "(string \<times> int) list \<Rightarrow> PodMetricsInfo \<Rightarrow> int" where
  "requestSum requests metrics = sum_list (map (\<lambda>(p, m). the (map_of requests p)) metrics)"

lemma utilizationLoop_closed:
  "utilizationLoop requests metrics (wrap64 a, wrap64 b, n) =
     (wrap64 (a + metricSum (matched requests metrics)), wrap64 (b + requestSum requests (matched requests metrics)),
      n + int (length (matched requests metrics)))"
proof (induction metrics arbitrary: a b n)
  case (Cons pm metrics)
  obtain p m where pm: "pm = (p, m)" by (cases pm)
  show ?case
  proof (cases "map_of requests p")
    case None
    then show ?thesis using Cons.IH by (simp add: pm matched_def)
  next
    case (Some r)
    then show ?thesis using Cons.IH [of "a + pm_Value m" "b + r" "n + 1"]
      by (simp add: pm matched_def metricSum_def requestSum_def wrap_add_left add.assoc)
  qed
qed (simp add: matched_def metricSum_def requestSum_def)

lemma wrap64_0: "wrap64 0 = 0"
  by (simp add: wrap_def)

lemma utilizationLoop_total:
  "utilizationLoop requests metrics (0, 0, 0) =
     (wrap64 (metricSum (matched requests metrics)), wrap64 (requestSum requests (matched requests metrics)),
      int (length (matched requests metrics)))"
  using utilizationLoop_closed [of requests metrics 0 0 0] by (simp add: wrap64_0)

lemma sums_mset:
  assumes "mset xs = mset ys"
  shows "metricSum (matched r xs) = metricSum (matched r ys)" "requestSum r (matched r xs) = requestSum r (matched r ys)"
    "length (matched r xs) = length (matched r ys)"
proof -
  have m: "mset (matched r xs) = mset (matched r ys)" using assms by (simp add: matched_def mset_filter)
  then have "mset (map f (matched r xs)) = mset (map f (matched r ys))" for f :: "string \<times> PodMetric \<Rightarrow> int"
    by (simp add: mset_map)
  then have "sum_list (map f (matched r xs)) = sum_list (map f (matched r ys))" for f :: "string \<times> PodMetric \<Rightarrow> int"
    by (metis sum_mset_sum_list)
  then show "metricSum (matched r xs) = metricSum (matched r ys)" "requestSum r (matched r xs) = requestSum r (matched r ys)"
    by (simp_all only: metricSum_def requestSum_def)
  show "length (matched r xs) = length (matched r ys)" using m by (metis size_mset)
qed

lemma GetResourceUtilizationRatio_mset:
  "mset xs = mset ys \<Longrightarrow> GetResourceUtilizationRatio xs r t = GetResourceUtilizationRatio ys r t"
  unfolding GetResourceUtilizationRatio_def utilizationLoop_total using sums_mset [of xs ys r] by simp

lemma utilization_exact:
  assumes "0 \<le> metricSum (matched requests metrics)" "metricSum (matched requests metrics) * 100 < 2 ^ 63"
    and "0 < requestSum requests (matched requests metrics)" "requestSum requests (matched requests metrics) < 2 ^ 63"
    and "metricSum (matched requests metrics) * 100 div requestSum requests (matched requests metrics) < 2 ^ 31"
  defines "u \<equiv> metricSum (matched requests metrics) * 100 div requestSum requests (matched requests metrics)"
  shows "GetResourceUtilizationRatio metrics requests t =
     Inr (f64_div (f64_of_int u) (f64_of_int t), u,
          metricSum (matched requests metrics) div int (length (matched requests metrics)))"
proof -
  define M where "M = metricSum (matched requests metrics)"
  define R where "R = requestSum requests (matched requests metrics)"
  define n where "n = int (length (matched requests metrics))"
  have bounds: "0 \<le> M" "M * 100 < 2 ^ 63" "0 < R" "R < 2 ^ 63" "M * 100 div R < 2 ^ 31" using assms(1-5) by (simp_all add: M_def R_def)
  have "matched requests metrics \<noteq> []" using bounds(3) by (auto simp: R_def requestSum_def)
  then have n: "0 < n" by (simp add: n_def)
  have q: "0 \<le> M * 100 div R" "M * 100 div R \<le> M * 100" "M div n \<le> M" "0 \<le> M div n"
    using bounds n zdiv_mono2 [of "M * 100" 1 R] zdiv_mono2 [of M 1 n] by (simp_all add: pos_imp_zdiv_nonneg_iff)
  have w: "wrap64 M = M" "wrap64 R = R" "wrap64 (M * 100) = M * 100" "wrap64 (M * 100 div R) = M * 100 div R"
    "wrap32 (M * 100 div R) = M * 100 div R" "wrap64 (M div n) = M div n"
    using bounds q by (auto intro!: wrap_id simp: in_range_def)
  have g: "go_quot (M * 100) R = M * 100 div R" "go_quot M n = M div n"
    using bounds n by (simp_all add: go_quot_nonneg)
  show ?thesis
    using bounds(3) unfolding GetResourceUtilizationRatio_def utilizationLoop_total u_def M_def [symmetric]
      R_def [symmetric] n_def [symmetric] Let_def prod.case w g by simp
qed

subsection \<open>Which pods get a value\<close>

lemma sumContainers_closed:
  "sumContainers mv resource cs (wrap64 a) =
     (if list_all (\<lambda>c. cm_Usage c resource \<noteq> None) cs
      then Some (wrap64 (a + sum_list (map (\<lambda>c. mv (the (cm_Usage c resource))) cs))) else None)"
proof (induction cs arbitrary: a)
  case (Cons c cs)
  show ?case
  proof (cases "cm_Usage c resource")
    case (Some v)
    then show ?thesis using Cons.IH [of "a + mv v"] by (simp add: wrap_add_left add.assoc)
  qed simp
qed simp

definition podValue :: "(Quantity \<Rightarrow> int) \<Rightarrow> ResourceName \<Rightarrow> PodMetrics \<Rightarrow> PodMetric option" where
  "podValue mv resource m =
     (if pms_Containers m \<noteq> [] \<and> list_all (\<lambda>c. cm_Usage c resource \<noteq> None) (pms_Containers m)
      then Some \<lparr>pm_Timestamp = pms_Timestamp m, pm_Window = pms_Window m,
                 pm_Value = wrap64 (sum_list (map (\<lambda>c. mv (the (cm_Usage c resource))) (pms_Containers m)))\<rparr>
      else None)"

lemma disjoint_insert_trans: "D' \<subseteq> insert x D \<Longrightarrow> x \<notin> A \<Longrightarrow> A \<inter> D = {} \<Longrightarrow> A \<inter> D' = {}"
  by blast

lemma podMetricsLoop_lookup:
  "distinct (map pms_Name ms) \<Longrightarrow> pms_Name ` set ms \<inter> dom (map_of res) = {} \<Longrightarrow>
   map_of (podMetricsLoop mv resource ms res) p =
     (case find (\<lambda>m. pms_Name m = p) ms of None \<Rightarrow> map_of res p | Some m \<Rightarrow> podValue mv resource m)"
proof (induction ms arbitrary: res)
  case (Cons m ms)
  define res' where "res' = (case podValue mv resource m of None \<Rightarrow> res | Some v \<Rightarrow> AList.update (pms_Name m) v res)"
  have step: "podMetricsLoop mv resource (m # ms) res = podMetricsLoop mv resource ms res'"
    using sumContainers_closed [of mv resource "pms_Containers m" 0]
    by (auto simp: res'_def podValue_def wrap64_0 split: option.splits)
  have l: "map_of res' q = (if q = pms_Name m then podValue mv resource m else map_of res q)" for q
    using Cons.prems(2) by (auto simp: res'_def update_conv' split: option.splits)
  have "dom (map_of res') \<subseteq> insert (pms_Name m) (dom (map_of res))"
    unfolding dom_def l by auto
  moreover have "pms_Name m \<notin> pms_Name ` set ms" "pms_Name ` set ms \<inter> dom (map_of res) = {}"
    using Cons.prems by simp_all
  ultimately have "pms_Name ` set ms \<inter> dom (map_of res') = {}" by (rule disjoint_insert_trans)
  then have "map_of (podMetricsLoop mv resource (m # ms) res) p =
     (case find (\<lambda>m. pms_Name m = p) ms of None \<Rightarrow> map_of res' p | Some m \<Rightarrow> podValue mv resource m)"
    unfolding step using Cons.IH [of res'] Cons.prems(1) by simp
  moreover have "find (\<lambda>x. pms_Name x = pms_Name m) ms = None"
    using Cons.prems(1) by (auto simp: find_None_iff image_iff)
  ultimately show ?case unfolding l by (cases "p = pms_Name m") auto
qed simp

subsection \<open>Properties\<close>

text \<open>
  (C36) The utilisation of a set of pods is exact and independent of the order in which Go visits the map:
  when the usage (non-negative) times 100, the requests (positive) and the percentage fit their types, the
  result is the integer percentage of the summed usage of the pods with a request over their summed requests,
  its quotient by the target as a floating-point number, and the integer average usage.
\<close>

theorem GetResourceUtilizationRatio_exact:
  assumes "mset metrics' = mset metrics"
    and "M = metricSum (matched requests metrics)" and "R = requestSum requests (matched requests metrics)"
    and "0 \<le> M" and "M * 100 < 2 ^ 63" and "0 < R" and "R < 2 ^ 63" and "M * 100 div R < 2 ^ 31"
  shows "GetResourceUtilizationRatio metrics' requests target =
     Inr (f64_div (f64_of_int (M * 100 div R)) (f64_of_int target), M * 100 div R,
          M div int (length (matched requests metrics)))"
  using utilization_exact [of requests metrics target] GetResourceUtilizationRatio_mset [OF assms(1)] assms(2-8)
  by simp

theorem GetResourceUtilizationRatio_exact_witness:
  defines "m n \<equiv> \<lparr>pm_Timestamp = 0, pm_Window = 0, pm_Value = n\<rparr>"
  shows "GetResourceUtilizationRatio [(''b'', m 100), (''a'', m 300), (''x'', m 7)] [(''a'', 400), (''b'', 400)] 50 =
     Inr (f64_div (f64_of_int 50) (f64_of_int 50), 50, 200)"
  using GetResourceUtilizationRatio_exact [of "[(''b'', m 100), (''a'', m 300), (''x'', m 7)]"
      "[(''a'', m 300), (''b'', m 100), (''x'', m 7)]" 400 "[(''a'', 400), (''b'', 400)]" 800 50]
  by (simp add: matched_def metricSum_def requestSum_def m_def)

text \<open>
  Reading pod metrics for distinct pods: a pod gets a value exactly when it reports at least one
  container and every container reports the resource; the value is the sum over its containers (as an
  \<^verbatim>\<open>int64\<close>) with the pod's timestamp and window.
\<close>

theorem getPodMetrics_lookup:
  assumes "distinct (map pms_Name items)"
  shows "map_of (getPodMetrics mv items resource) p =
     (case find (\<lambda>m. pms_Name m = p) items of
        None \<Rightarrow> None
      | Some m \<Rightarrow>
          if pms_Containers m \<noteq> [] \<and> list_all (\<lambda>c. cm_Usage c resource \<noteq> None) (pms_Containers m)
          then Some \<lparr>pm_Timestamp = pms_Timestamp m, pm_Window = pms_Window m,
                     pm_Value = wrap64 (sum_list (map (\<lambda>c. mv (the (cm_Usage c resource))) (pms_Containers m)))\<rparr>
          else None)"
  using podMetricsLoop_lookup [OF assms, of "[]" mv resource p] by (simp add: getPodMetrics_def podValue_def cong: option.case_cong)

theorem getPodMetrics_lookup_witness:
  defines "c n \<equiv> \<lparr>cm_Name = ''c'', cm_Usage = [''cpu'' \<mapsto> \<lparr>q_value = n, q_scale = - 3\<rparr>]\<rparr>"
  defines "pm name cs \<equiv> \<lparr>pms_Name = name, pms_Namespace = ''prod'', pms_Timestamp = 5, pms_Window = 6, pms_Containers = cs\<rparr>"
  shows "map_of (getPodMetrics q_value [pm ''a'' [c 3, c 4], pm ''b'' []] ''cpu'') ''a'' =
           Some \<lparr>pm_Timestamp = 5, pm_Window = 6, pm_Value = 7\<rparr>"
  using getPodMetrics_lookup [of "[pm ''a'' [c 3, c 4], pm ''b'' []]" q_value "''cpu''" "''a''"]
  by (simp add: c_def pm_def wrap_def)

end
