(* ===== verification/Podresource.thy ===== *)
theory Podresource
  imports Metrics
begin

text \<open>
  The pod-resource scaler behind the \<^verbatim>\<open>cpu\<close> and \<^verbatim>\<open>memory\<close> plugins
  (\<^verbatim>\<open>utils/scalerprovider/podresource\<close>, \<^verbatim>\<open>plugins/scaler_cpu\<close>, \<^verbatim>\<open>plugins/scaler_memory\<close>):
  grouping the pods, correcting for pods without usable metrics, and the replica count from the utilisation.

  \<^verbatim>\<open>sets.String\<close> is a list without duplicates (\<open>List.insert\<close>), its order the one a \<^verbatim>\<open>range\<close>
  visits. The record \<open>PodWorld\<close> holds what is outside the repository: JSON decoding of the settings,
  \<^verbatim>\<open>Quantity.MilliValue\<close>, the result of an out-of-range float conversion, and the clock when the
  \<open>i\<close>-th pod of a call is grouped.

  Shown: the grouping is a partition of the pods; without missing or unready pods the count is the ceiling of
  utilisation over target times the ready pods, up to one when that is an integer; with them the count never
  moves against the direction the measured utilisation asks for; and the scaler meets \<open>scaler_contract\<close>.
\<close>

subsection \<open>Configuration\<close>

definition DefaultUtilizationToleration :: float64 where
  "DefaultUtilizationToleration = round64 (1 / 20)"

record PodConfig =
  UtilizationToleration :: float64

definition Pod_NewDefaultConfig :: PodConfig where
  "Pod_NewDefaultConfig = \<lparr>UtilizationToleration = DefaultUtilizationToleration\<rparr>"

definition Pod_Validate :: "PodConfig \<Rightarrow> goerr option" where
  "Pod_Validate c =
     (if f64_lt (UtilizationToleration c) DefaultUtilizationToleration \<or> f64_lt (Fin 1) (UtilizationToleration c)
      then Some (errNew ''pod resource toleration is in valid, requires [0.05, 1]'') else None)"

record PodSettings =
  Utilization :: int

subsection \<open>Grouping pods\<close>

fun conditionIndex :: "PodCondition list \<Rightarrow> string \<Rightarrow> nat \<Rightarrow> int \<times> PodCondition option" where
  "conditionIndex [] conditionType i = (- 1, None)"
| "conditionIndex (c # cs) conditionType i =
     (if pc_Type c = conditionType then (int i, Some c) else conditionIndex cs conditionType (Suc i))"

definition GetPodConditionFromList :: "PodCondition list \<Rightarrow> string \<Rightarrow> int \<times> PodCondition option" where
  "GetPodConditionFromList conditions conditionType = conditionIndex conditions conditionType 0"

text \<open>The status is a pointer; its conditions are what is read.\<close>

definition GetPodCondition :: "PodCondition list option \<Rightarrow> string \<Rightarrow> int \<times> PodCondition option" where
  "GetPodCondition status conditionType =
     (case status of None \<Rightarrow> (- 1, None) | Some conditions \<Rightarrow> GetPodConditionFromList conditions conditionType)"

definition cpuUnready :: "Duration \<Rightarrow> Duration \<Rightarrow> Time \<Rightarrow> PodMetric \<Rightarrow> Pod \<Rightarrow> bool" where
  "cpuUnready possibleInitializationPeriod delayOfInitialReadinessStatus now metric pod =
     (case (snd (GetPodCondition (Some (pod_Conditions pod)) PodReady), pod_StartTime pod) of
        (Some condition, Some startTime) \<Rightarrow>
          if now < startTime + possibleInitializationPeriod
          then pc_Status condition = ConditionFalse \<or>
               pm_Timestamp metric < pc_LastTransitionTime condition + pm_Window metric
          else pc_Status condition = ConditionFalse \<and>
               pc_LastTransitionTime condition < startTime + delayOfInitialReadinessStatus
      | _ \<Rightarrow> True)"

record PodGroups =
  readyPodCount :: int
  unreadyPods :: "string list"
  missingPods :: "string list"
  ignoredPods :: "string list"

fun groupLoop ::
  "PodMetricsInfo \<Rightarrow> ResourceName \<Rightarrow> Duration \<Rightarrow> Duration \<Rightarrow> (nat \<Rightarrow> Time) \<Rightarrow> nat \<Rightarrow> Pod list \<Rightarrow> PodGroups \<Rightarrow> PodGroups" where
  "groupLoop metrics resource p d clk i [] g = g"
| "groupLoop metrics resource p d clk i (pod # pods) g =
     groupLoop metrics resource p d clk (Suc i) pods
       (if pod_DeletionTimestamp pod \<noteq> None \<or> pod_Phase pod = PodFailed
        then g\<lparr>ignoredPods := List.insert (pod_Name pod) (ignoredPods g)\<rparr>
        else if pod_Phase pod = PodPending
        then g\<lparr>unreadyPods := List.insert (pod_Name pod) (unreadyPods g)\<rparr>
        else case map_of metrics (pod_Name pod) of
               None \<Rightarrow> g\<lparr>missingPods := List.insert (pod_Name pod) (missingPods g)\<rparr>
             | Some metric \<Rightarrow>
                 if resource = ''cpu'' \<and> cpuUnready p d (clk i) metric pod
                 then g\<lparr>unreadyPods := List.insert (pod_Name pod) (unreadyPods g)\<rparr>
                 else g\<lparr>readyPodCount := readyPodCount g + 1\<rparr>)"

definition groupPods ::
  "(nat \<Rightarrow> Time) \<Rightarrow> Pod list \<Rightarrow> PodMetricsInfo \<Rightarrow> ResourceName \<Rightarrow> Duration \<Rightarrow> Duration \<Rightarrow> PodGroups" where
  "groupPods clk pods metrics resource possibleInitializationPeriod delayOfInitialReadinessStatus =
     groupLoop metrics resource possibleInitializationPeriod delayOfInitialReadinessStatus clk 0 pods
       \<lparr>readyPodCount = 0, unreadyPods = [], missingPods = [], ignoredPods = []\<rparr>"

definition removeMetricsForPods :: "string list \<Rightarrow> PodMetricsInfo \<Rightarrow> PodMetricsInfo" where
  "removeMetricsForPods pods metrics = fold AList.delete pods metrics"

fun podRequest :: "(Quantity \<Rightarrow> int) \<Rightarrow> string \<Rightarrow> ResourceName \<Rightarrow> Container list \<Rightarrow> int \<Rightarrow> int result" where
  "podRequest MilliValue container resource [] podSum = Inr podSum"
| "podRequest MilliValue container resource (c # cs) podSum =
     (if container = [] \<or> container = ctr_Name c
      then (case ctr_Requests c resource of
              Some containerRequest \<Rightarrow>
                podRequest MilliValue container resource cs (wrap64 (podSum + MilliValue containerRequest))
            | None \<Rightarrow> Inl (errNew (''missing request for '' @ resource)))
      else podRequest MilliValue container resource cs podSum)"

fun requestsLoop ::
  "(Quantity \<Rightarrow> int) \<Rightarrow> string \<Rightarrow> ResourceName \<Rightarrow> Pod list \<Rightarrow> (string \<times> int) list \<Rightarrow> (string \<times> int) list result" where
  "requestsLoop MilliValue container resource [] requests = Inr requests"
| "requestsLoop MilliValue container resource (pod # pods) requests =
     (case podRequest MilliValue container resource (pod_Containers pod) 0 of
        Inl err \<Rightarrow> Inl err
      | Inr podSum \<Rightarrow> requestsLoop MilliValue container resource pods (AList.update (pod_Name pod) podSum requests))"

definition calculatePodRequests ::
  "(Quantity \<Rightarrow> int) \<Rightarrow> Pod list \<Rightarrow> string \<Rightarrow> ResourceName \<Rightarrow> (string \<times> int) list result" where
  "calculatePodRequests MilliValue pods container resource = requestsLoop MilliValue container resource pods []"

subsection \<open>The replica count\<close>

definition valueOnly :: "int \<Rightarrow> PodMetric" where
  "valueOnly v = \<lparr>pm_Timestamp = zeroTime, pm_Window = 0, pm_Value = v\<rparr>"

text \<open>Giving the missing and unready pods the values of the last resort.\<close>

definition assumeMissing ::
  "float64 \<Rightarrow> (string \<times> int) list \<Rightarrow> string list \<Rightarrow> PodMetricsInfo \<Rightarrow> PodMetricsInfo" where
  "assumeMissing usageRatio requests missing metrics =
     (if missing = [] then metrics
      else if f64_lt usageRatio (Fin 1)
      then fold (\<lambda>p. AList.update p (valueOnly (case map_of requests p of None \<Rightarrow> 0 | Some r \<Rightarrow> r))) missing metrics
      else if f64_lt (Fin 1) usageRatio
      then fold (\<lambda>p. AList.update p (valueOnly 0)) missing metrics
      else metrics)"

definition assumeUnready :: "bool \<Rightarrow> string list \<Rightarrow> PodMetricsInfo \<Rightarrow> PodMetricsInfo" where
  "assumeUnready rebalanceIgnored unready metrics =
     (if rebalanceIgnored then fold (\<lambda>p. AList.update p (valueOnly 0)) unready metrics else metrics)"

definition withinToleration :: "float64 \<Rightarrow> float64 \<Rightarrow> bool" where
  "withinToleration ratio toleration = f64_le (f64_abs (f64_sub (Fin 1) ratio)) toleration"

text \<open>The decision after the corrected metrics have been measured again.\<close>

definition rebalanced :: "(float64 \<Rightarrow> int) \<Rightarrow> float64 \<Rightarrow> float64 \<Rightarrow> float64 \<Rightarrow> nat \<Rightarrow> int \<Rightarrow> int" where
  "rebalanced oor toleration usageRatio newUsageRatio entries currentReplicas =
     (if withinToleration newUsageRatio toleration \<or>
         f64_lt usageRatio (Fin 1) \<and> f64_lt (Fin 1) newUsageRatio \<or>
         f64_lt (Fin 1) usageRatio \<and> f64_lt newUsageRatio (Fin 1)
      then currentReplicas
      else
        let newReplicas = ceil_mul oor newUsageRatio (int entries)
        in if f64_lt newUsageRatio (Fin 1) \<and> currentReplicas < newReplicas \<or>
              f64_lt (Fin 1) newUsageRatio \<and> newReplicas < currentReplicas
           then currentReplicas else newReplicas)"

definition tidyAndCalculateDesiredReplicas ::
  "(Quantity \<Rightarrow> int) \<Rightarrow> (float64 \<Rightarrow> int) \<Rightarrow> (nat \<Rightarrow> Time) \<Rightarrow> float64 \<Rightarrow> PodMetricsInfo \<Rightarrow> Pod list \<Rightarrow> ResourceName \<Rightarrow>
   string \<Rightarrow> int \<Rightarrow> int \<Rightarrow> (int \<times> int \<times> int) result" where
  "tidyAndCalculateDesiredReplicas MilliValue oor clk utilizationToleration resourceMetrics podList resource container
     targetUtilization currentReplicas =
     (let g = groupPods clk podList resourceMetrics resource (10 * Second) (3 * Second);
          metrics = removeMetricsForPods (unreadyPods g) (removeMetricsForPods (ignoredPods g) resourceMetrics)
      in case calculatePodRequests MilliValue podList container resource of
           Inl err \<Rightarrow> Inl err
         | Inr requests \<Rightarrow>
             if metrics = [] then Inl (errNew ''did not receive metrics for any ready pods'')
             else (case GetResourceUtilizationRatio metrics requests targetUtilization of
                     Inl err \<Rightarrow> Inl err
                   | Inr (usageRatio, utilization, rawAverageValue) \<Rightarrow>
                       (let rebalanceIgnored = (unreadyPods g \<noteq> [] \<and> f64_lt (Fin 1) usageRatio) in
                        if \<not> rebalanceIgnored \<and> missingPods g = [] then
                          Inr (if withinToleration usageRatio utilizationToleration then currentReplicas
                               else ceil_mul oor usageRatio (readyPodCount g), utilization, rawAverageValue)
                        else
                          let metrics' = assumeUnready rebalanceIgnored (unreadyPods g)
                                           (assumeMissing usageRatio requests (missingPods g) metrics)
                          in case GetResourceUtilizationRatio metrics' requests targetUtilization of
                               Inl err \<Rightarrow> Inl err
                             | Inr (newUsageRatio, _, _) \<Rightarrow>
                                 Inr (rebalanced oor utilizationToleration usageRatio newUsageRatio
                                        (length metrics') currentReplicas, utilization, rawAverageValue))))"

subsection \<open>The scaler\<close>

record PodWorld =
  pw_Unmarshal :: "string \<Rightarrow> PodSettings \<Rightarrow> PodSettings \<times> goerr option"
  pw_MilliValue :: "Quantity \<Rightarrow> int"
  pw_OutOfRange :: "float64 \<Rightarrow> int"
  pw_Clock :: "nat \<Rightarrow> nat \<Rightarrow> Time"

text \<open>The metrics client: what the resource-metrics API answers on an occasion.\<close>

record MetricsClient =
  mc_PodMetrics :: "nat \<Rightarrow> string \<Rightarrow> Selector \<Rightarrow> PodMetrics list result"

record PodScaler =
  ps_Client :: MetricsClient
  ps_Resource :: ResourceName
  ps_Config :: PodConfig
  ps_PluginName :: string

definition Pod_New :: "string \<Rightarrow> PodConfig \<Rightarrow> ResourceName \<Rightarrow> MetricsClient \<Rightarrow> PodScaler result" where
  "Pod_New pluginName config resource client =
     (case Pod_Validate config of
        Some err \<Rightarrow> Inl err
      | None \<Rightarrow> Inr \<lparr>ps_Client = client, ps_Resource = resource, ps_Config = config, ps_PluginName = pluginName\<rparr>)"

definition Pod_Get :: "PodWorld \<Rightarrow> PodScaler \<Rightarrow> Scaler" where
  "Pod_Get pw s occasion ctx status =
     (case LoadSettings (pw_Unmarshal pw) ctx \<lparr>Utilization = 0\<rparr> of
        Inl err \<Rightarrow> Ret (Inl err, status)
      | Inr settings \<Rightarrow>
          (case sc_PodLister ctx (sc_Namespace ctx) (sc_ScaledObjectSelector ctx) of
             Inl err \<Rightarrow> Ret (Inl (errNew (''failed to list pods: '' @ errText err)), status)
           | Inr pods \<Rightarrow>
               if pods = [] then
                 Ret (Inr \<lparr>so_DesiredReplicas = sc_CurrentReplicas ctx, so_ManagedTargetStatus = [ps_PluginName s]\<rparr>, status)
               else
                 (case GetResourceMetric (pw_MilliValue pw)
                         (mc_PodMetrics (ps_Client s) occasion (sc_Namespace ctx) (sc_ScaledObjectSelector ctx))
                         (ps_Resource s) [] of
                    Inl err \<Rightarrow> Ret (Inl err, status)
                  | Inr (resourceMetrics, _) \<Rightarrow>
                      (case tidyAndCalculateDesiredReplicas (pw_MilliValue pw) (pw_OutOfRange pw) (pw_Clock pw occasion)
                              (UtilizationToleration (ps_Config s)) resourceMetrics pods (ps_Resource s) []
                              (wrap32 (Utilization settings)) (sc_CurrentReplicas ctx) of
                         Inl err \<Rightarrow> Ret (Inl err, status)
                       | Inr (desiredReplicas, averageUtilization, _) \<Rightarrow>
                           Ret (Inr \<lparr>so_DesiredReplicas = desiredReplicas, so_ManagedTargetStatus = [ps_PluginName s]\<rparr>,
                                SetTargetStatus status
                                  \<lparr>ts_Target = ps_PluginName s, ts_Scaler = ps_PluginName s,
                                   ts_DesiredReplicas = desiredReplicas,
                                   ts_Metric = \<lparr>mt_Type = UtilizationMetricType, mt_Value = None, mt_AverageValue = None,
                                                mt_AverageUtilization = Some averageUtilization\<rparr>\<rparr>)))))"

text \<open>The two plugins differ in name and resource only.\<close>

definition Pod_setup ::
  "PodWorld \<Rightarrow> ('y \<Rightarrow> PodConfig \<Rightarrow> PodConfig \<times> goerr option) \<Rightarrow> string \<Rightarrow> ResourceName \<Rightarrow>
   ('r, 'y, MetricsClient) engineProvisioner \<Rightarrow> goerr option \<times> ('r, 'y, MetricsClient) engineProvisioner" where
  "Pod_setup pw decode pluginName resource c =
     (case requireConfig decode Pod_Validate c pluginName Pod_NewDefaultConfig of
        Inl err \<Rightarrow> (Some err, c)
      | Inr config \<Rightarrow>
          (case Pod_New pluginName config resource (ep_metricsClient c) of
             Inl err \<Rightarrow> (Some err, c)
           | Inr podResourceScaler \<Rightarrow> (None, AddScaler pluginName (Pod_Get pw podResourceScaler) c)))"

definition cpu_setup where
  "cpu_setup pw decode = Pod_setup pw decode ''cpu'' ''cpu''"

definition memory_setup where
  "memory_setup pw decode = Pod_setup pw decode ''memory'' ''memory''"

subsection \<open>Grouping is a partition\<close>

datatype PodClass = Ignored | Unready | Missing | Ready

text \<open>The class of one pod, as the documentation of the grouping describes it.\<close>

definition podClass :: "PodMetricsInfo \<Rightarrow> ResourceName \<Rightarrow> Duration \<Rightarrow> Duration \<Rightarrow> Time \<Rightarrow> Pod \<Rightarrow> PodClass" where
  "podClass metrics resource p d now pod =
     (if pod_DeletionTimestamp pod \<noteq> None \<or> pod_Phase pod = PodFailed then Ignored
      else if pod_Phase pod = PodPending then Unready
      else if pod_Name pod \<notin> fst ` set metrics then Missing
      else if resource = ''cpu'' \<and> cpuUnready p d now (the (map_of metrics (pod_Name pod))) pod then Unready
      else Ready)"

text \<open>The names of the pods of a class, for the pods grouped from the \<open>i\<close>-th on.\<close>

fun namesOf :: "(nat \<Rightarrow> Pod \<Rightarrow> PodClass) \<Rightarrow> PodClass \<Rightarrow> nat \<Rightarrow> Pod list \<Rightarrow> string list" where
  "namesOf cls k i [] = []"
| "namesOf cls k i (pod # pods) =
     (if cls i pod = k then pod_Name pod # namesOf cls k (Suc i) pods else namesOf cls k (Suc i) pods)"

lemma namesOf_subset: "set (namesOf cls k i pods) \<subseteq> pod_Name ` set pods"
  by (induction pods arbitrary: i) auto

lemma set_namesOf: "set (namesOf cls k i pods) = {pod_Name (pods ! j) | j. j < length pods \<and> cls (i + j) (pods ! j) = k}"
proof (induction pods arbitrary: i)
  case (Cons pod pods)
  have "{pod_Name ((pod # pods) ! j) | j. j < length (pod # pods) \<and> cls (i + j) ((pod # pods) ! j) = k} =
        (if cls i pod = k then {pod_Name pod} else {}) \<union>
        {pod_Name (pods ! j) | j. j < length pods \<and> cls (Suc i + j) (pods ! j) = k}"
    (is "?L = ?R")
  proof (rule set_eqI, rule iffI)
    fix x assume "x \<in> ?L"
    then obtain j where "x = pod_Name ((pod # pods) ! j)" "j < length (pod # pods)" "cls (i + j) ((pod # pods) ! j) = k"
      by blast
    then show "x \<in> ?R" by (cases j) auto
  next
    fix x assume "x \<in> ?R"
    then show "x \<in> ?L" by (auto split: if_splits intro: exI [of _ 0] exI [of _ "Suc _"])
  qed
  with Cons.IH [of "Suc i"] show ?case by (simp split: if_splits)
qed simp

lemma namesOf_total:
  "length (namesOf cls Ignored i pods) + length (namesOf cls Unready i pods) + length (namesOf cls Missing i pods) +
   length (namesOf cls Ready i pods) = length pods"
proof (induction pods arbitrary: i)
  case (Cons pod pods)
  then show ?case by (cases "cls i pod") (simp_all add: add.assoc [symmetric])
qed simp

text \<open>One step of the loop in terms of the class.\<close>

fun addPod :: "PodClass \<Rightarrow> string \<Rightarrow> PodGroups \<Rightarrow> PodGroups" where
  "addPod Ignored n g = g\<lparr>ignoredPods := List.insert n (ignoredPods g)\<rparr>"
| "addPod Unready n g = g\<lparr>unreadyPods := List.insert n (unreadyPods g)\<rparr>"
| "addPod Missing n g = g\<lparr>missingPods := List.insert n (missingPods g)\<rparr>"
| "addPod Ready n g = g\<lparr>readyPodCount := readyPodCount g + 1\<rparr>"

lemma groupLoop_step:
  "groupLoop metrics resource p d clk i (pod # pods) g =
   groupLoop metrics resource p d clk (Suc i) pods
     (addPod (podClass metrics resource p d (clk i) pod) (pod_Name pod) g)"
proof (cases "map_of metrics (pod_Name pod)")
  case None
  then have "pod_Name pod \<notin> fst ` set metrics" by (simp add: map_of_eq_None_iff)
  with None show ?thesis by (auto simp: podClass_def)
next
  case (Some m)
  then have "pod_Name pod \<in> fst ` set metrics" by (metis map_of_eq_None_iff option.distinct(1))
  with Some show ?thesis by (auto simp: podClass_def)
qed

lemma groupLoop_fold:
  fixes metrics resource p d clk
  assumes "distinct (map pod_Name pods)"
    and "pod_Name ` set pods \<inter> (set (ignoredPods g) \<union> set (unreadyPods g) \<union> set (missingPods g)) = {}"
  defines "cls \<equiv> \<lambda>j. podClass metrics resource p d (clk j)"
  shows "groupLoop metrics resource p d clk i pods g =
     \<lparr>readyPodCount = readyPodCount g + int (length (namesOf cls Ready i pods)),
      unreadyPods = rev (namesOf cls Unready i pods) @ unreadyPods g,
      missingPods = rev (namesOf cls Missing i pods) @ missingPods g,
      ignoredPods = rev (namesOf cls Ignored i pods) @ ignoredPods g\<rparr>"
  using assms(1,2)
proof (induction pods arbitrary: i g)
  case (Cons pod pods)
  let ?g = "addPod (cls i pod) (pod_Name pod) g"
  have c: "podClass metrics resource p d (clk i) pod = cls i pod" by (simp add: cls_def)
  have new: "pod_Name pod \<notin> set (ignoredPods g)" "pod_Name pod \<notin> set (unreadyPods g)" "pod_Name pod \<notin> set (missingPods g)"
    using Cons.prems(2) by auto
  have "pod_Name ` set pods \<inter> (set (ignoredPods ?g) \<union> set (unreadyPods ?g) \<union> set (missingPods ?g)) = {}"
    using Cons.prems by (cases "cls i pod") auto
  with Cons.IH [of ?g "Suc i"] Cons.prems(1) show ?case
    unfolding groupLoop_step c by (cases "cls i pod") (simp_all add: new)
qed simp

lemma groupPods_closed:
  fixes metrics resource p d clk
  assumes "distinct (map pod_Name pods)"
  defines "cls \<equiv> \<lambda>j. podClass metrics resource p d (clk j)"
  shows "groupPods clk pods metrics resource p d =
     \<lparr>readyPodCount = int (length (namesOf cls Ready 0 pods)), unreadyPods = rev (namesOf cls Unready 0 pods),
      missingPods = rev (namesOf cls Missing 0 pods), ignoredPods = rev (namesOf cls Ignored 0 pods)\<rparr>"
  unfolding groupPods_def cls_def by (subst groupLoop_fold [OF assms(1)]) simp_all

subsection \<open>Direction and accuracy of the count\<close>

lemma GetResourceUtilizationRatio_Inr:
  assumes "GetResourceUtilizationRatio metrics requests t = Inr (ratio, u, raw)"
  shows "ratio = f64_div (f64_of_int u) (f64_of_int t)" "is_int32 u"
  using assms wrap_in_range [of 32] by (auto simp: GetResourceUtilizationRatio_def Let_def split: prod.splits if_splits)

lemma withinToleration_one: "0 \<le> q \<Longrightarrow> withinToleration (Fin 1) (Fin q)"
  by (simp add: withinToleration_def f64_sub_def round64_def)

lemma rebalanced_direction:
  assumes "0 \<le> q"
  shows "r < 1 \<Longrightarrow> rebalanced oor (Fin q) (Fin r) (Fin r') entries current \<le> current"
    and "1 < r \<Longrightarrow> current \<le> rebalanced oor (Fin q) (Fin r) (Fin r') entries current"
    and "r' = 1 \<Longrightarrow> rebalanced oor (Fin q) (Fin r) (Fin r') entries current = current"
  using withinToleration_one [OF assms] unfolding rebalanced_def Let_def by (auto simp: not_less)

text \<open>Only missing pods, or unready pods on a scale-up, call for a correction.\<close>

definition corrected :: "PodGroups \<Rightarrow> bool \<Rightarrow> bool" where
  "corrected g up \<longleftrightarrow> missingPods g \<noteq> [] \<or> unreadyPods g \<noteq> [] \<and> up"

lemma tidyE:
  assumes "tidyAndCalculateDesiredReplicas mv oor clk (Fin q) metrics pods resource container t current = Inr (n, u, raw)"
    and "1 \<le> t" "t < 2 ^ 31" "0 \<le> q"
  defines "g \<equiv> groupPods clk pods metrics resource (10 * Second) (3 * Second)"
  obtains (clean) r where "\<not> corrected g (t < u)" "f64_div (f64_of_int u) (f64_of_int t) = Fin r"
      "r < 1 \<longleftrightarrow> u < t" "1 < r \<longleftrightarrow> t < u"
      "n = (if withinToleration (Fin r) (Fin q) then current else ceil_mul oor (Fin r) (readyPodCount g))" "is_int32 u"
  | (corrected) r r' entries where "corrected g (t < u)" "f64_div (f64_of_int u) (f64_of_int t) = Fin r"
      "r < 1 \<longleftrightarrow> u < t" "1 < r \<longleftrightarrow> t < u" "r = 1 \<longrightarrow> r' = 1"
      "n = rebalanced oor (Fin q) (Fin r) (Fin r') entries current"
proof -
  define m0 where "m0 = removeMetricsForPods (unreadyPods g) (removeMetricsForPods (ignoredPods g) metrics)"
  obtain requests where requests: "calculatePodRequests mv pods container resource = Inr requests"
    using assms(1) by (auto simp: tidyAndCalculateDesiredReplicas_def Let_def split: sum.splits)
  obtain ratio u0 raw0 where m0: "GetResourceUtilizationRatio m0 requests t = Inr (ratio, u0, raw0)" and "m0 \<noteq> []"
    using assms(1) unfolding tidyAndCalculateDesiredReplicas_def Let_def g_def [symmetric] m0_def [symmetric] requests
    by (auto split: sum.splits if_splits)
  define m1 where "m1 = assumeUnready (unreadyPods g \<noteq> [] \<and> f64_lt (Fin 1) ratio) (unreadyPods g)
                          (assumeMissing ratio requests (missingPods g) m0)"
  note eq = assms(1) [unfolded tidyAndCalculateDesiredReplicas_def Let_def, folded g_def, folded m0_def,
      unfolded requests sum.case m0 prod.case, folded m1_def]
  have u: "u0 = u" using eq \<open>m0 \<noteq> []\<close> by (auto split: sum.splits if_splits)
  note R = GetResourceUtilizationRatio_Inr [OF m0, unfolded u]
  obtain r where r: "f64_div (f64_of_int u) (f64_of_int t) = Fin r" "r < 1 \<longleftrightarrow> u < t" "1 < r \<longleftrightarrow> t < u"
    using div_int32_direction [OF R(2) assms(2,3)] by blast
  have ratio: "ratio = Fin r" using R(1) r(1) by simp
  show thesis
  proof (cases "corrected g (t < u)")
    case False
    with eq \<open>m0 \<noteq> []\<close> r ratio R(2) clean show thesis by (auto simp: corrected_def)
  next
    case True
    then obtain ratio' u' raw' where m1: "GetResourceUtilizationRatio m1 requests t = Inr (ratio', u', raw')"
      using eq \<open>m0 \<noteq> []\<close> r ratio by (auto simp: corrected_def split: sum.splits)
    note R' = GetResourceUtilizationRatio_Inr [OF m1]
    obtain r' where r': "ratio' = Fin r'" using div_int32_direction [OF R'(2) assms(2,3)] R'(1) by metis
    have "r = 1 \<longrightarrow> m1 = m0" by (auto simp: m1_def assumeUnready_def assumeMissing_def ratio)
    then have "r = 1 \<longrightarrow> r' = 1" using m0 m1 ratio r' by auto
    moreover have "n = rebalanced oor (Fin q) (Fin r) (Fin r') (length m1) current"
      using eq \<open>m0 \<noteq> []\<close> True r(3) by (auto simp: corrected_def m1 ratio r')
    ultimately show thesis using corrected True r by blast
  qed
qed

text \<open>The test of the toleration against the exact quotient: it decides as the exact test does, but for a gap of \<open>1 / 2 ^ 20\<close>.\<close>

lemma withinToleration_close:
  fixes t r :: rat
  assumes "0 \<le> t" "t \<le> 1" "0 \<le> r"
  shows "\<bar>1 - r\<bar> \<le> t - 1 / 2 ^ 40 \<Longrightarrow> withinToleration (Fin r) (Fin t)"
    and "t + 1 / 2 ^ 40 < \<bar>1 - r\<bar> \<Longrightarrow> \<not> withinToleration (Fin r) (Fin t)"
proof -
  have near: "\<exists>d. round64 (1 + - r) = Fin d \<and> \<bar>d - (1 - r)\<bar> \<le> 1 / 2 ^ 40" if "\<bar>1 - r\<bar> \<le> 2 ^ 11"
  proof -
    have "- 2048 \<le> 1 + - r" "1 + - r \<le> 2048" using that by (simp_all add: abs_le_iff)
    then obtain d where d: "round64 (1 + - r) = Fin d" using round64_between [of "- 2048" "1 + - r" 2048] by auto
    moreover have "\<bar>1 + - r\<bar> \<le> 2 ^ 11" using that by simp
    ultimately show ?thesis using round64_percent by fastforce
  qed
  show "withinToleration (Fin r) (Fin t)" if w: "\<bar>1 - r\<bar> \<le> t - 1 / 2 ^ 40"
  proof -
    have "\<bar>1 - r\<bar> \<le> 2 ^ 11" using w assms(2) by simp
    then obtain d where "round64 (1 + - r) = Fin d" "\<bar>d - (1 - r)\<bar> \<le> 1 / 2 ^ 40" using near by blast
    moreover from this w have "\<bar>d\<bar> \<le> t" by linarith
    ultimately show ?thesis by (simp add: withinToleration_def f64_sub_def)
  qed
  show "\<not> withinToleration (Fin r) (Fin t)" if w: "t + 1 / 2 ^ 40 < \<bar>1 - r\<bar>"
  proof (cases "\<bar>1 - r\<bar> \<le> 2 ^ 11")
    case True
    then obtain d where "round64 (1 + - r) = Fin d" "\<bar>d - (1 - r)\<bar> \<le> 1 / 2 ^ 40" using near by blast
    moreover from this w have "t < \<bar>d\<bar>" by linarith
    ultimately show ?thesis by (simp add: withinToleration_def f64_sub_def)
  next
    case False
    then have "1 + - r \<le> of_int (- 2)" using assms(3) by (simp add: abs_le_iff)
    then have "f64_le (round64 (1 + - r)) (Fin (- 2))" using round64_mono round64_int [of "- 2"] by fastforce
    then show ?thesis using assms(2) by (cases "round64 (1 + - r)") (auto simp: withinToleration_def f64_sub_def)
  qed
qed

lemma withinToleration_quotient:
  assumes "f64_div (f64_of_int u) (f64_of_int t) = Fin r" "1 \<le> u" "u < 2 ^ 31" "1 \<le> t" "t < 2 ^ 31" "0 \<le> q" "q \<le> 1"
  shows "\<bar>of_int u / of_int t - 1\<bar> \<le> q - 1 / 2 ^ 20 \<Longrightarrow> withinToleration (Fin r) (Fin q)"
    and "q + 1 / 2 ^ 20 \<le> \<bar>of_int u / of_int t - 1\<bar> \<Longrightarrow> \<not> withinToleration (Fin r) (Fin q)"
proof -
  define x where "x = (of_int u / of_int t :: rat)"
  have f: "f64_of_int u = Fin (of_int u)" "f64_of_int t = Fin (of_int t)" using assms(2-5) by (auto intro!: f64_of_int_small)
  have t: "1 \<le> (of_int t :: rat)" "(of_int t :: rat) \<le> 2 ^ 31" "1 \<le> (of_int u :: rat)" "(of_int u :: rat) \<le> 2 ^ 31"
    using assms(2-5) of_int_le_pow2 [of t 31] of_int_le_pow2 [of u 31] by simp_all
  have "1 / 2 ^ 31 \<le> x" unfolding x_def using t by (intro frac_le) simp_all
  moreover have "x \<le> 2 ^ 31" using frac_le [of "2 ^ 31 :: rat" "of_int u" 1 "of_int t"] t by (simp add: x_def)
  ultimately obtain r' where r': "round64 x = Fin r'" "0 \<le> r'" "\<bar>r' - x\<bar> \<le> x / 2 ^ 53"
    using round64_rel [of 31 x 31] by auto
  have "r' = r" using assms(1) f t r'(1) by (simp add: x_def)
  moreover have "x / 2 ^ 53 \<le> 2 ^ 31 / 2 ^ 53" using \<open>x \<le> 2 ^ 31\<close> by (intro divide_right_mono) simp_all
  ultimately have r: "0 \<le> r" "\<bar>r - x\<bar> \<le> 1 / 2 ^ 22" using r' by simp_all
  have gap: "1 / 2 ^ 22 + 1 / 2 ^ 40 < (1 / 2 ^ 20 :: rat)" by simp
  show "withinToleration (Fin r) (Fin q)" if "\<bar>of_int u / of_int t - 1\<bar> \<le> q - 1 / 2 ^ 20"
    using that r(2) gap unfolding x_def [symmetric] by (intro withinToleration_close(1) [OF assms(6,7) r(1)]) linarith
  show "\<not> withinToleration (Fin r) (Fin q)" if "q + 1 / 2 ^ 20 \<le> \<bar>of_int u / of_int t - 1\<bar>"
    using that r(2) gap unfolding x_def [symmetric] by (intro withinToleration_close(2) [OF assms(6,7) r(1)]) linarith
qed

subsection \<open>The scaler meets its contract\<close>

definition utilizationStatus :: "string \<Rightarrow> int \<Rightarrow> int \<Rightarrow> TargetStatus" where
  "utilizationStatus name n u =
     \<lparr>ts_Target = name, ts_Scaler = name, ts_DesiredReplicas = n,
      ts_Metric = \<lparr>mt_Type = UtilizationMetricType, mt_Value = None, mt_AverageValue = None, mt_AverageUtilization = Some u\<rparr>\<rparr>"

lemma Pod_Get_cases:
  "(\<exists>err. Pod_Get pw s i ctx st = Ret (Inl err, st)) \<or>
   (\<exists>n. Pod_Get pw s i ctx st = Ret (Inr \<lparr>so_DesiredReplicas = n, so_ManagedTargetStatus = [ps_PluginName s]\<rparr>, st)) \<or>
   (\<exists>n u. Pod_Get pw s i ctx st =
      Ret (Inr \<lparr>so_DesiredReplicas = n, so_ManagedTargetStatus = [ps_PluginName s]\<rparr>,
           SetTargetStatus st (utilizationStatus (ps_PluginName s) n u)))"
  unfolding Pod_Get_def utilizationStatus_def by (auto split: sum.split)

interpretation pod_scaler: scaler_contract "Pod_Get pw s" for pw s
proof (rule scaler_contractI)
  fix i ctx st
  show "(\<exists>m. Pod_Get pw s i ctx st = Panic m) \<or> (\<exists>err. Pod_Get pw s i ctx st = Ret (Inl err, st)) \<or>
      (\<exists>out. Pod_Get pw s i ctx st = Ret (Inr out, st)) \<or>
      (\<exists>out t. ts_Target t \<in> set (so_ManagedTargetStatus out) \<and>
        Pod_Get pw s i ctx st = Ret (Inr out, SetTargetStatus st t))"
    using Pod_Get_cases [of pw s i ctx st] by (force simp: utilizationStatus_def)
qed

subsection \<open>A sample\<close>

definition samplePod :: "string \<Rightarrow> Pod" where
  "samplePod name = \<lparr>pod_Name = name, pod_CreationTimestamp = 0, pod_DeletionTimestamp = None, pod_Phase = ''Running'',
     pod_StartTime = None, pod_Conditions = [],
     pod_Containers = [\<lparr>ctr_Name = ''c'', ctr_Requests = [''memory'' \<mapsto> \<lparr>q_value = 100, q_scale = - 3\<rparr>]\<rparr>]\<rparr>"

lemma samplePod_requests:
  "calculatePodRequests q_value [samplePod ''a'', samplePod ''b''] [] ''memory'' = Inr [(''a'', 100), (''b'', 100)]"
  by (simp add: calculatePodRequests_def samplePod_def wrap_def)

lemma samplePod_groups:
  "groupPods clk [samplePod ''a'', samplePod ''b''] [(''a'', valueOnly v)] ''memory'' p d =
     \<lparr>readyPodCount = 1, unreadyPods = [], missingPods = [''b''], ignoredPods = []\<rparr>"
  "groupPods clk [samplePod ''a'', samplePod ''b''] [(''a'', valueOnly v), (''b'', valueOnly v)] ''memory'' p d =
     \<lparr>readyPodCount = 2, unreadyPods = [], missingPods = [], ignoredPods = []\<rparr>"
  by (simp_all add: groupPods_def samplePod_def PodPending_def PodFailed_def)

lemma sample_ratio:
  "GetResourceUtilizationRatio [(''a'', valueOnly 50)] [(''a'', 100), (''b'', 100)] 100 = Inr (Fin (1 / 2), 50, 50)"
  "GetResourceUtilizationRatio [(''a'', valueOnly 50), (''b'', valueOnly 100)] [(''a'', 100), (''b'', 100)] 100 =
     Inr (Fin (3 / 4), 75, 75)"
  "GetResourceUtilizationRatio [(''a'', valueOnly 150), (''b'', valueOnly 150)] [(''a'', 100), (''b'', 100)] 100 =
     Inr (Fin (3 / 2), 150, 150)"
  using round64_dyadic [of 1 1] round64_dyadic [of 3 2] round64_dyadic [of 3 1]
  by (simp_all add: GetResourceUtilizationRatio_def valueOnly_def wrap_def go_quot_def f64_of_int_small)

lemma sample_outside:
  "\<not> withinToleration (Fin (1 / 2)) (Fin (1 / 16))" "\<not> withinToleration (Fin (3 / 4)) (Fin (1 / 16))"
  "\<not> withinToleration (Fin (3 / 2)) (Fin (1 / 16))"
  using round64_dyadic [of 1 1] round64_dyadic [of 1 2] round64_dyadic [of "- 1" 1]
  by (simp_all add: withinToleration_def f64_sub_def)

lemma sample_counts: "ceil_mul oor (Fin (3 / 4)) 2 = 2" "ceil_mul oor (Fin (3 / 2)) 2 = 3"
  using round64_dyadic [of 3 1] round64_dyadic [of 3 0]
  by (simp_all add: ceil_mul_def f64_of_int_small f64_to_int_def trunc_rat_def ceiling_unique)

lemma sample_missing:
  "tidyAndCalculateDesiredReplicas q_value oor clk (Fin (1 / 16)) [(''a'', valueOnly 50)]
     [samplePod ''a'', samplePod ''b''] ''memory'' [] 100 5 = Inr (2, 50, 50)"
  by (simp add: tidyAndCalculateDesiredReplicas_def samplePod_groups samplePod_requests removeMetricsForPods_def
      sample_ratio assumeUnready_def assumeMissing_def rebalanced_def sample_outside sample_counts)

lemma sample_ready:
  "tidyAndCalculateDesiredReplicas q_value oor clk (Fin (1 / 16)) [(''a'', valueOnly 150), (''b'', valueOnly 150)]
     [samplePod ''a'', samplePod ''b''] ''memory'' [] 100 2 = Inr (3, 150, 150)"
  by (simp add: tidyAndCalculateDesiredReplicas_def samplePod_groups samplePod_requests removeMetricsForPods_def
      sample_ratio sample_outside sample_counts)

subsection \<open>Properties\<close>

text \<open>
  (C20) Direction: when some pods have no metrics, or unready pods are set aside while the utilisation is above
  its target, the corrected count never moves against the measured utilisation, whatever the requests, metrics
  and clock are: below the target it is at most the current count, above it at least the current count. At
  exactly the target the count stays, with or without such pods.
\<close>

theorem pod_count_direction:
  assumes "tidyAndCalculateDesiredReplicas mv oor clk (Fin toleration) metrics pods resource container target current =
             Inr (n, utilization, raw)"
    and "1 \<le> target" and "target < 2 ^ 31" and "0 \<le> toleration"
    and "g = groupPods clk pods metrics resource (10 * Second) (3 * Second)"
  shows "(utilization = target \<longrightarrow> n = current) \<and>
    (missingPods g \<noteq> [] \<or> unreadyPods g \<noteq> [] \<and> target < utilization \<longrightarrow>
       (utilization < target \<longrightarrow> n \<le> current) \<and> (target < utilization \<longrightarrow> current \<le> n))"
  using assms(1-4)
proof (cases rule: tidyE)
  case (clean r)
  then have "utilization = target \<longrightarrow> r = 1" by auto
  with clean(5) withinToleration_one [OF assms(4)] have "utilization = target \<longrightarrow> n = current" by auto
  with clean(1) show ?thesis by (auto simp: corrected_def assms(5))
next
  case (corrected r r' entries)
  then have "utilization = target \<longrightarrow> r' = 1" by auto
  with corrected rebalanced_direction [OF assms(4)] show ?thesis by auto
qed

theorem pod_count_direction_witness:
  "tidyAndCalculateDesiredReplicas q_value (\<lambda>_. 0) (\<lambda>_. 0) (Fin (1 / 16)) [(''a'', valueOnly 50)]
     [samplePod ''a'', samplePod ''b''] ''memory'' [] 100 5 = Inr (2, 50, 50) \<and> (2::int) \<le> 5"
  using pod_count_direction [OF sample_missing _ _ _ refl] sample_missing
  by (simp add: samplePod_groups)

text \<open>
  (C21) Accuracy: take pods of which every one that counts has metrics, and a toleration of at most 100 per cent. When the
  utilisation is off its target by more than the toleration, the count is the ceiling of utilisation times ready pods over target, computed in
  floating point: exact unless that value is itself an integer, where it may be one more; it is never smaller. When it is off by less, the
  count stays. In the gap of \<open>1 / 2 ^ 20\<close> around the toleration, where the roundings decide, it is one of the two.
\<close>

theorem pod_count_exact:
  assumes "tidyAndCalculateDesiredReplicas mv oor clk (Fin toleration) metrics pods resource container target current =
             Inr (n, utilization, raw)"
    and "1 \<le> target" and "target < 2 ^ 31" and "0 \<le> toleration" and "toleration \<le> 1"
    and "g = groupPods clk pods metrics resource (10 * Second) (3 * Second)"
    and "missingPods g = []" and "unreadyPods g = [] \<or> utilization \<le> target"
    and "1 \<le> utilization" and "1 \<le> readyPodCount g" and "utilization * readyPodCount g < 2 ^ 51"
    and "utilization * readyPodCount g \<le> target * (2 ^ 31 - 2)"
    and "k = \<lceil>of_int (utilization * readyPodCount g) / of_int target :: rat\<rceil>"
    and "off = \<bar>of_int utilization / of_int target - 1 :: rat\<bar>"
    and "exact \<longleftrightarrow> k \<le> n \<and> n \<le> k + 1 \<and> (\<not> target dvd utilization * readyPodCount g \<longrightarrow> n = k)"
  shows "(toleration + 1 / 2 ^ 20 \<le> off \<longrightarrow> exact) \<and> (off \<le> toleration - 1 / 2 ^ 20 \<longrightarrow> n = current) \<and> (exact \<or> n = current)"
  using assms(1-4)
proof (cases rule: tidyE)
  case (clean r)
  note acc = ceil_mul_quotient [OF assms(9,2,10,3,11,12), of oor, folded assms(13), unfolded clean(2)]
  have n: "n = (if withinToleration (Fin r) (Fin toleration) then current else ceil_mul oor (Fin r) (readyPodCount g))"
    using clean(5) assms(6) by simp
  have "\<not> withinToleration (Fin r) (Fin toleration) \<Longrightarrow> exact" using acc n assms(15) by auto
  then show ?thesis using n withinToleration_quotient [OF clean(2) assms(9) _ assms(2-5)] clean(6) assms(14) by (auto simp: in_range_def)
qed (use assms(6-8) in \<open>auto simp: corrected_def\<close>)

theorem pod_count_exact_witness:
  "tidyAndCalculateDesiredReplicas q_value (\<lambda>_. 0) (\<lambda>_. 0) (Fin (1 / 16)) [(''a'', valueOnly 150), (''b'', valueOnly 150)]
     [samplePod ''a'', samplePod ''b''] ''memory'' [] 100 2 = Inr (3, 150, 150) \<and>
   \<lceil>of_int (150 * 2) / of_int 100 :: rat\<rceil> \<le> 3"
  using pod_count_exact [OF sample_ready _ _ _ _ refl _ _ _ _ _ _ refl refl refl] sample_ready by (simp add: samplePod_groups)

text \<open>
  (C22) Grouping is a partition: for pods with distinct names, a pod is counted as ready or put into exactly one
  of the three sets, according to its deletion mark and phase, whether it has metrics, and (for cpu) its
  readiness and start time at the moment it is looked at; nothing is counted twice or dropped.
\<close>

theorem groupPods_partition:
  fixes metrics resource p d clk
  assumes "distinct (map pod_Name pods)"
  defines "g \<equiv> groupPods clk pods metrics resource p d"
    and "members k \<equiv> {pod_Name (pods ! j) | j. j < length pods \<and> podClass metrics resource p d (clk j) (pods ! j) = k}"
  shows "set (ignoredPods g) = members Ignored \<and> set (unreadyPods g) = members Unready \<and>
         set (missingPods g) = members Missing \<and>
         readyPodCount g + int (length (ignoredPods g) + length (unreadyPods g) + length (missingPods g)) = int (length pods)"
proof -
  let ?cls = "\<lambda>j. podClass metrics resource p d (clk j)"
  note g = groupPods_closed [OF assms(1), of clk metrics resource p d, folded g_def]
  have "members k = set (namesOf ?cls k 0 pods)" for k unfolding set_namesOf by (simp add: members_def)
  moreover have "int (length (namesOf ?cls Ready 0 pods)) + int (length (namesOf ?cls Ignored 0 pods) +
      length (namesOf ?cls Unready 0 pods) + length (namesOf ?cls Missing 0 pods)) = int (length pods)"
    unfolding namesOf_total [of ?cls 0 pods, symmetric] by simp
  ultimately show ?thesis unfolding g by simp
qed

theorem groupPods_partition_witness:
  "readyPodCount (groupPods (\<lambda>_. 0) [samplePod ''a'', samplePod ''b''] [(''a'', valueOnly 50)] ''memory'' 10 3) + int (0 + 0 + 1) = 2"
proof -
  have "distinct (map pod_Name [samplePod ''a'', samplePod ''b''])" by (simp add: samplePod_def)
  from groupPods_partition [OF this, of "\<lambda>_. 0" "[(''a'', valueOnly 50)]" "''memory''" 10 3]
  show ?thesis unfolding samplePod_groups by simp
qed

end
