(* ===== verification/Utils_Misc.thy ===== *)
theory Utils_Misc
  imports Wing_Prelude "HOL-Library.Word"
begin

text \<open>
  The small helpers of \<^verbatim>\<open>utils/\<close>: string slices (\<^verbatim>\<open>string.go\<close>), pointer defaults
  (\<^verbatim>\<open>pointer.go\<close>), hashes (\<^verbatim>\<open>hash.go\<close>), Kubernetes version strings
  (\<^verbatim>\<open>kubernetes_version.go\<close>) and object comparison (\<^verbatim>\<open>equivalent.go\<close>).

  Slices are modelled with their backing array where the code writes to it while it iterates
  (\<^verbatim>\<open>Remove\<close>). Third-party code is a parameter: the 128-bit farm hash, the spew printer, FNV and the safe
  encoding, \<^verbatim>\<open>equality.Semantic.DeepEqual\<close>, and the reading of nested fields of unstructured objects.

  Shown: \<^verbatim>\<open>Remove\<close> is deletion for at most one occurrence (and can panic for two); the hash text is an
  injective encoding of the hash; version parsing on every input; comparison is an equivalence whenever
  \<^verbatim>\<open>DeepEqual\<close> is.
\<close>

unbundle bit_operations_syntax

subsection \<open>Strings and pointers\<close>

fun Contains :: "string list \<Rightarrow> string \<Rightarrow> bool" where
  "Contains [] s = False"
| "Contains (v # list) s = (if v = s then True else Contains list s)"

text \<open>
  \<^verbatim>\<open>append(list[:i], list[i+1:]...)\<close> moves the tail of the slice one place down in the backing array
  \<open>arr\<close>, of which the slice is the first \<open>len\<close> elements. Slicing \<^verbatim>\<open>list[i+1:]\<close> panics when
  \<open>i + 1\<close> exceeds \<open>len\<close>.
\<close>

definition shiftDown :: "nat \<Rightarrow> nat \<Rightarrow> 'a list \<Rightarrow> 'a list" where
  "shiftDown i len arr = take i arr @ drop (Suc i) (take len arr) @ drop (len - 1) arr"

text \<open>The range expression is evaluated once: the loop visits every index of the original length and reads the
  element from the array at that moment. \<open>k\<close> is the number of visits left.\<close>

fun removeLoop :: "string \<Rightarrow> nat \<Rightarrow> nat \<Rightarrow> string list \<Rightarrow> nat \<Rightarrow> string list exec" where
  "removeLoop s i 0 arr len = Ret (take len arr)"
| "removeLoop s i (Suc k) arr len =
     (if arr ! i = s
      then if len < i + 1 then Panic ''slice bounds out of range''
           else removeLoop s (Suc i) k (shiftDown i len arr) (len - 1)
      else removeLoop s (Suc i) k arr len)"

definition Remove :: "string list \<Rightarrow> string \<Rightarrow> string list exec" where
  "Remove list s = removeLoop s 0 (length list) list (length list)"

definition GetPointerBoolValue :: "bool option \<Rightarrow> bool \<Rightarrow> bool" where
  "GetPointerBoolValue value defaultValue = (case value of None \<Rightarrow> defaultValue | Some b \<Rightarrow> b)"

subsection \<open>Hashes\<close>

text \<open>\<^verbatim>\<open>binary.LittleEndian.PutUint64\<close> and \<^verbatim>\<open>hex.EncodeToString\<close>.\<close>

definition PutUint64 :: "64 word \<Rightarrow> 8 word list" where
  "PutUint64 v = map (\<lambda>i. ucast (drop_bit (8 * i) v)) [0..<8]"

definition hexDigit :: "8 word \<Rightarrow> char" where
  "hexDigit d = ''0123456789abcdef'' ! unat d"

definition hexByte :: "8 word \<Rightarrow> string" where
  "hexByte b = [hexDigit (drop_bit 4 b), hexDigit (b AND 15)]"

definition EncodeToString :: "8 word list \<Rightarrow> string" where
  "EncodeToString bs = concat (map hexByte bs)"

definition FarmHash :: "(string \<Rightarrow> 64 word \<times> 64 word) \<Rightarrow> string \<Rightarrow> string" where
  "FarmHash Hash128 b = (let (lo, hi) = Hash128 b in EncodeToString (PutUint64 lo @ PutUint64 hi))"

text \<open>\<open>spew\<close> prints an object, \<open>fnv32a\<close> hashes the printed text, \<open>SafeEncodeString\<close> maps the
  decimal digits to letters.\<close>

definition ComputeObjectHash :: "('a \<Rightarrow> string) \<Rightarrow> (string \<Rightarrow> 32 word) \<Rightarrow> (string \<Rightarrow> string) \<Rightarrow> 'a \<Rightarrow> string" where
  "ComputeObjectHash spew fnv32a SafeEncodeString object = SafeEncodeString (show_int (uint (fnv32a (spew object))))"

definition IsObjectEqual :: "('a \<Rightarrow> string) \<Rightarrow> (string \<Rightarrow> 32 word) \<Rightarrow> (string \<Rightarrow> string) \<Rightarrow> 'a \<Rightarrow> 'a \<Rightarrow> bool" where
  "IsObjectEqual spew fnv32a SafeEncodeString x y =
     (ComputeObjectHash spew fnv32a SafeEncodeString x = ComputeObjectHash spew fnv32a SafeEncodeString y)"

subsection \<open>Kubernetes versions\<close>

record VersionInfo =
  vi_Major :: string
  vi_Minor :: string

record KubernetesVersion =
  kv_Version :: VersionInfo
  kv_Major :: int
  kv_Minor :: int
  kv_PrettyVersion :: string
  kv_Parsed :: bool

definition is_digit :: "char \<Rightarrow> bool" where
  "is_digit c \<longleftrightarrow> 48 \<le> (of_char c :: nat) \<and> (of_char c :: nat) \<le> 57"

definition FindDigits :: "string \<Rightarrow> string" where
  "FindDigits s = takeWhile is_digit s"

fun digitsValue :: "string \<Rightarrow> int \<Rightarrow> int" where
  "digitsValue [] acc = acc"
| "digitsValue (c # cs) acc = digitsValue cs (10 * acc + int (of_char c - 48))"

text \<open>\<^verbatim>\<open>strconv.Atoi\<close> on a string of digits: (value, ok). The empty string is a syntax error with value 0, and
  a value beyond 64 bits is a range error with the largest value.\<close>

definition Atoi :: "string \<Rightarrow> int \<times> bool" where
  "Atoi s = (if s = [] then (0, False)
             else let n = digitsValue s 0 in if n < 2 ^ 63 then (n, True) else (2 ^ 63 - 1, False))"

definition NewKubernetesVersion :: "VersionInfo \<Rightarrow> KubernetesVersion" where
  "NewKubernetesVersion version =
     (let (major, ok1) = Atoi (FindDigits (vi_Major version));
          (minor, ok2) = Atoi (FindDigits (vi_Minor version));
          parsed = (ok1 \<and> ok2)
      in \<lparr>kv_Version = version, kv_Major = major, kv_Minor = minor,
          kv_PrettyVersion = (if parsed then vi_Major version @ ''.'' @ vi_Minor version else []),
          kv_Parsed = parsed\<rparr>)"

subsection \<open>Comparing objects\<close>

record ObjectMeta =
  om_Name :: string
  om_Namespace :: string
  om_Labels :: "(string \<times> string) list"
  om_Annotations :: "(string \<times> string) list"

definition ObjectMetaEquivalent ::
  "((string \<times> string) list \<Rightarrow> (string \<times> string) list \<Rightarrow> bool) \<Rightarrow> ObjectMeta \<Rightarrow> ObjectMeta \<Rightarrow> bool" where
  "ObjectMetaEquivalent DeepEqual a b =
     (if om_Name a \<noteq> om_Name b then False
      else if om_Namespace a \<noteq> om_Namespace b then False
      else if \<not> DeepEqual (om_Labels a) (om_Labels b) then False
      else if \<not> DeepEqual (om_Annotations a) (om_Annotations b) then False
      else True)"

text \<open>An object with metadata and a spec; the code reads the two fields by reflection.\<close>

definition RuntimeObjectMetaAndSpecEquivalent ::
  "((string \<times> string) list \<Rightarrow> (string \<times> string) list \<Rightarrow> bool) \<Rightarrow> ('s \<Rightarrow> 's \<Rightarrow> bool) \<Rightarrow>
   ObjectMeta \<times> 's \<Rightarrow> ObjectMeta \<times> 's \<Rightarrow> bool" where
  "RuntimeObjectMetaAndSpecEquivalent DeepEqual DeepEqualSpec a b =
     (ObjectMetaEquivalent DeepEqual (fst a) (fst b) \<and> DeepEqualSpec (snd a) (snd b))"

text \<open>\<open>specOf\<close> is \<^verbatim>\<open>unstructured.NestedFieldCopy(object, "spec")\<close> without its \<^verbatim>\<open>found\<close> flag.\<close>

definition UnstructuredObjectMetaAndSpecEquivalent ::
  "((string \<times> string) list \<Rightarrow> (string \<times> string) list \<Rightarrow> bool) \<Rightarrow> ('s \<Rightarrow> 's \<Rightarrow> bool) \<Rightarrow> ('o \<Rightarrow> ObjectMeta) \<Rightarrow>
   ('o \<Rightarrow> 's result) \<Rightarrow> 'o \<Rightarrow> 'o \<Rightarrow> bool result" where
  "UnstructuredObjectMetaAndSpecEquivalent DeepEqual DeepEqualSpec metaOf specOf a b =
     (if om_Name (metaOf a) \<noteq> om_Name (metaOf b) \<or> om_Namespace (metaOf a) \<noteq> om_Namespace (metaOf b) \<or>
         \<not> DeepEqual (om_Labels (metaOf a)) (om_Labels (metaOf b)) \<or>
         \<not> DeepEqual (om_Annotations (metaOf a)) (om_Annotations (metaOf b))
      then Inr False
      else case specOf a of
             Inl err \<Rightarrow> Inl err
           | Inr aSpec \<Rightarrow> (case specOf b of Inl err \<Rightarrow> Inl err | Inr bSpec \<Rightarrow> Inr (DeepEqualSpec aSpec bSpec)))"

subsection \<open>Lemmas\<close>

lemma Contains_iff: "Contains list s \<longleftrightarrow> s \<in> set list"
  by (induction list) auto

lemma removeLoop_absent:
  "s \<notin> set (drop i arr) \<Longrightarrow> i + k = length arr \<Longrightarrow> removeLoop s i k arr len = Ret (take len arr)"
proof (induction k arbitrary: i)
  case (Suc k)
  then have i: "i < length arr" by simp
  then have "arr ! i \<in> set (drop i arr)" by (metis Cons_nth_drop_Suc list.set_intros(1))
  moreover have "set (drop (Suc i) arr) \<subseteq> set (drop i arr)" by (simp add: set_drop_subset_set_drop)
  ultimately have "arr ! i \<noteq> s" "s \<notin> set (drop (Suc i) arr)" using Suc.prems(1) by auto
  with Suc show ?case by simp
qed simp

lemma removeLoop_skip:
  "s \<notin> set xs \<Longrightarrow> i \<le> length xs \<Longrightarrow>
   removeLoop s i (length xs - i + k) (xs @ ys) len = removeLoop s (length xs) k (xs @ ys) len"
proof (induction "length xs - i" arbitrary: i)
  case (Suc d)
  then have "i < length xs" by simp
  then have "(xs @ ys) ! i \<noteq> s" using Suc.prems(1) by (auto simp: nth_append)
  moreover have "length xs - i + k = Suc (length xs - Suc i + k)" using \<open>i < length xs\<close> by simp
  ultimately show ?case using Suc.hyps(1) [of "Suc i"] Suc.hyps(2) Suc.prems \<open>i < length xs\<close> by simp
qed simp

lemma Remove_once:
  assumes "s \<notin> set xs" "s \<notin> set ys"
  shows "Remove (xs @ s # ys) s = Ret (xs @ ys)"
proof -
  let ?n = "length xs + Suc (length ys)" and ?arr = "xs @ ys @ drop (length xs + length ys) (xs @ s # ys)"
  have "Remove (xs @ s # ys) s = removeLoop s (length xs) (Suc (length ys)) (xs @ s # ys) ?n"
    using removeLoop_skip [OF assms(1), of 0 "Suc (length ys)" "s # ys" ?n] by (simp add: Remove_def)
  also have "\<dots> = removeLoop s (Suc (length xs)) (length ys) ?arr (length xs + length ys)"
    by (simp add: nth_append shiftDown_def)
  also have "\<dots> = Ret (take (length xs + length ys) ?arr)"
  proof (rule removeLoop_absent)
    have "drop (length ys) (s # ys) = [last (s # ys)]" by (cases ys rule: rev_cases) auto
    then have a: "?arr = xs @ ys @ [last (s # ys)]" by simp
    show "s \<notin> set (drop (Suc (length xs)) ?arr)" using assms(2) unfolding a by (cases ys) (auto split: if_splits)
    show "Suc (length xs) + length ys = length ?arr" unfolding a by simp
  qed
  finally show ?thesis by simp
qed

lemma byte_split: "(b :: 8 word) = push_bit 4 (drop_bit 4 b) + (b AND 15)"
proof -
  have "b AND 15 = take_bit 4 b" by (simp add: take_bit_eq_mask mask_eq_exp_minus_1)
  then show ?thesis using bits_ident [of 4 b] by simp
qed

lemma nibbles: "unat (drop_bit 4 (b :: 8 word)) < 16" "unat (b AND 15 :: 8 word) < 16"
proof -
  have "unat b < 256" using unsigned_less [of b] by simp
  then have "unat b div 16 < 16" by (simp add: less_mult_imp_div_less)
  moreover have "unat (drop_bit 4 b) = unat b div 16" using unat_drop_bit_eq [of 4 b] drop_bit_eq_div [of 4 "unat b"] by simp
  ultimately show "unat (drop_bit 4 b) < 16" by simp
  have "b AND 15 = take_bit 4 b" by (simp add: take_bit_eq_mask mask_eq_exp_minus_1)
  moreover have "unat (take_bit 4 b) = take_bit 4 (unat b)" by (rule unsigned_take_bit_eq)
  ultimately show "unat (b AND 15 :: 8 word) < 16" using take_bit_eq_mod [of 4 "unat b"] by simp
qed

lemma hex_digits_distinct: "distinct ''0123456789abcdef''"
  by simp

lemma hexDigit_inj: "unat a < 16 \<Longrightarrow> unat b < 16 \<Longrightarrow> hexDigit a = hexDigit b \<longleftrightarrow> a = b"
  unfolding hexDigit_def by (subst nth_eq_iff_index_eq [OF hex_digits_distinct]) (auto simp: word_unat_eq_iff)

lemma hexByte_inj: "hexByte a = hexByte b \<longleftrightarrow> a = b"
proof
  assume "hexByte a = hexByte b"
  then have "drop_bit 4 a = drop_bit 4 b" "a AND 15 = b AND 15"
    by (simp_all add: hexByte_def hexDigit_inj nibbles)
  then show "a = b" using byte_split [of a] byte_split [of b] by simp
qed simp

lemma EncodeToString_inj: "length xs = length ys \<Longrightarrow> EncodeToString xs = EncodeToString ys \<longleftrightarrow> xs = ys"
proof (induction xs ys rule: list_induct2)
  case (Cons x xs y ys)
  have "length (hexByte x) = length (hexByte y)" by (simp add: hexByte_def)
  then show ?case using Cons.IH by (simp add: EncodeToString_def hexByte_inj)
qed (simp add: EncodeToString_def)

lemma bit_byte: "bit (ucast (drop_bit k (v :: 64 word)) :: 8 word) m \<longleftrightarrow> m < 8 \<and> bit v (k + m)"
  by (simp add: bit_ucast_iff bit_drop_bit_eq)

lemma PutUint64_inj: "PutUint64 v = PutUint64 w \<longleftrightarrow> v = w"
proof
  assume eq: "PutUint64 v = PutUint64 w"
  show "v = w"
  proof (rule bit_word_eqI)
    fix n assume "n < LENGTH(64)"
    then have i: "n div 8 < 8" and n: "8 * (n div 8) + n mod 8 = n" by simp_all
    from eq i have "(ucast (drop_bit (8 * (n div 8)) v) :: 8 word) = ucast (drop_bit (8 * (n div 8)) w)"
      by (auto simp: PutUint64_def)
    then have "bit v (8 * (n div 8) + n mod 8) = bit w (8 * (n div 8) + n mod 8)"
      by (metis bit_byte mod_less_divisor zero_less_numeral)
    then show "bit v n = bit w n" by (simp only: n)
  qed
qed simp

lemma length_PutUint64 [simp]: "length (PutUint64 v) = 8"
  by (simp add: PutUint64_def)

lemma length_EncodeToString: "length (EncodeToString bs) = 2 * length bs"
  by (induction bs) (simp_all add: EncodeToString_def hexByte_def)

text \<open>Decimal digits.\<close>

lemma digit_char_value:
  assumes "0 \<le> d" "d < 10"
  shows "is_digit (digit_char d)" "int (of_char (digit_char d) - 48) = d"
proof -
  have "(of_char (digit_char d) :: nat) = nat (48 + d)"
  proof -
    have "(of_char (char_of (48 + d)) :: int) = 48 + d" using assms by (simp add: of_char_of)
    then have "int (of_char (char_of (48 + d))) = 48 + d" by (simp add: of_nat_of_char)
    then show ?thesis by (simp add: digit_char_def)
  qed
  then show "is_digit (digit_char d)" "int (of_char (digit_char d) - 48) = d"
    using assms by (simp_all add: is_digit_def le_nat_iff nat_le_iff)
qed

lemma digitsValue_snoc: "digitsValue (cs @ [c]) acc = 10 * digitsValue cs acc + int (of_char c - 48)"
  by (induction cs arbitrary: acc) simp_all

lemma digitsValue_show: "0 \<le> n \<Longrightarrow> digitsValue (show_nonneg n) 0 = n \<and> list_all is_digit (show_nonneg n) \<and> show_nonneg n \<noteq> []"
proof (induction n rule: show_nonneg.induct)
  case (1 n)
  show ?case
  proof (cases "n < 10")
    case True
    then show ?thesis using 1(2) by (simp add: show_nonneg.simps [of n] digit_char_value)
  next
    case False
    then have "digitsValue (show_nonneg (n div 10)) 0 = n div 10" "list_all is_digit (show_nonneg (n div 10))"
      using 1 by simp_all
    then show ?thesis using False digit_char_value [of "n mod 10"]
      by (simp add: show_nonneg.simps [of n] digitsValue_snoc)
  qed
qed

lemma FindDigits_show:
  "0 \<le> n \<Longrightarrow> s = [] \<or> \<not> is_digit (hd s) \<Longrightarrow> FindDigits (show_int n @ s) = show_nonneg n"
  using digitsValue_show [of n] by (cases s) (auto simp: FindDigits_def show_int_def list_all_iff takeWhile_append)

subsection \<open>Properties\<close>

text \<open>
  Deleting from a slice while ranging over it works when the string occurs at most once: \<^verbatim>\<open>Remove\<close>
  then returns the other strings in order, and does not panic.
\<close>

theorem Remove_exact:
  assumes "count_list list s \<le> 1"
  shows "Remove list s = Ret (filter (\<lambda>v. v \<noteq> s) list)"
proof (cases "s \<in> set list")
  case False
  then have "filter (\<lambda>v. v \<noteq> s) list = list" by (auto simp: filter_id_conv)
  with False show ?thesis using removeLoop_absent [of s 0 list "length list" "length list"] by (simp add: Remove_def)
next
  case True
  then obtain xs ys where l: "list = xs @ s # ys" by (meson split_list)
  with assms have "s \<notin> set xs" "s \<notin> set ys" by (auto simp: count_list_0_iff)
  moreover from this have "filter (\<lambda>v. v \<noteq> s) xs = xs" "filter (\<lambda>v. v \<noteq> s) ys = ys"
    by (auto simp: filter_id_conv)
  ultimately show ?thesis using Remove_once [of s xs ys] by (simp add: l)
qed

theorem Remove_exact_witness: "Remove [''a'', ''b'', ''c''] ''b'' = Ret [''a'', ''c'']"
  using Remove_exact [of "[''a'', ''b'', ''c'']" "''b''"] by simp

text \<open>For two occurrences the loop reads past the shortened slice and panics, or skips one of them.\<close>

lemma Remove_two_occurrences:
  "Remove [''a'', ''a''] ''a'' = Panic ''slice bounds out of range''"
  "Remove [''a'', ''a'', ''b''] ''a'' = Ret [''a'', ''b'']"
  by (simp_all add: Remove_def shiftDown_def)

text \<open>
  The textual hash is an injective encoding: it has 32 characters, and two inputs get the same text
  exactly when the 128-bit hash agrees on them. So two Prometheus queries share a status entry only on a
  collision of the hash itself.
\<close>

theorem FarmHash_injective:
  "length (FarmHash Hash128 a) = 32 \<and> (FarmHash Hash128 a = FarmHash Hash128 b \<longleftrightarrow> Hash128 a = Hash128 b)"
  by (auto simp: FarmHash_def length_EncodeToString EncodeToString_inj PutUint64_inj split: prod.splits)

text \<open>
  Version strings round-trip: for numbers below 2^63 followed by anything that does not start with a
  digit (\<^verbatim>\<open>22+\<close> for instance), the numbers are read back, the version counts as parsed, and the pretty form
  joins the two strings with a dot.
\<close>

theorem NewKubernetesVersion_parsed:
  assumes "0 \<le> major" and "major < 2 ^ 63" and "s = [] \<or> \<not> is_digit (hd s)"
    and "0 \<le> minor" and "minor < 2 ^ 63" and "t = [] \<or> \<not> is_digit (hd t)"
    and "info = \<lparr>vi_Major = show_int major @ s, vi_Minor = show_int minor @ t\<rparr>"
  shows "NewKubernetesVersion info =
     \<lparr>kv_Version = info, kv_Major = major, kv_Minor = minor,
      kv_PrettyVersion = show_int major @ s @ ''.'' @ show_int minor @ t, kv_Parsed = True\<rparr>"
  using assms digitsValue_show [of major] digitsValue_show [of minor]
  by (simp add: NewKubernetesVersion_def FindDigits_show Atoi_def)

theorem NewKubernetesVersion_parsed_witness:
  "kv_Minor (NewKubernetesVersion \<lparr>vi_Major = ''1'', vi_Minor = ''22+''\<rparr>) = 22"
proof -
  have "show_int 1 = ''1''" "show_int 22 = ''22''"
    by (simp_all add: show_int_def show_nonneg.simps digit_char_def char_of_def)
  then show ?thesis
    using NewKubernetesVersion_parsed [of 1 "[]" 22 "''+''" "\<lparr>vi_Major = ''1'', vi_Minor = ''22+''\<rparr>"]
    by (simp add: is_digit_def)
qed

text \<open>
  The two comparisons agree: on objects whose specs can be read, comparing them unstructured gives what
  comparing them as typed objects gives; and that comparison is an equivalence relation whenever
  \<^verbatim>\<open>DeepEqual\<close> is one on string maps and on specs.
\<close>

theorem object_equivalence:
  assumes "specOf a = Inr sa" and "specOf b = Inr sb" and "equivp DeepEqual" and "equivp DeepEqualSpec"
  shows "UnstructuredObjectMetaAndSpecEquivalent DeepEqual DeepEqualSpec metaOf specOf a b =
           Inr (RuntimeObjectMetaAndSpecEquivalent DeepEqual DeepEqualSpec (metaOf a, sa) (metaOf b, sb)) \<and>
         equivp (RuntimeObjectMetaAndSpecEquivalent DeepEqual DeepEqualSpec)"
proof (rule conjI)
  show "UnstructuredObjectMetaAndSpecEquivalent DeepEqual DeepEqualSpec metaOf specOf a b =
      Inr (RuntimeObjectMetaAndSpecEquivalent DeepEqual DeepEqualSpec (metaOf a, sa) (metaOf b, sb))"
    using assms(1,2) by (auto simp: UnstructuredObjectMetaAndSpecEquivalent_def RuntimeObjectMetaAndSpecEquivalent_def
        ObjectMetaEquivalent_def)
  have r: "RuntimeObjectMetaAndSpecEquivalent DeepEqual DeepEqualSpec x y \<longleftrightarrow>
      om_Name (fst x) = om_Name (fst y) \<and> om_Namespace (fst x) = om_Namespace (fst y) \<and>
      DeepEqual (om_Labels (fst x)) (om_Labels (fst y)) \<and>
      DeepEqual (om_Annotations (fst x)) (om_Annotations (fst y)) \<and> DeepEqualSpec (snd x) (snd y)" for x y
    by (auto simp: RuntimeObjectMetaAndSpecEquivalent_def ObjectMetaEquivalent_def)
  show "equivp (RuntimeObjectMetaAndSpecEquivalent DeepEqual DeepEqualSpec)"
  proof (rule equivpI)
    show "reflp (RuntimeObjectMetaAndSpecEquivalent DeepEqual DeepEqualSpec)"
      using assms(3,4) by (auto simp: reflp_def r dest: equivp_reflp)
    show "symp (RuntimeObjectMetaAndSpecEquivalent DeepEqual DeepEqualSpec)"
      using assms(3,4) by (auto simp: symp_def r dest: equivp_symp)
    show "transp (RuntimeObjectMetaAndSpecEquivalent DeepEqual DeepEqualSpec)"
      by (rule transpI, unfold r) (use assms(3,4) in \<open>auto intro: equivp_transp\<close>)
  qed
qed

theorem object_equivalence_witness:
  defines "m \<equiv> \<lparr>om_Name = ''a'', om_Namespace = ''n'', om_Labels = [], om_Annotations = []\<rparr>"
  shows "UnstructuredObjectMetaAndSpecEquivalent (=) (=) (\<lambda>_. m) Inr (1::int) 2 = Inr False"
  using object_equivalence [of "Inr" "1::int" 1 2 2 "(=)" "(=)" "\<lambda>_. m", OF refl refl identity_equivp identity_equivp]
  by (simp add: RuntimeObjectMetaAndSpecEquivalent_def)

end
