(* ===== verification/Prometheus_Scaler.thy ===== *)
theory Prometheus_Scaler
  imports Engine Go_Float64 Utils_Misc
begin

text \<open>
  The Prometheus scaler (\<^verbatim>\<open>utils/scalerprovider/prometheus\<close>, \<^verbatim>\<open>plugins/scaler_prometheus\<close>): the
  query client, the replica count from a query's value, and the failure modes.

  The record \<open>PromWorld\<close> holds what is outside the repository: JSON decoding, URL escaping, the HTTP
  transport, \<^verbatim>\<open>Quantity.MilliValue\<close>, the farm hash, out-of-range float conversions and the clock.

  Shown: the scaler meets \<open>scaler_contract\<close>; what each failure mode does, among it that failures never
  overwrite the stored value; the count for a positive value; that a scale-from-zero never happens; and exactly when the
  scaler panics: on an answer whose only sample is null, and on a stored status without an average value.
\<close>

subsection \<open>Configuration and settings\<close>

record Server =
  srv_ServerAddress :: "string option"
  srv_InsecureSSL :: "bool option"
  srv_BearerToken :: "string option"
  srv_Username :: "string option"
  srv_Password :: "string option"

definition zeroServer :: Server where
  "zeroServer = \<lparr>srv_ServerAddress = None, srv_InsecureSSL = None, srv_BearerToken = None, srv_Username = None,
                 srv_Password = None\<rparr>"

record PromConfig =
  pcfg_Toleration :: float64
  pcfg_DefaultTimeout :: Duration
  pcfg_DefaultServer :: Server

definition Prom_DefaultToleration :: float64 where
  "Prom_DefaultToleration = round64 (1 / 20)"

definition Prom_Config_Validate :: "PromConfig \<Rightarrow> goerr option" where
  "Prom_Config_Validate c =
     (if f64_lt (pcfg_Toleration c) (Fin 0) then Some (errNew ''toleration must be non-negative'')
      else if srv_ServerAddress (pcfg_DefaultServer c) = None then Some (errNew ''default server is required'')
      else None)"

definition Prom_NewDefaultConfig :: PromConfig where
  "Prom_NewDefaultConfig =
     \<lparr>pcfg_Toleration = Prom_DefaultToleration, pcfg_DefaultTimeout = 30 * Second, pcfg_DefaultServer = zeroServer\<rparr>"

definition FailAsError :: string where "FailAsError = []"
definition FailAsZero :: string where "FailAsZero = ''FailAsZero''"
definition FailAsLastValue :: string where "FailAsLastValue = ''FailAsLastValue''"

lemmas failure_modes = FailAsError_def FailAsZero_def FailAsLastValue_def

record PromSettings =
  pset_Server :: Server
  pset_Query :: string
  pset_Threshold :: float64
  pset_FailureMode :: string

definition zeroPromSettings :: PromSettings where
  "zeroPromSettings = \<lparr>pset_Server = zeroServer, pset_Query = [], pset_Threshold = Fin 0, pset_FailureMode = []\<rparr>"

definition Prom_Settings_Validate :: "PromSettings \<Rightarrow> goerr option" where
  "Prom_Settings_Validate s =
     (if pset_Query s = [] then Some (errNew ''query is empty'')
      else if f64_le (pset_Threshold s) (Fin 0) then Some (errNew ''threshold must be positive'')
      else None)"

subsection \<open>The query client\<close>

definition ErrNullValue :: goerr where "ErrNullValue = errNew ''query returns null value''"
definition ErrMultipleValue :: goerr where "ErrMultipleValue = errNew ''query returns multiple values''"

record HttpRequest =
  hr_Method :: string
  hr_URL :: string
  hr_Header :: "(string \<times> string) list"

record HttpResponse =
  hres_StatusCode :: int
  hres_Body :: "string result"

text \<open>The samples of a \<^verbatim>\<open>VectorResponse\<close> are what is used of it. They are pointers (\<^verbatim>\<open>model.Vector\<close> is
  \<^verbatim>\<open>[]*Sample\<close>), and a JSON \<^verbatim>\<open>null\<close> in the array decodes to a nil one: \<open>None\<close>.\<close>

record PromWorld =
  prw_Unmarshal :: "string \<Rightarrow> PromSettings \<Rightarrow> PromSettings \<times> goerr option"
  prw_QueryEscape :: "string \<Rightarrow> string"
  prw_NewRequest :: "string \<Rightarrow> string \<Rightarrow> goerr option"
  prw_BasicAuth :: "string \<Rightarrow> string \<Rightarrow> string"
  prw_Do :: "nat \<Rightarrow> bool \<Rightarrow> Duration \<Rightarrow> HttpRequest \<Rightarrow> HttpResponse result"
  prw_UnmarshalVector :: "string \<Rightarrow> float64 option list result"
  prw_Now :: "nat \<Rightarrow> Time"
  prw_Hash128 :: "string \<Rightarrow> 64 word \<times> 64 word"
  prw_MilliValue :: "Quantity \<Rightarrow> int"
  prw_OutOfRange32 :: "float64 \<Rightarrow> int"
  prw_OutOfRange64 :: "float64 \<Rightarrow> int"

record promQueryClient =
  qc_Timeout :: Duration

definition NewQueryClient :: "Duration \<Rightarrow> promQueryClient" where
  "NewQueryClient timeout = \<lparr>qc_Timeout = timeout\<rparr>"

text \<open>\<^verbatim>\<open>when.Unix()\<close>: whole seconds, rounded down.\<close>

definition Unix :: "Time \<Rightarrow> int" where
  "Unix t = t div Second"

definition authHeader :: "PromWorld \<Rightarrow> Server \<Rightarrow> (string \<times> string) list" where
  "authHeader pw server =
     (case srv_BearerToken server of
        Some token \<Rightarrow> [(''Authorization'', ''Bearer '' @ token)]
      | None \<Rightarrow>
          (case srv_Username server of
             None \<Rightarrow> []
           | Some username \<Rightarrow>
               [(''Authorization'',
                 prw_BasicAuth pw username (case srv_Password server of None \<Rightarrow> [] | Some p \<Rightarrow> p))]))"

definition Query :: "PromWorld \<Rightarrow> nat \<Rightarrow> promQueryClient \<Rightarrow> Server \<Rightarrow> string \<Rightarrow> Time \<Rightarrow> float64 result exec" where
  "Query pw occasion c server query now =
     (case srv_ServerAddress server of
        None \<Rightarrow> Panic ''nil pointer dereference''
      | Some address \<Rightarrow>
          (let url = address @ ''/api/v1/query?query='' @ prw_QueryEscape pw query @ ''&time='' @ show_int (Unix now);
               insecure = GetPointerBoolValue (srv_InsecureSSL server) False
           in case prw_NewRequest pw ''GET'' url of
                Some err \<Rightarrow> Ret (Inl err)
              | None \<Rightarrow>
                  (case prw_Do pw occasion insecure (qc_Timeout c)
                          \<lparr>hr_Method = ''GET'', hr_URL = url, hr_Header = authHeader pw server\<rparr> of
                     Inl err \<Rightarrow> Ret (Inl err)
                   | Inr resp \<Rightarrow>
                       (case hres_Body resp of
                          Inl err \<Rightarrow> Ret (Inl err)
                        | Inr body \<Rightarrow>
                            if go_quot (hres_StatusCode resp) 100 \<noteq> 2
                            then Ret (Inl (errNew (''unable to fetch metric from prometheus server `'' @ address @
                                             ''`, status code '' @ show_int (hres_StatusCode resp) @
                                             '' body: `'' @ body @ ''`'')))
                            else
                              (case prw_UnmarshalVector pw body of
                                 Inl err \<Rightarrow> Ret (Inl err)
                               | Inr [] \<Rightarrow> Ret (Inl ErrNullValue)
                               | Inr [None] \<Rightarrow> Panic ''nil pointer dereference''
                               | Inr [Some v] \<Rightarrow> Ret (Inr v)
                               | Inr (_ # _ # _) \<Rightarrow> Ret (Inl ErrMultipleValue))))))"

subsection \<open>The scaler\<close>

record PromScaler =
  prs_PluginName :: string
  prs_Config :: PromConfig
  prs_QueryClient :: promQueryClient

definition Prom_New :: "string \<Rightarrow> PromConfig \<Rightarrow> PromScaler result" where
  "Prom_New pluginName config =
     (case Prom_Config_Validate config of
        Some err \<Rightarrow> Inl err
      | None \<Rightarrow> Inr \<lparr>prs_PluginName = pluginName, prs_Config = config,
                     prs_QueryClient = NewQueryClient (pcfg_DefaultTimeout config)\<rparr>)"

definition makeTargetStatusName :: "PromWorld \<Rightarrow> PromScaler \<Rightarrow> string \<Rightarrow> string" where
  "makeTargetStatusName pw s query = prs_PluginName s @ ''/'' @ FarmHash (prw_Hash128 pw) query"

definition MaxFloat64 :: float64 where
  "MaxFloat64 = Fin ((2 ^ 53 - 1) * 2 ^ 971)"

text \<open>
  The outcome of the query with the failure modes applied: an error, or the value, the average value (the
  largest float when it has not been set) and whether the status is to be updated. A failed query returns
  \<open>-1\<close> as its value.
\<close>

definition queryOrFallback ::
  "PromWorld \<Rightarrow> PromScaler \<Rightarrow> PromSettings \<Rightarrow> ReplicaAutoscalerStatus \<Rightarrow> float64 result \<Rightarrow>
   (float64 \<times> float64 \<times> bool) result exec" where
  "queryOrFallback pw s settings status answer =
     (case answer of
        Inr value \<Rightarrow> Ret (Inr (value, MaxFloat64, True))
      | Inl err \<Rightarrow>
          if pset_FailureMode settings = FailAsError then Ret (Inl err)
          else if pset_FailureMode settings = FailAsLastValue then
            (case GetTargetStatus status (makeTargetStatusName pw s (pset_Query settings)) of
               Some targetStatus \<Rightarrow>
                 (case mt_AverageValue (ts_Metric targetStatus) of
                    None \<Rightarrow> Panic ''nil pointer dereference''
                  | Some q \<Rightarrow> Ret (Inr (Fin (- 1), f64_div (f64_of_int (prw_MilliValue pw q)) (f64_of_int 1000), False)))
             | None \<Rightarrow>
                 Ret (Inl (errNew (''unable to get latest value from status when failover is enabled: '' @ errText err))))
          else if pset_FailureMode settings = FailAsZero then Ret (Inr (Fin 0, MaxFloat64, False))
          else Ret (Inl (errNew (''unknown failure mode: `'' @ pset_FailureMode settings @ ''`''))))"

text \<open>(\<^verbatim>\<open>desiredReplicas\<close>, \<^verbatim>\<open>averageValue\<close>).\<close>

definition replicasForValue ::
  "(float64 \<Rightarrow> int) \<Rightarrow> float64 \<Rightarrow> float64 \<Rightarrow> int \<Rightarrow> float64 \<Rightarrow> float64 \<Rightarrow> int \<times> float64" where
  "replicasForValue oor toleration threshold currentReplicas value averageValue =
     (if f64_eq value (Fin 0) then (0, Fin 0)
      else if currentReplicas = 0 then
        let desiredReplicas = f64_to_int 32 oor (f64_ceil (f64_div value threshold))
        in (desiredReplicas, if desiredReplicas \<noteq> 0 then f64_div value (f64_of_int desiredReplicas) else averageValue)
      else
        let averageValue' = (if f64_eq averageValue MaxFloat64 then f64_div value (f64_of_int currentReplicas)
                             else averageValue);
            scaleRatio = f64_div averageValue' threshold
        in (if f64_le (f64_mul toleration (Fin 100)) (f64_abs (f64_sub (Fin 100) (f64_mul scaleRatio (Fin 100))))
            then ceil_mul oor scaleRatio currentReplicas else currentReplicas, averageValue'))"

definition CalculateDesiredReplicas ::
  "PromWorld \<Rightarrow> PromScaler \<Rightarrow> nat \<Rightarrow> ScalerContext \<Rightarrow> PromSettings \<Rightarrow> ReplicaAutoscalerStatus \<Rightarrow>
   (ScalerOutput result \<times> ReplicaAutoscalerStatus) exec" where
  "CalculateDesiredReplicas pw s occasion ctx settings status =
     (if sc_CurrentReplicas ctx = 0
      then Ret (Inr \<lparr>so_DesiredReplicas = 0, so_ManagedTargetStatus = []\<rparr>, status)
      else
        let provisionServer = (if srv_ServerAddress (pset_Server settings) \<noteq> None then pset_Server settings
                               else pcfg_DefaultServer (prs_Config s));
            targetStatusName = makeTargetStatusName pw s (pset_Query settings)
        in exec_bind (Query pw occasion (prs_QueryClient s) provisionServer (pset_Query settings) (prw_Now pw occasion))
             (\<lambda>answer. exec_bind (queryOrFallback pw s settings status answer)
               (\<lambda>r. case r of
                  Inl err \<Rightarrow> Ret (Inl err, status)
                | Inr (value, averageValue, shouldUpdateAverageValue) \<Rightarrow>
                    (let (desiredReplicas, averageValue') =
                           replicasForValue (prw_OutOfRange32 pw) (pcfg_Toleration (prs_Config s)) (pset_Threshold settings)
                             (sc_CurrentReplicas ctx) value averageValue
                     in Ret (Inr \<lparr>so_DesiredReplicas = desiredReplicas, so_ManagedTargetStatus = [targetStatusName]\<rparr>,
                             if shouldUpdateAverageValue
                             then SetTargetStatus status
                                    \<lparr>ts_Target = targetStatusName, ts_Scaler = prs_PluginName s,
                                     ts_DesiredReplicas = desiredReplicas,
                                     ts_Metric = \<lparr>mt_Type = AverageValueMetricType, mt_Value = None,
                                       mt_AverageValue =
                                         Some \<lparr>q_value = f64_to_int 64 (prw_OutOfRange64 pw) (f64_mul averageValue' (Fin 1000)),
                                               q_scale = - 3\<rparr>,
                                       mt_AverageUtilization = None\<rparr>\<rparr>
                             else status)))))"

definition Prom_Get :: "PromWorld \<Rightarrow> PromScaler \<Rightarrow> Scaler" where
  "Prom_Get pw s occasion ctx status =
     (case LoadSettings (prw_Unmarshal pw) ctx zeroPromSettings of
        Inl err \<Rightarrow> Ret (Inl err, status)
      | Inr settings \<Rightarrow>
          (case Prom_Settings_Validate settings of
             Some err \<Rightarrow> Ret (Inl err, status)
           | None \<Rightarrow> CalculateDesiredReplicas pw s occasion ctx settings status))"

definition prometheus_setup ::
  "PromWorld \<Rightarrow> ('y \<Rightarrow> PromConfig \<Rightarrow> PromConfig \<times> goerr option) \<Rightarrow>
   ('r, 'y, 'm) engineProvisioner \<Rightarrow> goerr option \<times> ('r, 'y, 'm) engineProvisioner" where
  "prometheus_setup pw decode c =
     (case requireConfig decode Prom_Config_Validate c ''prometheus'' Prom_NewDefaultConfig of
        Inl err \<Rightarrow> (Some err, c)
      | Inr config \<Rightarrow>
          (case Prom_New ''prometheus'' config of
             Inl err \<Rightarrow> (Some err, c)
           | Inr prometheusScaler \<Rightarrow> (None, AddScaler ''prometheus'' (Prom_Get pw prometheusScaler) c)))"

subsection \<open>Outcomes\<close>

definition averageStatus :: "string \<Rightarrow> string \<Rightarrow> int \<Rightarrow> int \<Rightarrow> TargetStatus" where
  "averageStatus scaler name n milli =
     \<lparr>ts_Target = name, ts_Scaler = scaler, ts_DesiredReplicas = n,
      ts_Metric = \<lparr>mt_Type = AverageValueMetricType, mt_Value = None,
                   mt_AverageValue = Some \<lparr>q_value = milli, q_scale = - 3\<rparr>, mt_AverageUtilization = None\<rparr>\<rparr>"

lemma CalculateDesiredReplicas_running:
  assumes "sc_CurrentReplicas ctx \<noteq> 0"
    and "Query pw i (prs_QueryClient s) (if srv_ServerAddress (pset_Server settings) \<noteq> None then pset_Server settings
           else pcfg_DefaultServer (prs_Config s)) (pset_Query settings) (prw_Now pw i) = Ret answer"
  defines "name \<equiv> makeTargetStatusName pw s (pset_Query settings)"
    and "count v a \<equiv> replicasForValue (prw_OutOfRange32 pw) (pcfg_Toleration (prs_Config s)) (pset_Threshold settings)
                        (sc_CurrentReplicas ctx) v a"
  shows "CalculateDesiredReplicas pw s i ctx settings st =
     exec_bind (queryOrFallback pw s settings st answer) (\<lambda>r. case r of
         Inl err \<Rightarrow> Ret (Inl err, st)
       | Inr (v, a, upd) \<Rightarrow>
           Ret (Inr \<lparr>so_DesiredReplicas = fst (count v a), so_ManagedTargetStatus = [name]\<rparr>,
                if upd then SetTargetStatus st (averageStatus (prs_PluginName s) name (fst (count v a))
                              (f64_to_int 64 (prw_OutOfRange64 pw) (f64_mul (snd (count v a)) (Fin 1000)))) else st))"
  using assms(1,2) unfolding CalculateDesiredReplicas_def name_def count_def averageStatus_def Let_def
  by (auto simp: split_beta intro!: arg_cong2 [where f = exec_bind] split: sum.splits)

lemma CalculateDesiredReplicas_cases:
  "(\<exists>m. CalculateDesiredReplicas pw s i ctx settings st = Panic m) \<or>
   (\<exists>err. CalculateDesiredReplicas pw s i ctx settings st = Ret (Inl err, st)) \<or>
   (\<exists>out. CalculateDesiredReplicas pw s i ctx settings st = Ret (Inr out, st)) \<or>
   (\<exists>n milli. CalculateDesiredReplicas pw s i ctx settings st =
      Ret (Inr \<lparr>so_DesiredReplicas = n, so_ManagedTargetStatus = [makeTargetStatusName pw s (pset_Query settings)]\<rparr>,
           SetTargetStatus st (averageStatus (prs_PluginName s) (makeTargetStatusName pw s (pset_Query settings)) n milli)))"
proof (cases "sc_CurrentReplicas ctx = 0")
  case True
  then show ?thesis by (auto simp: CalculateDesiredReplicas_def)
next
  case False
  let ?srv = "if srv_ServerAddress (pset_Server settings) \<noteq> None then pset_Server settings
           else pcfg_DefaultServer (prs_Config s)"
  show ?thesis
  proof (cases "Query pw i (prs_QueryClient s) ?srv (pset_Query settings) (prw_Now pw i)")
    case (Panic m)
    with False show ?thesis by (auto simp: CalculateDesiredReplicas_def Let_def)
  next
    case (Ret answer)
    note run = CalculateDesiredReplicas_running [OF False Ret, of st]
    show ?thesis
    proof (cases "queryOrFallback pw s settings st answer")
      case q: (Ret r)
      show ?thesis unfolding run q by (cases r) (auto split: prod.splits)
    qed (simp add: run)
  qed
qed

lemma Prom_Get_cases:
  "(\<exists>err. Prom_Get pw s i ctx st = Ret (Inl err, st)) \<or>
   (\<exists>settings. LoadSettings (prw_Unmarshal pw) ctx zeroPromSettings = Inr settings \<and>
      Prom_Settings_Validate settings = None \<and> Prom_Get pw s i ctx st = CalculateDesiredReplicas pw s i ctx settings st)"
  by (auto simp: Prom_Get_def split: sum.splits option.splits)

interpretation prom_scaler: scaler_contract "Prom_Get pw s" for pw s
proof (rule scaler_contractI)
  fix i ctx st
  show "(\<exists>m. Prom_Get pw s i ctx st = Panic m) \<or> (\<exists>err. Prom_Get pw s i ctx st = Ret (Inl err, st)) \<or>
      (\<exists>out. Prom_Get pw s i ctx st = Ret (Inr out, st)) \<or>
      (\<exists>out t. ts_Target t \<in> set (so_ManagedTargetStatus out) \<and>
        Prom_Get pw s i ctx st = Ret (Inr out, SetTargetStatus st t))"
    using Prom_Get_cases [of pw s i ctx st]
  proof (elim disjE exE conjE)
    fix settings
    assume "Prom_Get pw s i ctx st = CalculateDesiredReplicas pw s i ctx settings st"
    then show ?thesis using CalculateDesiredReplicas_cases [of pw s i ctx settings st]
      by (force simp: averageStatus_def)
  qed simp
qed

text \<open>The only panics: no server address (which a validated configuration excludes), an answer whose only sample is null,
  and a stored status without an average value.

  \<open>received\<close>: the request of a query is made, sent and answered with a status code of success and \<open>body\<close>.\<close>

definition received ::
  "PromWorld \<Rightarrow> nat \<Rightarrow> promQueryClient \<Rightarrow> Server \<Rightarrow> string \<Rightarrow> Time \<Rightarrow> string \<Rightarrow> bool" where
  "received pw i c server query now body \<longleftrightarrow>
     (\<exists>address code.
        srv_ServerAddress server = Some address \<and> 200 \<le> code \<and> code < 300 \<and>
        (let url = address @ ''/api/v1/query?query='' @ prw_QueryEscape pw query @ ''&time='' @ show_int (Unix now)
         in prw_NewRequest pw ''GET'' url = None \<and>
            prw_Do pw i (srv_InsecureSSL server = Some True) (qc_Timeout c)
              \<lparr>hr_Method = ''GET'', hr_URL = url, hr_Header = authHeader pw server\<rparr> =
              Inr \<lparr>hres_StatusCode = code, hres_Body = Inr body\<rparr>))"

lemma success_code: "go_quot code 100 = 2 \<longleftrightarrow> 200 \<le> code \<and> code < 300"
  by (cases "0 \<le> code") (auto simp: go_quot_def sgn_if split: if_splits)

lemma Query_panics_iff:
  assumes "srv_ServerAddress server \<noteq> None"
  shows "(\<exists>m. Query pw i c server query now = Panic m) \<longleftrightarrow>
    (\<exists>body. received pw i c server query now body \<and> prw_UnmarshalVector pw body = Inr [None])"
proof -
  have secure: "GetPointerBoolValue b False \<longleftrightarrow> b = Some True" for b
    by (cases b) (simp_all add: GetPointerBoolValue_def)
  have response: "x = \<lparr>hres_StatusCode = code, hres_Body = b\<rparr> \<longleftrightarrow> hres_StatusCode x = code \<and> hres_Body x = b"
    for x code b by (cases x) auto
  show ?thesis using assms
    unfolding Query_def received_def Let_def secure
    by (auto simp: success_code response split: option.splits sum.splits list.splits)
qed

text \<open>The server never answers with a null sample: what its HTTP API documents, since a sample is an object there.\<close>

definition answers_samples :: "PromWorld \<Rightarrow> bool" where
  "answers_samples pw \<longleftrightarrow> (\<forall>i insecure timeout req resp body.
     prw_Do pw i insecure timeout req = Inr resp \<and> hres_Body resp = Inr body \<longrightarrow> prw_UnmarshalVector pw body \<noteq> Inr [None])"

lemma Query_returns:
  assumes "answers_samples pw" "srv_ServerAddress server \<noteq> None"
  shows "\<exists>answer. Query pw i c server q now = Ret answer"
proof (cases "Query pw i c server q now")
  case (Panic m)
  then obtain body where "received pw i c server q now body" "prw_UnmarshalVector pw body = Inr [None]"
    using Query_panics_iff [OF assms(2), of pw i c q now] by blast
  then show ?thesis using assms(1) by (fastforce simp: received_def answers_samples_def Let_def)
qed simp

lemma queryOrFallback_returns:
  assumes "\<And>t. GetTargetStatus st (makeTargetStatusName pw s (pset_Query settings)) = Some t \<Longrightarrow> mt_AverageValue (ts_Metric t) \<noteq> None"
  shows "\<exists>r. queryOrFallback pw s settings st answer = Ret r"
  using assms by (auto simp: queryOrFallback_def split: sum.splits option.splits)

lemma Prom_Get_returns:
  assumes "Prom_Config_Validate (prs_Config s) = None" "answers_samples pw"
    and "\<And>q t. GetTargetStatus st (makeTargetStatusName pw s q) = Some t \<Longrightarrow> mt_AverageValue (ts_Metric t) \<noteq> None"
  shows "\<exists>x. Prom_Get pw s i ctx st = Ret x"
  using Prom_Get_cases [of pw s i ctx st]
proof (elim disjE exE conjE)
  fix settings
  assume g: "Prom_Get pw s i ctx st = CalculateDesiredReplicas pw s i ctx settings st"
  let ?srv = "if srv_ServerAddress (pset_Server settings) \<noteq> None then pset_Server settings
           else pcfg_DefaultServer (prs_Config s)"
  show ?thesis
  proof (cases "sc_CurrentReplicas ctx = 0")
    case True
    then show ?thesis by (simp add: g CalculateDesiredReplicas_def)
  next
    case False
    have "srv_ServerAddress ?srv \<noteq> None" using assms(1) by (auto simp: Prom_Config_Validate_def split: if_splits)
    from Query_returns [OF assms(2) this] obtain answer
      where a: "Query pw i (prs_QueryClient s) ?srv (pset_Query settings) (prw_Now pw i) = Ret answer" by blast
    obtain r where r: "queryOrFallback pw s settings st answer = Ret r"
      using queryOrFallback_returns [of st pw s settings answer] assms(3) by blast
    show ?thesis unfolding g CalculateDesiredReplicas_running [OF False a, of st] r
      by (cases r) (auto split: prod.splits)
  qed
qed simp

subsection \<open>The count for a value\<close>

lemma f64_eq_Fin [simp]: "f64_eq (Fin a) (Fin b) \<longleftrightarrow> a = b"
  by (auto simp: f64_eq_def)

lemma f64_eq_MaxFloat64 [simp]: "f64_eq MaxFloat64 MaxFloat64"
  by (simp add: MaxFloat64_def)

text \<open>Below the threshold per replica the count does not grow.\<close>

lemma replicasForValue_down:
  assumes "0 < v" "representable th" "0 < th" "1 \<le> c" "c < 2 ^ 31" "v \<le> th * of_int c"
  shows "0 \<le> fst (replicasForValue oor tol (Fin th) c (Fin v) MaxFloat64) \<and>
         fst (replicasForValue oor tol (Fin th) c (Fin v) MaxFloat64) \<le> c"
proof -
  have c: "0 < (of_int c :: rat)" "f64_of_int c = Fin (of_int c)" using assms(4,5) by (auto intro!: f64_of_int_small)
  have "0 \<le> v / of_int c" "v / of_int c \<le> th" using assms c by (simp_all add: pos_divide_le_eq)
  then obtain a where a: "round64 (v / of_int c) = Fin a" "0 \<le> a" "a \<le> th" by (rule round64_0_upto [OF assms(2)])
  have "0 \<le> a / th" "a / th \<le> 1" using a assms(3) by simp_all
  then obtain r where r: "round64 (a / th) = Fin r" "0 \<le> r" "r \<le> 1" by (rule round64_0_upto [OF representable_1])
  have "0 \<le> ceil_mul oor (Fin r) c \<and> ceil_mul oor (Fin r) c \<le> c" using ceil_mul_down [OF r(2,3)] assms(4,5) by simp
  then show ?thesis using assms(1,3,4) c(1) by (simp add: replicasForValue_def Let_def c(2) a(1) r(1))
qed

text \<open>Above it the count does not shrink.\<close>

lemma replicasForValue_up:
  assumes "0 < v" "representable th" "0 < th" "1 \<le> c" "c < 2 ^ 31" "th * of_int c \<le> v"
    and "f64_div (f64_div (Fin v) (f64_of_int c)) (Fin th) = Fin r" "r * of_int c \<le> 2 ^ 31 - 1"
  shows "c \<le> fst (replicasForValue oor tol (Fin th) c (Fin v) MaxFloat64)"
proof -
  have c: "0 < (of_int c :: rat)" "f64_of_int c = Fin (of_int c)" using assms(4,5) by (auto intro!: f64_of_int_small)
  obtain a where a: "round64 (v / of_int c) = Fin a"
    using assms(3,7) c by (cases "round64 (v / of_int c)") auto
  have "th \<le> v / of_int c" using assms(6) c by (simp add: pos_le_divide_eq)
  then have "th \<le> a" by (rule round64_ge_representable [OF assms(2) _ a])
  moreover have r: "round64 (a / th) = Fin r" using assms(3,7) c a by simp
  ultimately have "1 \<le> r" using assms(3) by (intro round64_ge_representable [OF representable_1 _ r]) simp
  from ceil_mul_up [OF this _ assms(5,8)] have "c \<le> ceil_mul oor (Fin r) c" using assms(4) by simp
  then show ?thesis using assms(1,3,4) c(1) by (simp add: replicasForValue_def Let_def c(2) a r)
qed

lemma Prom_Get_value:
  assumes "LoadSettings (prw_Unmarshal pw) ctx zeroPromSettings = Inr settings" and "Prom_Settings_Validate settings = None"
    and "sc_CurrentReplicas ctx \<noteq> 0"
    and "Query pw i (prs_QueryClient s) (if srv_ServerAddress (pset_Server settings) \<noteq> None then pset_Server settings
           else pcfg_DefaultServer (prs_Config s)) (pset_Query settings) (prw_Now pw i) = Ret (Inr value)"
    and "Prom_Get pw s i ctx st = Ret (Inr out, st')"
  shows "so_DesiredReplicas out = fst (replicasForValue (prw_OutOfRange32 pw) (pcfg_Toleration (prs_Config s))
           (pset_Threshold settings) (sc_CurrentReplicas ctx) value MaxFloat64)"
    and "so_ManagedTargetStatus out = [makeTargetStatusName pw s (pset_Query settings)]"
    and "\<exists>milli. st' = SetTargetStatus st (averageStatus (prs_PluginName s)
           (makeTargetStatusName pw s (pset_Query settings)) (so_DesiredReplicas out) milli)"
  using assms(5) unfolding Prom_Get_def assms(1) sum.case assms(2) option.case
    CalculateDesiredReplicas_running [OF assms(3,4), of st] queryOrFallback_def
  by (auto split: prod.splits)

lemma purgeOuter_nothing: "purgeOuter [] ts acc = acc"
  by (induction ts arbitrary: acc) simp_all

subsection \<open>Sample world\<close>

definition sampleServerRec :: Server where
  "sampleServerRec = zeroServer\<lparr>srv_ServerAddress := Some ''http://prom''\<rparr>"

definition samplePromSettings :: "string \<Rightarrow> PromSettings" where
  "samplePromSettings mode = \<lparr>pset_Server = zeroServer, pset_Query = ''q'', pset_Threshold = Fin 10, pset_FailureMode = mode\<rparr>"

definition samplePromScaler :: PromScaler where
  "samplePromScaler = \<lparr>prs_PluginName = ''prometheus'',
     prs_Config = \<lparr>pcfg_Toleration = Fin 0, pcfg_DefaultTimeout = 0, pcfg_DefaultServer = sampleServerRec\<rparr>,
     prs_QueryClient = NewQueryClient 0\<rparr>"

definition samplePromWorld :: "string \<Rightarrow> float64 list \<Rightarrow> PromWorld" where
  "samplePromWorld mode values =
     \<lparr>prw_Unmarshal = (\<lambda>_ _. (samplePromSettings mode, None)), prw_QueryEscape = id, prw_NewRequest = (\<lambda>_ _. None),
      prw_BasicAuth = (\<lambda>_ _. []), prw_Do = (\<lambda>_ _ _ _. Inr \<lparr>hres_StatusCode = 200, hres_Body = Inr []\<rparr>),
      prw_UnmarshalVector = (\<lambda>_. Inr (map Some values)), prw_Now = (\<lambda>_. 0), prw_Hash128 = (\<lambda>_. (0, 0)),
      prw_MilliValue = q_value, prw_OutOfRange32 = (\<lambda>_. 0), prw_OutOfRange64 = (\<lambda>_. 0)\<rparr>"

definition samplePromCtx :: "int \<Rightarrow> ScalerContext" where
  "samplePromCtx c = \<lparr>sc_PodLister = (\<lambda>_ _. Inr []), sc_RawSettings = ''{}'',
     sc_ScaleTargetRef = \<lparr>ref_Kind = [], ref_Name = [], ref_APIVersion = []\<rparr>, sc_Namespace = ''prod'',
     sc_ScaledObjectSelector = [], sc_CurrentReplicas = c\<rparr>"

lemma sampleProm_load: "LoadSettings (prw_Unmarshal (samplePromWorld mode vs)) (samplePromCtx c) zeroPromSettings = Inr (samplePromSettings mode)"
  by (simp add: LoadSettings_def samplePromWorld_def)

lemma sampleProm_valid: "Prom_Settings_Validate (samplePromSettings mode) = None"
  by (simp add: Prom_Settings_Validate_def samplePromSettings_def)

lemma sampleProm_query:
  "Query (samplePromWorld mode [v]) i qc sampleServerRec q now = Ret (Inr v)"
  "Query (samplePromWorld mode []) i qc sampleServerRec q now = Ret (Inl ErrNullValue)"
  by (simp_all add: Query_def sampleServerRec_def samplePromWorld_def go_quot_def)

lemma sampleProm_server:
  "(if srv_ServerAddress (pset_Server (samplePromSettings mode)) \<noteq> None then pset_Server (samplePromSettings mode)
    else pcfg_DefaultServer (prs_Config samplePromScaler)) = sampleServerRec"
  by (simp add: samplePromSettings_def samplePromScaler_def zeroServer_def)

lemma sampleProm_fields [simp]:
  "sc_CurrentReplicas (samplePromCtx c) = c" "pset_Threshold (samplePromSettings mode) = Fin 10"
  "pset_FailureMode (samplePromSettings mode) = mode"
  by (simp_all add: samplePromCtx_def samplePromSettings_def)

lemma sampleProm_success:
  assumes "c \<noteq> 0"
  obtains out st' where "Prom_Get (samplePromWorld mode [v]) samplePromScaler i (samplePromCtx c) st = Ret (Inr out, st')"
proof -
  have "\<exists>out st'. Prom_Get (samplePromWorld mode [v]) samplePromScaler i (samplePromCtx c) st = Ret (Inr out, st')"
    unfolding Prom_Get_def sampleProm_load sum.case sampleProm_valid option.case
    using CalculateDesiredReplicas_running [of "samplePromCtx c" "samplePromWorld mode [v]" i samplePromScaler
        "samplePromSettings mode", unfolded sampleProm_server sampleProm_query, OF _ refl, of st] assms
    by (auto simp: queryOrFallback_def)
  then show thesis using that by blast
qed

subsection \<open>Properties\<close>

text \<open>
  (C23) The count follows the value: for a query that returns \<open>v\<close>, a threshold \<open>th\<close> (a positive float)
  and \<open>c\<close> running replicas, zero gives zero replicas, a value of at most \<open>th\<close> per replica never gives
  more than \<open>c\<close>, and one of at least \<open>th\<close> per replica never less than \<open>c\<close> (as long as the scaled
  count fits 32 bits), in spite of the three roundings; and the reported count is what is stored in the status
  under the name that is reported as managed.
\<close>

theorem prometheus_count_direction:
  assumes "LoadSettings (prw_Unmarshal pw) ctx zeroPromSettings = Inr settings" and "Prom_Settings_Validate settings = None"
    and "Query pw i (prs_QueryClient s) (if srv_ServerAddress (pset_Server settings) \<noteq> None then pset_Server settings
           else pcfg_DefaultServer (prs_Config s)) (pset_Query settings) (prw_Now pw i) = Ret (Inr (Fin v))"
    and "Prom_Get pw s i ctx st = Ret (Inr out, st')"
    and "pset_Threshold settings = Fin th" and "representable th" and "0 \<le> v"
    and "c = sc_CurrentReplicas ctx" and "1 \<le> c" and "c < 2 ^ 31"
  shows "(v = 0 \<longrightarrow> so_DesiredReplicas out = 0) \<and>
    (v \<le> th * of_int c \<longrightarrow> 0 \<le> so_DesiredReplicas out \<and> so_DesiredReplicas out \<le> c) \<and>
    (th * of_int c \<le> v \<and> (\<exists>r. f64_div (f64_div (Fin v) (f64_of_int c)) (Fin th) = Fin r \<and> r * of_int c \<le> 2 ^ 31 - 1)
       \<longrightarrow> c \<le> so_DesiredReplicas out) \<and>
    (\<exists>name t. so_ManagedTargetStatus out = [name] \<and> GetTargetStatus st' name = Some t \<and>
              ts_DesiredReplicas t = so_DesiredReplicas out)"
proof -
  have c0: "sc_CurrentReplicas ctx \<noteq> 0" using assms(8,9) by simp
  have th: "0 < th" using assms(2,5) by (auto simp: Prom_Settings_Validate_def split: if_splits)
  note V = Prom_Get_value [OF assms(1,2) c0 assms(3,4)]
  note n = V(1) [unfolded assms(5) assms(8) [symmetric]]
  have zero: "v = 0 \<longrightarrow> so_DesiredReplicas out = 0" by (simp add: n replicasForValue_def)
  have down: "v \<le> th * of_int c \<longrightarrow> 0 \<le> so_DesiredReplicas out \<and> so_DesiredReplicas out \<le> c"
    using replicasForValue_down [OF _ assms(6) th assms(9,10), of v] assms(7,9) zero unfolding n by (cases "v = 0") auto
  have "0 < th * of_int c" using th assms(9) by simp
  then have up: "c \<le> so_DesiredReplicas out"
    if "th * of_int c \<le> v" "f64_div (f64_div (Fin v) (f64_of_int c)) (Fin th) = Fin r" "r * of_int c \<le> 2 ^ 31 - 1" for r
    using replicasForValue_up [OF _ assms(6) th assms(9,10) that(1,2,3)] that(1) order_less_le_trans unfolding n by blast
  obtain milli where "st' = SetTargetStatus st (averageStatus (prs_PluginName s)
      (makeTargetStatusName pw s (pset_Query settings)) (so_DesiredReplicas out) milli)" using V(3) by blast
  then have "GetTargetStatus st' (makeTargetStatusName pw s (pset_Query settings)) =
      Some (averageStatus (prs_PluginName s) (makeTargetStatusName pw s (pset_Query settings)) (so_DesiredReplicas out) milli)"
    by (simp add: GetTargetStatus_SetTargetStatus averageStatus_def)
  then have "\<exists>name t. so_ManagedTargetStatus out = [name] \<and> GetTargetStatus st' name = Some t \<and>
      ts_DesiredReplicas t = so_DesiredReplicas out" using V(2) by (auto simp: averageStatus_def)
  with zero down up show ?thesis by blast
qed

theorem prometheus_count_direction_witness:
  "\<exists>out st'. Prom_Get (samplePromWorld [] [Fin 25]) samplePromScaler 0 (samplePromCtx 2) zeroStatus = Ret (Inr out, st') \<and>
     2 \<le> so_DesiredReplicas out"
proof -
  obtain out st' where g: "Prom_Get (samplePromWorld [] [Fin 25]) samplePromScaler 0 (samplePromCtx 2) zeroStatus = Ret (Inr out, st')"
    by (rule sampleProm_success [of 2]) simp
  have "f64_div (f64_div (Fin 25) (f64_of_int 2)) (Fin 10) = Fin (5 / 4)"
    using round64_dyadic [of 25 1] round64_dyadic [of 5 2] by (simp add: f64_of_int_small)
  then have fits: "\<exists>r. f64_div (f64_div (Fin 25) (f64_of_int 2)) (Fin 10) = Fin r \<and> r * of_int 2 \<le> 2 ^ 31 - 1"
    by (intro exI [of _ "5 / 4"]) simp
  have "representable 10" using representable_int [of 10] by simp
  from prometheus_count_direction [OF sampleProm_load sampleProm_valid
      sampleProm_query(1) [of _ _ 0, folded sampleProm_server [of "[]"]] g _ this _ refl] fits g
  show ?thesis by auto
qed

text \<open>
  (C25) The failure modes: when the query fails with an error \<open>err\<close> the status is left alone in every mode.
  With no mode set the error is passed on; \<^verbatim>\<open>FailAsZero\<close> asks for zero replicas; \<^verbatim>\<open>FailAsLastValue\<close>
  computes the count from the stored average value, and fails when none is stored under the query's name; any
  other mode is an error.
\<close>

theorem prometheus_failure_modes:
  assumes "Query pw i (prs_QueryClient s) (if srv_ServerAddress (pset_Server settings) \<noteq> None then pset_Server settings
           else pcfg_DefaultServer (prs_Config s)) (pset_Query settings) (prw_Now pw i) = Ret (Inl err)"
    and "sc_CurrentReplicas ctx \<noteq> 0"
    and "CalculateDesiredReplicas pw s i ctx settings st = Ret (r, st')"
    and "mode = pset_FailureMode settings" and "name = makeTargetStatusName pw s (pset_Query settings)"
  shows "st' = st \<and>
    (mode = FailAsError \<longrightarrow> r = Inl err) \<and>
    (mode = FailAsZero \<longrightarrow> r = Inr \<lparr>so_DesiredReplicas = 0, so_ManagedTargetStatus = [name]\<rparr>) \<and>
    (mode = FailAsLastValue \<longrightarrow>
       (case GetTargetStatus st name of
          None \<Rightarrow> \<exists>e. r = Inl e
        | Some t \<Rightarrow> \<exists>q. mt_AverageValue (ts_Metric t) = Some q \<and>
            r = Inr \<lparr>so_DesiredReplicas = fst (replicasForValue (prw_OutOfRange32 pw) (pcfg_Toleration (prs_Config s))
                       (pset_Threshold settings) (sc_CurrentReplicas ctx) (Fin (- 1))
                       (f64_div (f64_of_int (prw_MilliValue pw q)) (f64_of_int 1000))),
                     so_ManagedTargetStatus = [name]\<rparr>)) \<and>
    (mode \<notin> {FailAsError, FailAsZero, FailAsLastValue} \<longrightarrow> (\<exists>e. r = Inl e))"
  using assms(3) unfolding CalculateDesiredReplicas_running [OF assms(2,1), of st] queryOrFallback_def sum.case
    assms(4,5) [symmetric]
  by (auto simp: failure_modes replicasForValue_def split: if_splits option.splits)

theorem prometheus_failure_modes_witness:
  "\<exists>name. CalculateDesiredReplicas (samplePromWorld FailAsZero []) samplePromScaler 0 (samplePromCtx 2)
     (samplePromSettings FailAsZero) zeroStatus = Ret (Inr \<lparr>so_DesiredReplicas = 0, so_ManagedTargetStatus = [name]\<rparr>, zeroStatus)"
proof -
  note q = sampleProm_query(2) [of _ 0, folded sampleProm_server [of FailAsZero]]
  have "\<exists>r st'. CalculateDesiredReplicas (samplePromWorld FailAsZero []) samplePromScaler 0 (samplePromCtx 2)
     (samplePromSettings FailAsZero) zeroStatus = Ret (r, st')"
    using CalculateDesiredReplicas_running [OF _ q, of "samplePromCtx 2"] by (auto simp: queryOrFallback_def failure_modes)
  then obtain r st' where c: "CalculateDesiredReplicas (samplePromWorld FailAsZero []) samplePromScaler 0 (samplePromCtx 2)
     (samplePromSettings FailAsZero) zeroStatus = Ret (r, st')" by blast
  from prometheus_failure_modes [OF q _ c refl refl] c show ?thesis by auto
qed

text \<open>
  (C26) When the scaler panics: for a validated configuration, valid settings and running replicas, exactly in two cases. The server
  answers with success and a result whose only sample is \<^verbatim>\<open>null\<close>, whatever the failure mode is; or the query fails, the mode is
  \<^verbatim>\<open>FailAsLastValue\<close>, and the status entry under the query's name has no average value.
\<close>

theorem prometheus_panics_iff:
  assumes "LoadSettings (prw_Unmarshal pw) ctx zeroPromSettings = Inr settings" and "Prom_Settings_Validate settings = None"
    and "Prom_Config_Validate (prs_Config s) = None" and "sc_CurrentReplicas ctx \<noteq> 0"
    and "server = (if srv_ServerAddress (pset_Server settings) \<noteq> None then pset_Server settings
           else pcfg_DefaultServer (prs_Config s))"
  shows "(\<exists>m. Prom_Get pw s i ctx st = Panic m) \<longleftrightarrow>
    (\<exists>body. received pw i (prs_QueryClient s) server (pset_Query settings) (prw_Now pw i) body \<and>
            prw_UnmarshalVector pw body = Inr [None]) \<or>
    (\<exists>err t. Query pw i (prs_QueryClient s) server (pset_Query settings) (prw_Now pw i) = Ret (Inl err) \<and>
            pset_FailureMode settings = FailAsLastValue \<and>
            GetTargetStatus st (makeTargetStatusName pw s (pset_Query settings)) = Some t \<and> mt_AverageValue (ts_Metric t) = None)"
proof -
  have server: "srv_ServerAddress server \<noteq> None"
    using assms(3,5) by (auto simp: Prom_Config_Validate_def split: if_splits)
  note null = Query_panics_iff [OF server, of pw i "prs_QueryClient s" "pset_Query settings" "prw_Now pw i"]
  have get: "Prom_Get pw s i ctx st = CalculateDesiredReplicas pw s i ctx settings st"
    by (simp add: Prom_Get_def assms(1,2))
  show ?thesis
  proof (cases "Query pw i (prs_QueryClient s) server (pset_Query settings) (prw_Now pw i)")
    case (Panic m)
    then have "CalculateDesiredReplicas pw s i ctx settings st = Panic m"
      unfolding CalculateDesiredReplicas_def Let_def assms(5) [symmetric] using assms(4) by simp
    with Panic show ?thesis using null get by auto
  next
    case (Ret answer)
    note run = CalculateDesiredReplicas_running [OF assms(4) Ret [unfolded assms(5)], of st]
    have "(\<exists>m. Prom_Get pw s i ctx st = Panic m) \<longleftrightarrow> (\<exists>m. queryOrFallback pw s settings st answer = Panic m)"
      unfolding get run by (cases "queryOrFallback pw s settings st answer") (auto split: sum.splits prod.splits)
    also have "\<dots> \<longleftrightarrow> (\<exists>err t. answer = Inl err \<and> pset_FailureMode settings = FailAsLastValue \<and>
        GetTargetStatus st (makeTargetStatusName pw s (pset_Query settings)) = Some t \<and> mt_AverageValue (ts_Metric t) = None)"
      by (auto simp: queryOrFallback_def failure_modes split: sum.splits option.splits)
    finally show ?thesis using null Ret by auto
  qed
qed

theorem prometheus_panics_iff_witness:
  "\<exists>m. Prom_Get ((samplePromWorld FailAsZero [])\<lparr>prw_UnmarshalVector := (\<lambda>_. Inr [None])\<rparr>) samplePromScaler 0 (samplePromCtx 2) zeroStatus = Panic m"
proof -
  let ?pw = "(samplePromWorld FailAsZero [])\<lparr>prw_UnmarshalVector := (\<lambda>_. Inr [None])\<rparr>"
  have load: "LoadSettings (prw_Unmarshal ?pw) (samplePromCtx 2) zeroPromSettings = Inr (samplePromSettings FailAsZero)"
    by (simp add: LoadSettings_def samplePromWorld_def)
  have "Prom_Config_Validate (prs_Config samplePromScaler) = None"
    by (simp add: Prom_Config_Validate_def samplePromScaler_def sampleServerRec_def)
  moreover have "received ?pw 0 qc sampleServerRec query now []" for qc query now
    by (simp add: received_def samplePromWorld_def sampleServerRec_def zeroServer_def Let_def)
  moreover have "prw_UnmarshalVector ?pw [] = Inr [None]" by simp
  ultimately show ?thesis
    using prometheus_panics_iff [OF load sampleProm_valid _ _ sampleProm_server [symmetric], of 0 zeroStatus] by simp blast
qed

text \<open>
  No scale from zero: with no replicas the scaler asks for zero replicas without querying, and manages no
  status entry, so that the value stored for the last-value fallback is dropped by the next purge.
\<close>

theorem prometheus_never_scales_from_zero:
  assumes "LoadSettings (prw_Unmarshal pw) ctx zeroPromSettings = Inr settings" and "Prom_Settings_Validate settings = None"
    and "sc_CurrentReplicas ctx = 0"
  shows "Prom_Get pw s i ctx st = Ret (Inr \<lparr>so_DesiredReplicas = 0, so_ManagedTargetStatus = []\<rparr>, st) \<and>
         GetTargetStatus (PurgeTargetStatus [] st) name = None"
  using assms by (simp add: Prom_Get_def CalculateDesiredReplicas_def PurgeTargetStatus_def GetTargetStatus_def purgeOuter_nothing)

theorem prometheus_never_scales_from_zero_witness:
  "Prom_Get (samplePromWorld [] [Fin 25]) samplePromScaler 0 (samplePromCtx 0) zeroStatus =
     Ret (Inr \<lparr>so_DesiredReplicas = 0, so_ManagedTargetStatus = []\<rparr>, zeroStatus)"
  using prometheus_never_scales_from_zero [OF sampleProm_load sampleProm_valid, of 0 "[]" "[Fin 25]" samplePromScaler 0 zeroStatus]
  by simp

end
