(* ===== verification/Rabbitmq_Scaler.thy ===== *)
theory Rabbitmq_Scaler
  imports Engine Go_Float64 Http_Client "HOL-Library.Multiset"
begin

text \<open>
  The RabbitMQ scaler (\<^verbatim>\<open>plugins/scaler_rabbitmq\<close>): settings and their validation, the HTTP and AMQP
  requests, the composition of several queues, and the replica count. The plugin is written and registers
  itself, but the list of plugins to load (\<^verbatim>\<open>core/engine/pluginz.go\<close>) does not name it.

  The record \<open>RabbitWorld\<close> holds what is outside the repository: URL parsing and printing, the query
  encoding, JSON, the HTTP transport, the AMQP client, out-of-range conversions, and the order in which Go visits
  the map of checks in \<^verbatim>\<open>Validate\<close>.

  Shown: validation in every visiting order; the composition of queues; the contract of a scaler; and two
  behaviours that look unintended: a change within the toleration asks for zero replicas, and the path of a
  single queue lacks the separator after a virtual host.
\<close>

subsection \<open>Constants and settings\<close>

definition RabbitPluginName :: string where "RabbitPluginName = ''rabbitmq''"
definition ModeQueueLength :: string where "ModeQueueLength = ''QueueLength''"
definition ModeMessageRate :: string where "ModeMessageRate = ''MessageRate''"
definition ProtocolHTTP :: string where "ProtocolHTTP = ''http''"
definition ProtocolAMQP :: string where "ProtocolAMQP = ''amqp''"
definition MessageTypeAll :: string where "MessageTypeAll = ''all''"
definition MessageTypeUnacknowledged :: string where "MessageTypeUnacknowledged = ''unacknowledged''"
definition MessageTypeReady :: string where "MessageTypeReady = ''ready''"
definition DefaultMessageType :: string where "DefaultMessageType = MessageTypeAll"
definition OperationSum :: string where "OperationSum = ''sum''"
definition OperationAvg :: string where "OperationAvg = ''avg''"
definition OperationMax :: string where "OperationMax = ''max''"
definition statusMetricNameJoiner :: string where "statusMetricNameJoiner = ''/''"

lemmas rabbit_constants = ModeQueueLength_def ModeMessageRate_def ProtocolHTTP_def ProtocolAMQP_def MessageTypeAll_def
  MessageTypeUnacknowledged_def MessageTypeReady_def DefaultMessageType_def OperationSum_def OperationAvg_def OperationMax_def

record RabbitSettings =
  rset_Mode :: string
  rset_Value :: float64
  rset_Host :: string
  rset_Protocol :: string
  rset_Timeout :: "Duration option"
  rset_QueueName :: string
  rset_VhostName :: "string option"
  rset_MessageType :: string
  rset_UseRegex :: bool
  rset_Operation :: string
  rset_MetricName :: string

definition zeroRabbitSettings :: RabbitSettings where
  "zeroRabbitSettings = \<lparr>rset_Mode = [], rset_Value = Fin 0, rset_Host = [], rset_Protocol = [], rset_Timeout = None,
     rset_QueueName = [], rset_VhostName = None, rset_MessageType = [], rset_UseRegex = False, rset_Operation = [],
     rset_MetricName = []\<rparr>"

record Url =
  url_Scheme :: string
  url_Path :: string
  url_Rest :: string

subsection \<open>Queues\<close>

record queueInfo =
  qi_Messages :: int
  qi_MessagesUnacknowledged :: int
  qi_MessageReady :: int
  qi_Rate :: float64
  qi_Name :: string

definition zeroQueueInfo :: queueInfo where
  "zeroQueueInfo = \<lparr>qi_Messages = 0, qi_MessagesUnacknowledged = 0, qi_MessageReady = 0, qi_Rate = Fin 0, qi_Name = []\<rparr>"

text \<open>(messages, ready, unacknowledged, rate).\<close>

fun sumLoop :: "queueInfo list \<Rightarrow> int \<times> int \<times> int \<times> float64 \<Rightarrow> int \<times> int \<times> int \<times> float64" where
  "sumLoop [] acc = acc"
| "sumLoop (v # q) (m, r, u, rate) =
     sumLoop q (wrap64 (m + qi_Messages v), wrap64 (r + qi_MessageReady v), wrap64 (u + qi_MessagesUnacknowledged v),
                f64_add rate (qi_Rate v))"

definition getSum :: "queueInfo list \<Rightarrow> int \<times> int \<times> int \<times> float64" where
  "getSum q = sumLoop q (0, 0, 0, Fin 0)"

definition getAverage :: "queueInfo list \<Rightarrow> int \<times> int \<times> int \<times> float64" where
  "getAverage q =
     (let (m, r, u, rate) = getSum q; n = int (length q)
      in (wrap64 (go_quot m n), wrap64 (go_quot r n), wrap64 (go_quot u n), f64_div rate (f64_of_int n)))"

fun maxLoop :: "queueInfo list \<Rightarrow> int \<times> int \<times> int \<times> float64 \<Rightarrow> int \<times> int \<times> int \<times> float64" where
  "maxLoop [] acc = acc"
| "maxLoop (v # q) (m, r, u, rate) =
     maxLoop q (if m < qi_Messages v then qi_Messages v else m,
                if r < qi_MessageReady v then qi_MessageReady v else r,
                if u < qi_MessagesUnacknowledged v then qi_MessagesUnacknowledged v else u,
                if f64_lt rate (qi_Rate v) then qi_Rate v else rate)"

definition getMaximum :: "queueInfo list \<Rightarrow> int \<times> int \<times> int \<times> float64" where
  "getMaximum q = maxLoop q (0, 0, 0, Fin 0)"

definition getComposedQueue :: "string \<Rightarrow> queueInfo list \<Rightarrow> queueInfo result" where
  "getComposedQueue operation q =
     (if q = [] then Inr zeroQueueInfo
      else
        let compose = (\<lambda>(m, r, u, rate).
              zeroQueueInfo\<lparr>qi_Messages := m, qi_MessageReady := r, qi_MessagesUnacknowledged := u, qi_Rate := rate\<rparr>)
        in if operation = OperationSum then Inr (compose (getSum q))
           else if operation = OperationAvg then Inr (compose (getAverage q))
           else if operation = OperationMax then Inr (compose (getMaximum q))
           else Inl (errNew (''operation mode '' @ operation @ '' must be one of '' @ OperationSum @ '', '' @ OperationAvg @
                             '', '' @ OperationMax)))"

subsection \<open>The outside world\<close>

record RabbitWorld =
  rw_Unmarshal :: "string \<Rightarrow> RabbitSettings \<Rightarrow> RabbitSettings \<times> goerr option"
  rw_UrlParse :: "string \<Rightarrow> Url result"
  rw_UrlString :: "Url \<Rightarrow> string"
  rw_Encode :: "UrlValues \<Rightarrow> string"
  rw_UnmarshalInfo :: "string \<Rightarrow> queueInfo \<Rightarrow> queueInfo \<times> goerr option"
  rw_UnmarshalInfos :: "string \<Rightarrow> queueInfo list \<Rightarrow> queueInfo list \<times> goerr option"
  rw_Transport :: "nat \<Rightarrow> Transport"
  rw_Dial :: "nat \<Rightarrow> string \<Rightarrow> Duration \<Rightarrow> Duration \<Rightarrow> string \<Rightarrow> goerr option"
  rw_Channel :: "nat \<Rightarrow> goerr option"
  rw_QueueInspect :: "nat \<Rightarrow> string \<Rightarrow> int result"
  rw_OutOfRange32 :: "float64 \<Rightarrow> int"
  rw_OutOfRange64 :: "float64 \<Rightarrow> int"
  rw_MapOrder :: "(string \<times> bool) list \<Rightarrow> (string \<times> bool) list"

subsection \<open>Validation\<close>

text \<open>The checks in the order the source lists them; Go visits them in any order.\<close>

definition checks :: "RabbitWorld \<Rightarrow> RabbitSettings \<Rightarrow> (string \<times> bool) list" where
  "checks w s =
     [(''mode is required with valid value'', rset_Mode s \<noteq> ModeMessageRate \<and> rset_Mode s \<noteq> ModeQueueLength),
      (''value must be positive'', f64_le (rset_Value s) (Fin 0)),
      (''host is invalid: '' @ (case rw_UrlParse w (rset_Host s) of Inl err \<Rightarrow> errText err | Inr _ \<Rightarrow> ''%!s(<nil>)''),
       isl (rw_UrlParse w (rset_Host s))),
      (''invalid timeout'', case rset_Timeout s of None \<Rightarrow> False | Some t \<Rightarrow> t < 0),
      (''queue name is required'', rset_QueueName s = []),
      (''operation is required with valid value if using regex'',
       rset_UseRegex s \<and> rset_Operation s \<noteq> OperationSum \<and> rset_Operation s \<noteq> OperationAvg \<and> rset_Operation s \<noteq> OperationMax)]"

fun firstHit :: "(string \<times> bool) list \<Rightarrow> goerr option" where
  "firstHit [] = None"
| "firstHit ((text, hit) # rest) = (if hit then Some (errNew text) else firstHit rest)"

definition protocolOf :: "Url \<Rightarrow> string option" where
  "protocolOf hostURL =
     (if url_Scheme hostURL = ''amqp'' \<or> url_Scheme hostURL = ''amqps'' then Some ProtocolAMQP
      else if url_Scheme hostURL = ''http'' \<or> url_Scheme hostURL = ''https'' then Some ProtocolHTTP
      else None)"

text \<open>The error and the settings afterwards.\<close>

definition Rabbit_Settings_Validate :: "RabbitWorld \<Rightarrow> RabbitSettings \<Rightarrow> goerr option \<times> RabbitSettings" where
  "Rabbit_Settings_Validate w s =
     (case firstHit (rw_MapOrder w (checks w s)) of
        Some err \<Rightarrow> (Some err, s)
      | None \<Rightarrow>
          (let withProtocol =
             (if rset_Protocol s = []
              then (case rw_UrlParse w (rset_Host s) of
                      Inl _ \<Rightarrow> Inr s
                    | Inr hostURL \<Rightarrow>
                        (case protocolOf hostURL of
                           Some p \<Rightarrow> Inr (s\<lparr>rset_Protocol := p\<rparr>)
                         | None \<Rightarrow> Inl (errNew (''unknown host URL scheme `'' @ url_Scheme hostURL @ ''`''))))
              else Inr s)
           in case withProtocol of
                Inl err \<Rightarrow> (Some err, s)
              | Inr s1 \<Rightarrow>
                  if rset_MessageType s1 \<in> {MessageTypeAll, MessageTypeUnacknowledged, MessageTypeReady} then (None, s1)
                  else if rset_MessageType s1 = [] then (None, s1\<lparr>rset_MessageType := DefaultMessageType\<rparr>)
                  else (Some (errNew (''unknown message type `'' @ rset_MessageType s1 @ ''`'')), s1)))"

definition GetStatusMetricName :: "RabbitSettings \<Rightarrow> string" where
  "GetStatusMetricName s =
     join_with statusMetricNameJoiner
       (RabbitPluginName #
        (if rset_MetricName s \<noteq> [] then [rset_MetricName s]
         else [rset_QueueName s, if rset_Mode s = ModeQueueLength then ''length'' else ''rate'']))"

subsection \<open>Requests\<close>

definition getInitMessagesAndPublishRate :: "int \<times> float64" where
  "getInitMessagesAndPublishRate = (- 1, Fin (- 1))"

definition vhostOf :: "RabbitSettings \<Rightarrow> Url \<Rightarrow> string" where
  "vhostOf s parsedURL =
     (let vhost = (case rset_VhostName s of None \<Rightarrow> url_Path parsedURL | Some v \<Rightarrow> ''/'' @ v)
      in if vhost = [] \<or> vhost = ''/'' \<or> vhost = ''//'' then ''/%2F/'' else vhost)"

definition selectMessages :: "RabbitSettings \<Rightarrow> queueInfo \<Rightarrow> int" where
  "selectMessages s info =
     (if rset_MessageType s = MessageTypeAll then qi_Messages info
      else if rset_MessageType s = MessageTypeReady then qi_MessageReady info
      else if rset_MessageType s = MessageTypeUnacknowledged then qi_MessagesUnacknowledged info
      else fst getInitMessagesAndPublishRate)"

definition StatusOK :: int where "StatusOK = 200"

definition requestViaHTTP :: "RabbitWorld \<Rightarrow> nat \<Rightarrow> RabbitSettings \<Rightarrow> Duration \<Rightarrow> (int \<times> float64) result exec" where
  "requestViaHTTP w occasion s timeout =
     (case rw_UrlParse w (rset_Host s) of
        Inl err \<Rightarrow> Ret (Inl err)
      | Inr parsedURL \<Rightarrow>
          (let vhost = vhostOf s parsedURL;
               endpoint = rw_UrlString w (parsedURL\<lparr>url_Path := []\<rparr>);
               finish = (\<lambda>info. Ret (Inr (selectMessages s info, qi_Rate info)))
           in if rset_UseRegex s then
                exec_bind
                  (Request (rw_Transport w occasion) (rw_Encode w)
                     (NewClient (NewRequester (JSONEncoding (\<lambda>_ :: unit. Inr []) (rw_UnmarshalInfos w)) timeout) endpoint)
                     ''GET'' ''api/queues''
                     [WithExpectedStatusCode StatusOK,
                      WithQuery [(''use_regex'', [''true'']), (''pagination'', [''false'']), (''name'', [rset_QueueName s])],
                      WithReceiver [] (Some (errNew ''invalid info list response body''))])
                  (\<lambda>(_, err, infos). case err of
                       Some e \<Rightarrow> Ret (Inl e)
                     | None \<Rightarrow>
                         (case getComposedQueue (rset_Operation s) (the infos) of
                            Inl e \<Rightarrow> Ret (Inl e)
                          | Inr info \<Rightarrow> finish info))
              else
                exec_bind
                  (Request (rw_Transport w occasion) (rw_Encode w)
                     (NewClient (NewRequester (JSONEncoding (\<lambda>_ :: unit. Inr []) (rw_UnmarshalInfo w)) timeout) endpoint)
                     ''GET'' (''api/queues'' @ vhost @ rset_QueueName s)
                     [WithExpectedStatusCode StatusOK,
                      WithReceiver zeroQueueInfo (Some (errNew ''invalid info response body''))])
                  (\<lambda>(_, err, info). case err of Some e \<Rightarrow> Ret (Inl e) | None \<Rightarrow> finish (the info))))"

definition defaultHeartbeat :: Duration where "defaultHeartbeat = 10 * Second"
definition defaultLocale :: string where "defaultLocale = ''en_US''"

definition requestViaChannel :: "RabbitWorld \<Rightarrow> nat \<Rightarrow> RabbitSettings \<Rightarrow> Duration \<Rightarrow> (int \<times> float64) result" where
  "requestViaChannel w occasion s timeout =
     (case rw_Dial w occasion (rset_Host s) timeout defaultHeartbeat defaultLocale of
        Some err \<Rightarrow> Inl err
      | None \<Rightarrow>
          (case rw_Channel w occasion of
             Some err \<Rightarrow> Inl err
           | None \<Rightarrow>
               (case rw_QueueInspect w occasion (rset_QueueName s) of
                  Inl err \<Rightarrow> Inl err
                | Inr messages \<Rightarrow> Inr (messages, Fin 0))))"

definition Rabbit_request :: "RabbitWorld \<Rightarrow> nat \<Rightarrow> RabbitSettings \<Rightarrow> Duration \<Rightarrow> float64 result exec" where
  "Rabbit_request w occasion s timeout =
     exec_bind (if rset_Protocol s = ProtocolHTTP then requestViaHTTP w occasion s timeout
                else Ret (requestViaChannel w occasion s timeout))
       (\<lambda>r. case r of
          Inl err \<Rightarrow> Ret (Inl err)
        | Inr (messages, publishRate) \<Rightarrow>
            Ret (Inr (if rset_Mode s = ModeQueueLength then f64_of_int messages else publishRate)))"

subsection \<open>The scaler\<close>

record RabbitConfig =
  rcfg_Toleration :: float64
  rcfg_DefaultTimeout :: Duration

definition Rabbit_Config_Validate :: "RabbitConfig \<Rightarrow> goerr option" where
  "Rabbit_Config_Validate c =
     (if f64_lt (rcfg_Toleration c) (Fin 0) then Some (errNew ''toleration must be non-negative'') else None)"

text \<open>(\<^verbatim>\<open>desiredReplicas\<close>, \<^verbatim>\<open>averageValue\<close>).\<close>

definition rabbitReplicas :: "(float64 \<Rightarrow> int) \<Rightarrow> float64 \<Rightarrow> float64 \<Rightarrow> int \<Rightarrow> float64 \<Rightarrow> int \<times> float64" where
  "rabbitReplicas oor toleration trigger currentReplicas metricValue =
     (if f64_eq metricValue (Fin 0) then (0, Fin 0)
      else if currentReplicas = 0 then
        let desiredReplicas = f64_to_int 32 oor (f64_ceil (f64_div metricValue trigger))
        in (desiredReplicas, if desiredReplicas \<noteq> 0 then f64_div metricValue (f64_of_int desiredReplicas) else Fin 0)
      else
        let averageValue = f64_div metricValue (f64_of_int currentReplicas);
            scaleRatio = f64_div averageValue trigger
        in (if f64_le (f64_mul toleration (Fin 100)) (f64_abs (f64_sub (Fin 100) (f64_mul scaleRatio (Fin 100))))
            then ceil_mul oor scaleRatio currentReplicas else 0, averageValue))"

definition Rabbit_Get :: "RabbitWorld \<Rightarrow> RabbitConfig \<Rightarrow> Scaler" where
  "Rabbit_Get w config occasion ctx status =
     (case LoadSettings (rw_Unmarshal w) ctx zeroRabbitSettings of
        Inl err \<Rightarrow> Ret (Inl err, status)
      | Inr loaded \<Rightarrow>
          (case Rabbit_Settings_Validate w loaded of
             (Some err, _) \<Rightarrow> Ret (Inl err, status)
           | (None, settings) \<Rightarrow>
               exec_bind (Rabbit_request w occasion settings
                            (case rset_Timeout settings of None \<Rightarrow> rcfg_DefaultTimeout config | Some t \<Rightarrow> t))
                 (\<lambda>r. case r of
                    Inl err \<Rightarrow> Ret (Inl err, status)
                  | Inr metricValue \<Rightarrow>
                      (let (desiredReplicas, averageValue) =
                             rabbitReplicas (rw_OutOfRange32 w) (rcfg_Toleration config) (rset_Value settings)
                               (sc_CurrentReplicas ctx) metricValue;
                           name = GetStatusMetricName settings
                       in Ret (Inr \<lparr>so_DesiredReplicas = desiredReplicas, so_ManagedTargetStatus = [name]\<rparr>,
                               SetTargetStatus status
                                 \<lparr>ts_Target = name, ts_Scaler = RabbitPluginName, ts_DesiredReplicas = desiredReplicas,
                                  ts_Metric = \<lparr>mt_Type = AverageValueMetricType, mt_Value = None,
                                    mt_AverageValue =
                                      Some \<lparr>q_value = f64_to_int 64 (rw_OutOfRange64 w) (f64_mul averageValue (Fin 1000)),
                                            q_scale = - 3\<rparr>,
                                    mt_AverageUtilization = None\<rparr>\<rparr>)))))"

definition rabbitmq_setup ::
  "RabbitWorld \<Rightarrow> ('y \<Rightarrow> RabbitConfig \<Rightarrow> RabbitConfig \<times> goerr option) \<Rightarrow>
   ('r, 'y, 'm) engineProvisioner \<Rightarrow> goerr option \<times> ('r, 'y, 'm) engineProvisioner" where
  "rabbitmq_setup w decode c =
     (case requireConfig decode Rabbit_Config_Validate c RabbitPluginName \<lparr>rcfg_Toleration = Fin 0, rcfg_DefaultTimeout = 0\<rparr> of
        Inl err \<Rightarrow> (Some err, c)
      | Inr config \<Rightarrow> (None, AddScaler RabbitPluginName (Rabbit_Get w config) c))"

subsection \<open>Validation in any order\<close>

lemma firstHit_None_iff: "firstHit xs = None \<longleftrightarrow> (\<forall>(text, hit) \<in> set xs. \<not> hit)"
  by (induction xs rule: firstHit.induct) auto

lemma firstHit_order: "mset ys = mset xs \<Longrightarrow> firstHit ys = None \<longleftrightarrow> firstHit xs = None"
  unfolding firstHit_None_iff by (metis mset_eq_setD)

lemma checks_pass:
  "firstHit (checks w s) = None \<longleftrightarrow>
     (rset_Mode s = ModeMessageRate \<or> rset_Mode s = ModeQueueLength) \<and> \<not> f64_le (rset_Value s) (Fin 0) \<and>
     (\<exists>u. rw_UrlParse w (rset_Host s) = Inr u) \<and> (\<forall>t. rset_Timeout s = Some t \<longrightarrow> 0 \<le> t) \<and> rset_QueueName s \<noteq> [] \<and>
     (rset_UseRegex s \<longrightarrow> rset_Operation s \<in> {OperationSum, OperationAvg, OperationMax})"
  unfolding firstHit_None_iff checks_def
  by (cases "rw_UrlParse w (rset_Host s)"; cases "rset_Timeout s") (auto simp: not_less)

subsection \<open>Composed queues\<close>

lemma sumLoop_closed:
  "\<exists>rate'. sumLoop q (wrap64 a, wrap64 b, wrap64 c, rate) =
     (wrap64 (a + sum_list (map qi_Messages q)), wrap64 (b + sum_list (map qi_MessageReady q)),
      wrap64 (c + sum_list (map qi_MessagesUnacknowledged q)), rate')"
proof (induction q arbitrary: a b c rate)
  case (Cons v q)
  then show ?case
    using Cons.IH [of "a + qi_Messages v" "b + qi_MessageReady v" "c + qi_MessagesUnacknowledged v" "f64_add rate (qi_Rate v)"]
    by (simp add: wrap_add_left add.assoc)
qed simp

lemma getSum_closed:
  "\<exists>rate. getSum q = (wrap64 (sum_list (map qi_Messages q)), wrap64 (sum_list (map qi_MessageReady q)),
      wrap64 (sum_list (map qi_MessagesUnacknowledged q)), rate)"
  using sumLoop_closed [of q 0 0 0 "Fin 0"] by (simp add: getSum_def wrap_def)

lemma maxLoop_closed:
  "\<exists>rate'. maxLoop q (a, b, c, rate) =
     (fold max (map qi_Messages q) a, fold max (map qi_MessageReady q) b, fold max (map qi_MessagesUnacknowledged q) c, rate')"
proof (induction q arbitrary: a b c rate)
  case (Cons v q)
  have m: "(if x < y then y else x) = max y x" for x y :: int by auto
  show ?case using Cons.IH unfolding maxLoop.simps m by simp
qed simp

lemma fold_max_Max: "xs \<noteq> [] \<Longrightarrow> \<forall>x\<in>set xs. a \<le> x \<Longrightarrow> fold max xs a = Max (set xs)" for a :: int
proof -
  assume "xs \<noteq> []" and le: "\<forall>x\<in>set xs. a \<le> x"
  then obtain x where "x \<in> set xs" by (cases xs) auto
  with le have "a \<le> Max (set xs)" by (meson List.finite_set Max_ge order_trans)
  moreover have "fold max xs a = Max (insert a (set xs))" by (simp add: Max.set_eq_fold [symmetric])
  ultimately show ?thesis using \<open>xs \<noteq> []\<close> by (simp add: Max.insert_remove Max_insert max_absorb2)
qed

text \<open>The three counters of a queue.\<close>

definition counters :: "(queueInfo \<Rightarrow> int) list" where
  "counters = [qi_Messages, qi_MessageReady, qi_MessagesUnacknowledged]"

definition composedCount :: "string \<Rightarrow> int list \<Rightarrow> int" where
  "composedCount operation ns =
     (if operation = OperationSum then sum_list ns
      else if operation = OperationAvg then sum_list ns div int (length ns) else Max (set ns))"

lemma average_in_range: "0 \<le> n \<Longrightarrow> n < 2 ^ 63 \<Longrightarrow> 0 < k \<Longrightarrow> wrap64 (go_quot n k) = n div k"
proof -
  assume n: "0 \<le> n" "n < 2 ^ 63" "0 < k"
  then have "0 \<le> n div k" "n div k \<le> n" using zdiv_mono2 [of n 1 k] by (simp_all add: pos_imp_zdiv_nonneg_iff)
  then have "wrap64 (n div k) = n div k" using n by (intro wrap_id) (simp_all add: in_range_def)
  then show ?thesis using n by (simp add: go_quot_nonneg)
qed

lemma composed_counts:
  assumes "q \<noteq> []" "operation \<in> {OperationSum, OperationAvg, OperationMax}"
    and "\<And>f v. f \<in> set counters \<Longrightarrow> v \<in> set q \<Longrightarrow> 0 \<le> f v" "\<And>f. f \<in> set counters \<Longrightarrow> sum_list (map f q) < 2 ^ 63"
  obtains info where "getComposedQueue operation q = Inr info"
    "\<And>f. f \<in> set counters \<Longrightarrow> f info = composedCount operation (map f q)"
proof -
  have sum: "0 \<le> sum_list (map f q)" "wrap64 (sum_list (map f q)) = sum_list (map f q)" if "f \<in> set counters" for f
  proof -
    show "0 \<le> sum_list (map f q)" using assms(3) [OF that] by (auto intro!: sum_list_nonneg)
    then show "wrap64 (sum_list (map f q)) = sum_list (map f q)"
      using assms(4) [OF that] by (intro wrap_id) (simp_all add: in_range_def)
  qed
  note c = sum [unfolded counters_def]
  obtain rate where s: "getSum q = (sum_list (map qi_Messages q), sum_list (map qi_MessageReady q),
      sum_list (map qi_MessagesUnacknowledged q), rate)" using getSum_closed [of q] c by auto
  obtain rate' where m: "getMaximum q = (fold max (map qi_Messages q) 0, fold max (map qi_MessageReady q) 0,
      fold max (map qi_MessagesUnacknowledged q) 0, rate')" using maxLoop_closed [of q 0 0 0 "Fin 0"] by (auto simp: getMaximum_def)
  have mx: "fold max (map f q) 0 = Max (f ` set q)" if "f \<in> set counters" for f
    using fold_max_Max [of "map f q" 0] assms(1) assms(3) [OF that] by simp
  have av: "wrap64 (go_quot (sum_list (map f q)) (int (length q))) = sum_list (map f q) div int (length q)"
    if "f \<in> set counters" for f using average_in_range sum(1) [OF that] assms(4) [OF that] assms(1) by simp
  note av' = av [unfolded counters_def] and mx' = mx [unfolded counters_def]
  have "\<exists>info. getComposedQueue operation q = Inr info \<and>
      (\<forall>f \<in> set counters. f info = composedCount operation (map f q))"
    using assms(1,2) by (auto simp: getComposedQueue_def s m getAverage_def counters_def composedCount_def Let_def av' mx')
  then show thesis using that by blast
qed

subsection \<open>The scaler meets its contract\<close>

definition rabbitStatus :: "string \<Rightarrow> int \<Rightarrow> int \<Rightarrow> TargetStatus" where
  "rabbitStatus name n milli =
     \<lparr>ts_Target = name, ts_Scaler = RabbitPluginName, ts_DesiredReplicas = n,
      ts_Metric = \<lparr>mt_Type = AverageValueMetricType, mt_Value = None,
                   mt_AverageValue = Some \<lparr>q_value = milli, q_scale = - 3\<rparr>, mt_AverageUtilization = None\<rparr>\<rparr>"

lemma Rabbit_Get_requested:
  assumes "LoadSettings (rw_Unmarshal w) ctx zeroRabbitSettings = Inr loaded"
    and "Rabbit_Settings_Validate w loaded = (None, settings)"
    and "Rabbit_request w i settings (case rset_Timeout settings of None \<Rightarrow> rcfg_DefaultTimeout config | Some t \<Rightarrow> t) = Ret (Inr v)"
  shows "\<exists>milli. Rabbit_Get w config i ctx st =
     Ret (Inr \<lparr>so_DesiredReplicas = fst (rabbitReplicas (rw_OutOfRange32 w) (rcfg_Toleration config) (rset_Value settings)
                  (sc_CurrentReplicas ctx) v), so_ManagedTargetStatus = [GetStatusMetricName settings]\<rparr>,
          SetTargetStatus st (rabbitStatus (GetStatusMetricName settings)
            (fst (rabbitReplicas (rw_OutOfRange32 w) (rcfg_Toleration config) (rset_Value settings) (sc_CurrentReplicas ctx) v))
            milli))"
  using assms by (auto simp: Rabbit_Get_def rabbitStatus_def Let_def split: prod.splits)

lemma Rabbit_Get_cases:
  "(\<exists>m. Rabbit_Get w config i ctx st = Panic m) \<or> (\<exists>err. Rabbit_Get w config i ctx st = Ret (Inl err, st)) \<or>
   (\<exists>name n milli. Rabbit_Get w config i ctx st =
      Ret (Inr \<lparr>so_DesiredReplicas = n, so_ManagedTargetStatus = [name]\<rparr>, SetTargetStatus st (rabbitStatus name n milli)))"
proof (cases "LoadSettings (rw_Unmarshal w) ctx zeroRabbitSettings")
  case (Inr loaded)
  obtain e settings where v: "Rabbit_Settings_Validate w loaded = (e, settings)" by fastforce
  show ?thesis
  proof (cases e)
    case None
    let ?t = "case rset_Timeout settings of None \<Rightarrow> rcfg_DefaultTimeout config | Some t \<Rightarrow> t"
    show ?thesis
    proof (cases "Rabbit_request w i settings ?t")
      case (Ret r)
      show ?thesis
      proof (cases r)
        case r: (Inr x)
        show ?thesis using Rabbit_Get_requested [OF Inr v [unfolded None] Ret [unfolded r], of st] by blast
      qed (simp add: Rabbit_Get_def Inr v None Ret)
    qed (simp add: Rabbit_Get_def Inr v None)
  qed (simp add: Rabbit_Get_def Inr v)
qed (simp add: Rabbit_Get_def)

interpretation rabbit_scaler: scaler_contract "Rabbit_Get w config" for w config
proof (rule scaler_contractI)
  fix i ctx st
  show "(\<exists>m. Rabbit_Get w config i ctx st = Panic m) \<or> (\<exists>err. Rabbit_Get w config i ctx st = Ret (Inl err, st)) \<or>
      (\<exists>out. Rabbit_Get w config i ctx st = Ret (Inr out, st)) \<or>
      (\<exists>out t. ts_Target t \<in> set (so_ManagedTargetStatus out) \<and>
        Rabbit_Get w config i ctx st = Ret (Inr out, SetTargetStatus st t))"
    using Rabbit_Get_cases [of w config i ctx st] by (force simp: rabbitStatus_def)
qed

subsection \<open>Sample world\<close>

definition sampleRabbitSettings :: RabbitSettings where
  "sampleRabbitSettings = \<lparr>rset_Mode = ModeQueueLength, rset_Value = Fin 10, rset_Host = ''amqp://mq'', rset_Protocol = [],
     rset_Timeout = None, rset_QueueName = ''jobs'', rset_VhostName = None, rset_MessageType = [], rset_UseRegex = False,
     rset_Operation = [], rset_MetricName = []\<rparr>"

definition sampleRabbitWorld :: "int \<Rightarrow> RabbitWorld" where
  "sampleRabbitWorld n =
     \<lparr>rw_Unmarshal = (\<lambda>_ _. (sampleRabbitSettings, None)),
      rw_UrlParse = (\<lambda>_. Inr \<lparr>url_Scheme = ''amqp'', url_Path = [], url_Rest = []\<rparr>), rw_UrlString = url_Rest,
      rw_Encode = (\<lambda>_. []), rw_UnmarshalInfo = (\<lambda>_ i. (i, None)), rw_UnmarshalInfos = (\<lambda>_ i. (i, None)),
      rw_Transport = (\<lambda>_ _ _. (Some \<lparr>resp_StatusCode = 200, resp_Body = []\<rparr>, None)), rw_Dial = (\<lambda>_ _ _ _ _. None),
      rw_Channel = (\<lambda>_. None), rw_QueueInspect = (\<lambda>_ _. Inr n), rw_OutOfRange32 = (\<lambda>_. 0), rw_OutOfRange64 = (\<lambda>_. 0),
      rw_MapOrder = rev\<rparr>"

definition sampleRabbitCtx :: "int \<Rightarrow> ScalerContext" where
  "sampleRabbitCtx c = \<lparr>sc_PodLister = (\<lambda>_ _. Inr []), sc_RawSettings = ''{}'',
     sc_ScaleTargetRef = \<lparr>ref_Kind = [], ref_Name = [], ref_APIVersion = []\<rparr>, sc_Namespace = ''prod'',
     sc_ScaledObjectSelector = [], sc_CurrentReplicas = c\<rparr>"

lemma sampleRabbit_load: "LoadSettings (rw_Unmarshal (sampleRabbitWorld n)) ctx zeroRabbitSettings = Inr sampleRabbitSettings"
  by (simp add: LoadSettings_def sampleRabbitWorld_def)

lemma sampleRabbit_valid:
  "Rabbit_Settings_Validate (sampleRabbitWorld n) sampleRabbitSettings =
     (None, sampleRabbitSettings\<lparr>rset_Protocol := ProtocolAMQP, rset_MessageType := MessageTypeAll\<rparr>)"
proof -
  have "firstHit (checks (sampleRabbitWorld n) sampleRabbitSettings) = None"
    unfolding checks_pass by (simp add: sampleRabbitWorld_def sampleRabbitSettings_def)
  then have "firstHit (rw_MapOrder (sampleRabbitWorld n) (checks (sampleRabbitWorld n) sampleRabbitSettings)) = None"
    using firstHit_order [of "rev (checks (sampleRabbitWorld n) sampleRabbitSettings)"] by (simp add: sampleRabbitWorld_def)
  then show ?thesis unfolding Rabbit_Settings_Validate_def
    by (simp add: sampleRabbitSettings_def sampleRabbitWorld_def protocolOf_def rabbit_constants)
qed

lemma sampleRabbit_request:
  "Rabbit_request (sampleRabbitWorld n) i (sampleRabbitSettings\<lparr>rset_Protocol := ProtocolAMQP, rset_MessageType := MessageTypeAll\<rparr>) t =
     Ret (Inr (f64_of_int n))"
  by (simp add: Rabbit_request_def requestViaChannel_def sampleRabbitWorld_def sampleRabbitSettings_def rabbit_constants)

subsection \<open>Properties\<close>

text \<open>
  Validation does not depend on the order in which Go visits the map of checks: settings are accepted
  exactly when the mode, value, host, timeout, queue name, regex operation, scheme (unless a protocol is given)
  and message type are all valid; accepted settings have a protocol and one of the three message types, and
  nothing else of them has changed.
\<close>

theorem rabbitmq_validate_any_order:
  assumes "\<And>xs. mset (rw_MapOrder w xs) = mset xs" and "Rabbit_Settings_Validate w s = (err, s')"
  shows "(err = None \<longleftrightarrow>
      (rset_Mode s = ModeMessageRate \<or> rset_Mode s = ModeQueueLength) \<and> \<not> f64_le (rset_Value s) (Fin 0) \<and>
      (\<exists>u. rw_UrlParse w (rset_Host s) = Inr u \<and> (rset_Protocol s = [] \<longrightarrow> protocolOf u \<noteq> None)) \<and>
      (\<forall>t. rset_Timeout s = Some t \<longrightarrow> 0 \<le> t) \<and> rset_QueueName s \<noteq> [] \<and>
      (rset_UseRegex s \<longrightarrow> rset_Operation s \<in> {OperationSum, OperationAvg, OperationMax}) \<and>
      rset_MessageType s \<in> {[], MessageTypeAll, MessageTypeUnacknowledged, MessageTypeReady}) \<and>
    (err = None \<longrightarrow> rset_Protocol s' \<noteq> [] \<and>
      rset_MessageType s' \<in> {MessageTypeAll, MessageTypeUnacknowledged, MessageTypeReady} \<and>
      s' = s\<lparr>rset_Protocol := rset_Protocol s', rset_MessageType := rset_MessageType s'\<rparr>)"
proof (cases "firstHit (checks w s)")
  case (Some e)
  then obtain e' where "firstHit (rw_MapOrder w (checks w s)) = Some e'" using firstHit_order [OF assms(1)] by fastforce
  with assms(2) have "err = Some e'" by (simp add: Rabbit_Settings_Validate_def)
  moreover have "firstHit (checks w s) \<noteq> None" using Some by simp
  ultimately show ?thesis unfolding checks_pass by auto
next
  case None
  then have hit: "firstHit (rw_MapOrder w (checks w s)) = None" using firstHit_order [OF assms(1)] by simp
  from None obtain u where u: "rw_UrlParse w (rset_Host s) = Inr u" unfolding checks_pass by blast
  have p: "protocolOf u = Some p \<Longrightarrow> p \<noteq> []" for p by (auto simp: protocolOf_def rabbit_constants split: if_splits)
  show ?thesis using assms(2) None [unfolded checks_pass] p unfolding Rabbit_Settings_Validate_def hit
    by (auto simp: u DefaultMessageType_def Let_def split: if_splits option.splits)
qed

theorem rabbitmq_validate_any_order_witness:
  "Rabbit_Settings_Validate (sampleRabbitWorld 5) sampleRabbitSettings =
     (None, sampleRabbitSettings\<lparr>rset_Protocol := ProtocolAMQP, rset_MessageType := MessageTypeAll\<rparr>) \<and>
   rset_QueueName sampleRabbitSettings \<noteq> []"
  using rabbitmq_validate_any_order [OF _ sampleRabbit_valid [of 5]] sampleRabbit_valid [of 5]
  by (simp add: sampleRabbitWorld_def sampleRabbitSettings_def)

text \<open>
  Several queues matched by a regular expression are composed field by field: for non-negative counters
  whose sums fit 64 bits, each counter of the result is the sum, the integer average or the maximum of that
  counter over the queues, by the operation; no queue gives zero counters whatever the operation.
\<close>

theorem rabbitmq_composed_queue:
  assumes "operation \<in> {OperationSum, OperationAvg, OperationMax}"
    and "\<forall>f\<in>set counters. (\<forall>v\<in>set q. 0 \<le> f v) \<and> sum_list (map f q) < 2 ^ 63"
  shows "\<exists>info. getComposedQueue operation q = Inr info \<and>
    (\<forall>f\<in>set counters. f info =
       (if q = [] then 0
        else if operation = OperationSum then sum_list (map f q)
        else if operation = OperationAvg then sum_list (map f q) div int (length q)
        else Max (f ` set q)))"
proof (cases "q = []")
  case True
  then show ?thesis by (simp add: getComposedQueue_def counters_def zeroQueueInfo_def)
next
  case False
  from composed_counts [OF this assms(1)] assms(2) obtain info where "getComposedQueue operation q = Inr info"
    "\<And>f. f \<in> set counters \<Longrightarrow> f info = composedCount operation (map f q)" by metis
  with False show ?thesis by (auto simp: composedCount_def)
qed

theorem rabbitmq_composed_queue_witness:
  defines "v n \<equiv> zeroQueueInfo\<lparr>qi_Messages := n\<rparr>"
  shows "\<exists>info. getComposedQueue OperationAvg [v 3, v 4] = Inr info \<and> qi_Messages info = 3"
  using rabbitmq_composed_queue [of OperationAvg "[v 3, v 4]"]
  by (auto simp: counters_def v_def zeroQueueInfo_def rabbit_constants)

text \<open>
  (C38) A change within the toleration asks for zero replicas: when messages are waiting, replicas are running
  and the load per replica is within the toleration of its trigger value, the scaler's desired count is zero,
  not the current count.
\<close>

theorem rabbitmq_zero_within_toleration:
  assumes "LoadSettings (rw_Unmarshal w) ctx zeroRabbitSettings = Inr loaded"
    and "Rabbit_Settings_Validate w loaded = (None, settings)"
    and "Rabbit_request w i settings (case rset_Timeout settings of None \<Rightarrow> rcfg_DefaultTimeout config | Some t \<Rightarrow> t) = Ret (Inr v)"
    and "sc_CurrentReplicas ctx \<noteq> 0"
    and "\<not> f64_le (f64_mul (rcfg_Toleration config) (Fin 100))
            (f64_abs (f64_sub (Fin 100) (f64_mul (f64_div (f64_div v (f64_of_int (sc_CurrentReplicas ctx))) (rset_Value settings)) (Fin 100))))"
  shows "\<exists>out st'. Rabbit_Get w config i ctx st = Ret (Inr out, st') \<and> so_DesiredReplicas out = 0"
  using Rabbit_Get_requested [OF assms(1-3), of st] assms(4,5) by (auto simp: rabbitReplicas_def Let_def)

theorem rabbitmq_zero_within_toleration_witness:
  "\<exists>out st'. Rabbit_Get (sampleRabbitWorld 20) \<lparr>rcfg_Toleration = Fin 1, rcfg_DefaultTimeout = 0\<rparr> 0 (sampleRabbitCtx 2) zeroStatus =
     Ret (Inr out, st') \<and> so_DesiredReplicas out = 0"
proof -
  have "f64_div (f64_div (f64_of_int 20) (f64_of_int 2)) (Fin 10) = Fin 1"
    using round64_int [of 10] round64_int [of 1] by (simp add: f64_of_int_small)
  moreover have "f64_mul (Fin 1) (Fin 100) = Fin 100" "f64_sub (Fin 100) (Fin 100) = Fin 0"
    using round64_int [of 100] round64_int [of 0] by (simp_all add: f64_sub_def)
  ultimately show ?thesis
    using rabbitmq_zero_within_toleration [where ctx = "sampleRabbitCtx 2" and i = 0 and st = zeroStatus and
        config = "\<lparr>rcfg_Toleration = Fin 1, rcfg_DefaultTimeout = 0\<rparr>",
        OF sampleRabbit_load sampleRabbit_valid sampleRabbit_request, of 20]
    by (simp add: sampleRabbitCtx_def sampleRabbitSettings_def)
qed

text \<open>
  Queues are confused over HTTP: no separator is put between a virtual host and the queue name, so two
  settings whose virtual host and queue name read the same when written one after the other send the same
  request and get the same answer, although they name different queues.
\<close>

theorem rabbitmq_queue_confusion:
  assumes "v1 @ q1 = v2 @ q2" and "v1 \<notin> {[], ''/''}" and "v2 \<notin> {[], ''/''}" and "\<not> rset_UseRegex s"
  shows "requestViaHTTP w i (s\<lparr>rset_VhostName := Some v1, rset_QueueName := q1\<rparr>) timeout =
         requestViaHTTP w i (s\<lparr>rset_VhostName := Some v2, rset_QueueName := q2\<rparr>) timeout"
proof -
  have vh: "vhostOf (s\<lparr>rset_VhostName := Some v, rset_QueueName := q\<rparr>) u = ''/'' @ v" if "v \<notin> {[], ''/''}" for v q u
    using that by (simp add: vhostOf_def)
  have path: "''api/queues'' @ (''/'' @ v1) @ q1 = ''api/queues'' @ (''/'' @ v2) @ q2" using assms(1) by simp
  have sel: "selectMessages (s\<lparr>rset_VhostName := Some v, rset_QueueName := q\<rparr>) = selectMessages s" for v q
    by (rule ext) (simp add: selectMessages_def)
  show ?thesis
    unfolding requestViaHTTP_def Let_def vh [OF assms(2)] vh [OF assms(3)] sel using assms(4) path
    by (cases "rw_UrlParse w (rset_Host s)") simp_all
qed

theorem rabbitmq_queue_confusion_witness:
  "requestViaHTTP (sampleRabbitWorld 5) 0 (sampleRabbitSettings\<lparr>rset_VhostName := Some ''a'', rset_QueueName := ''bc''\<rparr>) 0 =
   requestViaHTTP (sampleRabbitWorld 5) 0 (sampleRabbitSettings\<lparr>rset_VhostName := Some ''ab'', rset_QueueName := ''c''\<rparr>) 0"
  using rabbitmq_queue_confusion [of "''a''" "''bc''" "''ab''" "''c''" sampleRabbitSettings "sampleRabbitWorld 5" 0 0]
  by (simp add: sampleRabbitSettings_def)

end
