(* ===== verification/Plugins.thy ===== *)
theory Plugins
  imports Controller_Loop Podresource Prometheus_Scaler Rabbitmq_Scaler
begin

text \<open>
  The plugins of the program put together: the \<^verbatim>\<open>init\<close> functions that enter them into the registry
  (\<^verbatim>\<open>core/engine/plugin/pluginz.go\<close> imports their packages), and the engine that
  \<^verbatim>\<open>engine.New\<close> builds from them (\<^verbatim>\<open>core/engine/engine.go\<close>).

  Shown: registration at start-up does not panic; the engine starts exactly when every plugin named in
  \<^verbatim>\<open>pluginz.go\<close> has a configuration that decodes and validates; the engine then has the default replicator
  and exactly the three scalers; these meet the assumptions of the controller's theorems, so that the whole
  program never panics.
\<close>

subsection \<open>Registration\<close>

text \<open>The YAML decoders for the plugin configurations, which are outside the repository.\<close>

record 'y Decoders =
  dec_simple :: "'y \<Rightarrow> SimpleConfig \<Rightarrow> SimpleConfig \<times> goerr option"
  dec_pod :: "'y \<Rightarrow> PodConfig \<Rightarrow> PodConfig \<times> goerr option"
  dec_prometheus :: "'y \<Rightarrow> PromConfig \<Rightarrow> PromConfig \<times> goerr option"

type_synonym 'y Provisioner = "(replicator, 'y, MetricsClient) engineProvisioner"

definition simple_init :: "'y Decoders \<Rightarrow> string \<times> 'y Provisioner Plugin" where
  "simple_init d = (''simple'', \<lparr>pl_Endpoint = PluginEndpointReplicator, pl_SetupFunc = Simple_setup (dec_simple d)\<rparr>)"

definition cpu_init :: "PodWorld \<Rightarrow> 'y Decoders \<Rightarrow> string \<times> 'y Provisioner Plugin" where
  "cpu_init pw d = (''cpu'', \<lparr>pl_Endpoint = PluginEndpointScaler, pl_SetupFunc = cpu_setup pw (dec_pod d)\<rparr>)"

definition memory_init :: "PodWorld \<Rightarrow> 'y Decoders \<Rightarrow> string \<times> 'y Provisioner Plugin" where
  "memory_init pw d = (''memory'', \<lparr>pl_Endpoint = PluginEndpointScaler, pl_SetupFunc = memory_setup pw (dec_pod d)\<rparr>)"

definition prometheus_init :: "PromWorld \<Rightarrow> 'y Decoders \<Rightarrow> string \<times> 'y Provisioner Plugin" where
  "prometheus_init prw d =
     (''prometheus'', \<lparr>pl_Endpoint = PluginEndpointScaler, pl_SetupFunc = prometheus_setup prw (dec_prometheus d)\<rparr>)"

definition rabbitmq_init ::
  "RabbitWorld \<Rightarrow> ('y \<Rightarrow> RabbitConfig \<Rightarrow> RabbitConfig \<times> goerr option) \<Rightarrow> string \<times> 'y Provisioner Plugin" where
  "rabbitmq_init rw decode =
     (RabbitPluginName, \<lparr>pl_Endpoint = PluginEndpointScaler, pl_SetupFunc = rabbitmq_setup rw decode\<rparr>)"

text \<open>The packages the program imports, in the order of the import list.\<close>

definition importedPlugins :: "PodWorld \<Rightarrow> PromWorld \<Rightarrow> 'y Decoders \<Rightarrow> (string \<times> 'y Provisioner Plugin) list" where
  "importedPlugins pw prw d = [simple_init d, cpu_init pw d, memory_init pw d, prometheus_init prw d]"

lemmas init_defs = simple_init_def cpu_init_def memory_init_def prometheus_init_def PluginEndpointScaler_def
  PluginEndpointReplicator_def

lemma registered:
  obtains reg where "registerAll (importedPlugins pw prw d) fmempty = Ret reg"
    "GetPlugin reg PluginEndpointReplicator ''simple'' = Some (snd (simple_init d))"
    "GetPlugin reg PluginEndpointScaler ''cpu'' = Some (snd (cpu_init pw d))"
    "GetPlugin reg PluginEndpointScaler ''memory'' = Some (snd (memory_init pw d))"
    "GetPlugin reg PluginEndpointScaler ''prometheus'' = Some (snd (prometheus_init prw d))"
proof -
  have "\<forall>np\<in>set (importedPlugins pw prw d). fst np \<noteq> [] \<and> lookupPlugin fmempty (pluginKey np) = None"
    "distinct (map pluginKey (importedPlugins pw prw d))"
    by (simp_all add: importedPlugins_def init_defs pluginKey_def)
  from registerAll_ok [OF this, unfolded GetPlugin_fmempty] obtain reg where reg: "registerAll (importedPlugins pw prw d) fmempty = Ret reg"
    and l: "\<And>k. lookupPlugin reg k = (case find (\<lambda>np. pluginKey np = k) (importedPlugins pw prw d) of
              Some np \<Rightarrow> Some (snd np) | None \<Rightarrow> None)" by auto
  show thesis
  proof (rule that [OF reg])
    show "GetPlugin reg PluginEndpointReplicator ''simple'' = Some (snd (simple_init d))"
      using l [of "(PluginEndpointReplicator, ''simple'')"] by (simp add: importedPlugins_def init_defs pluginKey_def)
    show "GetPlugin reg PluginEndpointScaler ''cpu'' = Some (snd (cpu_init pw d))"
      using l [of "(PluginEndpointScaler, ''cpu'')"] by (simp add: importedPlugins_def init_defs pluginKey_def)
    show "GetPlugin reg PluginEndpointScaler ''memory'' = Some (snd (memory_init pw d))"
      using l [of "(PluginEndpointScaler, ''memory'')"] by (simp add: importedPlugins_def init_defs pluginKey_def)
    show "GetPlugin reg PluginEndpointScaler ''prometheus'' = Some (snd (prometheus_init prw d))"
      using l [of "(PluginEndpointScaler, ''prometheus'')"] by (simp add: importedPlugins_def init_defs pluginKey_def)
  qed
qed

subsection \<open>Setting up\<close>

text \<open>A usable configuration of a plugin.\<close>

definition configured :: "('y \<Rightarrow> 'c \<Rightarrow> 'c \<times> goerr option) \<Rightarrow> ('c \<Rightarrow> goerr option) \<Rightarrow> 'c \<Rightarrow> (string, 'y) fmap \<Rightarrow> string \<Rightarrow> 'c \<Rightarrow> bool" where
  "configured decode Validate initial configs name config \<longleftrightarrow>
     (\<exists>raw. fmlookup configs name = Some raw \<and> decode raw initial = (config, None) \<and> Validate config = None)"

lemma configured_unique: "configured d v i cs n c \<Longrightarrow> configured d v i cs n c' \<Longrightarrow> c' = c"
  by (auto simp: configured_def)

lemma requireConfig_configured:
  "requireConfig decode Validate c name initial = Inr config \<longleftrightarrow>
     configured decode Validate initial (ep_pluginConfigs c) name config"
  unfolding requireConfig_Inr_iff configured_def ..

lemma Simple_setup_None:
  "Simple_setup decode c = (None, c') \<longleftrightarrow>
     (\<exists>config. configured decode Simple_Validate Simple_NewDefaultConfig (ep_pluginConfigs c) ''simple'' config \<and>
        c' = AddReplicator ''simple'' \<lparr>r_config = config, historicalRecommendation = fmempty\<rparr> c)"
  unfolding Simple_setup_def requireConfig_configured [symmetric] by (auto split: sum.splits)

lemma Pod_setup_None:
  "Pod_setup pw decode name resource c = (None, c') \<longleftrightarrow>
     (\<exists>config. configured decode Pod_Validate Pod_NewDefaultConfig (ep_pluginConfigs c) name config \<and>
        c' = AddScaler name (Pod_Get pw \<lparr>ps_Client = ep_metricsClient c, ps_Resource = resource, ps_Config = config,
                                         ps_PluginName = name\<rparr>) c)"
proof -
  have "Pod_Validate config = None" if "requireConfig decode Pod_Validate c name Pod_NewDefaultConfig = Inr config" for config
    using that unfolding requireConfig_Inr_iff by blast
  then show ?thesis unfolding Pod_setup_def requireConfig_configured [symmetric]
    by (auto simp: Pod_New_def split: sum.splits)
qed

lemma prometheus_setup_None:
  "prometheus_setup prw decode c = (None, c') \<longleftrightarrow>
     (\<exists>config. configured decode Prom_Config_Validate Prom_NewDefaultConfig (ep_pluginConfigs c) ''prometheus'' config \<and>
        c' = AddScaler ''prometheus'' (Prom_Get prw \<lparr>prs_PluginName = ''prometheus'', prs_Config = config,
               prs_QueryClient = NewQueryClient (pcfg_DefaultTimeout config)\<rparr>) c)"
proof -
  have "Prom_Config_Validate config = None"
    if "requireConfig decode Prom_Config_Validate c ''prometheus'' Prom_NewDefaultConfig = Inr config" for config
    using that unfolding requireConfig_Inr_iff by blast
  then show ?thesis unfolding prometheus_setup_def requireConfig_configured [symmetric]
    by (auto simp: Prom_New_def split: sum.splits)
qed

lemma loadLoop_None_Cons:
  "loadLoop reg endpoint (n # ns) e = (None, e') \<longleftrightarrow>
     (\<exists>p e1. GetPlugin reg endpoint n = Some p \<and> pl_SetupFunc p e = (None, e1) \<and> loadLoop reg endpoint ns e1 = (None, e'))"
  by (auto split: option.splits prod.splits)

lemma loadPlugins_None:
  "loadPlugins reg e = (None, e') \<longleftrightarrow>
     (\<exists>e1. loadLoop reg PluginEndpointReplicator Replicators e = (None, e1) \<and>
           loadLoop reg PluginEndpointScaler Scalers e1 = (None, e'))"
  by (auto simp: loadPlugins_def split: prod.splits option.splits)

text \<open>The engine for given configurations.\<close>

definition engineOf ::
  "PodWorld \<Rightarrow> PromWorld \<Rightarrow> MetricsClient \<Rightarrow> (string, 'y) fmap \<Rightarrow> SimpleConfig \<Rightarrow> PodConfig \<Rightarrow> PodConfig \<Rightarrow> PromConfig \<Rightarrow> 'y Provisioner" where
  "engineOf pw prw mc configs simple cpu memory prom =
     AddScaler ''prometheus'' (Prom_Get prw \<lparr>prs_PluginName = ''prometheus'', prs_Config = prom,
         prs_QueryClient = NewQueryClient (pcfg_DefaultTimeout prom)\<rparr>)
       (AddScaler ''memory'' (Pod_Get pw \<lparr>ps_Client = mc, ps_Resource = ''memory'', ps_Config = memory, ps_PluginName = ''memory''\<rparr>)
         (AddScaler ''cpu'' (Pod_Get pw \<lparr>ps_Client = mc, ps_Resource = ''cpu'', ps_Config = cpu, ps_PluginName = ''cpu''\<rparr>)
           (AddReplicator ''simple'' \<lparr>r_config = simple, historicalRecommendation = fmempty\<rparr>
             (newEngineProvisioner mc configs))))"

lemma Engine_New_iff:
  assumes "registerAll (importedPlugins pw prw d) fmempty = Ret reg"
  shows "Engine_New synced reg mc configs = Some (Inr e) \<longleftrightarrow> synced \<and>
     (\<exists>simple cpu memory prom.
        configured (dec_simple d) Simple_Validate Simple_NewDefaultConfig configs ''simple'' simple \<and>
        configured (dec_pod d) Pod_Validate Pod_NewDefaultConfig configs ''cpu'' cpu \<and>
        configured (dec_pod d) Pod_Validate Pod_NewDefaultConfig configs ''memory'' memory \<and>
        configured (dec_prometheus d) Prom_Config_Validate Prom_NewDefaultConfig configs ''prometheus'' prom \<and>
        e = engineOf pw prw mc configs simple cpu memory prom)"
proof -
  obtain reg' where r: "registerAll (importedPlugins pw prw d) fmempty = Ret reg'"
    "GetPlugin reg' PluginEndpointReplicator ''simple'' = Some (snd (simple_init d))"
    "GetPlugin reg' PluginEndpointScaler ''cpu'' = Some (snd (cpu_init pw d))"
    "GetPlugin reg' PluginEndpointScaler ''memory'' = Some (snd (memory_init pw d))"
    "GetPlugin reg' PluginEndpointScaler ''prometheus'' = Some (snd (prometheus_init prw d))" by (rule registered)
  have [simp]: "reg' = reg" using r(1) assms by simp
  have new: "ep_pluginConfigs (newEngineProvisioner mc configs) = configs" "ep_metricsClient (newEngineProvisioner mc configs) = mc"
    by (simp_all add: newEngineProvisioner_def)
  have "Engine_New synced reg mc configs = Some (Inr e) \<longleftrightarrow> synced \<and> loadPlugins reg (newEngineProvisioner mc configs) = (None, e)"
    by (auto simp: Engine_New_def split: prod.splits option.splits)
  also have "loadPlugins reg (newEngineProvisioner mc configs) = (None, e) \<longleftrightarrow> (\<exists>e1 e2 e3. Simple_setup (dec_simple d) (newEngineProvisioner mc configs) = (None, e1) \<and>
      cpu_setup pw (dec_pod d) e1 = (None, e2) \<and> memory_setup pw (dec_pod d) e2 = (None, e3) \<and>
      prometheus_setup prw (dec_prometheus d) e3 = (None, e))" (is "_ \<longleftrightarrow> ?setups")
    using r unfolding loadPlugins_None Replicators_def Scalers_def loadLoop_None_Cons
    by (simp add: simple_init_def cpu_init_def memory_init_def prometheus_init_def)
  also have "?setups \<longleftrightarrow> (\<exists>simple cpu memory prom.
        configured (dec_simple d) Simple_Validate Simple_NewDefaultConfig configs ''simple'' simple \<and>
        configured (dec_pod d) Pod_Validate Pod_NewDefaultConfig configs ''cpu'' cpu \<and>
        configured (dec_pod d) Pod_Validate Pod_NewDefaultConfig configs ''memory'' memory \<and>
        configured (dec_prometheus d) Prom_Config_Validate Prom_NewDefaultConfig configs ''prometheus'' prom \<and>
        e = engineOf pw prw mc configs simple cpu memory prom)"
    (is "?L \<longleftrightarrow> ?R")
  proof
    assume ?L
    then show ?R unfolding cpu_setup_def memory_setup_def Simple_setup_None Pod_setup_None prometheus_setup_None engineOf_def
      by (elim exE conjE) (simp add: frame_simps new, blast)
  next
    assume ?R
    then show ?L unfolding cpu_setup_def memory_setup_def Simple_setup_None Pod_setup_None prometheus_setup_None engineOf_def
      by (elim exE conjE, intro exI conjI) (rule refl | assumption | simp add: frame_simps new)+
  qed
  finally show ?thesis .
qed

subsection \<open>What the scalers keep\<close>

text \<open>Every status entry under a name of the Prometheus scaler has an average value: the one the last-value
  fallback reads without a check.\<close>

definition averageKept :: "TargetStatus \<Rightarrow> bool" where
  "averageKept t \<longleftrightarrow> take 11 (ts_Target t) = ''prometheus/'' \<longrightarrow> mt_AverageValue (ts_Metric t) \<noteq> None"

lemma targets_SetTargetStatus: "set (st_Targets (SetTargetStatus s t)) \<subseteq> insert t (set (st_Targets s))"
proof -
  have "set (setTargetLoop t ts) \<subseteq> insert t (set ts)" for ts by (induction ts) auto
  then show ?thesis by (simp add: SetTargetStatus_def)
qed

lemma targets_ok_SetTargetStatus: "targets_ok okT s \<Longrightarrow> okT t \<Longrightarrow> targets_ok okT (SetTargetStatus s t)"
  using targets_SetTargetStatus by (fastforce simp: targets_ok_def)

lemma Pod_Get_keeps:
  assumes "take 11 (ps_PluginName s) \<noteq> ''prometheus/''" "targets_ok averageKept st"
  shows "\<exists>r st'. Pod_Get pw s i ctx st = Ret (r, st') \<and> targets_ok averageKept st'"
  using Pod_Get_cases [of pw s i ctx st] assms
  by (auto simp: averageKept_def utilizationStatus_def intro!: targets_ok_SetTargetStatus)

lemma Prom_Get_keeps:
  assumes "Prom_Config_Validate (prs_Config s) = None" "prs_PluginName s = ''prometheus''" "targets_ok averageKept st"
    and "answers_samples pw"
  shows "\<exists>r st'. Prom_Get pw s i ctx st = Ret (r, st') \<and> targets_ok averageKept st'"
proof -
  have avg: "mt_AverageValue (ts_Metric t) \<noteq> None" if "GetTargetStatus st (makeTargetStatusName pw s q) = Some t" for q t
  proof -
    have t: "t \<in> set (st_Targets st)" "ts_Target t = makeTargetStatusName pw s q"
      using that by (auto simp: GetTargetStatus_def find_Some_iff)
    have "take 11 (makeTargetStatusName pw s q) = ''prometheus/''" by (simp add: makeTargetStatusName_def assms(2))
    with t assms(3) show ?thesis by (auto simp: targets_ok_def averageKept_def)
  qed
  obtain x where x: "Prom_Get pw s i ctx st = Ret x" using Prom_Get_returns [OF assms(1,4), of st i ctx] avg by blast
  have "\<exists>r st'. Prom_Get pw s i ctx st = Ret (r, st') \<and>
          (st' = st \<or> (\<exists>name n milli. st' = SetTargetStatus st (averageStatus (prs_PluginName s) name n milli)))"
    using Prom_Get_cases [of pw s i ctx st] x CalculateDesiredReplicas_cases [of pw s i ctx _ st] by (metis exec.distinct(1))
  moreover have "averageKept (averageStatus scaler name n milli)" for scaler name n milli
    by (simp add: averageKept_def averageStatus_def)
  ultimately show ?thesis using assms(3) by (auto intro!: targets_ok_SetTargetStatus)
qed

lemma engineOf_lookup:
  "GetScaler (engineOf pw prw mc configs simple cpu memory prom) n =
     (if n = ''prometheus'' then Some (Prom_Get prw \<lparr>prs_PluginName = ''prometheus'', prs_Config = prom,
         prs_QueryClient = NewQueryClient (pcfg_DefaultTimeout prom)\<rparr>)
      else if n = ''memory'' then Some (Pod_Get pw \<lparr>ps_Client = mc, ps_Resource = ''memory'', ps_Config = memory, ps_PluginName = ''memory''\<rparr>)
      else if n = ''cpu'' then Some (Pod_Get pw \<lparr>ps_Client = mc, ps_Resource = ''cpu'', ps_Config = cpu, ps_PluginName = ''cpu''\<rparr>)
      else None)"
  "GetReplicator (engineOf pw prw mc configs simple cpu memory prom) n =
     (if n = ''simple'' then Some \<lparr>r_config = simple, historicalRecommendation = fmempty\<rparr> else None)"
  by (simp_all add: engineOf_def Get_Add) (simp_all add: GetScaler_def GetReplicator_def newEngineProvisioner_def)

lemma engineOf_scalers_ok: "scalers_ok (engineOf pw prw mc configs simple cpu memory prom)"
  using pod_scaler.scaler_contract_axioms prom_scaler.scaler_contract_axioms
  by (auto simp: scalers_ok_def engineOf_lookup split: if_splits)

lemma engineOf_scalers_return:
  assumes "Prom_Config_Validate prom = None" "answers_samples prw"
  shows "scalers_return averageKept (engineOf pw prw mc configs simple cpu memory prom)"
  unfolding scalers_return_def engineOf_lookup
  using Pod_Get_keeps [of _ _ pw] Prom_Get_keeps [of _ _ prw] assms by (auto split: if_splits)

subsection \<open>Start-up\<close>

text \<open>
  (C28) Start-up. Importing the plugin packages registers all of them without a panic. Whatever the metrics
  client and the decoders, the engine is built exactly when the caches of the informers synchronise and each of the four plugins has a
  configuration that decodes over its defaults and validates; an engine that is built has the default replicator of the
  controller, and its scalers are exactly those of the generated list.
\<close>

theorem engine_starts:
  "\<exists>reg. registerAll (importedPlugins pw prw d) fmempty = Ret reg \<and>
     ((\<exists>e. Engine_New synced reg mc configs = Some (Inr e)) \<longleftrightarrow> synced \<and>
        (\<exists>c. configured (dec_simple d) Simple_Validate Simple_NewDefaultConfig configs ''simple'' c) \<and>
        (\<forall>n\<in>{''cpu'', ''memory''}. \<exists>c. configured (dec_pod d) Pod_Validate Pod_NewDefaultConfig configs n c) \<and>
        (\<exists>c. configured (dec_prometheus d) Prom_Config_Validate Prom_NewDefaultConfig configs ''prometheus'' c)) \<and>
     (\<forall>e. Engine_New synced reg mc configs = Some (Inr e) \<longrightarrow>
        GetReplicator e DefaultReplicator \<noteq> None \<and> (\<forall>n. GetScaler e n \<noteq> None \<longleftrightarrow> n \<in> set Scalers))"
proof -
  obtain reg where reg: "registerAll (importedPlugins pw prw d) fmempty = Ret reg" using registered by blast
  have "GetReplicator e DefaultReplicator \<noteq> None \<and> (\<forall>n. GetScaler e n \<noteq> None \<longleftrightarrow> n \<in> set Scalers)"
    if "Engine_New synced reg mc configs = Some (Inr e)" for e
    using that unfolding Engine_New_iff [OF reg]
    by (auto simp: engineOf_lookup DefaultReplicator_def Scalers_def split: if_splits)
  moreover have "(\<exists>e. Engine_New synced reg mc configs = Some (Inr e)) \<longleftrightarrow> synced \<and>
        (\<exists>c. configured (dec_simple d) Simple_Validate Simple_NewDefaultConfig configs ''simple'' c) \<and>
        (\<forall>n\<in>{''cpu'', ''memory''}. \<exists>c. configured (dec_pod d) Pod_Validate Pod_NewDefaultConfig configs n c) \<and>
        (\<exists>c. configured (dec_prometheus d) Prom_Config_Validate Prom_NewDefaultConfig configs ''prometheus'' c)"
    unfolding Engine_New_iff [OF reg] by blast
  ultimately show ?thesis using reg by blast
qed

text \<open>Decoders of a configuration that sets only the address of the Prometheus server.\<close>

definition sampleDecoders :: "string Decoders" where
  "sampleDecoders = \<lparr>dec_simple = \<lambda>raw c. (c, None), dec_pod = \<lambda>raw c. (c, None),
     dec_prometheus = \<lambda>raw c. (c\<lparr>pcfg_DefaultServer := (pcfg_DefaultServer c)\<lparr>srv_ServerAddress := Some raw\<rparr>\<rparr>, None)\<rparr>"

definition sampleConfigs :: "(string, string) fmap" where
  "sampleConfigs = fmap_of_list [(''simple'', []), (''cpu'', []), (''memory'', []), (''prometheus'', ''http://prom'')]"

lemma default_tolerations:
  "\<not> f64_lt DefaultUtilizationToleration DefaultUtilizationToleration \<and> \<not> f64_lt (Fin 1) DefaultUtilizationToleration"
  "\<not> f64_lt Prom_DefaultToleration (Fin 0)"
proof -
  obtain v where "round64 (1 / 20) = Fin v" "0 \<le> v" "v \<le> 1" using round64_upto [of "1 / 20" 1] by auto
  then show "\<not> f64_lt DefaultUtilizationToleration DefaultUtilizationToleration \<and> \<not> f64_lt (Fin 1) DefaultUtilizationToleration"
    "\<not> f64_lt Prom_DefaultToleration (Fin 0)"
    by (simp_all add: DefaultUtilizationToleration_def Prom_DefaultToleration_def)
qed

lemma sampleConfigs_configured:
  "configured (dec_simple sampleDecoders) Simple_Validate Simple_NewDefaultConfig sampleConfigs ''simple'' Simple_NewDefaultConfig"
  "configured (dec_pod sampleDecoders) Pod_Validate Pod_NewDefaultConfig sampleConfigs ''cpu'' Pod_NewDefaultConfig"
  "configured (dec_pod sampleDecoders) Pod_Validate Pod_NewDefaultConfig sampleConfigs ''memory'' Pod_NewDefaultConfig"
  "configured (dec_prometheus sampleDecoders) Prom_Config_Validate Prom_NewDefaultConfig sampleConfigs ''prometheus''
     (Prom_NewDefaultConfig\<lparr>pcfg_DefaultServer := zeroServer\<lparr>srv_ServerAddress := Some ''http://prom''\<rparr>\<rparr>)"
  using default_tolerations by (simp_all add: configured_def sampleDecoders_def sampleConfigs_def fmlookup_of_list Simple_Validate_def
      Simple_NewDefaultConfig_def DefaultDownscaleStabilizationWindow_def Pod_Validate_def Pod_NewDefaultConfig_def
      Prom_Config_Validate_def Prom_NewDefaultConfig_def)

definition samplePodWorld :: PodWorld where
  "samplePodWorld = \<lparr>pw_Unmarshal = \<lambda>raw s. (s\<lparr>Utilization := 50\<rparr>, None), pw_MilliValue = q_value, pw_OutOfRange = \<lambda>_. 0,
     pw_Clock = \<lambda>_ _. 1000 * Second\<rparr>"

definition sampleMetricsClient :: MetricsClient where
  "sampleMetricsClient = \<lparr>mc_PodMetrics = \<lambda>_ _ _. Inr []\<rparr>"

theorem engine_starts_witness:
  "\<exists>reg e. registerAll (importedPlugins samplePodWorld (samplePromWorld FailAsLastValue []) sampleDecoders) fmempty = Ret reg \<and>
     Engine_New True reg sampleMetricsClient sampleConfigs = Some (Inr e) \<and> GetScaler e ''cpu'' \<noteq> None \<and> GetScaler e ''rabbitmq'' = None"
proof -
  have "''cpu'' \<in> set Scalers" "''rabbitmq'' \<notin> set Scalers" by (simp_all add: Scalers_def)
  with engine_starts [of samplePodWorld "samplePromWorld FailAsLastValue []" sampleDecoders True sampleMetricsClient sampleConfigs]
    sampleConfigs_configured
  show ?thesis by blast
qed

end
