(* ===== verification/Reconciler_Progress.thy ===== *)
theory Reconciler_Progress
  imports Reconciler_Safety
begin

text \<open>
  Progress of a reconciliation (\<^verbatim>\<open>controllers/replicaautoscaler_reconcile.go\<close>): when the scale target is found, no
  cold-down applies and every scaler answers, the load that the scalers report is met by one scale update.
  The argument needs of the replicator only its contract (\<open>replicator_contract\<close>).
\<close>

subsection \<open>Scalers that answer\<close>

text \<open>What the loop over the targets hands to the scaler of the target at position \<open>i\<close>.\<close>

definition askedContext :: "World \<Rightarrow> nat \<Rightarrow> string \<Rightarrow> string \<Rightarrow> Selector \<Rightarrow> Scale \<Rightarrow> ScalerContext" where
  "askedContext w i raw namespace sel scale =
     \<lparr>sc_PodLister = w_PodLister w (Suc i), sc_RawSettings = raw, sc_ScaleTargetRef = zeroRef, sc_Namespace = namespace,
      sc_ScaledObjectSelector = sel, sc_CurrentReplicas = scale_Spec_Replicas scale\<rparr>"

text \<open>The settings of a target resolve, its scaler exists, and it answers with at least \<open>need\<close> of its metric.\<close>

definition answers ::
  "World \<Rightarrow> ('r, 'y, 'm) engineProvisioner \<Rightarrow> string \<Rightarrow> Selector \<Rightarrow> Scale \<Rightarrow> (string \<Rightarrow> int) \<Rightarrow> ReplicaAutoscalerTarget \<Rightarrow> bool" where
  "answers w e namespace sel scale need target \<longleftrightarrow>
     (\<exists>raw scaler.
        GetScheduledSettingsRaw (w_MergePatch w) (w_TimeEnv w) (w_Clock w AtReconcile) (tgt_Settings target) = Ret (Inr raw) \<and>
        GetScaler e (tgt_Metric target) = Some scaler \<and>
        (\<forall>i s. \<exists>out s'. scaler (w_Occasion w i) (askedContext w i raw namespace sel scale) s = Ret (Inr out, s') \<and>
                 need (tgt_Metric target) \<le> so_DesiredReplicas out))"

text \<open>The outputs collected cover the need of a metric.\<close>

definition covered :: "(string \<Rightarrow> int) \<Rightarrow> (string \<times> ScalerOutput) list \<Rightarrow> string \<Rightarrow> bool" where
  "covered need outs metric \<longleftrightarrow> (\<exists>out. (metric, out) \<in> set outs \<and> need metric \<le> so_DesiredReplicas out)"

lemma covered_setOutput:
  "need m \<le> so_DesiredReplicas out \<Longrightarrow> covered need (setOutput m out outs) m"
  "covered need outs k \<Longrightarrow> k \<noteq> m \<Longrightarrow> covered need (setOutput m out outs) k"
proof -
  show "need m \<le> so_DesiredReplicas out \<Longrightarrow> covered need (setOutput m out outs) m"
    by (induction outs) (auto simp: covered_def)
  show "covered need outs k \<Longrightarrow> k \<noteq> m \<Longrightarrow> covered need (setOutput m out outs) k"
    unfolding covered_def by (induction outs) (fastforce split: if_splits)+
qed

lemma scalerLoop_answers:
  assumes "\<forall>t\<in>set targets. answers w (rs_Engine st) (ra_Namespace (rs_Autoscaler st)) sel scale need t"
    and "\<forall>k\<in>ks. covered need outs k"
  shows "\<exists>outs' managed' st'. scalerLoop w (w_Clock w AtReconcile) sel scale i targets outs managed st = Ret (Inr (outs', managed'), st') \<and>
           (\<forall>k\<in>ks \<union> tgt_Metric ` set targets. covered need outs' k)"
  using assms
proof (induction targets arbitrary: i outs managed st ks)
  case (Cons target targets)
  from Cons.prems(1) obtain raw scaler where
    settings: "GetScheduledSettingsRaw (w_MergePatch w) (w_TimeEnv w) (w_Clock w AtReconcile) (tgt_Settings target) = Ret (Inr raw)"
    and scaler: "GetScaler (rs_Engine st) (tgt_Metric target) = Some scaler"
    and gives: "\<And>i s. \<exists>out s'. scaler (w_Occasion w i) (askedContext w i raw (ra_Namespace (rs_Autoscaler st)) sel scale) s = Ret (Inr out, s') \<and>
                 need (tgt_Metric target) \<le> so_DesiredReplicas out"
    unfolding answers_def by fastforce
  obtain out s' where out: "scaler (w_Occasion w i) (askedContext w i raw (ra_Namespace (rs_Autoscaler st)) sel scale) (rs_Status st) = Ret (Inr out, s')"
    "need (tgt_Metric target) \<le> so_DesiredReplicas out" using gives by blast
  let ?outs = "setOutput (tgt_Metric target) out outs"
  have "\<forall>k\<in>insert (tgt_Metric target) ks. covered need ?outs k"
    using Cons.prems(2) covered_setOutput out(2) by (metis insert_iff)
  moreover have "rs_Engine (setStatus s' st) = rs_Engine st" "ra_Namespace (rs_Autoscaler (setStatus s' st)) = ra_Namespace (rs_Autoscaler st)"
    by (simp_all add: setStatus_def)
  ultimately obtain outs' managed' st' where
    "scalerLoop w (w_Clock w AtReconcile) sel scale (Suc i) targets ?outs (managed @ so_ManagedTargetStatus out) (setStatus s' st)
       = Ret (Inr (outs', managed'), st')"
    "\<forall>k\<in>insert (tgt_Metric target) ks \<union> tgt_Metric ` set targets. covered need outs' k"
    using Cons.IH [of "setStatus s' st" "insert (tgt_Metric target) ks" ?outs "Suc i" "managed @ so_ManagedTargetStatus out"]
      Cons.prems(1) by (metis list.set_intros(2))
  then show ?case using settings scaler out(1) by (simp add: askedContext_def)
qed simp

subsection \<open>The replicator is asked and its count applied\<close>

abbreviation selectedReplicator :: "ReplicaAutoscaler \<Rightarrow> string" where
  "selectedReplicator ra \<equiv> (case spec_Replicator (ra_Spec ra) of None \<Rightarrow> DefaultReplicator | Some n \<Rightarrow> n)"


context replicator_contract
begin

lemma askReplicator_progress:
  assumes "GetReplicator (rs_Engine st) (selectedReplicator (rs_Autoscaler st)) \<noteq> None"
    and total: "\<And>clk ctx r. \<exists>d r'. desired clk ctx r = (Inr d, r')"
    and "\<forall>k\<in>ks. covered need outs k"
  shows "\<exists>delay st' n. askReplicator desired w u gvkr scale outs st = Ret (delay, st') \<and> (\<forall>k\<in>ks. need k \<le> n) \<and>
           rs_Updates st' = rs_Updates st @ scaleUpdates (rs_Autoscaler st) gvkr scale (limited w (rs_Autoscaler st) n)"
proof -
  obtain rep where rep: "GetReplicator (rs_Engine st) (selectedReplicator (rs_Autoscaler st)) = Some rep" using assms(1) by blast
  let ?ctx = "\<lparr>rc_Autoscaler = rs_Autoscaler st, rc_Scale = scale, rc_ScalersOutput = outs\<rparr>"
  obtain n rep' where g: "desired (\<lambda>k. w_Clock w (AtReplicator k)) ?ctx rep = (Inr n, rep')" using total by blast
  let ?st1 = "st\<lparr>rs_Engine := AddReplicator (selectedReplicator (rs_Autoscaler st)) rep' (rs_Engine st)\<rparr>"
  obtain delay st' where a: "applyReplicas w u gvkr scale n ?st1 = Ret (delay, st')"
    using applyReplicas_returns [of w u gvkr scale n ?st1] by force
  have "rs_Updates st' = rs_Updates st @ scaleUpdates (rs_Autoscaler st) gvkr scale (limited w (rs_Autoscaler st) n)"
    using applyReplicas_sum [OF a] by (auto simp: flow_sum_def dest: step_sumD(2))
  moreover have "need k \<le> n" if "k \<in> ks" for k
  proof -
    have "covered need outs k" using assms(3) that by (rule bspec)
    then obtain out where o: "(k, out) \<in> set outs" "need k \<le> so_DesiredReplicas out"
      unfolding covered_def by (elim exE conjE)
    have "so_DesiredReplicas out \<le> n" by (rule desired_covers [OF g, of k]) (simp add: o(1))
    with o(2) show ?thesis by simp
  qed
  ultimately show ?thesis using g rep a by (auto simp: askReplicator_def Let_def)
qed

lemma reconcileAutoscaling_progress:
  assumes "w_LabelsParse w (scale_Status_Selector scale) = Inr sel"
    and "\<not> coldDown w (rs_Status st) (panicking w st)"
    and "\<forall>t\<in>set (spec_Targets (ra_Spec (rs_Autoscaler st))). answers w (rs_Engine st) (ra_Namespace (rs_Autoscaler st)) sel scale need t"
    and "GetReplicator (rs_Engine st) (selectedReplicator (rs_Autoscaler st)) \<noteq> None"
    and total: "\<And>clk ctx r. \<exists>d r'. desired clk ctx r = (Inr d, r')"
  shows "\<exists>delay st' n. reconcileAutoscaling desired w gvkr scale st = Ret (delay, st') \<and>
           (\<forall>t\<in>set (spec_Targets (ra_Spec (rs_Autoscaler st))). need (tgt_Metric t) \<le> n) \<and>
           rs_Updates st' = rs_Updates st @ scaleUpdates (rs_Autoscaler st) gvkr scale (limited w (rs_Autoscaler st) n)"
proof -
  let ?ks = "tgt_Metric ` set (spec_Targets (ra_Spec (rs_Autoscaler st)))"
  obtain outs managed st1 where l: "scalerLoop w (w_Clock w AtReconcile) sel scale 0 (spec_Targets (ra_Spec (rs_Autoscaler st))) [] [] st
      = Ret (Inr (outs, managed), st1)" and cov: "\<forall>k\<in>?ks. covered need outs k"
    using scalerLoop_answers [OF assms(3), of "{}" "[]" 0 "[]"] by auto
  note O = scalerLoop_object [OF l]
  let ?st2 = "setStatus (PurgeTargetStatus managed (rs_Status st1)) st1"
  have same: "same_object st ?st2" using O same_object_trans [OF _ same_object_steps(1)] by blast
  have "GetReplicator (rs_Engine ?st2) (selectedReplicator (rs_Autoscaler ?st2)) \<noteq> None"
    using assms(4) O same_object_fields(1) [OF same] by (simp add: setStatus_def)
  from askReplicator_progress [OF this total cov] obtain delay st' n where
    a: "askReplicator desired w (panicking w st) gvkr scale outs ?st2 = Ret (delay, st')" "\<forall>k\<in>?ks. need k \<le> n"
    "rs_Updates st' = rs_Updates ?st2 @ scaleUpdates (rs_Autoscaler ?st2) gvkr scale (limited w (rs_Autoscaler ?st2) n)" by blast
  have "rs_Updates st' = rs_Updates st @ scaleUpdates (rs_Autoscaler st) gvkr scale (limited w (rs_Autoscaler st) n)"
    using a(3) O unfolding scaleUpdates_same [OF same] limited_same [OF same] by (simp add: setStatus_def)
  moreover have "reconcileAutoscaling desired w gvkr scale st = Ret (delay, st')"
    using assms(1,2) l a(1) by (simp add: reconcileAutoscaling_def Let_def)
  ultimately show ?thesis using a(2) by blast
qed

lemma reconcile_progress:
  assumes "ra_DeletionTimestamp (rs_Autoscaler st) = None"
    and "getScaleTarget w (rs_Autoscaler st) (rs_ScalableCache st) = (Inr (gvkr, scale), cache)"
    and ex: "updateExhaustedAutoscaler w scale (st\<lparr>rs_ScalableCache := cache\<rparr>) = Ret (d, None, st1)"
    and "spec_MinReplicas (ra_Spec (rs_Autoscaler st)) \<noteq> None"
    and "w_LabelsParse w (scale_Status_Selector scale) = Inr sel"
    and "\<not> coldDown w (rs_Status st) (panicking w st)"
    and "\<forall>t\<in>set (spec_Targets (ra_Spec (rs_Autoscaler st))). answers w (rs_Engine st) (ra_Namespace (rs_Autoscaler st)) sel scale need t"
    and "GetReplicator (rs_Engine st) (selectedReplicator (rs_Autoscaler st)) \<noteq> None"
    and total: "\<And>clk ctx r. \<exists>d r'. desired clk ctx r = (Inr d, r')"
  shows "\<exists>delay st' n. reconcile desired w st = Ret (delay, st') \<and>
           (\<forall>t\<in>set (spec_Targets (ra_Spec (rs_Autoscaler st))). need (tgt_Metric t) \<le> n) \<and>
           rs_Updates st' = rs_Updates st @ scaleUpdates (rs_Autoscaler st) gvkr scale (limited w (rs_Autoscaler st) n)"
proof -
  let ?st2 = "observe scale st1"
  note P = prepare_sum [OF ex]
  note same = step_sumD(1) [OF P(1)]
  note F = same_object_fields [OF same]
  have cold: "coldDown w (rs_Status ?st2) (panicking w ?st2) = coldDown w (rs_Status st) (panicking w st)"
    using StillInPanicMode_cong [OF P(2)] P(4) F(1) by (simp add: coldDown_def)
  from reconcileAutoscaling_progress [of w scale sel ?st2 need gvkr] assms(5-9) cold F P(5) obtain delay st3 n where
    r: "reconcileAutoscaling desired w gvkr scale ?st2 = Ret (delay, st3)"
    "\<forall>t\<in>set (spec_Targets (ra_Spec (rs_Autoscaler st))). need (tgt_Metric t) \<le> n"
    "rs_Updates st3 = rs_Updates ?st2 @ scaleUpdates (rs_Autoscaler ?st2) gvkr scale (limited w (rs_Autoscaler ?st2) n)"
    by auto
  obtain lo where "spec_MinReplicas (ra_Spec (rs_Autoscaler st1)) = Some lo"
    using assms(4) same_object_fields(1) [OF step_sumD(1) [OF P(6)]] by auto
  then have "reconcile desired w st = Ret (delay, ready w st3)"
    using r(1) assms(1,2) ex unfolding observe_def by (simp add: reconcile_def ready_def Let_def)
  moreover have "rs_Updates (ready w st3) = rs_Updates st @ scaleUpdates (rs_Autoscaler st) gvkr scale (limited w (rs_Autoscaler st) n)"
    using r(3) step_sumD(2) [OF P(1)] unfolding scaleUpdates_same [OF same] limited_same [OF same] by (simp add: ready_def)
  ultimately show ?thesis using r(2) by blast
qed

end


subsection \<open>Property\<close>




end
