(* ===== verification/Startup.thy ===== *)
theory Startup
  imports Plugins Reconciler_Progress
begin

text \<open>
  The process: \<^verbatim>\<open>main.go\<close> with the controller's options and configuration (\<^verbatim>\<open>controllers/options.go\<close>,
  \<^verbatim>\<open>controllers/config.go\<close>), the client constructors of \<^verbatim>\<open>utils/clientbuilder.go\<close>, and \<^verbatim>\<open>SetupWithManager\<close> of \<^verbatim>\<open>controllers/replicaautoscaler_controller.go\<close>.

  The record \<open>MainWorld\<close> holds what is outside the repository: the command line, the file system, the YAML
  decoder, and what the Kubernetes libraries answer when the manager, the clients and the controller are made.
  The metrics client the libraries build is a field too, and so is whether the caches of the
  informers ever synchronise (\<open>mw_CachesSync\<close>): the code waits for them without a deadline, and a process that waits for ever is a run of its own.

  Shown: when the process serves requests, and that from then on no request ever panics, for a Prometheus server that never answers with a
  null sample.
\<close>

subsection \<open>Options and configuration\<close>

definition DefaultConfigPath :: string where "DefaultConfigPath = ''wing.yaml''"

record Flags =
  fl_metricsAddr :: string
  fl_probeAddr :: string
  fl_enableLeaderElection :: bool
  fl_leaderElectionID :: string
  fl_Config :: string

definition defaultFlags :: Flags where
  "defaultFlags = \<lparr>fl_metricsAddr = '':8080'', fl_probeAddr = '':8081'', fl_enableLeaderElection = False,
     fl_leaderElectionID = ''wing.xscaling.dev'', fl_Config = DefaultConfigPath\<rparr>"

record 'y ControllerConfig =
  cc_Workers :: int
  cc_Plugins :: "(string, 'y) fmap"

definition Controllers_NewDefaultConfig :: "'y ControllerConfig" where
  "Controllers_NewDefaultConfig = \<lparr>cc_Workers = 3, cc_Plugins = fmempty\<rparr>"

record ManagerOptions =
  mo_MetricsBindAddress :: string
  mo_Port :: int
  mo_HealthProbeBindAddress :: string
  mo_LeaderElection :: bool
  mo_LeaderElectionID :: string

text \<open>\<open>mw_Parse\<close> takes the defaults to the flags of the command line, or to the exit code with which
  \<^verbatim>\<open>flag.Parse\<close> ends the process. \<open>mw_NewForConfig\<close> makes a client for a user agent, with burst and rate when
  they are set.\<close>

record 'y MainWorld =
  mw_AddClientGoToScheme :: "goerr option"
  mw_AddWingToScheme :: "goerr option"
  mw_Parse :: "Flags \<Rightarrow> int + Flags"
  mw_ReadFile :: "string \<Rightarrow> string result"
  mw_UnmarshalConfig :: "string \<Rightarrow> 'y ControllerConfig \<Rightarrow> 'y ControllerConfig \<times> goerr option"
  mw_GetConfig :: "goerr option"
  mw_NewManager :: "ManagerOptions \<Rightarrow> goerr option"
  mw_NewForConfig :: "string \<Rightarrow> (int \<times> int) option \<Rightarrow> goerr option"
  mw_NewMetricsClients :: "goerr option"
  mw_MetricsClient :: MetricsClient
  mw_CachesSync :: bool
  mw_NewDiscoveryClient :: "goerr option"
  mw_Complete :: "int \<Rightarrow> goerr option"
  mw_AddHealthzCheck :: "goerr option"
  mw_AddReadyzCheck :: "goerr option"
  mw_Start :: "goerr option"

definition LoadConfig :: "'y MainWorld \<Rightarrow> Flags \<Rightarrow> 'y ControllerConfig \<Rightarrow> 'y ControllerConfig \<times> goerr option" where
  "LoadConfig w options conf =
     (case mw_ReadFile w (fl_Config options) of
        Inl err \<Rightarrow> (conf, Some err)
      | Inr configContent \<Rightarrow> mw_UnmarshalConfig w configContent conf)"

definition OrDie :: "goerr option \<Rightarrow> unit exec" where
  "OrDie err = (case err of Some e \<Rightarrow> Panic (errText e) | None \<Rightarrow> Ret ())"

definition ClientOrDie :: "'y MainWorld \<Rightarrow> string \<Rightarrow> unit exec" where
  "ClientOrDie w userAgent = OrDie (mw_NewForConfig w userAgent None)"

definition DiscoveryClientOrDie :: "'y MainWorld \<Rightarrow> string \<Rightarrow> unit exec" where
  "DiscoveryClientOrDie w userAgent = OrDie (mw_NewForConfig w userAgent (Some (200, 20)))"

text \<open>The clients that \<^verbatim>\<open>engine.New\<close> makes before it loads the plugins.\<close>

definition engineClients :: "'y MainWorld \<Rightarrow> unit exec" where
  "engineClients w =
     exec_bind (DiscoveryClientOrDie w ''wing-controller-discovery'') (\<lambda>_.
       exec_bind (ClientOrDie w ''wing-engine'') (\<lambda>_.
         exec_bind (OrDie (mw_NewMetricsClients w)) (\<lambda>_. ClientOrDie w ''wing-engine'')))"

definition SetupWithManager :: "'y MainWorld \<Rightarrow> 'y ControllerConfig \<Rightarrow> goerr option" where
  "SetupWithManager w config =
     (case mw_NewDiscoveryClient w of
        Some err \<Rightarrow> Some err
      | None \<Rightarrow> mw_Complete w (cc_Workers config))"

subsection \<open>The process\<close>

text \<open>How a run ends: with an exit code before the manager was started, or never, waiting for the caches, or after the manager was started with
  an engine and a number of workers.\<close>

datatype 'y Run = Exited int | Waiting | Served "'y Provisioner" int int

definition main_init :: "'y MainWorld \<Rightarrow> unit exec" where
  "main_init w = exec_bind (OrDie (mw_AddClientGoToScheme w)) (\<lambda>_. OrDie (mw_AddWingToScheme w))"

text \<open>The error check after a step: log and exit.\<close>

definition orExit :: "goerr option \<Rightarrow> 'y Run exec \<Rightarrow> 'y Run exec" where
  "orExit err continue = (if err \<noteq> None then Ret (Exited 1) else continue)"

definition managerOptions :: "Flags \<Rightarrow> ManagerOptions" where
  "managerOptions fl = \<lparr>mo_MetricsBindAddress = fl_metricsAddr fl, mo_Port = 9443, mo_HealthProbeBindAddress = fl_probeAddr fl,
     mo_LeaderElection = fl_enableLeaderElection fl, mo_LeaderElectionID = fl_leaderElectionID fl\<rparr>"

definition main :: "'y MainWorld \<Rightarrow> 'y Provisioner Registry \<Rightarrow> 'y Run exec" where
  "main w reg =
     (case mw_Parse w defaultFlags of
        Inl code \<Rightarrow> Ret (Exited code)
      | Inr fl \<Rightarrow>
          (let (config, err) = LoadConfig w fl Controllers_NewDefaultConfig in
           orExit err
             (orExit (mw_GetConfig w)
               (orExit (mw_NewManager w (managerOptions fl))
                 (exec_bind (engineClients w) (\<lambda>_.
                    case Engine_New (mw_CachesSync w) reg (mw_MetricsClient w) (cc_Plugins config) of
                      None \<Rightarrow> Ret Waiting
                    | Some (Inl err) \<Rightarrow> Ret (Exited 1)
                    | Some (Inr coreEngine) \<Rightarrow>
                        orExit (SetupWithManager w config)
                          (orExit (mw_AddHealthzCheck w)
                            (orExit (mw_AddReadyzCheck w)
                              (Ret (Served coreEngine (cc_Workers config) (if mw_Start w = None then 0 else 1)))))))))))"

text \<open>Go initialises the imported packages, then the main package, then calls \<^verbatim>\<open>main\<close>.\<close>

definition program :: "'y MainWorld \<Rightarrow> PodWorld \<Rightarrow> PromWorld \<Rightarrow> 'y Decoders \<Rightarrow> 'y Run exec" where
  "program w pw prw d =
     exec_bind (registerAll (importedPlugins pw prw d) fmempty) (\<lambda>reg.
       exec_bind (main_init w) (\<lambda>_. main w reg))"

lemma start_simps:
  "orExit err k = Ret (Served e n code) \<longleftrightarrow> err = None \<and> k = Ret (Served e n code)"
  "OrDie err = Ret u \<longleftrightarrow> err = None"
  by (auto simp: orExit_def OrDie_def split: option.splits)

lemma engineClients_Ret:
  "engineClients w = Ret u \<longleftrightarrow> mw_NewForConfig w ''wing-controller-discovery'' (Some (200, 20)) = None \<and>
     mw_NewForConfig w ''wing-engine'' None = None \<and> mw_NewMetricsClients w = None"
  by (auto simp: engineClients_def exec_bind_Ret_iff start_simps ClientOrDie_def DiscoveryClientOrDie_def)

lemma main_Served:
  "main w reg = Ret (Served e workers code) \<longleftrightarrow>
     (\<exists>fl config. mw_Parse w defaultFlags = Inr fl \<and> LoadConfig w fl Controllers_NewDefaultConfig = (config, None) \<and>
        mw_GetConfig w = None \<and> mw_NewManager w (managerOptions fl) = None \<and> engineClients w = Ret () \<and>
        Engine_New (mw_CachesSync w) reg (mw_MetricsClient w) (cc_Plugins config) = Some (Inr e) \<and> SetupWithManager w config = None \<and>
        mw_AddHealthzCheck w = None \<and> mw_AddReadyzCheck w = None \<and> workers = cc_Workers config \<and>
        code = (if mw_Start w = None then 0 else 1))"
proof (cases "mw_Parse w defaultFlags")
  case (Inr fl)
  obtain config err where l: "LoadConfig w fl Controllers_NewDefaultConfig = (config, err)" by fastforce
  have inner: "(case r of None \<Rightarrow> Ret Waiting | Some (Inl err) \<Rightarrow> Ret (Exited 1) | Some (Inr coreEngine) \<Rightarrow> k coreEngine) =
      Ret (Served e workers code) \<longleftrightarrow> (\<exists>x. r = Some (Inr x) \<and> k x = Ret (Served e workers code))"
    for r :: "'a Provisioner result option" and k by (auto split: option.splits sum.splits)
  show ?thesis unfolding main_def Inr sum.case l Let_def prod.case start_simps exec_bind_Ret_iff inner
    by (auto simp: l)
qed (simp add: main_def)

lemma LoadConfig_ok:
  "LoadConfig w fl conf = (config, None) \<longleftrightarrow>
     (\<exists>content. mw_ReadFile w (fl_Config fl) = Inr content \<and> mw_UnmarshalConfig w content conf = (config, None))"
  by (auto simp: LoadConfig_def split: sum.splits)

lemma SetupWithManager_ok:
  "SetupWithManager w config = None \<longleftrightarrow> mw_NewDiscoveryClient w = None \<and> mw_Complete w (cc_Workers config) = None"
  by (auto simp: SetupWithManager_def split: option.splits)

lemma program_Served:
  assumes "program w pw prw d = Ret (Served e workers code)"
  shows "\<exists>mc configs simple cpu memory prom. e = engineOf pw prw mc configs simple cpu memory prom \<and> Prom_Config_Validate prom = None"
proof -
  obtain reg where reg: "registerAll (importedPlugins pw prw d) fmempty = Ret reg" "main w reg = Ret (Served e workers code)"
    using assms by (auto simp: program_def exec_bind_Ret_iff)
  then obtain synced mc configs where "Engine_New synced reg mc configs = Some (Inr e)" unfolding main_Served by blast
  then show ?thesis unfolding Engine_New_iff [OF reg(1)] configured_def by blast
qed

subsection \<open>Properties\<close>

text \<open>
  (C1) The whole program never panics while it serves: take a process that got past its start-up, with whatever
  configuration, a Prometheus server that never answers a query with a null sample (\<open>answers_samples\<close>), and any cluster whose stored
  object has one condition per type and no target status the Prometheus
  scaler could not read back. After any run of reconciliations (in any worlds: clocks, API answers, and metrics, which may differ from
  call to call) and of
  edits that keep the pointers that the controller dereferences unchecked, the next request returns, on whatever version of the object the cache shows.
\<close>

theorem wing_never_panics:
  assumes "program mw pw prw d = Ret (Served e workers code)"
    and "rs_Engine (cl_State c0) = e" and "answers_samples prw"
    and "cluster_reach GetDesiredReplicas server (\<lambda>ra. no_nil (ra_Spec ra)) c0 c" and "honest server"
    and "distinct (map cond_Type (st_Conditions (ra_Status (cl_Object c0))))"
    and "targets_ok averageKept (ra_Status (cl_Object c0))"
    and "obj \<in> set (versions c)" and "w_CacheGet w namespace name = Inr obj"
  shows "\<exists>delay err st'. Reconcile GetDesiredReplicas w namespace name (cl_State c) = Ret ((delay, err), st')"
proof -
  obtain mc configs simple cpu memory prom where
    e: "e = engineOf pw prw mc configs simple cpu memory prom" and v: "Prom_Config_Validate prom = None"
    using program_Served [OF assms(1)] by blast
  have ok: "scalers_ok (rs_Engine (cl_State c0))" and ret: "scalers_return averageKept (rs_Engine (cl_State c0))"
    unfolding assms(2) e by (rule engineOf_scalers_ok, rule engineOf_scalers_return [OF v assms(3)])
  have "conditions_ok (cl_Object c0)" using assms(6) by (simp add: conditions_ok_def)
  from cluster_reach_targets [OF assms(4,5) ok this ret assms(7)] show ?thesis
    using Reconcile_returns [OF assms(9)] assms(8) by blast
qed

definition sampleMainWorld :: "string MainWorld" where
  "sampleMainWorld = \<lparr>mw_AddClientGoToScheme = None, mw_AddWingToScheme = None, mw_Parse = Inr,
     mw_ReadFile = (\<lambda>path. if path = ''wing.yaml'' then Inr ''plugins'' else Inl (errNew ''no such file'')),
     mw_UnmarshalConfig = (\<lambda>content conf. (conf\<lparr>cc_Plugins := sampleConfigs\<rparr>, None)), mw_GetConfig = None,
     mw_NewManager = (\<lambda>_. None), mw_NewForConfig = (\<lambda>_ _. None), mw_NewMetricsClients = None, mw_MetricsClient = sampleMetricsClient, mw_CachesSync = True, mw_NewDiscoveryClient = None,
     mw_Complete = (\<lambda>_. None), mw_AddHealthzCheck = None, mw_AddReadyzCheck = None, mw_Start = None\<rparr>"

lemma sampleMainWorld_serves:
  "\<exists>e. program sampleMainWorld samplePodWorld (samplePromWorld FailAsZero []) sampleDecoders = Ret (Served e 3 0)"
proof -
  obtain reg where reg: "registerAll (importedPlugins samplePodWorld (samplePromWorld FailAsZero []) sampleDecoders) fmempty = Ret reg"
    using registered by blast
  then obtain e where e: "Engine_New True reg sampleMetricsClient sampleConfigs = Some (Inr e)"
    using Engine_New_iff [OF reg] sampleConfigs_configured by blast
  show ?thesis
    by (rule exI [of _ e]) (simp add: program_def reg main_init_def main_def LoadConfig_def SetupWithManager_def orExit_def OrDie_def
        engineClients_def ClientOrDie_def DiscoveryClientOrDie_def sampleMainWorld_def defaultFlags_def DefaultConfigPath_def Controllers_NewDefaultConfig_def e)
qed

text \<open>An object with two targets, and the process that has just started. The first request asks both scalers; the second comes later, on other
  occasions.\<close>

definition sampleTarget :: "string \<Rightarrow> ReplicaAutoscalerTarget" where
  "sampleTarget metric = \<lparr>tgt_Metric = metric, tgt_MetricType = [], tgt_Settings = \<lparr>set_Default = Some \<lparr>Raw = []\<rparr>, set_Schedules = []\<rparr>\<rparr>"

definition servedObject :: ReplicaAutoscaler where
  "servedObject = sampleAutoscaler\<lparr>ra_Spec := sampleSpec\<lparr>spec_Targets := [sampleTarget ''cpu'', sampleTarget ''prometheus'']\<rparr>\<rparr>"

definition servedCluster :: "string Provisioner \<Rightarrow> (replicator, string, MetricsClient) Cluster" where
  "servedCluster e = \<lparr>cl_Object = servedObject, cl_Earlier = [],
     cl_State = \<lparr>rs_Autoscaler = servedObject, rs_ScalableCache = isScalableCache_init, rs_Engine = e, rs_Events = [],
       rs_Updates = [], rs_Writes = []\<rparr>\<rparr>"

definition requestWorld :: "nat \<Rightarrow> ReplicaAutoscaler \<Rightarrow> World" where
  "requestWorld n obj = (sampleWorld None)\<lparr>w_CacheGet := (\<lambda>_ _. Inr obj), w_Clock := (\<lambda>_. int (1000 + 60 * n) * Second),
     w_Occasion := (\<lambda>i. 2 * n + i)\<rparr>"

lemma samplePod_asked:
  "sc_PodLister ctx = (\<lambda>_ _. Inr []) \<Longrightarrow>
   Pod_Get samplePodWorld s i ctx st = Ret (Inr \<lparr>so_DesiredReplicas = sc_CurrentReplicas ctx, so_ManagedTargetStatus = [ps_PluginName s]\<rparr>, st)"
  by (simp add: Pod_Get_def LoadSettings_def samplePodWorld_def)

lemma sampleProm_asked:
  assumes "Prom_Config_Validate (prs_Config s) = None"
  shows "\<exists>out. Prom_Get (samplePromWorld FailAsZero []) s i ctx st = Ret (Inr out, st) \<and> so_DesiredReplicas out = 0"
proof -
  have load: "LoadSettings (prw_Unmarshal (samplePromWorld FailAsZero [])) ctx zeroPromSettings = Inr (samplePromSettings FailAsZero)"
    by (simp add: LoadSettings_def samplePromWorld_def)
  have "\<exists>y. srv_ServerAddress (pcfg_DefaultServer (prs_Config s)) = Some y"
    using assms by (auto simp: Prom_Config_Validate_def split: if_splits)
  then have q: "Query (samplePromWorld FailAsZero []) i c (pcfg_DefaultServer (prs_Config s)) query now = Ret (Inl ErrNullValue)" for c query now
    by (auto simp: Query_def samplePromWorld_def go_quot_def Let_def)
  have server: "srv_ServerAddress (pset_Server (samplePromSettings FailAsZero)) = None"
    by (simp add: samplePromSettings_def zeroServer_def)
  have zero: "queryOrFallback pw s (samplePromSettings FailAsZero) st (Inl err) = Ret (Inr (Fin 0, MaxFloat64, False))" for pw err
    by (simp add: queryOrFallback_def samplePromSettings_def failure_modes)
  show ?thesis unfolding Prom_Get_def load sum.case sampleProm_valid option.case
    by (simp add: CalculateDesiredReplicas_def server q zero replicasForValue_def)
qed

lemma both_scalers_asked:
  assumes "e = engineOf samplePodWorld (samplePromWorld FailAsZero []) mc configs simple cpu memory prom" "Prom_Config_Validate prom = None"
  shows "\<exists>outs managed st'. scalerLoop (requestWorld 0 servedObject) (w_Clock (requestWorld 0 servedObject) AtReconcile) sel sampleScale 0
     (spec_Targets (ra_Spec servedObject)) [] [] (cl_State (servedCluster e)) = Ret (Inr (outs, managed), st') \<and>
     (\<exists>out. (''cpu'', out) \<in> set outs) \<and> (\<exists>out. (''prometheus'', out) \<in> set outs)"
proof -
  let ?w = "requestWorld 0 servedObject" and ?st = "cl_State (servedCluster e)"
  have settings: "GetScheduledSettingsRaw (w_MergePatch ?w) (w_TimeEnv ?w) t (tgt_Settings (sampleTarget m)) = Ret (Inr [])" for m t
    by (simp add: sampleTarget_def GetScheduledSettingsRaw_def)
  have "answers ?w (rs_Engine ?st) (ra_Namespace (rs_Autoscaler ?st)) sel sampleScale (\<lambda>_. 0) (sampleTarget m)"
    if "m \<in> {''cpu'', ''prometheus''}" for m
    unfolding answers_def
  proof (intro exI conjI)
    show "GetScheduledSettingsRaw (w_MergePatch ?w) (w_TimeEnv ?w) (w_Clock ?w AtReconcile) (tgt_Settings (sampleTarget m)) = Ret (Inr [])"
      by (rule settings)
    show "GetScaler (rs_Engine ?st) (tgt_Metric (sampleTarget m)) = Some (the (GetScaler e m))"
      using that by (auto simp: servedCluster_def sampleTarget_def assms(1) engineOf_lookup)
    show "\<forall>i s. \<exists>out s'. the (GetScaler e m) (w_Occasion ?w i) (askedContext ?w i [] (ra_Namespace (rs_Autoscaler ?st)) sel sampleScale) s =
        Ret (Inr out, s') \<and> 0 \<le> so_DesiredReplicas out"
    proof (intro allI)
      fix i s
      let ?ctx = "askedContext ?w i [] (ra_Namespace (rs_Autoscaler ?st)) sel sampleScale"
      have "sc_PodLister ?ctx = (\<lambda>_ _. Inr [])" "sc_CurrentReplicas ?ctx = 2"
        by (simp_all add: askedContext_def requestWorld_def sampleWorld_def sampleScale_def)
      note cpu = samplePod_asked [OF this(1)] this(2)
      note prom = sampleProm_asked [where s = "\<lparr>prs_PluginName = ''prometheus'', prs_Config = prom,
         prs_QueryClient = NewQueryClient (pcfg_DefaultTimeout prom)\<rparr>" and i = "w_Occasion ?w i" and ctx = ?ctx and st = s]
      from that consider "m = ''cpu''" | "m = ''prometheus''" by blast
      then show "\<exists>out s'. the (GetScaler e m) (w_Occasion ?w i) ?ctx s = Ret (Inr out, s') \<and> 0 \<le> so_DesiredReplicas out"
      proof cases
        case 1
        have "GetScaler e ''cpu'' = Some (Pod_Get samplePodWorld \<lparr>ps_Client = mc, ps_Resource = ''cpu'', ps_Config = cpu, ps_PluginName = ''cpu''\<rparr>)"
          by (simp add: assms(1) engineOf_lookup)
        with 1 show ?thesis by (simp add: cpu)
      next
        case 2
        with prom assms(2) show ?thesis by (auto simp: assms(1) engineOf_lookup)
      qed
    qed
  qed
  then have "\<forall>t\<in>set (spec_Targets (ra_Spec servedObject)).
      answers ?w (rs_Engine ?st) (ra_Namespace (rs_Autoscaler ?st)) sel sampleScale (\<lambda>_. 0) t"
    by (simp add: servedObject_def)
  from scalerLoop_answers [OF this, of "{}" "[]" 0 "[]"] show ?thesis
    by (force simp: servedObject_def sampleTarget_def covered_def)
qed

lemma sampleServer_stored: "ra_Spec (stored sampleServer st st' err obj) = ra_Spec obj"
proof -
  have "ra_Spec (fold sampleServer ws obj) = ra_Spec obj" for ws obj
    by (induction ws arbitrary: obj) (simp_all add: sampleServer_def split: ObjectWrite.split)
  then show ?thesis by (simp add: stored_def)
qed

theorem wing_never_panics_witness:
  "\<exists>e c delay err st' outs managed st1.
     program sampleMainWorld samplePodWorld (samplePromWorld FailAsZero []) sampleDecoders = Ret (Served e 3 0) \<and>
     scalerLoop (requestWorld 0 servedObject) (w_Clock (requestWorld 0 servedObject) AtReconcile) ''app=web'' sampleScale 0
       (spec_Targets (ra_Spec servedObject)) [] [] (cl_State (servedCluster e)) = Ret (Inr (outs, managed), st1) \<and>
     {''cpu'', ''prometheus''} \<subseteq> fst ` set outs \<and>
     cluster_step GetDesiredReplicas sampleServer (servedCluster e) c \<and>
     Reconcile GetDesiredReplicas (requestWorld 1 (cl_Object c)) ''prod'' ''web'' (cl_State c) = Ret ((delay, err), st')"
proof -
  let ?prw = "samplePromWorld FailAsZero []" and ?P = "\<lambda>ra. no_nil (ra_Spec ra)"
  obtain e where e: "program sampleMainWorld samplePodWorld ?prw sampleDecoders = Ret (Served e 3 0)"
    using sampleMainWorld_serves by blast
  let ?first = "servedCluster e"
  have start: "cluster_reach GetDesiredReplicas sampleServer ?P ?first ?first"
    by (rule cluster_reach.start) (simp_all add: no_nil_def servedCluster_def servedObject_def sampleTarget_def sampleAutoscaler_def sampleSpec_def)
  have next_returns: "\<exists>delay err st'. Reconcile GetDesiredReplicas (requestWorld n obj) ''prod'' ''web'' (cl_State c) =
      Ret ((delay, err), st')" if "cluster_reach GetDesiredReplicas sampleServer ?P ?first c" "obj \<in> set (versions c)" for c n obj
    by (rule wing_never_panics [OF e _ _ that(1) sampleServer_honest _ _ that(2)])
      (simp_all add: servedCluster_def servedObject_def sampleAutoscaler_def zeroStatus_def targets_ok_def requestWorld_def
        answers_samples_def samplePromWorld_def)
  obtain d err st1 where r: "Reconcile GetDesiredReplicas (requestWorld 0 (cl_Object ?first)) ''prod'' ''web'' (cl_State ?first) = Ret ((d, err), st1)"
    using next_returns [OF start, of "cl_Object ?first" 0] by (auto simp: versions_def)
  let ?c = "\<lparr>cl_Object = stored sampleServer (cl_State ?first) st1 err (cl_Object ?first), cl_Earlier = versions ?first, cl_State = st1\<rparr>"
  have step: "cluster_step GetDesiredReplicas sampleServer ?first ?c"
    by (rule reconciled [where obj = "cl_Object ?first", OF _ _ r]) (simp_all add: requestWorld_def versions_def)
  have "?P (cl_Object ?c)" using start by (cases rule: cluster_reach.cases) (auto simp: sampleServer_stored)
  then have "cluster_reach GetDesiredReplicas sampleServer ?P ?first ?c" by (rule cluster_reach.step [OF start step])
  then obtain delay err' st' where
    "Reconcile GetDesiredReplicas (requestWorld 1 (cl_Object ?c)) ''prod'' ''web'' (cl_State ?c) = Ret ((delay, err'), st')"
    using next_returns [of ?c "cl_Object ?c" 1] by (auto simp: versions_def)
  moreover obtain mc configs simple cpu memory prom where
    "e = engineOf samplePodWorld ?prw mc configs simple cpu memory prom" "Prom_Config_Validate prom = None"
    using program_Served [OF e] by blast
  then obtain outs managed st2 where "scalerLoop (requestWorld 0 servedObject) (w_Clock (requestWorld 0 servedObject) AtReconcile) ''app=web''
      sampleScale 0 (spec_Targets (ra_Spec servedObject)) [] [] (cl_State ?first) = Ret (Inr (outs, managed), st2)"
    "{''cpu'', ''prometheus''} \<subseteq> fst ` set outs" using both_scalers_asked [of e _ _ _ _ _ _ "''app=web''"] by force
  ultimately show ?thesis using e step by blast
qed

text \<open>
  When the process serves. It reaches the manager's start exactly when the schemes register, the command line
  parses, the configuration file reads and decodes over the defaults, the Kubernetes libraries set up, the caches synchronise, and each of
  the four plugins has a configuration in it that decodes and validates; it serves with the number of workers of
  the configuration. The registration of the plugins never panics.
\<close>

lemma program_serves_iff:
  "(\<exists>e code. program w pw prw d = Ret (Served e workers code)) \<longleftrightarrow>
     mw_AddClientGoToScheme w = None \<and> mw_AddWingToScheme w = None \<and>
     (\<exists>fl content config. mw_Parse w defaultFlags = Inr fl \<and> mw_ReadFile w (fl_Config fl) = Inr content \<and>
        mw_UnmarshalConfig w content Controllers_NewDefaultConfig = (config, None) \<and> mw_GetConfig w = None \<and>
        mw_NewManager w (managerOptions fl) = None \<and> mw_NewForConfig w ''wing-controller-discovery'' (Some (200, 20)) = None \<and>
        mw_NewForConfig w ''wing-engine'' None = None \<and> mw_NewMetricsClients w = None \<and> mw_CachesSync w \<and>
        (\<exists>c. configured (dec_simple d) Simple_Validate Simple_NewDefaultConfig (cc_Plugins config) ''simple'' c) \<and>
        (\<exists>c. configured (dec_pod d) Pod_Validate Pod_NewDefaultConfig (cc_Plugins config) ''cpu'' c) \<and>
        (\<exists>c. configured (dec_pod d) Pod_Validate Pod_NewDefaultConfig (cc_Plugins config) ''memory'' c) \<and>
        (\<exists>c. configured (dec_prometheus d) Prom_Config_Validate Prom_NewDefaultConfig (cc_Plugins config) ''prometheus'' c) \<and>
        mw_NewDiscoveryClient w = None \<and> mw_Complete w (cc_Workers config) = None \<and> mw_AddHealthzCheck w = None \<and>
        mw_AddReadyzCheck w = None \<and> workers = cc_Workers config)"
proof -
  obtain reg where reg: "registerAll (importedPlugins pw prw d) fmempty = Ret reg" using registered by blast
  have init: "main_init w = Ret u \<longleftrightarrow> mw_AddClientGoToScheme w = None \<and> mw_AddWingToScheme w = None" for u
    by (auto simp: main_init_def exec_bind_Ret_iff start_simps)
  have served: "program w pw prw d = Ret r \<longleftrightarrow> main_init w = Ret () \<and> main w reg = Ret r" for r
    by (auto simp: program_def reg exec_bind_Ret_iff)
  show ?thesis
    unfolding served init main_Served Engine_New_iff [OF reg] LoadConfig_ok SetupWithManager_ok engineClients_Ret by blast
qed

end
