(* ===== verification/Engine_Runtime.thy ===== *)
theory Engine_Runtime
  imports Engine
begin

text \<open>
  What the engine holds on to besides the plugins: the raw YAML of their configurations (\<^verbatim>\<open>utils/yaml.go\<close>) and the
  informers of the pods (\<^verbatim>\<open>core/engine/informer_factory.go\<close>).

  The YAML library and the informers of client-go are parameters. Shown: a plugin reads its configuration from the very node
  that the file had under its name, however late it asks; \<^verbatim>\<open>Run\<close> reports exactly the caches that have not synchronised, and, called as
  the engine calls it, has none to report.
\<close>

subsection \<open>Raw YAML\<close>

text \<open>A message before it is filled has no node. \<^verbatim>\<open>Decode\<close> on a nil node is not reached by the program, whose messages all
  come from \<^verbatim>\<open>UnmarshalYAML\<close>; it panics in the model.\<close>

record 'n YamlRawMessage =
  yaml_node :: "'n option"

definition UnmarshalYAML :: "'n \<Rightarrow> 'n YamlRawMessage \<Rightarrow> 'n YamlRawMessage \<times> goerr option" where
  "UnmarshalYAML node m = (m\<lparr>yaml_node := Some node\<rparr>, None)"

definition YamlRawMessage_Unmarshal ::
  "('n \<Rightarrow> 'c \<Rightarrow> 'c \<times> goerr option) \<Rightarrow> 'n YamlRawMessage \<Rightarrow> 'c \<Rightarrow> ('c \<times> goerr option) exec" where
  "YamlRawMessage_Unmarshal Decode m receiver =
     (case yaml_node m of None \<Rightarrow> Panic ''nil node'' | Some node \<Rightarrow> Ret (Decode node receiver))"

text \<open>The \<^verbatim>\<open>plugins\<close> map of the configuration file, decoded by the library: one message for each key, filled by
  \<^verbatim>\<open>UnmarshalYAML\<close>.\<close>

definition loadMessages :: "(string \<times> 'n) list \<Rightarrow> (string, 'n YamlRawMessage) fmap" where
  "loadMessages doc = fmap_of_list (map (\<lambda>(k, node). (k, fst (UnmarshalYAML node \<lparr>yaml_node = None\<rparr>))) doc)"

text \<open>\<^verbatim>\<open>rawConfig.Unmarshal\<close> as the argument \<open>decode\<close> of \<open>GetPluginConfig\<close>.\<close>

definition decodeMessage ::
  "('n \<Rightarrow> 'c \<Rightarrow> 'c \<times> goerr option) \<Rightarrow> 'n YamlRawMessage \<Rightarrow> 'c \<Rightarrow> 'c \<times> goerr option" where
  "decodeMessage Decode m c =
     (case YamlRawMessage_Unmarshal Decode m c of Ret r \<Rightarrow> r | Panic s \<Rightarrow> (c, Some (errNew s)))"

lemma fmlookup_loadMessages: "fmlookup (loadMessages doc) k = map_option (\<lambda>n. \<lparr>yaml_node = Some n\<rparr>) (map_of doc k)"
  by (induction doc) (auto simp: loadMessages_def fmlookup_of_list UnmarshalYAML_def)

lemma loadMessages_never_panic:
  "fmlookup (loadMessages doc) k = Some m \<Longrightarrow> \<exists>r. YamlRawMessage_Unmarshal Decode m c = Ret r"
  by (auto simp: fmlookup_loadMessages YamlRawMessage_Unmarshal_def)

text \<open>The configuration of a plugin is decoded from its node of the file.\<close>

lemma GetPluginConfig_loaded:
  "GetPluginConfig (decodeMessage Decode) Validate (newEngineProvisioner mc (loadMessages doc)) name (PointerTo c) =
     (case map_of doc name of
        None \<Rightarrow> (False, None, PointerTo c)
      | Some node \<Rightarrow>
          (case Decode node c of
             (c', Some err) \<Rightarrow> (True, Some err, PointerTo c')
           | (c', None) \<Rightarrow> (True, Validate c', PointerTo c')))"
  by (auto simp: GetPluginConfig_def newEngineProvisioner_def fmlookup_loadMessages decodeMessage_def
      YamlRawMessage_Unmarshal_def split: option.splits)

subsection \<open>Informers\<close>

text \<open>The shared informer factory of client-go is a parameter: how it is made, \<^verbatim>\<open>Core().V1().Pods().Informer()\<close>, \<^verbatim>\<open>Start\<close>,
  \<^verbatim>\<open>WaitForCacheSync\<close> (nothing while it blocks, else whether the cache of each running informer has synchronised) and the lister of
  the pods (what it answers on an occasion).\<close>

record 'f FactoryLib =
  fac_New :: "Duration \<Rightarrow> 'f"
  fac_PodInformer :: "'f \<Rightarrow> 'f"
  fac_Start :: "'f \<Rightarrow> 'f"
  fac_WaitForCacheSync :: "'f \<Rightarrow> (string \<times> bool) list option"
  fac_PodLister :: "'f \<Rightarrow> nat \<Rightarrow> PodLister"

record 'f InformerFactory =
  if_factory :: 'f

definition NewInformerFactory :: "'f FactoryLib \<Rightarrow> 'f InformerFactory" where
  "NewInformerFactory lib = \<lparr>if_factory = fac_New lib (60 * Second)\<rparr>"

text \<open>The result of \<^verbatim>\<open>Run\<close> has the errors that it hands to \<^verbatim>\<open>runtime.HandleError\<close>.\<close>

definition InformerFactory_Run :: "'f FactoryLib \<Rightarrow> 'f InformerFactory \<Rightarrow> ('f InformerFactory \<times> goerr list) option" where
  "InformerFactory_Run lib f =
     (let factory = fac_Start lib (fac_PodInformer lib (if_factory f)) in
      case fac_WaitForCacheSync lib factory of
        None \<Rightarrow> None
      | Some syncs \<Rightarrow>
          Some (f\<lparr>if_factory := factory\<rparr>,
                map (\<lambda>(ty, syn). errNew (''wait for cache '' @ ty @ '' sync timeout'')) (filter (\<lambda>(ty, syn). \<not> syn) syncs)))"

definition InformerFactory_PodLister :: "'f FactoryLib \<Rightarrow> 'f InformerFactory \<Rightarrow> nat \<Rightarrow> PodLister" where
  "InformerFactory_PodLister lib f = fac_PodLister lib (if_factory f)"

text \<open>What is documented of \<^verbatim>\<open>WaitForCacheSync\<close>: it gives up on a cache only when the channel is closed. The engine passes a channel
  that nobody closes.\<close>

definition waits_to_the_end :: "'f FactoryLib \<Rightarrow> bool" where
  "waits_to_the_end lib \<longleftrightarrow> (\<forall>factory syncs. fac_WaitForCacheSync lib factory = Some syncs \<longrightarrow> (\<forall>(ty, syn)\<in>set syncs. syn))"

lemma Run_no_errors:
  "waits_to_the_end lib \<Longrightarrow> InformerFactory_Run lib f = Some (f', errs) \<Longrightarrow> errs = []"
  by (fastforce simp: InformerFactory_Run_def waits_to_the_end_def Let_def filter_empty_conv split: option.splits)

end
