(* ===== verification/Metrics_Client.thy ===== *)
theory Metrics_Client
  imports Podresource
begin

text \<open>
  The client behind the metrics library (\<^verbatim>\<open>utils/metrics/client.go\<close>, \<^verbatim>\<open>utils/metrics/interfaces.go\<close>): three clients of the
  Kubernetes metrics APIs, embedded in one structure, which by this has the methods of all of them.

  The API clients are parameters: what they answer on an occasion, for the arguments that the code passes. The methods are those
  of \<open>Metrics\<close> with the call to the API in front. Shown: the pod scalers, which hold the interface \<open>MetricsClient\<close>, read through this client
  what the resource-metrics API answers for the namespace and the selector of the request, for all containers of a pod together, and nothing of the other
  two APIs.
\<close>

type_synonym GroupKind = "string \<times> string"

text \<open>\<^verbatim>\<open>PodMetricses(namespace).List\<close> with the selector as a string.\<close>

record resourceMetricsClient =
  rmc_PodMetricses :: "nat \<Rightarrow> string \<Rightarrow> string \<Rightarrow> PodMetrics list result"

text \<open>\<^verbatim>\<open>GetForObjects\<close> and \<^verbatim>\<open>GetForObject\<close>, with the namespace or at the root: kind, selector or name, metric, metric selector.\<close>

record customMetricsClient =
  cmc_GetForObjects :: "nat \<Rightarrow> string \<Rightarrow> GroupKind \<Rightarrow> Selector \<Rightarrow> string \<Rightarrow> Selector \<Rightarrow> MetricValue list result"
  cmc_GetForObject :: "nat \<Rightarrow> string \<Rightarrow> GroupKind \<Rightarrow> string \<Rightarrow> string \<Rightarrow> Selector \<Rightarrow> MetricValue result"
  cmc_RootScoped :: "nat \<Rightarrow> GroupKind \<Rightarrow> string \<Rightarrow> string \<Rightarrow> Selector \<Rightarrow> MetricValue result"

record externalMetricsClient =
  emc_List :: "nat \<Rightarrow> string \<Rightarrow> string \<Rightarrow> Selector \<Rightarrow> MetricValue list result"

record restMetricsClient =
  rest_resource :: resourceMetricsClient
  rest_custom :: customMetricsClient
  rest_external :: externalMetricsClient

definition NewRESTMetricsClient ::
  "resourceMetricsClient \<Rightarrow> customMetricsClient \<Rightarrow> externalMetricsClient \<Rightarrow> restMetricsClient" where
  "NewRESTMetricsClient resourceClient customClient externalClient =
     \<lparr>rest_resource = resourceClient, rest_custom = customClient, rest_external = externalClient\<rparr>"

text \<open>The outside of the methods: quantities, the group and kind of a reference, and the printing of selectors.\<close>

record MetricsWorld =
  mx_MilliValue :: "Quantity \<Rightarrow> int"
  mx_FromAPIVersionAndKind :: "string \<Rightarrow> string \<Rightarrow> GroupKind"
  mx_SelectorString :: "Selector \<Rightarrow> string"

definition rest_GetResourceMetric ::
  "MetricsWorld \<Rightarrow> resourceMetricsClient \<Rightarrow> nat \<Rightarrow> ResourceName \<Rightarrow> string \<Rightarrow> Selector \<Rightarrow> string \<Rightarrow> (PodMetricsInfo \<times> Time) result" where
  "rest_GetResourceMetric mx c occasion resource namespace selector container =
     GetResourceMetric (mx_MilliValue mx) (rmc_PodMetricses c occasion namespace (mx_SelectorString mx selector)) resource container"

definition rest_GetRawMetric ::
  "MetricsWorld \<Rightarrow> customMetricsClient \<Rightarrow> nat \<Rightarrow> string \<Rightarrow> string \<Rightarrow> Selector \<Rightarrow> Selector \<Rightarrow> (PodMetricsInfo \<times> Time) result" where
  "rest_GetRawMetric mx c occasion metricName namespace selector metricSelector =
     GetRawMetric (mx_MilliValue mx) (cmc_GetForObjects c occasion namespace ([], ''Pod'') selector metricName metricSelector)"

definition rest_GetObjectMetric ::
  "MetricsWorld \<Rightarrow> customMetricsClient \<Rightarrow> nat \<Rightarrow> string \<Rightarrow> string \<Rightarrow> CrossVersionObjectReference \<Rightarrow> Selector \<Rightarrow> (int \<times> Time) result" where
  "rest_GetObjectMetric mx c occasion metricName namespace objectRef metricSelector =
     GetObjectMetric (mx_MilliValue mx) (mx_FromAPIVersionAndKind mx)
       (\<lambda>gk name. cmc_RootScoped c occasion gk name metricName metricSelector)
       (\<lambda>ns gk name. cmc_GetForObject c occasion ns gk name metricName metricSelector) namespace objectRef"

definition rest_GetExternalMetric ::
  "MetricsWorld \<Rightarrow> externalMetricsClient \<Rightarrow> nat \<Rightarrow> string \<Rightarrow> string \<Rightarrow> Selector \<Rightarrow> (int list \<times> Time) result" where
  "rest_GetExternalMetric mx c occasion metricName namespace selector =
     GetExternalMetric (mx_MilliValue mx) (emc_List c occasion namespace metricName selector)"

text \<open>The four methods as an interface, and the structure as a value of it.\<close>

record MetricsClientMethods =
  m_GetResourceMetric :: "nat \<Rightarrow> ResourceName \<Rightarrow> string \<Rightarrow> Selector \<Rightarrow> string \<Rightarrow> (PodMetricsInfo \<times> Time) result"
  m_GetRawMetric :: "nat \<Rightarrow> string \<Rightarrow> string \<Rightarrow> Selector \<Rightarrow> Selector \<Rightarrow> (PodMetricsInfo \<times> Time) result"
  m_GetObjectMetric :: "nat \<Rightarrow> string \<Rightarrow> string \<Rightarrow> CrossVersionObjectReference \<Rightarrow> Selector \<Rightarrow> (int \<times> Time) result"
  m_GetExternalMetric :: "nat \<Rightarrow> string \<Rightarrow> string \<Rightarrow> Selector \<Rightarrow> (int list \<times> Time) result"

definition restMethods :: "MetricsWorld \<Rightarrow> restMetricsClient \<Rightarrow> MetricsClientMethods" where
  "restMethods mx c =
     \<lparr>m_GetResourceMetric = rest_GetResourceMetric mx (rest_resource c),
      m_GetRawMetric = rest_GetRawMetric mx (rest_custom c),
      m_GetObjectMetric = rest_GetObjectMetric mx (rest_custom c),
      m_GetExternalMetric = rest_GetExternalMetric mx (rest_external c)\<rparr>"

text \<open>What the pod scalers keep of the client.\<close>

definition podMetricsOf :: "MetricsWorld \<Rightarrow> restMetricsClient \<Rightarrow> MetricsClient" where
  "podMetricsOf mx c =
     \<lparr>mc_PodMetrics = (\<lambda>occasion namespace selector. rmc_PodMetricses (rest_resource c) occasion namespace (mx_SelectorString mx selector))\<rparr>"

lemma podMetricsOf_method:
  "GetResourceMetric (mx_MilliValue mx) (mc_PodMetrics (podMetricsOf mx c) occasion namespace selector) resource container =
     m_GetResourceMetric (restMethods mx c) occasion resource namespace selector container"
  by (simp add: podMetricsOf_def restMethods_def rest_GetResourceMetric_def)

lemma podMetricsOf_New:
  "podMetricsOf mx (NewRESTMetricsClient r cu ex) = podMetricsOf mx (NewRESTMetricsClient r cu' ex')"
  by (simp add: podMetricsOf_def NewRESTMetricsClient_def)

subsection \<open>The answers\<close>

text \<open>The names in an answer are names of pods that the API returned, and every pod all of whose containers report the resource is there.\<close>

lemma dom_podMetricsLoop:
  "fst ` set (podMetricsLoop mv resource ms res) =
     fst ` set res \<union> {pms_Name m | m. m \<in> set ms \<and> pms_Containers m \<noteq> [] \<and> sumContainers mv resource (pms_Containers m) 0 \<noteq> None}"
  by (induction ms arbitrary: res) (auto simp: dom_update split: option.splits)

lemma GetResourceMetric_pods:
  assumes "m_GetResourceMetric (restMethods mx c) occasion resource namespace selector [] = Inr (res, t)"
    and "rmc_PodMetricses (rest_resource c) occasion namespace (mx_SelectorString mx selector) = Inr ms"
  shows "fst ` set res =
    {pms_Name m | m. m \<in> set ms \<and> pms_Containers m \<noteq> [] \<and> sumContainers (mx_MilliValue mx) resource (pms_Containers m) 0 \<noteq> None}"
    and "ms \<noteq> []" and "t = pms_Timestamp (hd ms)"
proof -
  have r: "res = podMetricsLoop (mx_MilliValue mx) resource ms []" "ms \<noteq> []" "t = pms_Timestamp (hd ms)"
    using assms by (auto simp: restMethods_def rest_GetResourceMetric_def GetResourceMetric_def getPodMetrics_def
        simp del: podMetricsLoop.simps split: list.splits)
  then show "fst ` set res = {pms_Name m | m. m \<in> set ms \<and> pms_Containers m \<noteq> [] \<and>
      sumContainers (mx_MilliValue mx) resource (pms_Containers m) 0 \<noteq> None}" by (simp only: dom_podMetricsLoop) simp
  show "ms \<noteq> []" "t = pms_Timestamp (hd ms)" using r by simp_all
qed

lemma GetRawMetric_pods:
  assumes "m_GetRawMetric (restMethods mx c) occasion name namespace selector metricSelector = Inr (res, t)"
    and "cmc_GetForObjects (rest_custom c) occasion namespace ([], ''Pod'') selector name metricSelector = Inr ms"
  shows "fst ` set res = mv_DescribedObject ` set ms" and "ms \<noteq> []"
proof -
  have loop: "fst ` set (rawMetricsLoop mv ms res) = fst ` set res \<union> mv_DescribedObject ` set ms" for mv ms res
    by (induction ms arbitrary: res) (auto simp: dom_update)
  have r: "res = rawMetricsLoop (mx_MilliValue mx) ms []" "ms \<noteq> []"
    using assms by (auto simp: restMethods_def rest_GetRawMetric_def GetRawMetric_def simp del: rawMetricsLoop.simps split: list.splits)
  then show "fst ` set res = mv_DescribedObject ` set ms" by (simp only: loop) simp
  show "ms \<noteq> []" using r by simp
qed

end
