(* ===== verification/Controller_Metrics.thy ===== *)
theory Controller_Metrics
  imports Reconciler_Safety
begin

text \<open>
  The counter of the controller (\<^verbatim>\<open>controllers/replicaautoscaler_metrics.go\<close>) and the two places of
  \<^verbatim>\<open>reconcileAutoscaling\<close> that add to it (\<^verbatim>\<open>controllers/replicaautoscaler_reconcile.go\<close>).

  The Prometheus client library is the record \<open>PromLib\<close>, a parameter: making a vector of counters, \<^verbatim>\<open>WithLabelValues(...).Add\<close>, which
  changes the vector or panics, and \<^verbatim>\<open>MustRegister\<close>. What its documentation promises is \<open>documented\<close>: an addition with as many label
  values as the vector has labels, all of them valid, and of nothing negative returns, and adds to the counter of these label values alone.

  The flow with the counters (names ending in \<open>M\<close>) threads the vector through the flow of \<open>Reconciler\<close>. Shown: counting never changes or breaks a
  reconciliation; each scaler that answers is counted once, under its own labels; and the counter of the replicator is
  independent of the replicator, because its clock is stopped before the replicator runs.
\<close>

subsection \<open>The counter\<close>

record CounterOpts =
  co_Name :: string
  co_Help :: string

record ('v, 'g) PromLib =
  pl_NewCounterVec :: "CounterOpts \<Rightarrow> string list \<Rightarrow> 'v"
  pl_Add :: "'v \<Rightarrow> string list \<Rightarrow> float64 \<Rightarrow> 'v exec"
  pl_MustRegister :: "'g \<Rightarrow> 'v \<Rightarrow> 'g exec"

definition metricPluginElapsed :: "('v, 'g) PromLib \<Rightarrow> 'v" where
  "metricPluginElapsed lib =
     pl_NewCounterVec lib
       \<lparr>co_Name = ''plugin_elapsed'', co_Help = ''The time elapsed for the scaler/replicator plugin to run''\<rparr>
       [''namespace'', ''replicaautoscaler'', ''plugin'', ''kind'']"

definition metrics_init :: "('v, 'g) PromLib \<Rightarrow> 'g \<Rightarrow> 'g exec" where
  "metrics_init lib registry = pl_MustRegister lib registry (metricPluginElapsed lib)"

text \<open>\<^verbatim>\<open>Duration.Seconds()\<close>: the whole seconds and the fraction, each as a float.\<close>

definition Duration_Seconds :: "Duration \<Rightarrow> float64" where
  "Duration_Seconds d =
     (let sec = go_quot d Second; nsec = d - sec * Second
      in f64_add (f64_of_int sec) (f64_div (f64_of_int nsec) (f64_of_int 1000000000)))"

text \<open>The readings of the clock around a plugin: \<open>i\<close> is the index of the target.\<close>

datatype TimerSite = AtScalerStart nat | AtScalerEnd nat | AtReplicatorStart | AtReplicatorEnd

definition addElapsed ::
  "('v, 'g) PromLib \<Rightarrow> ReplicaAutoscaler \<Rightarrow> string \<Rightarrow> string \<Rightarrow> Time \<Rightarrow> Time \<Rightarrow> 'v \<Rightarrow> 'v exec" where
  "addElapsed lib autoscaler plugin kind startAt since v =
     pl_Add lib v [ra_Namespace autoscaler, ra_Name autoscaler, plugin, kind] (Duration_Seconds (time_Sub since startAt))"

subsection \<open>The flow with the counter\<close>

fun scalerLoopM ::
  "('v, 'g) PromLib \<Rightarrow> (TimerSite \<Rightarrow> Time) \<Rightarrow> World \<Rightarrow> Time \<Rightarrow> Selector \<Rightarrow> Scale \<Rightarrow> nat \<Rightarrow> ReplicaAutoscalerTarget list \<Rightarrow>
   (string \<times> ScalerOutput) list \<Rightarrow> string list \<Rightarrow> ('r, 'y, 'm) RState \<Rightarrow> 'v \<Rightarrow>
   (((Duration + (string \<times> ScalerOutput) list \<times> string list) \<times> ('r, 'y, 'm) RState) \<times> 'v) exec" where
  "scalerLoopM lib tclk w now selector scale i [] outputs managed st v = Ret ((Inr (outputs, managed), st), v)"
| "scalerLoopM lib tclk w now selector scale i (target # targets) outputs managed st v =
     (let scalerStartAt = tclk (AtScalerStart i) in
      case GetScheduledSettingsRaw (w_MergePatch w) (w_TimeEnv w) now (tgt_Settings target) of
        Panic m \<Rightarrow> Panic m
      | Ret (Inl err) \<Rightarrow> Ret ((Inl RequeueDelayOnErrorState, st), v)
      | Ret (Inr scheduledTargetSettings) \<Rightarrow>
          (case GetScaler (rs_Engine st) (tgt_Metric target) of
             None \<Rightarrow>
               Ret ((Inl DefaultRequeueDelay,
                    setCond (w_Clock w AtNoScaler)
                      (mkCondition ConditionReady ConditionFalse ''ScalerNotExists''
                         (''Scaler `'' @ tgt_Metric target @ ''` not exists for target'')) st), v)
           | Some scaler \<Rightarrow>
               (case scaler (w_Occasion w i)
                       \<lparr>sc_PodLister = w_PodLister w (Suc i), sc_RawSettings = scheduledTargetSettings,
                        sc_ScaleTargetRef = zeroRef, sc_Namespace = ra_Namespace (rs_Autoscaler st),
                        sc_ScaledObjectSelector = selector, sc_CurrentReplicas = scale_Spec_Replicas scale\<rparr>
                       (rs_Status st) of
                  Panic m \<Rightarrow> Panic m
                | Ret (Inl err, status) \<Rightarrow> Ret ((Inl RequeueDelayOnErrorState, setStatus status st), v)
                | Ret (Inr scalerOutput, status) \<Rightarrow>
                    exec_bind
                      (addElapsed lib (rs_Autoscaler st) (tgt_Metric target) ''scaler'' scalerStartAt (tclk (AtScalerEnd i)) v)
                      (scalerLoopM lib tclk w now selector scale (Suc i) targets
                        (setOutput (tgt_Metric target) scalerOutput outputs)
                        (managed @ so_ManagedTargetStatus scalerOutput) (setStatus status st)))))"

text \<open>The lookup of the replicator, which is what lies between the two readings of the clock, is repeated inside
  \<open>askReplicator\<close>.\<close>

definition askReplicatorM ::
  "('v, 'g) PromLib \<Rightarrow> (TimerSite \<Rightarrow> Time) \<Rightarrow> 'r GetDesired \<Rightarrow> World \<Rightarrow> bool \<Rightarrow> GroupVersionKindResource \<Rightarrow> Scale \<Rightarrow>
   (string \<times> ScalerOutput) list \<Rightarrow> ('r, 'y, 'm) RState \<Rightarrow> 'v \<Rightarrow> ((Duration \<times> ('r, 'y, 'm) RState) \<times> 'v) exec" where
  "askReplicatorM lib tclk getDesired w underPanicModeCurrently gvkr scale outputs st v =
     (let selectedReplicator = (case spec_Replicator (ra_Spec (rs_Autoscaler st)) of
                                  None \<Rightarrow> DefaultReplicator | Some n \<Rightarrow> n);
          replicatorStartAt = tclk AtReplicatorStart
      in exec_bind
           (addElapsed lib (rs_Autoscaler st) selectedReplicator ''replicator'' replicatorStartAt (tclk AtReplicatorEnd) v)
           (\<lambda>v'. exec_bind (askReplicator getDesired w underPanicModeCurrently gvkr scale outputs st) (\<lambda>r. Ret (r, v'))))"

definition reconcileAutoscalingM ::
  "('v, 'g) PromLib \<Rightarrow> (TimerSite \<Rightarrow> Time) \<Rightarrow> 'r GetDesired \<Rightarrow> World \<Rightarrow> GroupVersionKindResource \<Rightarrow> Scale \<Rightarrow>
   ('r, 'y, 'm) RState \<Rightarrow> 'v \<Rightarrow> ((Duration \<times> ('r, 'y, 'm) RState) \<times> 'v) exec" where
  "reconcileAutoscalingM lib tclk getDesired w gvkr scale st v =
     (case w_LabelsParse w (scale_Status_Selector scale) of
        Inl err \<Rightarrow> Ret ((RequeueDelayOnErrorState, st), v)
      | Inr scaledObjectSelector \<Rightarrow>
          (let underPanicModeCurrently =
                 StillInPanicMode (w_Clock w AtStillPanic) (rs_Status st) (spec_Strategy (ra_Spec (rs_Autoscaler st)))
           in if coldDown w (rs_Status st) underPanicModeCurrently then Ret ((DefaultRequeueDelay, st), v)
              else
                exec_bind
                  (scalerLoopM lib tclk w (w_Clock w AtReconcile) scaledObjectSelector scale 0
                     (spec_Targets (ra_Spec (rs_Autoscaler st))) [] [] st v)
                  (\<lambda>((r, st1), v1).
                     case r of
                       Inl delay \<Rightarrow> Ret ((delay, st1), v1)
                     | Inr (outputs, managedTargetStatus) \<Rightarrow>
                         askReplicatorM lib tclk getDesired w underPanicModeCurrently gvkr scale outputs
                           (setStatus (PurgeTargetStatus managedTargetStatus (rs_Status st1)) st1) v1)))"

subsection \<open>What is added\<close>

text \<open>The additions for a list of targets that have answered.\<close>

fun addAll ::
  "('v, 'g) PromLib \<Rightarrow> (TimerSite \<Rightarrow> Time) \<Rightarrow> ReplicaAutoscaler \<Rightarrow> nat \<Rightarrow> ReplicaAutoscalerTarget list \<Rightarrow> 'v \<Rightarrow> 'v exec" where
  "addAll lib tclk autoscaler i [] v = Ret v"
| "addAll lib tclk autoscaler i (target # targets) v =
     exec_bind (addElapsed lib autoscaler (tgt_Metric target) ''scaler'' (tclk (AtScalerStart i)) (tclk (AtScalerEnd i)) v)
       (addAll lib tclk autoscaler (Suc i) targets)"

lemma addElapsed_status [simp]: "addElapsed lib (ra\<lparr>ra_Status := s\<rparr>) = addElapsed lib ra"
  by (intro ext) (simp add: addElapsed_def)

lemma addAll_status [simp]: "addAll lib tclk (ra\<lparr>ra_Status := s\<rparr>) i targets v = addAll lib tclk ra i targets v"
proof (induction targets arbitrary: i v)
  case (Cons target targets)
  then have "addAll lib tclk (ra\<lparr>ra_Status := s\<rparr>) (Suc i) targets = addAll lib tclk ra (Suc i) targets" by (intro ext)
  then show ?case by simp
qed simp

text \<open>The loop with the counter is the loop, with the additions for the targets before the one it stopped at.\<close>

lemma scalerLoopM_sum:
  "\<exists>k \<le> length targets.
     (\<forall>x st'. scalerLoop w now selector scale i targets outputs managed st = Ret (Inr x, st') \<longrightarrow> k = length targets) \<and>
     scalerLoopM lib tclk w now selector scale i targets outputs managed st v =
       exec_bind (addAll lib tclk (rs_Autoscaler st) i (take k targets) v)
         (\<lambda>v'. exec_bind (scalerLoop w now selector scale i targets outputs managed st) (\<lambda>r. Ret (r, v')))"
proof (induction targets arbitrary: i outputs managed st v)
  case (Cons target targets)
  let ?settings = "GetScheduledSettingsRaw (w_MergePatch w) (w_TimeEnv w) now (tgt_Settings target)"
  let ?call = "\<lambda>scaler raw. scaler (w_Occasion w i)
      \<lparr>sc_PodLister = w_PodLister w (Suc i), sc_RawSettings = raw, sc_ScaleTargetRef = zeroRef,
       sc_Namespace = ra_Namespace (rs_Autoscaler st), sc_ScaledObjectSelector = selector,
       sc_CurrentReplicas = scale_Spec_Replicas scale\<rparr> (rs_Status st)"
  show ?case
  proof (cases "\<exists>raw scaler out status. ?settings = Ret (Inr raw) \<and> GetScaler (rs_Engine st) (tgt_Metric target) = Some scaler \<and>
      ?call scaler raw = Ret (Inr out, status)")
    case True
    then obtain raw scaler out status where e: "?settings = Ret (Inr raw)" "GetScaler (rs_Engine st) (tgt_Metric target) = Some scaler"
      "?call scaler raw = Ret (Inr out, status)" by blast
    let ?outputs = "setOutput (tgt_Metric target) out outputs" and ?managed = "managed @ so_ManagedTargetStatus out"
    let ?add = "addElapsed lib (rs_Autoscaler st) (tgt_Metric target) ''scaler'' (tclk (AtScalerStart i)) (tclk (AtScalerEnd i)) v"
    show ?thesis
    proof (cases ?add)
      case (Panic m)
      show ?thesis by (rule exI [of _ "length (target # targets)"]) (simp add: e Panic)
    next
      case (Ret v1)
      from Cons.IH [of "Suc i" ?outputs ?managed "setStatus status st" v1] obtain k where k: "k \<le> length targets"
        "\<forall>x st'. scalerLoop w now selector scale (Suc i) targets ?outputs ?managed (setStatus status st) = Ret (Inr x, st') \<longrightarrow> k = length targets"
        "scalerLoopM lib tclk w now selector scale (Suc i) targets ?outputs ?managed (setStatus status st) v1 =
           exec_bind (addAll lib tclk (rs_Autoscaler st) (Suc i) (take k targets) v1)
             (\<lambda>v'. exec_bind (scalerLoop w now selector scale (Suc i) targets ?outputs ?managed (setStatus status st)) (\<lambda>r. Ret (r, v')))"
        by (auto simp: setStatus_def)
      then show ?thesis by (intro exI [of _ "Suc k"]) (simp add: e Ret)
    qed
  next
    case False
    then show ?thesis
      by (intro exI [of _ 0]) (auto split: exec.splits sum.splits option.splits prod.splits)
  qed
qed simp

subsection \<open>The library's contract\<close>

text \<open>What the library documents, with \<open>arity\<close> the number of labels of a vector and \<open>reading\<close> the value of the counter of some label
  values \<open>lvs\<close>: \<^verbatim>\<open>WithLabelValues\<close> panics when the number of label values is not that of the labels or one of them is not \<open>valid\<close> (not UTF-8),
  \<^verbatim>\<open>Add\<close> panics on a negative number, and a counter only ever goes up.\<close>

definition documented :: "(string \<Rightarrow> bool) \<Rightarrow> ('v, 'g) PromLib \<Rightarrow> ('v \<Rightarrow> nat) \<Rightarrow> ('v \<Rightarrow> string list \<Rightarrow> float64) \<Rightarrow> bool" where
  "documented valid lib arity reading \<longleftrightarrow>
     (\<forall>opts labels. arity (pl_NewCounterVec lib opts labels) = length labels) \<and>
     (\<forall>v lvs x. length lvs = arity v \<and> list_all valid lvs \<and> f64_le (Fin 0) x \<longrightarrow>
        (\<exists>v'. pl_Add lib v lvs x = Ret v' \<and> arity v' = arity v \<and> f64_le (reading v lvs) (reading v' lvs) \<and>
              (\<forall>other. other \<noteq> lvs \<longrightarrow> reading v' other = reading v other)))"

text \<open>The labels that the flow for an object can use, all of them valid: what the API server stores is.\<close>

definition labels_valid :: "(string \<Rightarrow> bool) \<Rightarrow> ReplicaAutoscaler \<Rightarrow> bool" where
  "labels_valid valid ra \<longleftrightarrow>
     list_all valid [ra_Namespace ra, ra_Name ra, ''scaler'', ''replicator'', DefaultReplicator] \<and>
     list_all (\<lambda>target. valid (tgt_Metric target)) (spec_Targets (ra_Spec ra)) \<and>
     pred_option valid (spec_Replicator (ra_Spec ra))"

lemma labels_valid_status [simp]: "labels_valid valid (ra\<lparr>ra_Status := s\<rparr>) = labels_valid valid ra"
  by (simp add: labels_valid_def)

text \<open>A step of the vector: nothing but the counters of the object has changed.\<close>

definition counted :: "('v \<Rightarrow> nat) \<Rightarrow> ('v \<Rightarrow> string list \<Rightarrow> float64) \<Rightarrow> ReplicaAutoscaler \<Rightarrow> 'v \<Rightarrow> 'v \<Rightarrow> bool" where
  "counted arity reading ra v v' \<longleftrightarrow>
     arity v' = arity v \<and> (\<forall>lvs. take 2 lvs \<noteq> [ra_Namespace ra, ra_Name ra] \<longrightarrow> reading v' lvs = reading v lvs)"

lemma counted_refl [simp]: "counted arity reading ra v v"
  by (simp add: counted_def)

lemma counted_trans: "counted arity reading ra v v1 \<Longrightarrow> counted arity reading ra v1 v2 \<Longrightarrow> counted arity reading ra v v2"
  by (simp add: counted_def)

lemma f64_nonneg_round: "0 \<le> x \<Longrightarrow> f64_le (Fin 0) (round64 x)"
  using round64_mono [of 0 x] by (simp add: round64_def [of 0])

lemma f64_nonneg_add: "f64_le (Fin 0) x \<Longrightarrow> f64_le (Fin 0) y \<Longrightarrow> f64_le (Fin 0) (f64_add x y)"
  by (cases x; cases y) (auto intro: f64_nonneg_round)

lemma Duration_Seconds_nonneg:
  assumes "0 \<le> d" shows "f64_le (Fin 0) (Duration_Seconds d)"
proof -
  have "go_quot d Second = d div Second" using assms by (intro go_quot_nonneg) simp_all
  moreover have "0 \<le> d - d div Second * Second" by (simp add: minus_div_mult_eq_mod)
  moreover have "f64_le (Fin 0) (f64_of_int n)" if "0 \<le> n" for n using that by (simp add: f64_of_int_def f64_nonneg_round)
  moreover have "f64_le (Fin 0) (f64_div x (f64_of_int 1000000000))" if "f64_le (Fin 0) x" for x
    using that by (cases x) (auto simp: f64_of_int_small intro: f64_nonneg_round)
  ultimately show ?thesis using assms
    by (auto simp: Duration_Seconds_def Let_def pos_imp_zdiv_nonneg_iff intro!: f64_nonneg_add)
qed

lemma addElapsed_counts:
  assumes "documented valid lib arity reading" "arity v = 4" "list_all valid [ra_Namespace ra, ra_Name ra, plugin, kind]" "startAt \<le> since"
  shows "\<exists>v'. addElapsed lib ra plugin kind startAt since v = Ret v' \<and> counted arity reading ra v v'"
proof -
  let ?lvs = "[ra_Namespace ra, ra_Name ra, plugin, kind]"
  have "f64_le (Fin 0) (Duration_Seconds (time_Sub since startAt))"
    using assms(4) by (intro Duration_Seconds_nonneg) (simp add: time_Sub_def)
  moreover have "length ?lvs = arity v" using assms(2) by simp
  ultimately obtain v' where "pl_Add lib v ?lvs (Duration_Seconds (time_Sub since startAt)) = Ret v'" "arity v' = arity v"
    "\<forall>other. other \<noteq> ?lvs \<longrightarrow> reading v' other = reading v other"
    using assms(1,3) unfolding documented_def by blast
  moreover have "take 2 ?lvs = [ra_Namespace ra, ra_Name ra]" by simp
  ultimately show ?thesis unfolding addElapsed_def counted_def by metis
qed

lemma addAll_counts:
  assumes "documented valid lib arity reading" "arity v = 4" "\<And>i. tclk (AtScalerStart i) \<le> tclk (AtScalerEnd i)"
    and "labels_valid valid ra" "set targets \<subseteq> set (spec_Targets (ra_Spec ra))"
  shows "\<exists>v'. addAll lib tclk ra i targets v = Ret v' \<and> counted arity reading ra v v'"
  using assms(2,5)
proof (induction targets arbitrary: i v)
  case (Cons target targets)
  have "list_all valid [ra_Namespace ra, ra_Name ra, tgt_Metric target, ''scaler'']"
    using assms(4) Cons.prems(2) by (auto simp: labels_valid_def list_all_iff)
  then obtain v1 where v1: "addElapsed lib ra (tgt_Metric target) ''scaler'' (tclk (AtScalerStart i)) (tclk (AtScalerEnd i)) v = Ret v1"
    "counted arity reading ra v v1" using addElapsed_counts [OF assms(1) Cons.prems(1) _ assms(3)] by blast
  then have "arity v1 = 4" "set targets \<subseteq> set (spec_Targets (ra_Spec ra))" using Cons.prems by (simp_all add: counted_def)
  from Cons.IH [OF this, of "Suc i"] v1 show ?case by (auto intro: counted_trans)
qed simp

lemma metricPluginElapsed_arity: "documented valid lib arity reading \<Longrightarrow> arity (metricPluginElapsed lib) = 4"
  by (simp add: documented_def metricPluginElapsed_def)

lemma scalerLoop_names:
  assumes "scalerLoop w now selector scale i targets outputs managed st = Ret (r, st')"
  shows "ra_Namespace (rs_Autoscaler st') = ra_Namespace (rs_Autoscaler st)" "ra_Name (rs_Autoscaler st') = ra_Name (rs_Autoscaler st)"
    "labels_valid valid (rs_Autoscaler st') = labels_valid valid (rs_Autoscaler st)"
  using scalerLoop_object [OF assms] by (auto simp: same_object_def)

lemma scalerLoopM_counts:
  assumes "documented valid lib arity reading" "arity v = 4" "\<And>i. tclk (AtScalerStart i) \<le> tclk (AtScalerEnd i)"
    and "labels_valid valid (rs_Autoscaler st)" "set targets \<subseteq> set (spec_Targets (ra_Spec (rs_Autoscaler st)))"
  shows "\<exists>v'. scalerLoopM lib tclk w now selector scale i targets outputs managed st v =
      exec_bind (scalerLoop w now selector scale i targets outputs managed st) (\<lambda>r. Ret (r, v')) \<and>
    counted arity reading (rs_Autoscaler st) v v'"
proof -
  obtain k where "scalerLoopM lib tclk w now selector scale i targets outputs managed st v =
       exec_bind (addAll lib tclk (rs_Autoscaler st) i (take k targets) v)
         (\<lambda>v'. exec_bind (scalerLoop w now selector scale i targets outputs managed st) (\<lambda>r. Ret (r, v')))"
    using scalerLoopM_sum [of targets w now selector scale i outputs managed st lib tclk v] by blast
  moreover have "set (take k targets) \<subseteq> set (spec_Targets (ra_Spec (rs_Autoscaler st)))"
    using set_take_subset [of k targets] assms(5) by blast
  ultimately show ?thesis using addAll_counts [OF assms(1-4), of "take k targets" i] by auto
qed

lemma askReplicatorM_counts:
  assumes "documented valid lib arity reading" "arity v = 4" "tclk AtReplicatorStart \<le> tclk AtReplicatorEnd"
    and "labels_valid valid (rs_Autoscaler st)"
  shows "\<exists>v'. askReplicatorM lib tclk getDesired w u gvkr scale outputs st v =
      exec_bind (askReplicator getDesired w u gvkr scale outputs st) (\<lambda>r. Ret (r, v')) \<and>
    counted arity reading (rs_Autoscaler st) v v'"
proof -
  let ?plugin = "case spec_Replicator (ra_Spec (rs_Autoscaler st)) of None \<Rightarrow> DefaultReplicator | Some n \<Rightarrow> n"
  have "list_all valid [ra_Namespace (rs_Autoscaler st), ra_Name (rs_Autoscaler st), ?plugin, ''replicator'']"
    using assms(4) by (auto simp: labels_valid_def split: option.splits)
  from addElapsed_counts [OF assms(1,2) this assms(3)] show ?thesis by (auto simp: askReplicatorM_def Let_def)
qed

lemma reconcileAutoscalingM_counts:
  assumes "documented valid lib arity reading" "arity v = 4"
    and "\<And>i. tclk (AtScalerStart i) \<le> tclk (AtScalerEnd i)" "tclk AtReplicatorStart \<le> tclk AtReplicatorEnd"
    and "labels_valid valid (rs_Autoscaler st)"
  shows "\<exists>v'. reconcileAutoscalingM lib tclk getDesired w gvkr scale st v =
      exec_bind (reconcileAutoscaling getDesired w gvkr scale st) (\<lambda>r. Ret (r, v')) \<and>
    counted arity reading (rs_Autoscaler st) v v'"
proof (cases "w_LabelsParse w (scale_Status_Selector scale)")
  case (Inl e)
  then show ?thesis by (intro exI [of _ v]) (simp add: reconcileAutoscaling_def reconcileAutoscalingM_def)
next
  case (Inr selector)
  define u where "u = StillInPanicMode (w_Clock w AtStillPanic) (rs_Status st) (spec_Strategy (ra_Spec (rs_Autoscaler st)))"
  let ?ra = "rs_Autoscaler st"
  let ?loop = "scalerLoop w (w_Clock w AtReconcile) selector scale 0 (spec_Targets (ra_Spec ?ra)) [] [] st"
  let ?loopM = "scalerLoopM lib tclk w (w_Clock w AtReconcile) selector scale 0 (spec_Targets (ra_Spec ?ra)) [] [] st v"
  note defs = reconcileAutoscaling_def reconcileAutoscalingM_def Inr u_def [symmetric]
  obtain v1 where loopM: "?loopM = exec_bind ?loop (\<lambda>r. Ret (r, v1))" and v1: "counted arity reading ?ra v v1"
    using scalerLoopM_counts [where targets = "spec_Targets (ra_Spec ?ra)" and st = st, OF assms(1-3,5)] by blast
  consider "coldDown w (rs_Status st) u" | m where "\<not> coldDown w (rs_Status st) u" "?loop = Panic m"
    | d st1 where "\<not> coldDown w (rs_Status st) u" "?loop = Ret (Inl d, st1)"
    | outputs managed st1 where "\<not> coldDown w (rs_Status st) u" "?loop = Ret (Inr (outputs, managed), st1)"
    by (metis exec.exhaust surj_pair sum.exhaust)
  then show ?thesis
  proof cases
    case 1
    then show ?thesis by (intro exI [of _ v]) (simp add: defs)
  next
    case (4 outputs managed st1)
    define st2 where "st2 = setStatus (PurgeTargetStatus managed (rs_Status st1)) st1"
    have names: "ra_Namespace (rs_Autoscaler st2) = ra_Namespace ?ra" "ra_Name (rs_Autoscaler st2) = ra_Name ?ra"
      "labels_valid valid (rs_Autoscaler st2)"
      using scalerLoop_names [OF 4(2)] assms(5) by (simp_all add: st2_def setStatus_def)
    have "arity v1 = 4" using v1 assms(2) by (simp add: counted_def)
    from askReplicatorM_counts [OF assms(1) this assms(4) names(3)]
    obtain v2 where "askReplicatorM lib tclk getDesired w u gvkr scale outputs st2 v1 =
        exec_bind (askReplicator getDesired w u gvkr scale outputs st2) (\<lambda>r. Ret (r, v2))"
      and "counted arity reading (rs_Autoscaler st2) v1 v2" by blast
    then show ?thesis using v1 4
      by (intro exI [of _ v2]) (simp add: defs loopM st2_def [symmetric] counted_def names)
  qed (use v1 in \<open>auto intro!: exI [of _ v1] simp: defs loopM\<close>)
qed

subsection \<open>A sample library\<close>

text \<open>A library that does what is documented: the vector holds its number of labels and the value of each counter.\<close>

definition sampleLib :: "(nat \<times> (string list \<Rightarrow> rat), unit) PromLib" where
  "sampleLib = \<lparr>pl_NewCounterVec = (\<lambda>_ labels. (length labels, \<lambda>_. 0)),
     pl_Add = (\<lambda>(n, vals) lvs x.
       if length lvs \<noteq> n then Panic ''inconsistent label cardinality''
       else if \<not> f64_le (Fin 0) x then Panic ''counter cannot decrease in value''
       else Ret (n, vals(lvs := vals lvs + (case x of Fin r \<Rightarrow> r | _ \<Rightarrow> 0)))),
     pl_MustRegister = (\<lambda>_ _. Ret ())\<rparr>"

lemma sampleLib_documented: "documented (\<lambda>_. True) sampleLib fst (\<lambda>v lvs. Fin (snd v lvs))"
  by (auto simp: documented_def sampleLib_def split: float64.splits)

lemma sample_labels: "labels_valid (\<lambda>_. True) ra"
  by (simp add: labels_valid_def list_all_iff pred_option_def)

definition gvkr_Deployment :: GroupVersionKindResource where
  "gvkr_Deployment = \<lparr>gvkr_Group = ''apps'', gvkr_Version = ''v1'', gvkr_Kind = ''Deployment'', gvkr_Resource = ''deployments''\<rparr>"

lemma sample_autoscaling:
  "\<exists>r. reconcileAutoscaling getDesired (sampleWorld None) gvkr sampleScale (sampleState 50) = Ret r"
proof -
  have "no_nil (ra_Spec (rs_Autoscaler (sampleState 50)))" by (simp add: no_nil_def sampleState_def sampleSpec_def)
  then show ?thesis using reconcileAutoscaling_returns [OF _ sample_scalers_return any_targets_ok] by blast
qed

subsection \<open>Properties\<close>

text \<open>
  (C11) Counting never interferes: with a library that does what it documents, the vector that the program makes (or any vector of four
  labels), an object whose strings are valid labels and a clock that does not run backwards around a plugin, the flow with the counters ends as the flow without them does, in a panic or with the
  same delay and the same state. The vector keeps its labels, and the counters of all other autoscalers keep their values.
\<close>

theorem counting_never_interferes:
  assumes "documented valid lib arity reading" and "arity v = 4"
    and "\<And>i. tclk (AtScalerStart i) \<le> tclk (AtScalerEnd i)" and "tclk AtReplicatorStart \<le> tclk AtReplicatorEnd"
    and "labels_valid valid (rs_Autoscaler st)"
  shows "case reconcileAutoscaling getDesired w gvkr scale st of
      Panic m \<Rightarrow> reconcileAutoscalingM lib tclk getDesired w gvkr scale st v = Panic m
    | Ret r \<Rightarrow> \<exists>v'. reconcileAutoscalingM lib tclk getDesired w gvkr scale st v = Ret (r, v') \<and> arity v' = 4 \<and>
        (\<forall>lvs. take 2 lvs \<noteq> [ra_Namespace (rs_Autoscaler st), ra_Name (rs_Autoscaler st)] \<longrightarrow> reading v' lvs = reading v lvs)"
proof -
  obtain v' where "reconcileAutoscalingM lib tclk getDesired w gvkr scale st v =
      exec_bind (reconcileAutoscaling getDesired w gvkr scale st) (\<lambda>r. Ret (r, v'))" "counted arity reading (rs_Autoscaler st) v v'"
    using reconcileAutoscalingM_counts [OF assms] by blast
  then show ?thesis using assms(2) by (cases "reconcileAutoscaling getDesired w gvkr scale st") (simp_all add: counted_def)
qed

theorem counting_never_interferes_witness:
  "\<exists>r v'. reconcileAutoscaling GetDesiredReplicas (sampleWorld None) gvkr_Deployment sampleScale (sampleState 50) = Ret r \<and>
     reconcileAutoscalingM sampleLib (\<lambda>_. 0) GetDesiredReplicas (sampleWorld None) gvkr_Deployment sampleScale (sampleState 50)
       (metricPluginElapsed sampleLib) = Ret (r, v')"
proof -
  obtain r where r: "reconcileAutoscaling GetDesiredReplicas (sampleWorld None) gvkr_Deployment sampleScale (sampleState 50) = Ret r"
    using sample_autoscaling by blast
  from counting_never_interferes [OF sampleLib_documented metricPluginElapsed_arity [OF sampleLib_documented], of "\<lambda>_. 0" "sampleState 50"
      GetDesiredReplicas "sampleWorld None" gvkr_Deployment sampleScale] sample_labels r show ?thesis by auto
qed

text \<open>
  The counter of the replicator says nothing about the replicator: its clock is stopped before the replicator is asked. Whatever two
  replicators do, when both flows end the counters are the same.
\<close>

theorem replicator_counter_blind:
  assumes "reconcileAutoscalingM lib tclk getDesired w gvkr scale st v = Ret (r, v1)"
    and "reconcileAutoscalingM lib tclk getDesired' w gvkr scale st v = Ret (r', v2)"
  shows "v1 = v2"
proof (cases "w_LabelsParse w (scale_Status_Selector scale)")
  case (Inl e)
  with assms show ?thesis by (simp add: reconcileAutoscalingM_def)
next
  case (Inr selector)
  let ?loop = "scalerLoopM lib tclk w (w_Clock w AtReconcile) selector scale 0 (spec_Targets (ra_Spec (rs_Autoscaler st))) [] [] st v"
  have ask: "x = x'" if "askReplicatorM lib tclk getDesired w u gvkr scale outs s v0 = Ret (q, x)"
    "askReplicatorM lib tclk getDesired' w u gvkr scale outs s v0 = Ret (q', x')" for u outs s v0 q q' x x'
    using that by (auto simp: askReplicatorM_def Let_def exec_bind_Ret_iff)
  consider m where "?loop = Panic m" | d st1 v0 where "?loop = Ret ((Inl d, st1), v0)"
    | outs managed st1 v0 where "?loop = Ret ((Inr (outs, managed), st1), v0)" by (metis exec.exhaust surj_pair sum.exhaust)
  then show ?thesis using assms by cases (auto simp: reconcileAutoscalingM_def Inr Let_def split: if_splits dest: ask)
qed

theorem replicator_counter_blind_witness:
  "\<exists>r r' v'. reconcileAutoscalingM sampleLib (\<lambda>_. 0) GetDesiredReplicas (sampleWorld None) gvkr_Deployment sampleScale (sampleState 50)
       (metricPluginElapsed sampleLib) = Ret (r, v') \<and>
     reconcileAutoscalingM sampleLib (\<lambda>_. 0) (\<lambda>_ _ rep. (Inl (errNew ''stuck''), rep)) (sampleWorld None) gvkr_Deployment sampleScale
       (sampleState 50) (metricPluginElapsed sampleLib) = Ret (r', v')"
proof -
  have ends: "\<exists>r v'. reconcileAutoscalingM sampleLib (\<lambda>_. 0) getDesired (sampleWorld None) gvkr_Deployment sampleScale (sampleState 50)
       (metricPluginElapsed sampleLib) = Ret (r, v')" for getDesired
    using reconcileAutoscalingM_counts [OF sampleLib_documented metricPluginElapsed_arity [OF sampleLib_documented], of "\<lambda>_. 0" "sampleState 50"
      getDesired "sampleWorld None" gvkr_Deployment sampleScale] sample_labels sample_autoscaling [of getDesired gvkr_Deployment] by auto
  let ?stuck = "\<lambda>_ _ rep :: replicator. (Inl (errNew ''stuck'') :: int result, rep)"
  obtain r v1 where 1: "reconcileAutoscalingM sampleLib (\<lambda>_. 0) GetDesiredReplicas (sampleWorld None) gvkr_Deployment sampleScale
      (sampleState 50) (metricPluginElapsed sampleLib) = Ret (r, v1)" using ends by blast
  obtain r' v2 where 2: "reconcileAutoscalingM sampleLib (\<lambda>_. 0) ?stuck (sampleWorld None) gvkr_Deployment sampleScale
      (sampleState 50) (metricPluginElapsed sampleLib) = Ret (r', v2)" using ends by blast
  from replicator_counter_blind [OF 1 2] 1 2 show ?thesis by (intro exI [of _ r] exI [of _ r'] exI [of _ v1]) simp
qed

end
