(* ===== verification/Wiring.thy ===== *)
theory Wiring
  imports Startup Engine_Runtime Metrics_Client Controller_Metrics
begin

text \<open>
  How the process is put together below \<open>Startup\<close>: the registration of the API types (\<^verbatim>\<open>api/v1/groupversion_info.go\<close>), the options and their flag
  (\<^verbatim>\<open>controllers/options.go\<close>), and \<^verbatim>\<open>engine.New\<close> in full (\<^verbatim>\<open>core/engine/engine.go\<close>): the provisioner with its clients, its recorder
  and its metrics client, and the informers.

  The scheme builder of controller-runtime, the flags that other packages define, the API clients and the informer factory of client-go are parameters. Two goroutines
  that \<^verbatim>\<open>engine.New\<close> starts, which refresh the discovery information of the clients for ever, are left out: they touch nothing that is modelled.

  Shown: both API types are known to the scheme once
  the packages are initialised; the flag of the options is defined once, with the default that \<open>Startup\<close> uses; and \<^verbatim>\<open>engine.New\<close> is the
  \<open>engineClients\<close> and \<open>Engine_New\<close> of \<open>Startup\<close>.
\<close>

subsection \<open>The scheme\<close>

record SchemeGroupVersion =
  gv_Group :: string
  gv_Version :: string

definition wing_GroupVersion :: SchemeGroupVersion where
  "wing_GroupVersion = \<lparr>gv_Group = ''wing.xscaling.dev'', gv_Version = ''v1''\<rparr>"

record ('b, 's) SchemeLib =
  sl_Builder :: "SchemeGroupVersion \<Rightarrow> 'b"
  sl_Register :: "'b \<Rightarrow> string list \<Rightarrow> 'b"
  sl_AddToScheme :: "'b \<Rightarrow> 's \<Rightarrow> goerr option \<times> 's"

definition wing_SchemeBuilder :: "('b, 's) SchemeLib \<Rightarrow> 'b" where
  "wing_SchemeBuilder lib = sl_Builder lib wing_GroupVersion"

definition wing_types_init :: "('b, 's) SchemeLib \<Rightarrow> 'b \<Rightarrow> 'b" where
  "wing_types_init lib SchemeBuilder = sl_Register lib SchemeBuilder [''ReplicaAutoscaler'', ''ReplicaAutoscalerList'']"

text \<open>The variable is a method value bound to the pointer \<^verbatim>\<open>SchemeBuilder\<close>: it uses the builder as it is when it is called.\<close>

definition wing_AddToScheme :: "('b, 's) SchemeLib \<Rightarrow> 'b \<Rightarrow> 's \<Rightarrow> goerr option \<times> 's" where
  "wing_AddToScheme lib SchemeBuilder scheme = sl_AddToScheme lib SchemeBuilder scheme"

text \<open>Documented of the builder: it collects the registered types, and adds all of them under its group and version.\<close>

definition scheme_documented ::
  "('b, 's) SchemeLib \<Rightarrow> ('b \<Rightarrow> SchemeGroupVersion \<times> string set) \<Rightarrow> ('s \<Rightarrow> (SchemeGroupVersion \<times> string) set) \<Rightarrow> bool" where
  "scheme_documented lib holds known \<longleftrightarrow>
     (\<forall>gv. holds (sl_Builder lib gv) = (gv, {})) \<and>
     (\<forall>b tys. holds (sl_Register lib b tys) = (fst (holds b), snd (holds b) \<union> set tys)) \<and>
     (\<forall>b s. fst (sl_AddToScheme lib b s) = None \<longrightarrow>
        known (snd (sl_AddToScheme lib b s)) = known s \<union> {fst (holds b)} \<times> snd (holds b))"

text \<open>The packages are initialised in the order of their imports, the variables of a package before its \<^verbatim>\<open>init\<close>: when the main
  package adds the types to its scheme, the builder has them.\<close>

lemma wing_kinds_known:
  assumes "scheme_documented lib holds known"
    and "wing_AddToScheme lib (wing_types_init lib (wing_SchemeBuilder lib)) s = (None, s')"
  shows "(wing_GroupVersion, ''ReplicaAutoscaler'') \<in> known s'" "(wing_GroupVersion, ''ReplicaAutoscalerList'') \<in> known s'"
    "known s \<subseteq> known s'"
proof -
  have "known s' = known s \<union> {wing_GroupVersion} \<times> {''ReplicaAutoscaler'', ''ReplicaAutoscalerList''}"
    using assms unfolding scheme_documented_def wing_AddToScheme_def wing_types_init_def wing_SchemeBuilder_def
    by (metis Un_empty_left fst_conv list.simps(15) set_empty snd_conv list.set(1))
  then show "(wing_GroupVersion, ''ReplicaAutoscaler'') \<in> known s'" "(wing_GroupVersion, ''ReplicaAutoscalerList'') \<in> known s'"
    "known s \<subseteq> known s'" by auto
qed

subsection \<open>Options\<close>

record ControllerOptions =
  opt_Config :: string

definition NewDefaultOptions :: ControllerOptions where
  "NewDefaultOptions = \<lparr>opt_Config = ''wing.yaml''\<rparr>"

text \<open>A set of flags: names with defaults. Defining a name twice panics.\<close>

type_synonym FlagSet = "(string \<times> string) list"

definition StringVar :: "string \<Rightarrow> string \<Rightarrow> FlagSet \<Rightarrow> FlagSet exec" where
  "StringVar name value fs =
     (if name \<in> fst ` set fs then Panic (''flag redefined: '' @ name) else Ret (fs @ [(name, value)]))"

definition BindFlags :: "ControllerOptions \<Rightarrow> FlagSet \<Rightarrow> FlagSet exec" where
  "BindFlags o' fs = StringVar ''config'' (opt_Config o') fs"

lemma BindFlags_default:
  assumes "BindFlags NewDefaultOptions fs = Ret fs'" "distinct (map fst fs)"
  shows "map_of fs' ''config'' = Some (fl_Config defaultFlags)" "distinct (map fst fs')"
proof -
  have "map_of fs ''config'' = None" using assms(1)
    by (auto simp: BindFlags_def StringVar_def map_of_eq_None_iff split: if_splits)
  with assms show "map_of fs' ''config'' = Some (fl_Config defaultFlags)" "distinct (map fst fs')"
    by (auto simp: BindFlags_def StringVar_def NewDefaultOptions_def defaultFlags_def DefaultConfigPath_def map_add_def image_iff
        split: if_splits)
qed

text \<open>The context of the controllers has no fields yet.\<close>

datatype ControllerContext = ControllerContext

definition ControllerContext_New :: "ControllerContext \<times> goerr option" where
  "ControllerContext_New = (ControllerContext, None)"

subsection \<open>The engine in full\<close>

text \<open>The provisioner with the fields that no plugin changes.\<close>

record ('r, 'y, 'm, 'k, 'e) fullProvisioner = "('r, 'y, 'm) engineProvisioner" +
  ep_kubeConfig :: 'k
  ep_eventRecorder :: 'e

text \<open>The clients that the libraries make for the configuration of the cluster.\<close>

record 'k ClientLib =
  lib_Resource :: "'k \<Rightarrow> resourceMetricsClient"
  lib_Custom :: "'k \<Rightarrow> customMetricsClient"
  lib_External :: "'k \<Rightarrow> externalMetricsClient"

definition full_newEngineProvisioner ::
  "'y MainWorld \<Rightarrow> MetricsWorld \<Rightarrow> 'k ClientLib \<Rightarrow> 'k \<Rightarrow> (string, 'y) fmap \<Rightarrow> 'e \<Rightarrow>
   (replicator, 'y, MetricsClient, 'k, 'e) fullProvisioner exec" where
  "full_newEngineProvisioner w mx lib kubeConfig pluginConfigs eventRecorder =
     exec_bind (ClientOrDie w ''wing-engine'') (\<lambda>_.
       exec_bind (OrDie (mw_NewMetricsClients w)) (\<lambda>_.
         Ret \<lparr>ep_scalers = fmempty, ep_replicators = fmempty,
              ep_metricsClient = podMetricsOf mx
                (NewRESTMetricsClient (lib_Resource lib kubeConfig) (lib_Custom lib kubeConfig) (lib_External lib kubeConfig)),
              ep_pluginConfigs = pluginConfigs, ep_kubeConfig = kubeConfig, ep_eventRecorder = eventRecorder\<rparr>))"

definition GetKubernetesMetricsClient :: "('r, 'y, 'm, 'k, 'e) fullProvisioner \<Rightarrow> 'm" where
  "GetKubernetesMetricsClient p = ep_metricsClient p"

definition GetEventRecorder :: "('r, 'y, 'm, 'k, 'e) fullProvisioner \<Rightarrow> 'e" where
  "GetEventRecorder p = ep_eventRecorder p"

record ('r, 'y, 'm, 'k, 'e, 'f) EngineStruct =
  eng_Provisioner :: "('r, 'y, 'm, 'k, 'e) fullProvisioner"
  eng_Informers :: "'f InformerFactory"

text \<open>The set-up functions work on the provisioner through the interface \<^verbatim>\<open>Controller\<close>, which reaches the scalers, the replicators, the
  configurations and the metrics client; the other fields stay.\<close>

definition withPlugins ::
  "('r, 'y, 'm, 'k, 'e) fullProvisioner \<Rightarrow> ('r, 'y, 'm) engineProvisioner \<Rightarrow> ('r, 'y, 'm, 'k, 'e) fullProvisioner" where
  "withPlugins p e =
     \<lparr>ep_scalers = ep_scalers e, ep_replicators = ep_replicators e, ep_metricsClient = ep_metricsClient e,
      ep_pluginConfigs = ep_pluginConfigs e, ep_kubeConfig = ep_kubeConfig p, ep_eventRecorder = ep_eventRecorder p\<rparr>"

text \<open>The result is nothing while \<^verbatim>\<open>Run\<close> waits for the caches.\<close>

definition full_New ::
  "'y MainWorld \<Rightarrow> MetricsWorld \<Rightarrow> 'k ClientLib \<Rightarrow> 'f FactoryLib \<Rightarrow> 'y Provisioner Registry \<Rightarrow>
   'k \<Rightarrow> (string, 'y) fmap \<Rightarrow> 'e \<Rightarrow> (replicator, 'y, MetricsClient, 'k, 'e, 'f) EngineStruct result option exec" where
  "full_New w mx lib flib reg kubeConfig pluginConfigs eventRecorder =
     exec_bind (DiscoveryClientOrDie w ''wing-controller-discovery'') (\<lambda>_.
       exec_bind (full_newEngineProvisioner w mx lib kubeConfig pluginConfigs eventRecorder) (\<lambda>p.
         exec_bind (ClientOrDie w ''wing-engine'') (\<lambda>_.
           case InformerFactory_Run flib (NewInformerFactory flib) of
             None \<Rightarrow> Ret None
           | Some (informers, _) \<Rightarrow>
               (case loadPlugins reg (engineProvisioner.truncate p) of
                  (Some err, _) \<Rightarrow> Ret (Some (Inl err))
                | (None, e) \<Rightarrow> Ret (Some (Inr \<lparr>eng_Provisioner = withPlugins p e, eng_Informers = informers\<rparr>))))))"

lemma truncate_withPlugins [simp]: "engineProvisioner.truncate (withPlugins p e) = e"
  by (simp add: withPlugins_def engineProvisioner.truncate_def)

lemma truncate_new:
  "full_newEngineProvisioner w mx lib k configs recorder = Ret p \<Longrightarrow>
   engineProvisioner.truncate p = newEngineProvisioner (podMetricsOf mx
     (NewRESTMetricsClient (lib_Resource lib k) (lib_Custom lib k) (lib_External lib k))) configs \<and>
   ep_eventRecorder p = recorder \<and> ep_kubeConfig p = k"
  by (auto simp: full_newEngineProvisioner_def exec_bind_Ret_iff engineProvisioner.truncate_def newEngineProvisioner_def)

lemma engineOf_metricsClient: "ep_metricsClient (engineOf pw prw mc configs simple cpu memory prom) = mc"
  by (simp add: engineOf_def AddScaler_def AddReplicator_def newEngineProvisioner_def)

text \<open>
  \<^verbatim>\<open>engine.New\<close> in full and what the start-up of the process uses of it: it panics exactly when one of the clients cannot be made; it does not
  return while it waits for the caches; otherwise it returns the error of the first plugin that cannot be set up, or an engine whose plugins are those of
  \<open>Engine_New\<close>, with the configuration of the cluster and the recorder it was given and the informer factory that was run.
\<close>

lemma full_New_Engine_New:
  assumes "mc = podMetricsOf mx (NewRESTMetricsClient (lib_Resource lib k) (lib_Custom lib k) (lib_External lib k))"
    and "run = InformerFactory_Run flib (NewInformerFactory flib)"
  shows "case engineClients w of
      Panic m \<Rightarrow> full_New w mx lib flib reg k configs recorder = Panic m
    | Ret _ \<Rightarrow>
        (case Engine_New (run \<noteq> None) reg mc configs of
           None \<Rightarrow> full_New w mx lib flib reg k configs recorder = Ret None
         | Some (Inl err) \<Rightarrow> full_New w mx lib flib reg k configs recorder = Ret (Some (Inl err))
         | Some (Inr e) \<Rightarrow> \<exists>es. full_New w mx lib flib reg k configs recorder = Ret (Some (Inr es)) \<and>
             engineProvisioner.truncate (eng_Provisioner es) = e \<and> GetEventRecorder (eng_Provisioner es) = recorder \<and>
             GetKubernetesMetricsClient (eng_Provisioner es) = ep_metricsClient e \<and>
             ep_kubeConfig (eng_Provisioner es) = k \<and> map_option fst run = Some (eng_Informers es))"
proof (cases "full_newEngineProvisioner w mx lib k configs recorder")
  case (Panic m)
  then show ?thesis
    by (auto simp: full_New_def engineClients_def full_newEngineProvisioner_def OrDie_def ClientOrDie_def DiscoveryClientOrDie_def
        split: option.splits)
next
  case (Ret p)
  note t = truncate_new [OF Ret, folded assms(1)]
  have clients: "engineClients w = exec_bind (DiscoveryClientOrDie w ''wing-controller-discovery'') (\<lambda>_. ClientOrDie w ''wing-engine'')"
    using Ret by (auto simp: full_newEngineProvisioner_def engineClients_def exec_bind_Ret_iff)
  show ?thesis
  proof (cases "engineClients w")
    case (Panic m)
    then show ?thesis unfolding clients by (auto simp: full_New_def Ret exec_bind_Panic_iff)
  next
    case e: (Ret u)
    then have f: "full_New w mx lib flib reg k configs recorder =
        (case run of
           None \<Rightarrow> Ret None
         | Some (informers, _) \<Rightarrow>
             (case loadPlugins reg (newEngineProvisioner mc configs) of
                (Some err, _) \<Rightarrow> Ret (Some (Inl err))
              | (None, e) \<Rightarrow> Ret (Some (Inr \<lparr>eng_Provisioner = withPlugins p e, eng_Informers = informers\<rparr>))))"
      unfolding clients assms(2) by (auto simp: full_New_def Ret t exec_bind_Ret_iff split: option.splits)
    obtain err e0 where l: "loadPlugins reg (newEngineProvisioner mc configs) = (err, e0)" by fastforce
    have "GetEventRecorder (withPlugins p e0) = recorder" "GetKubernetesMetricsClient (withPlugins p e0) = ep_metricsClient e0"
      "ep_kubeConfig (withPlugins p e0) = k"
      using t by (simp_all add: GetEventRecorder_def GetKubernetesMetricsClient_def withPlugins_def)
    then show ?thesis using e f l by (cases err; cases run) (auto simp: Engine_New_def)
  qed
qed

end
