(* ===== verification/Plugin_Discovery.thy ===== *)
theory Plugin_Discovery
  imports Engine "HOL-Library.List_Lexorder" "HOL-Library.Char_ord"
begin

text \<open>
  The generator \<^verbatim>\<open>generate_plugin_discovery.go\<close>: it reads \<^verbatim>\<open>plugin.conf\<close> and writes the list of
  plugin packages to import (\<^verbatim>\<open>core/engine/plugin/pluginz.go\<close>) and the names of the plugins to load
  (\<^verbatim>\<open>core/engine/pluginz.go\<close>).

  Parameters: the file system (\<open>stat\<close> says whether a local package directory exists), the formatter
  \<^verbatim>\<open>go/format\<close>, and the order in which Go visits the map of sections.

  Shown: the sections the generator collects are those of a line-by-line reading of the file, and it stops
  with an error exactly on a repeated name in a section; every plugin that is to be loaded is also imported, in
  whatever order the map is visited; and the tables in the repository are what it produces for the
  repository's \<^verbatim>\<open>plugin.conf\<close>.
\<close>

subsection \<open>Constants and data\<close>

definition pluginPath :: string where "pluginPath = ''github.com/xscaling/wing/plugins/''"
definition pluginFSPath :: string where "pluginFSPath = ''plugins/''"
definition scalerFlagLine :: string where "scalerFlagLine = ''>>> Scaler''"
definition replicatorFlagLine :: string where "replicatorFlagLine = ''>>> Replicator''"

definition newline :: string where "newline = [CHR 0x0A]"
definition tab :: string where "tab = [CHR 0x09]"
definition quote :: string where "quote = [CHR 0x22]"

definition header :: string where
  "header = ''// generated by generate_plugin_discovery.go; DO NOT EDIT'' @ newline @ newline"

record pluginInfo =
  pi_name :: string
  pi_repo :: string

type_synonym pluginMap = "(string, pluginInfo list) fmap"

definition sectionOf :: "pluginMap \<Rightarrow> string \<Rightarrow> pluginInfo list" where
  "sectionOf m flag = (case fmlookup m flag of None \<Rightarrow> [] | Some ps \<Rightarrow> ps)"

subsection \<open>Reading\<close>

text \<open>\<^verbatim>\<open>bufio.Scanner\<close> by lines: one trailing carriage return is dropped, no line after the last line feed,
  and the scan ends silently before a line that does not fit its buffer of 64 KiB.\<close>

definition dropCR :: "string \<Rightarrow> string" where
  "dropCR l = (if l \<noteq> [] \<and> last l = CHR 0x0D then butlast l else l)"

definition ScanLines :: "string \<Rightarrow> string list" where
  "ScanLines content =
     (let ls = split_on CHR 0x0A content;
          ls' = (if last ls = [] then butlast ls else ls)
      in map dropCR (takeWhile (\<lambda>l. length l < 65536) ls'))"

definition Fatal :: "string \<Rightarrow> goerr + 'a" where
  "Fatal text = Inl (errNew text)"

text \<open>The loop over the lines, with the current section \<open>flag\<close>. \<open>stat path\<close>: the path exists;
  \<open>quoted\<close> is the verb \<^verbatim>\<open>%q\<close> of a message.\<close>

fun scanLoop :: "(string \<Rightarrow> string) \<Rightarrow> (string \<Rightarrow> bool) \<Rightarrow> string list \<Rightarrow> string \<Rightarrow> pluginMap \<Rightarrow> goerr + pluginMap" where
  "scanLoop quoted stat [] flag m = Inr m"
| "scanLoop quoted stat (line # rest) flag m =
     (if take 1 line = ''#'' then scanLoop quoted stat rest flag m
      else if line = scalerFlagLine then scanLoop quoted stat rest ''scaler'' m
      else if line = replicatorFlagLine then scanLoop quoted stat rest ''replicator'' m
      else
        case split_on (CHR '':'') line of
          [name, repo] \<Rightarrow>
            (if name \<in> pi_name ` set (sectionOf m flag) then Fatal (''Duplicate entry '' @ quoted name)
             else
               let path = (if stat (pluginFSPath @ repo) then pluginPath @ repo else repo)
               in scanLoop quoted stat rest flag
                    (fmupd flag (sectionOf m flag @ [\<lparr>pi_name = name, pi_repo = path\<rparr>]) m))
        | _ \<Rightarrow> scanLoop quoted stat rest flag m)"

definition emptyMapping :: pluginMap where
  "emptyMapping = fmap_of_list [(''scaler'', []), (''replicator'', [])]"

subsection \<open>Writing\<close>

text \<open>\<open>sections\<close> are the sections in the order Go visits the map.\<close>

definition importsText :: "string \<Rightarrow> pluginInfo list list \<Rightarrow> pluginMap \<Rightarrow> string" where
  "importsText pack sections m =
     header @ ''package '' @ pack @ newline @ newline @ ''import ('' @
     (if 0 < length (sectionOf m ''scaler'') + length (sectionOf m ''replicator'') then newline else []) @
     tab @ ''// Include all plugins.'' @ newline @
     concat (map (\<lambda>plugin. tab @ ''_ '' @ quote @ pi_repo plugin @ quote @ newline) (concat sections)) @
     '')'' @ newline"

definition quotedNames :: "pluginInfo list \<Rightarrow> string" where
  "quotedNames ps = join_with '','' (map (\<lambda>p. quote @ pi_name p @ quote) ps)"

definition directivesText :: "string \<Rightarrow> pluginMap \<Rightarrow> string" where
  "directivesText pack m =
     header @ ''package '' @ pack @ newline @ newline @
     tab @ ''var ('' @ tab @ newline @
     tab @ tab @ ''Scalers = []string{'' @ quotedNames (sectionOf m ''scaler'') @ ''}'' @ newline @ newline @
     tab @ tab @ ''Replicators = []string{'' @ quotedNames (sectionOf m ''replicator'') @ ''}'' @ newline @
     tab @ '')'' @ newline"

text \<open>The world: opening the file, \<^verbatim>\<open>os.Stat\<close>, the visiting order of a map, quoting, the formatter, and writing. A write
  is a path with its content.\<close>

record GenWorld =
  gw_Open :: "string \<Rightarrow> string result"
  gw_Stat :: "string \<Rightarrow> bool"
  gw_MapOrder :: "pluginMap \<Rightarrow> string list"
  gw_Quoted :: "string \<Rightarrow> string"
  gw_Format :: "string \<Rightarrow> string result"
  gw_WriteFile :: "string \<Rightarrow> goerr option"

type_synonym Writes = "(string \<times> string) list"

definition formatAndWrite :: "GenWorld \<Rightarrow> string \<Rightarrow> string \<Rightarrow> Writes \<Rightarrow> goerr option \<times> Writes" where
  "formatAndWrite w file data ws =
     (case gw_Format w data of
        Inl err \<Rightarrow> (Some err, ws)
      | Inr res \<Rightarrow>
          (case gw_WriteFile w file of
             Some err \<Rightarrow> (Some err, ws)
           | None \<Rightarrow> (None, ws @ [(file, res)])))"

definition genImports :: "GenWorld \<Rightarrow> string \<Rightarrow> string \<Rightarrow> pluginMap \<Rightarrow> Writes \<Rightarrow> goerr option \<times> Writes" where
  "genImports w file pack m ws =
     formatAndWrite w file (importsText pack (map (sectionOf m) (gw_MapOrder w m)) m) ws"

definition genDirectives :: "GenWorld \<Rightarrow> string \<Rightarrow> string \<Rightarrow> pluginMap \<Rightarrow> Writes \<Rightarrow> goerr option \<times> Writes" where
  "genDirectives w file pack m ws = formatAndWrite w file (directivesText pack m) ws"

text \<open>\<^verbatim>\<open>main\<close>: what it has written, and the error it dies of, if any.\<close>

definition generate :: "GenWorld \<Rightarrow> goerr option \<times> Writes" where
  "generate w =
     (case gw_Open w ''plugin.conf'' of
        Inl err \<Rightarrow> (Some (errNew (''Failed to open plugin.conf: '' @ gw_Quoted w (errText err))), [])
      | Inr content \<Rightarrow>
          (case scanLoop (gw_Quoted w) (gw_Stat w) (ScanLines content) [] emptyMapping of
             Inl err \<Rightarrow> (Some err, [])
           | Inr m \<Rightarrow>
               (case genImports w ''core/engine/plugin/pluginz.go'' ''plugin'' m [] of
                  (Some err, ws) \<Rightarrow> (Some (errNew (''Failed to format and write: '' @ gw_Quoted w (errText err))), ws)
                | (None, ws) \<Rightarrow>
                    (case genDirectives w ''core/engine/pluginz.go'' ''engine'' m ws of
                       (Some err, ws') \<Rightarrow> (Some (errNew (''Failed to format and write: '' @ gw_Quoted w (errText err))), ws')
                     | (None, ws') \<Rightarrow> (None, ws')))))"

subsection \<open>A line-by-line reading\<close>

text \<open>The entries of the file as (section, name, repository).\<close>

fun entriesOf :: "string list \<Rightarrow> string \<Rightarrow> (string \<times> string \<times> string) list" where
  "entriesOf [] flag = []"
| "entriesOf (line # rest) flag =
     (if take 1 line = ''#'' then entriesOf rest flag
      else if line = scalerFlagLine then entriesOf rest ''scaler''
      else if line = replicatorFlagLine then entriesOf rest ''replicator''
      else case split_on (CHR '':'') line of
             [name, repo] \<Rightarrow> (flag, name, repo) # entriesOf rest flag
           | _ \<Rightarrow> entriesOf rest flag)"

definition pluginOf :: "(string \<Rightarrow> bool) \<Rightarrow> string \<times> string \<times> string \<Rightarrow> pluginInfo" where
  "pluginOf stat e = (case e of (flag, name, repo) \<Rightarrow>
     \<lparr>pi_name = name, pi_repo = if stat (pluginFSPath @ repo) then pluginPath @ repo else repo\<rparr>)"

abbreviation entryKey :: "string \<times> string \<times> string \<Rightarrow> string \<times> string" where
  "entryKey e \<equiv> (fst e, fst (snd e))"

definition known :: "pluginMap \<Rightarrow> (string \<times> string) set" where
  "known m = {(flag, name). name \<in> pi_name ` set (sectionOf m flag)}"

lemma sectionOf_upd: "sectionOf (fmupd k v m) flag = (if flag = k then v else sectionOf m flag)"
  by (simp add: sectionOf_def)

lemma known_upd:
  "known (fmupd flag (sectionOf m flag @ [p]) m) = insert (flag, pi_name p) (known m)"
  by (auto simp: known_def sectionOf_upd split: if_splits)

text \<open>A line switches the section or is skipped, or it is an entry.\<close>

lemma line_cases:
  obtains (skip) f where "scanLoop quoted stat (line # rest) flag m = scanLoop quoted stat rest f m"
      "entriesOf (line # rest) flag = entriesOf rest f"
  | (entry) name repo where
      "scanLoop quoted stat (line # rest) flag m =
         (if (flag, name) \<in> known m then Fatal (''Duplicate entry '' @ quoted name)
          else scanLoop quoted stat rest flag (fmupd flag (sectionOf m flag @ [pluginOf stat (flag, name, repo)]) m))"
      "entriesOf (line # rest) flag = (flag, name, repo) # entriesOf rest flag"
proof (cases "take 1 line = ''#'' \<or> line = scalerFlagLine \<or> line = replicatorFlagLine")
  case True
  define f where "f = (if take 1 line = ''#'' then flag else if line = scalerFlagLine then ''scaler'' else ''replicator'')"
  from True show thesis by (intro skip [of f]) (auto simp: f_def)
next
  case False
  show thesis
  proof (cases "\<exists>name repo. split_on (CHR '':'') line = [name, repo]")
    case True
    then obtain name repo where "split_on (CHR '':'') line = [name, repo]" by blast
    with False show thesis by (intro entry [of name repo]) (simp_all add: known_def pluginOf_def Let_def)
  next
    case no: False
    with False show thesis by (intro skip [of flag]) (simp_all split: list.splits)
  qed
qed

definition reads :: "(string \<Rightarrow> bool) \<Rightarrow> (string \<times> string \<times> string) list \<Rightarrow> pluginMap \<Rightarrow> goerr + pluginMap \<Rightarrow> bool" where
  "reads stat es m r \<longleftrightarrow>
     (case r of
        Inl err \<Rightarrow> \<not> (distinct (map entryKey es) \<and> entryKey ` set es \<inter> known m = {})
      | Inr m' \<Rightarrow> distinct (map entryKey es) \<and> entryKey ` set es \<inter> known m = {} \<and>
          (\<forall>f. sectionOf m' f = sectionOf m f @ map (pluginOf stat) (filter (\<lambda>e. fst e = f) es)))"

lemma reads_entry:
  assumes "(flag, name) \<notin> known m"
    and "reads stat es (fmupd flag (sectionOf m flag @ [pluginOf stat (flag, name, repo)]) m) r"
  shows "reads stat ((flag, name, repo) # es) m r"
proof -
  have "pi_name (pluginOf stat (flag, name, repo)) = name" by (simp add: pluginOf_def)
  then show ?thesis using assms unfolding reads_def known_upd by (auto simp: sectionOf_upd split: sum.splits)
qed

lemma scanLoop_reads: "reads stat (entriesOf ls flag) m (scanLoop quoted stat ls flag m)"
proof (induction ls arbitrary: flag m)
  case (Cons line rest)
  show ?case
  proof (cases rule: line_cases [of quoted stat line rest flag m])
    case (skip f)
    then show ?thesis using Cons.IH by simp
  next
    case (entry name repo)
    show ?thesis
    proof (cases "(flag, name) \<in> known m")
      case True
      then show ?thesis unfolding entry by (simp add: reads_def Fatal_def)
    next
      case False
      then show ?thesis unfolding entry using reads_entry [OF False Cons.IH] by simp
    qed
  qed
qed (simp add: reads_def)

subsection \<open>Properties\<close>

text \<open>
  (C37) What the generator reads. For every content of the file, it stops with an error exactly when some section
  names a plugin twice; otherwise each section holds exactly the entries that stand under its heading, in file
  order, and a repository is resolved to the local package path exactly when the local directory exists.
\<close>

theorem discovery_reads:
  "case scanLoop quoted stat ls [] emptyMapping of
     Inl err \<Rightarrow> \<not> distinct (map (\<lambda>(section, name, repo). (section, name)) (entriesOf ls []))
   | Inr m \<Rightarrow> distinct (map (\<lambda>(section, name, repo). (section, name)) (entriesOf ls [])) \<and>
       (\<forall>section. map (\<lambda>p. (pi_name p, pi_repo p)) (sectionOf m section) =
          [(name, if stat (''plugins/'' @ repo) then ''github.com/xscaling/wing/plugins/'' @ repo else repo).
             (s, name, repo) \<leftarrow> entriesOf ls [], s = section])"
proof -
  have key: "(\<lambda>(section, name, repo). (section, name)) = (entryKey :: string \<times> string \<times> string \<Rightarrow> _)" by auto
  have sec: "sectionOf emptyMapping f = []" for f by (simp add: sectionOf_def emptyMapping_def fmlookup_of_list)
  then have none: "known emptyMapping = {}" by (simp add: known_def)
  have list: "map (\<lambda>p. (pi_name p, pi_repo p)) (map (pluginOf stat) (filter (\<lambda>e. fst e = f) es)) =
      [(name, if stat (''plugins/'' @ repo) then ''github.com/xscaling/wing/plugins/'' @ repo else repo).
         (s, name, repo) \<leftarrow> es, s = f]" for f es
    by (induction es) (auto simp: pluginOf_def pluginFSPath_def pluginPath_def)
  show ?thesis using scanLoop_reads [of stat ls "[]" emptyMapping quoted] unfolding reads_def key none
    by (auto simp: sec list [symmetric] simp del: map_map split: sum.splits)
qed

text \<open>The lines of the repository's \<^verbatim>\<open>plugin.conf\<close>.\<close>

definition pluginConf :: "string list" where
  "pluginConf =
     [''# Directives are registered in the order they should be executed.'',
      ''#'',
      ''# Ordering is VERY important. Every plugin will feel the effects of all other'',
      ''# plugin below (after) them during a request, but they must not care what plugin'',
      ''# above them are doing.'',
      [],
      ''# How to rebuild with updated plugin configurations: Modify the list below and'',
      ''# run `go generate && go build`'',
      [],
      ''# The parser takes the input format of:'',
      ''#'',
      ''#     <plugin-name>:<package-name>'',
      ''# Or'',
      ''#     <plugin-name>:<fully-qualified-package-name>'',
      ''#'',
      ''# External plugin example:'',
      ''# cpu:github.com/xscaling/wing/plugins/scaler_cpu'',
      ''#'',
      ''# Local plugin example:'',
      ''# cpu:scaler_cpu'',
      [],
      ''>>> Scaler'',
      ''cpu:scaler_cpu'',
      ''memory:scaler_memory'',
      ''prometheus:scaler_prometheus'',
      [],
      ''>>> Replicator'',
      ''simple:replicator_simple'']"

lemma ScanLines_join:
  assumes "ls \<noteq> []" "last ls \<noteq> []" "\<forall>l\<in>set ls. length l < 65536 \<and> CHR 0x0A \<notin> set l \<and> CHR 0x0D \<notin> set l"
  shows "ScanLines (join_with newline ls) = ls"
proof -
  have "split_on CHR 0x0A (join_with newline ls) = ls"
    unfolding newline_def using assms(1,3) by (intro split_on_join) auto
  moreover have "takeWhile (\<lambda>l. length l < 65536) ls = ls" using assms(3) by (simp add: takeWhile_eq_all_conv)
  moreover have "dropCR l = l" if "l \<in> set ls" for l using assms(3) that unfolding dropCR_def by (metis last_in_set)
  ultimately show ?thesis using assms(2) unfolding ScanLines_def Let_def by (simp only: if_False) (rule map_idI)
qed

lemma entriesOf_comment: "entriesOf ((CHR ''#'' # l) # rest) flag = entriesOf rest flag"
  by simp

lemma entriesOf_blank: "entriesOf ([] # rest) flag = entriesOf rest flag"
  by (simp add: scalerFlagLine_def replicatorFlagLine_def)

lemma entriesOf_entry:
  assumes "c \<noteq> CHR ''#''" "c \<noteq> CHR ''>''" "CHR '':'' \<notin> set (c # name)" "CHR '':'' \<notin> set repo"
  shows "entriesOf (((c # name) @ CHR '':'' # repo) # rest) flag = (flag, c # name, repo) # entriesOf rest flag"
  using split_on_pair [OF assms(3,4)] assms(1,2) by (simp add: scalerFlagLine_def replicatorFlagLine_def)

lemma pluginConf_entries:
  "entriesOf pluginConf [] =
     [(''scaler'', ''cpu'', ''scaler_cpu''), (''scaler'', ''memory'', ''scaler_memory''),
      (''scaler'', ''prometheus'', ''scaler_prometheus''), (''replicator'', ''simple'', ''replicator_simple'')]"
proof -
  have flags: "entriesOf (''>>> Scaler'' # rest) f = entriesOf rest ''scaler''"
    "entriesOf (''>>> Replicator'' # rest) f = entriesOf rest ''replicator''" for rest f
    by (simp_all add: scalerFlagLine_def replicatorFlagLine_def)
  have entries: "entriesOf (''cpu:scaler_cpu'' # rest) f = (f, ''cpu'', ''scaler_cpu'') # entriesOf rest f"
    "entriesOf (''memory:scaler_memory'' # rest) f = (f, ''memory'', ''scaler_memory'') # entriesOf rest f"
    "entriesOf (''prometheus:scaler_prometheus'' # rest) f = (f, ''prometheus'', ''scaler_prometheus'') # entriesOf rest f"
    "entriesOf (''simple:replicator_simple'' # rest) f = (f, ''simple'', ''replicator_simple'') # entriesOf rest f" for rest f
    using entriesOf_entry [of "CHR ''c''" "''pu''" "''scaler_cpu''" rest f] entriesOf_entry [of "CHR ''m''" "''emory''" "''scaler_memory''" rest f]
      entriesOf_entry [of "CHR ''p''" "''rometheus''" "''scaler_prometheus''" rest f]
      entriesOf_entry [of "CHR ''s''" "''imple''" "''replicator_simple''" rest f] by (simp_all del: entriesOf.simps)
  show ?thesis unfolding pluginConf_def
    by (simp only: entriesOf_comment entriesOf_blank flags entries) (simp add: entriesOf.simps(1))
qed

lemma pluginConf_scanned: "ScanLines (join_with newline pluginConf) = pluginConf"
  by (rule ScanLines_join) (simp_all add: pluginConf_def)

lemma pluginConf_read:
  "\<exists>m. scanLoop quoted stat (ScanLines (join_with newline pluginConf)) [] emptyMapping = Inr m \<and>
     (\<forall>f. sectionOf m f = map (pluginOf stat) (filter (\<lambda>e. fst e = f) (entriesOf pluginConf [])))"
proof -
  have sec: "sectionOf emptyMapping f = []" for f by (simp add: sectionOf_def emptyMapping_def fmlookup_of_list)
  then have none: "known emptyMapping = {}" by (simp add: known_def)
  have "reads stat (entriesOf pluginConf []) emptyMapping (scanLoop quoted stat pluginConf [] emptyMapping)"
    by (rule scanLoop_reads)
  then show ?thesis unfolding pluginConf_scanned pluginConf_entries reads_def by (auto simp: none sec split: sum.splits)
qed

text \<open>
  The generated tables are in step with \<^verbatim>\<open>plugin.conf\<close>. On a file system that has the local
  plugin directories, the generator reads the file without an error, and the names it collects are those of the
  tables \<^verbatim>\<open>Scalers\<close> and \<^verbatim>\<open>Replicators\<close> the engine is compiled with, in order.
\<close>

theorem tables_in_step:
  assumes "\<forall>dir\<in>{''scaler_cpu'', ''scaler_memory'', ''scaler_prometheus'', ''replicator_simple''}. stat (''plugins/'' @ dir)"
  shows "\<exists>m. scanLoop quoted stat (ScanLines (join_with newline pluginConf)) [] emptyMapping = Inr m \<and>
     map pi_name (sectionOf m ''scaler'') = Scalers \<and> map pi_name (sectionOf m ''replicator'') = Replicators \<and>
     map pi_repo (sectionOf m ''replicator'' @ sectionOf m ''scaler'') =
       map (\<lambda>dir. ''github.com/xscaling/wing/plugins/'' @ dir) [''replicator_simple'', ''scaler_cpu'', ''scaler_memory'', ''scaler_prometheus'']"
proof -
  obtain m where m: "scanLoop quoted stat (ScanLines (join_with newline pluginConf)) [] emptyMapping = Inr m"
    "\<And>f. sectionOf m f = map (pluginOf stat) (filter (\<lambda>e. fst e = f) (entriesOf pluginConf []))"
    using pluginConf_read by blast
  show ?thesis unfolding m(1)
    using assms by (simp add: m(2) pluginConf_entries pluginOf_def Scalers_def Replicators_def pluginFSPath_def pluginPath_def)
qed

theorem tables_in_step_witness:
  "\<exists>m. scanLoop id (\<lambda>path. take 8 path = ''plugins/'') (ScanLines (join_with newline pluginConf)) [] emptyMapping = Inr m \<and>
     map pi_name (sectionOf m ''scaler'') = [''cpu'', ''memory'', ''prometheus'']"
  using tables_in_step [of "\<lambda>path. take 8 path = ''plugins/''" id] by (auto simp: Scalers_def)

definition importLine :: "pluginInfo \<Rightarrow> string" where
  "importLine p = tab @ ''_ '' @ quote @ pi_repo p @ quote @ newline"

lemma importsText_line:
  assumes "p \<in> set (sectionOf m flag)" "set order = fset (fmdom m)"
  shows "\<exists>pre post. importsText pack (map (sectionOf m) order) m = pre @ importLine p @ post"
proof -
  obtain ps where "fmlookup m flag = Some ps" using assms(1) by (cases "fmlookup m flag") (simp_all add: sectionOf_def)
  then have "flag \<in> set order" unfolding assms(2) by (rule fmdomI)
  then have "p \<in> set (concat (map (sectionOf m) order))" using assms(1) by auto
  then obtain ps qs where "concat (map (sectionOf m) order) = ps @ p # qs" by (meson split_list)
  then have "concat (map importLine (concat (map (sectionOf m) order))) =
      concat (map importLine ps) @ importLine p @ concat (map importLine qs)" by simp
  then show ?thesis unfolding importsText_def importLine_def [symmetric] by (metis append.assoc)
qed

text \<open>
  What the generator writes. When it ends without an error it has written the formatted list of imports and
  the formatted tables, once each, and every plugin that the tables name is imported, in whatever order Go visits
  the sections: no name is compiled into the tables whose package is not linked in.
\<close>

theorem generated_files:
  assumes "generate w = (None, ws)" and "\<And>m. set (gw_MapOrder w m) = fset (fmdom m)"
  shows "\<exists>content m imported f1 f2. gw_Open w ''plugin.conf'' = Inr content \<and>
     scanLoop (gw_Quoted w) (gw_Stat w) (ScanLines content) [] emptyMapping = Inr m \<and>
     gw_Format w imported = Inr f1 \<and> gw_Format w (directivesText ''engine'' m) = Inr f2 \<and>
     ws = [(''core/engine/plugin/pluginz.go'', f1), (''core/engine/pluginz.go'', f2)] \<and>
     (\<forall>p\<in>set (sectionOf m ''scaler'') \<union> set (sectionOf m ''replicator''). \<exists>pre post. imported = pre @ importLine p @ post)"
proof -
  obtain content where c: "gw_Open w ''plugin.conf'' = Inr content" using assms(1) by (auto simp: generate_def split: sum.splits)
  obtain m where m: "scanLoop (gw_Quoted w) (gw_Stat w) (ScanLines content) [] emptyMapping = Inr m"
    using assms(1) c by (auto simp: generate_def split: sum.splits)
  let ?imported = "importsText ''plugin'' (map (sectionOf m) (gw_MapOrder w m)) m"
  have "\<exists>f1 f2. gw_Format w ?imported = Inr f1 \<and> gw_Format w (directivesText ''engine'' m) = Inr f2 \<and>
     ws = [(''core/engine/plugin/pluginz.go'', f1), (''core/engine/pluginz.go'', f2)]"
    using assms(1) c m
    by (auto simp: generate_def genImports_def genDirectives_def formatAndWrite_def split: sum.splits option.splits prod.splits)
  moreover have "\<exists>pre post. ?imported = pre @ importLine p @ post"
    if "p \<in> set (sectionOf m ''scaler'') \<union> set (sectionOf m ''replicator'')" for p
    using that importsText_line [OF _ assms(2)] by blast
  ultimately show ?thesis using c m by blast
qed

definition sampleGenWorld :: GenWorld where
  "sampleGenWorld = \<lparr>gw_Open = \<lambda>_. Inr (join_with newline pluginConf), gw_Stat = \<lambda>path. take 8 path = ''plugins/'',
     gw_MapOrder = \<lambda>m. sorted_list_of_set (fset (fmdom m)), gw_Quoted = id, gw_Format = Inr, gw_WriteFile = \<lambda>_. None\<rparr>"

theorem generated_files_witness:
  "\<exists>ws imported. generate sampleGenWorld = (None, ws) \<and> map fst ws = [''core/engine/plugin/pluginz.go'', ''core/engine/pluginz.go''] \<and>
     (\<exists>pre post. imported = pre @ importLine \<lparr>pi_name = ''simple'', pi_repo = ''github.com/xscaling/wing/plugins/replicator_simple''\<rparr> @ post) \<and>
     snd (hd ws) = imported"
proof -
  let ?stat = "\<lambda>path. take 8 path = ''plugins/''" and ?p = "\<lparr>pi_name = ''simple'', pi_repo = ''github.com/xscaling/wing/plugins/replicator_simple''\<rparr>"
  obtain m where m: "scanLoop id ?stat (ScanLines (join_with newline pluginConf)) [] emptyMapping = Inr m"
    "\<And>f. sectionOf m f = map (pluginOf ?stat) (filter (\<lambda>e. fst e = f) (entriesOf pluginConf []))"
    using pluginConf_read [of id ?stat] by blast
  obtain ws where ws: "generate sampleGenWorld = (None, ws)"
    using m(1) by (simp add: generate_def sampleGenWorld_def genImports_def genDirectives_def formatAndWrite_def)
  have p: "?p \<in> set (sectionOf m ''replicator'')"
    by (simp add: m(2) pluginConf_entries pluginOf_def pluginFSPath_def pluginPath_def)
  have order: "set (gw_MapOrder sampleGenWorld n) = fset (fmdom n)" for n by (simp add: sampleGenWorld_def)
  from generated_files [OF ws order] obtain content m' imported f1 f2 where
    g: "gw_Open sampleGenWorld ''plugin.conf'' = Inr content"
      "scanLoop (gw_Quoted sampleGenWorld) (gw_Stat sampleGenWorld) (ScanLines content) [] emptyMapping = Inr m'"
      "gw_Format sampleGenWorld imported = Inr f1"
      "ws = [(''core/engine/plugin/pluginz.go'', f1), (''core/engine/pluginz.go'', f2)]"
      "\<forall>p\<in>set (sectionOf m' ''scaler'') \<union> set (sectionOf m' ''replicator''). \<exists>pre post. imported = pre @ importLine p @ post"
    by blast
  have "m' = m" "f1 = imported" using g(1-3) m(1) by (auto simp: sampleGenWorld_def)
  with g(4,5) p ws show ?thesis by (intro exI [of _ ws] exI [of _ imported]) auto
qed

end
