(* ===== verification/Go_Heap.thy ===== *)
theory Go_Heap
  imports Wing_Prelude
begin

text \<open>
  An explicit memory for the code whose correctness depends on aliasing: the deep copies of the API objects.
  A heap is a list of cells, an address is a position in it, and allocation appends a cell. The type of a cell is
  a parameter here; \<open>Deepcopy\<close> fixes it.

  What a Go value means is given by a reading \<open>sem h x = Some (v, A)\<close>: in the memory \<open>h\<close> the
  representation \<open>x\<close> stands for the value \<open>v\<close>, and \<open>A\<close> is its footprint, the cells that are read to
  find \<open>v\<close>. The locale \<open>reading\<close> says that a change of memory outside the footprint changes nothing; the
  locale \<open>deep_copier\<close> says what a deep copy promises: it leaves the existing cells alone, its result stands
  for the same value, and the footprint of the result is fresh. Fields, pointers and slices have deep copies
  when their parts have, so that a struct is checked field by field.
\<close>

subsection \<open>Memory\<close>

type_synonym 'k heap = "'k list"
type_synonym addr = nat

text \<open>A pointer is nil or an address; a slice is nil or the address of its array with a length, which may be
  smaller than that of the array (the capacity).\<close>

type_synonym pointer = "addr option"
type_synonym slice = "(addr \<times> nat) option"

type_synonym ('k, 'c) copier = "'c \<Rightarrow> 'k heap \<Rightarrow> ('c \<times> 'k heap) exec"
type_synonym ('k, 'c, 'a) reader = "'k heap \<Rightarrow> 'c \<Rightarrow> ('a \<times> addr set) option"

definition alloc :: "'k \<Rightarrow> 'k heap \<Rightarrow> addr \<times> 'k heap" where
  "alloc c h = (length h, h @ [c])"

text \<open>\<open>dest\<close> reads a cell at one type; the contents of a cell of another type, or outside the memory, is not
  reached by a typed pointer, and the model panics.\<close>

definition cell_at :: "('k \<Rightarrow> 'c option) \<Rightarrow> 'k heap \<Rightarrow> addr \<Rightarrow> 'c option" where
  "cell_at dest h a = (if a < length h then dest (h ! a) else None)"

definition load :: "('k \<Rightarrow> 'c option) \<Rightarrow> addr \<Rightarrow> 'k heap \<Rightarrow> 'c exec" where
  "load dest a h = (case cell_at dest h a of Some x \<Rightarrow> Ret x | None \<Rightarrow> Panic ''invalid memory address'')"

definition store :: "addr \<Rightarrow> 'k \<Rightarrow> 'k heap \<Rightarrow> 'k heap" where
  "store a c h = h[a := c]"

text \<open>The second heap has the cells of the first at a set of addresses.\<close>

definition agree_on :: "addr set \<Rightarrow> 'k heap \<Rightarrow> 'k heap \<Rightarrow> bool" where
  "agree_on A h h' \<longleftrightarrow> (\<forall>a\<in>A. a < length h' \<and> h' ! a = h ! a)"

definition fresh_in :: "'k heap \<Rightarrow> 'k heap \<Rightarrow> addr set" where
  "fresh_in h h' = {length h..<length h'}"

lemma agree_on_append: "A \<subseteq> {..<length h} \<Longrightarrow> agree_on A h (h @ t)"
  by (auto simp: agree_on_def nth_append)

lemma agree_on_mono: "agree_on A h h' \<Longrightarrow> B \<subseteq> A \<Longrightarrow> agree_on B h h'"
  by (auto simp: agree_on_def)

lemma agree_on_Un: "agree_on (A \<union> B) h h' \<longleftrightarrow> agree_on A h h' \<and> agree_on B h h'"
  by (auto simp: agree_on_def)

lemma agree_on_insert: "agree_on (insert a A) h h' \<longleftrightarrow> a < length h' \<and> h' ! a = h ! a \<and> agree_on A h h'"
  by (auto simp: agree_on_def)

lemma agree_on_store: "a \<notin> A \<Longrightarrow> A \<subseteq> {..<length h} \<Longrightarrow> agree_on A h (store a c h)"
  unfolding agree_on_def store_def by (metis length_list_update lessThan_iff nth_list_update_neq subsetD)

lemma agree_on_store_trans: "agree_on A h h1 \<Longrightarrow> a \<notin> A \<Longrightarrow> agree_on A h (store a c h1)"
  unfolding agree_on_def store_def by (metis length_list_update nth_list_update_neq)

lemma fresh_disjoint: "A \<subseteq> {..<length h} \<Longrightarrow> A \<inter> fresh_in h h' = {}"
  by (auto simp: fresh_in_def)

lemma length_store [simp]: "length (store a c h) = length h"
  by (simp add: store_def)

lemma store_new [simp]: "store (length h) c (h @ d # t) = h @ c # t"
  by (simp add: store_def)

lemma load_Ret [simp]: "cell_at dest h a = Some x \<Longrightarrow> load dest a h = Ret x"
  by (simp add: load_def)

lemma cell_at_new [simp]: "cell_at dest (h @ c # t) (length h) = dest c"
  by (simp add: cell_at_def)

lemma cell_at_append: "cell_at dest h a = Some x \<Longrightarrow> cell_at dest (h @ t) a = Some x"
  by (auto simp: cell_at_def nth_append split: if_splits)

lemma cell_at_agree: "cell_at dest h a = Some x \<Longrightarrow> agree_on (insert a A) h h' \<Longrightarrow> cell_at dest h' a = Some x"
  by (auto simp: cell_at_def agree_on_def split: if_splits)

lemma cell_at_lt: "cell_at dest h a = Some x \<Longrightarrow> a < length h"
  by (auto simp: cell_at_def split: if_splits)

subsection \<open>Readings and deep copies\<close>

locale reading =
  fixes sem :: "('k, 'c, 'a) reader"
  assumes sem_allocated: "sem h x = Some (v, A) \<Longrightarrow> A \<subseteq> {..<length h}"
    and sem_support: "sem h x = Some (v, A) \<Longrightarrow> agree_on A h h' \<Longrightarrow> sem h' x = Some (v, A)"
begin

lemma sem_append: "sem h x = Some (v, A) \<Longrightarrow> sem (h @ t) x = Some (v, A)"
  by (rule sem_support, assumption, rule agree_on_append, rule sem_allocated)

end

locale deep_copier = reading sem
  for sem :: "('k, 'c, 'a) reader" +
  fixes copy :: "('k, 'c) copier"
  assumes copy_deep: "sem h x = Some (v, A) \<Longrightarrow>
      \<exists>y t B. copy x h = Ret (y, h @ t) \<and> sem (h @ t) y = Some (v, B) \<and> B \<subseteq> fresh_in h (h @ t)"
begin

text \<open>Copy and original are independent: whatever is written to the cells that existed before the copy, the copy
  keeps its value, and whatever is written to the cells of the copy, the original keeps its own.\<close>

lemma copy_independent:
  assumes "sem h x = Some (v, A)"
  shows "\<exists>y t B. copy x h = Ret (y, h @ t) \<and> sem (h @ t) y = Some (v, B) \<and>
     (\<forall>h'. agree_on (fresh_in h (h @ t)) (h @ t) h' \<longrightarrow> sem h' y = Some (v, B)) \<and>
     (\<forall>h'. agree_on {..<length h} (h @ t) h' \<longrightarrow> sem h' x = Some (v, A))"
proof -
  from copy_deep [OF assms] obtain y t B where
    y: "copy x h = Ret (y, h @ t)" "sem (h @ t) y = Some (v, B)" "B \<subseteq> fresh_in h (h @ t)" by blast
  have "sem h' y = Some (v, B)" if "agree_on (fresh_in h (h @ t)) (h @ t) h'" for h'
    by (rule sem_support [OF y(2) agree_on_mono [OF that y(3)]])
  moreover have "sem h' x = Some (v, A)" if "agree_on {..<length h} (h @ t) h'" for h'
    by (rule sem_support [OF sem_append [OF assms] agree_on_mono [OF that sem_allocated [OF assms]]])
  ultimately show ?thesis using y(1,2) by blast
qed

end

subsection \<open>Flat values\<close>

text \<open>\<^verbatim>\<open>*out = *in\<close> for a type without pointers.\<close>

definition copyFlat :: "('k, 'c) copier" where
  "copyFlat x h = Ret (x, h)"

definition semFlat :: "('k, 'c, 'c) reader" where
  "semFlat h x = Some (x, {})"

interpretation flat: deep_copier semFlat copyFlat
  by unfold_locales (auto simp: copyFlat_def semFlat_def)

subsection \<open>Fields\<close>

text \<open>Two fields one after the other, and a struct given by its fields: \<open>parts\<close> reads the fields, \<open>build\<close> writes
  them, and \<open>val\<close> makes a value of their values.\<close>

definition copyPair :: "('k, 'c) copier \<Rightarrow> ('k, 'd) copier \<Rightarrow> ('k, 'c \<times> 'd) copier" where
  "copyPair c1 c2 p h =
     exec_bind (c1 (fst p) h) (\<lambda>(y1, h1). exec_bind (c2 (snd p) h1) (\<lambda>(y2, h2). Ret ((y1, y2), h2)))"

definition semPair :: "('k, 'c, 'a) reader \<Rightarrow> ('k, 'd, 'b) reader \<Rightarrow> ('k, 'c \<times> 'd, 'a \<times> 'b) reader" where
  "semPair d1 d2 h p =
     (case d1 h (fst p) of
        None \<Rightarrow> None
      | Some (v, A) \<Rightarrow> (case d2 h (snd p) of None \<Rightarrow> None | Some (w, B) \<Rightarrow> Some ((v, w), A \<union> B)))"

definition semStruct :: "('d \<Rightarrow> 'c) \<Rightarrow> ('a \<Rightarrow> 'b) \<Rightarrow> ('k, 'c, 'a) reader \<Rightarrow> ('k, 'd, 'b) reader" where
  "semStruct parts val d h x = (case d h (parts x) of None \<Rightarrow> None | Some (v, A) \<Rightarrow> Some (val v, A))"

lemma semPair_Some:
  "semPair d1 d2 h p = Some (u, C) \<longleftrightarrow>
     (\<exists>A B. d1 h (fst p) = Some (fst u, A) \<and> d2 h (snd p) = Some (snd u, B) \<and> C = A \<union> B)"
  by (cases u) (auto simp: semPair_def split: option.splits)

lemma semStruct_Some:
  "semStruct parts val d h x = Some (v, A) \<longleftrightarrow> (\<exists>u. d h (parts x) = Some (u, A) \<and> v = val u)"
  by (auto simp: semStruct_def split: option.splits)

lemma reading_pair:
  assumes "reading d1" "reading d2"
  shows "reading (semPair d1 d2)"
proof
  fix h p u C
  assume "semPair d1 d2 h p = Some (u, C)"
  then show "C \<subseteq> {..<length h}"
    using reading.sem_allocated [OF assms(1)] reading.sem_allocated [OF assms(2)] by (fastforce simp: semPair_Some)
next
  fix h p u C h'
  assume "semPair d1 d2 h p = Some (u, C)" "agree_on C h h'"
  then show "semPair d1 d2 h' p = Some (u, C)"
    using reading.sem_support [OF assms(1)] reading.sem_support [OF assms(2)]
    unfolding semPair_Some agree_on_Un by (metis agree_on_Un)
qed

lemma reading_struct:
  assumes "reading d"
  shows "reading (semStruct parts val d)"
  by unfold_locales
    (auto simp: semStruct_Some dest: reading.sem_allocated [OF assms] reading.sem_support [OF assms])

lemmas deep_copierI = deep_copier.intro [OF _ deep_copier_axioms.intro]

lemma deep_copier_pair:
  assumes "deep_copier d1 c1" "deep_copier d2 c2"
  shows "deep_copier (semPair d1 d2) (copyPair c1 c2)"
proof (rule deep_copierI)
  note r = assms [THEN deep_copier.axioms(1)]
  show "reading (semPair d1 d2)" by (rule reading_pair [OF r])
  fix h p u C
  assume "semPair d1 d2 h p = Some (u, C)"
  then obtain A B where d: "d1 h (fst p) = Some (fst u, A)" "d2 h (snd p) = Some (snd u, B)"
    by (auto simp: semPair_Some)
  from deep_copier.copy_deep [OF assms(1) d(1)] obtain y1 t1 A' where
    y1: "c1 (fst p) h = Ret (y1, h @ t1)" "d1 (h @ t1) y1 = Some (fst u, A')" "A' \<subseteq> fresh_in h (h @ t1)" by blast
  from deep_copier.copy_deep [OF assms(2) reading.sem_append [OF r(2) d(2)]] obtain y2 t2 B' where
    y2: "c2 (snd p) (h @ t1) = Ret (y2, (h @ t1) @ t2)" "d2 ((h @ t1) @ t2) y2 = Some (snd u, B')"
      "B' \<subseteq> fresh_in (h @ t1) ((h @ t1) @ t2)" by blast
  have "d1 (h @ t1 @ t2) y1 = Some (fst u, A')" using reading.sem_append [OF r(1) y1(2), of t2] by simp
  moreover have "A' \<union> B' \<subseteq> fresh_in h (h @ t1 @ t2)" using y1(3) y2(3) by (auto simp: fresh_in_def)
  ultimately show "\<exists>y t D. copyPair c1 c2 p h = Ret (y, h @ t) \<and> semPair d1 d2 (h @ t) y = Some (u, D) \<and>
      D \<subseteq> fresh_in h (h @ t)"
    using y1(1) y2(1,2)
    by (intro exI [of _ "(y1, y2)"] exI [of _ "t1 @ t2"] exI [of _ "A' \<union> B'"]) (auto simp: copyPair_def semPair_Some)
qed

lemma deep_copier_struct:
  assumes "deep_copier d c" and "\<And>x y. parts (build x y) = y"
    and "\<And>x h. copy x h = exec_bind (c (parts x) h) (\<lambda>(y, h'). Ret (build x y, h'))"
  shows "deep_copier (semStruct parts val d) copy"
proof (rule deep_copierI)
  show "reading (semStruct parts val d)" by (rule reading_struct [OF deep_copier.axioms(1) [OF assms(1)]])
  fix h x v A
  assume "semStruct parts val d h x = Some (v, A)"
  then obtain u where u: "d h (parts x) = Some (u, A)" "v = val u" by (auto simp: semStruct_Some)
  from deep_copier.copy_deep [OF assms(1) u(1)] obtain y t B where
    "c (parts x) h = Ret (y, h @ t)" "d (h @ t) y = Some (u, B)" "B \<subseteq> fresh_in h (h @ t)" by blast
  then show "\<exists>y t B. copy x h = Ret (y, h @ t) \<and> semStruct parts val d (h @ t) y = Some (v, B) \<and>
      B \<subseteq> fresh_in h (h @ t)"
    by (intro exI [of _ "build x y"] exI [of _ t] exI [of _ B]) (auto simp: assms(2,3) semStruct_Some u(2))
qed

text \<open>\<^verbatim>\<open>if in != nil\<close> around a copy.\<close>

lemma deep_copier_guard:
  assumes "deep_copier sem copy" and "\<And>h v A. sem h nil = Some (v, A) \<Longrightarrow> A = {}"
  shows "deep_copier sem (\<lambda>x h. if x = nil then Ret (nil, h) else copy x h)"
proof (rule deep_copierI)
  show "reading sem" by (rule deep_copier.axioms(1) [OF assms(1)])
  fix h x v A
  assume x: "sem h x = Some (v, A)"
  show "\<exists>y t B. (if x = nil then Ret (nil, h) else copy x h) = Ret (y, h @ t) \<and> sem (h @ t) y = Some (v, B) \<and>
      B \<subseteq> fresh_in h (h @ t)"
  proof (cases "x = nil")
    case True
    with x assms(2) have "sem h nil = Some (v, {})" by (metis (no_types))
    with True show ?thesis by (intro exI [of _ nil] exI [of _ "[]"] exI [of _ "{}"]) simp
  next
    case False
    with deep_copier.copy_deep [OF assms(1) x] show ?thesis by simp
  qed
qed

subsection \<open>Pointers\<close>

text \<open>The code copies a pointer field in two ways, both behind \<^verbatim>\<open>if in.F != nil\<close>:
  \<^verbatim>\<open>*out = new(T); (*in).DeepCopyInto(*out)\<close> (\<open>copyPtr\<close>, where the zero value of \<^verbatim>\<open>T\<close> is allocated first) and
  \<^verbatim>\<open>x := (*in).DeepCopy(); *out = &x\<close> (\<open>copyAddr\<close>).\<close>

definition copyPtr :: "('c \<Rightarrow> 'k) \<Rightarrow> ('k \<Rightarrow> 'c option) \<Rightarrow> 'c \<Rightarrow> ('k, 'c) copier \<Rightarrow> ('k, pointer) copier" where
  "copyPtr mk dest zero copy p h =
     (case p of
        None \<Rightarrow> Ret (None, h)
      | Some a \<Rightarrow>
          (let (b, h1) = alloc (mk zero) h in
           exec_bind (load dest a h1) (\<lambda>x.
           exec_bind (copy x h1) (\<lambda>(y, h2).
           Ret (Some b, store b (mk y) h2)))))"

definition copyAddr :: "('c \<Rightarrow> 'k) \<Rightarrow> ('k \<Rightarrow> 'c option) \<Rightarrow> ('k, 'c) copier \<Rightarrow> ('k, pointer) copier" where
  "copyAddr mk dest copy p h =
     (case p of
        None \<Rightarrow> Ret (None, h)
      | Some a \<Rightarrow>
          exec_bind (load dest a h) (\<lambda>x.
          exec_bind (copy x h) (\<lambda>(y, h1).
          (let (b, h2) = alloc (mk y) h1 in Ret (Some b, h2)))))"

definition semPtr :: "('k \<Rightarrow> 'c option) \<Rightarrow> ('k, 'c, 'a) reader \<Rightarrow> ('k, pointer, 'a option) reader" where
  "semPtr dest d h p =
     (case p of
        None \<Rightarrow> Some (None, {})
      | Some a \<Rightarrow>
          (case cell_at dest h a of
             None \<Rightarrow> None
           | Some x \<Rightarrow> (case d h x of None \<Rightarrow> None | Some (v, A) \<Rightarrow> Some (Some v, insert a A))))"

lemma semPtr_None: "semPtr dest d h None = Some (u, C) \<longleftrightarrow> u = None \<and> C = {}"
  by (auto simp: semPtr_def)

lemma semPtr_Some:
  "semPtr dest d h (Some a) = Some (u, C) \<longleftrightarrow>
     (\<exists>x v A. cell_at dest h a = Some x \<and> d h x = Some (v, A) \<and> u = Some v \<and> C = insert a A)"
  by (auto simp: semPtr_def split: option.splits)

lemma reading_ptr:
  assumes "reading d"
  shows "reading (semPtr dest d)"
proof
  fix h p u C
  assume "semPtr dest d h p = Some (u, C)"
  then show "C \<subseteq> {..<length h}"
    by (cases p) (auto simp: semPtr_None semPtr_Some dest: cell_at_lt reading.sem_allocated [OF assms])
next
  fix h p u C h'
  assume s: "semPtr dest d h p = Some (u, C)" and g: "agree_on C h h'"
  show "semPtr dest d h' p = Some (u, C)"
  proof (cases p)
    case None
    with s show ?thesis by (simp add: semPtr_None)
  next
    case (Some a)
    with s obtain x v A where x: "cell_at dest h a = Some x" "d h x = Some (v, A)" "u = Some v" "C = insert a A"
      by (auto simp: semPtr_Some)
    have "d h' x = Some (v, A)"
      by (rule reading.sem_support [OF assms x(2)]) (use g x(4) in \<open>simp add: agree_on_insert\<close>)
    with cell_at_agree [OF x(1)] g x(3,4) show ?thesis by (auto simp: Some semPtr_Some)
  qed
qed

text \<open>A deep copier with a cell for its values: \<open>mk\<close> makes the cell, \<open>dest\<close> reads it back.\<close>

locale cell_copier = deep_copier sem copy
  for sem :: "('k, 'c, 'a) reader" and copy :: "('k, 'c) copier" +
  fixes mk :: "'c \<Rightarrow> 'k" and dest :: "'k \<Rightarrow> 'c option" and zero :: 'c
  assumes dest_mk: "dest (mk x) = Some x"
begin

text \<open>\<^verbatim>\<open>out := new(T); in.DeepCopyInto(out)\<close>.\<close>

lemma copy_into_new:
  assumes "sem h x = Some (v, A)"
  shows "\<exists>y t B. copy x (h @ [mk zero]) = Ret (y, h @ mk zero # t) \<and> sem (h @ mk y # t) y = Some (v, B) \<and>
     B \<subseteq> {length h<..<length (h @ mk y # t)}"
proof -
  from copy_deep [OF sem_append [OF assms, of "[mk zero]"]] obtain y t B where
    y: "copy x (h @ [mk zero]) = Ret (y, (h @ [mk zero]) @ t)" "sem ((h @ [mk zero]) @ t) y = Some (v, B)"
      "B \<subseteq> fresh_in (h @ [mk zero]) ((h @ [mk zero]) @ t)" by blast
  have "sem (store (length h) (mk y) ((h @ [mk zero]) @ t)) y = Some (v, B)"
    by (rule sem_support [OF y(2) agree_on_store [OF _ sem_allocated [OF y(2)]]]) (use y(3) in \<open>auto simp: fresh_in_def\<close>)
  then have "sem (h @ mk y # t) y = Some (v, B)" by simp
  moreover have "B \<subseteq> {length h<..<length (h @ mk y # t)}" using y(3) by (auto simp: fresh_in_def)
  moreover have "copy x (h @ [mk zero]) = Ret (y, h @ mk zero # t)" using y(1) by simp
  ultimately show ?thesis by blast
qed

lemma deep_ptr: "deep_copier (semPtr dest sem) (copyPtr mk dest zero copy)"
proof (rule deep_copierI [OF reading_ptr])
  show "reading sem" by unfold_locales
  fix h p u C
  assume s: "semPtr dest sem h p = Some (u, C)"
  show "\<exists>y t B. copyPtr mk dest zero copy p h = Ret (y, h @ t) \<and> semPtr dest sem (h @ t) y = Some (u, B) \<and>
      B \<subseteq> fresh_in h (h @ t)"
  proof (cases p)
    case None
    with s show ?thesis by (auto simp: copyPtr_def semPtr_None)
  next
    case (Some a)
    with s obtain x v A where x: "cell_at dest h a = Some x" "sem h x = Some (v, A)" "u = Some v"
      by (auto simp: semPtr_Some)
    from copy_into_new [OF x(2)] obtain y t B where
      y: "copy x (h @ [mk zero]) = Ret (y, h @ mk zero # t)" "sem (h @ mk y # t) y = Some (v, B)"
        "B \<subseteq> {length h<..<length (h @ mk y # t)}" by blast
    have f: "insert (length h) B \<subseteq> fresh_in h (h @ mk y # t)" using y(3) by (auto simp: fresh_in_def)
    from y(2) have "semPtr dest sem (h @ mk y # t) (Some (length h)) = Some (u, insert (length h) B)"
      by (simp add: semPtr_Some dest_mk x(3))
    moreover from y(1) have "copyPtr mk dest zero copy p h = Ret (Some (length h), h @ mk y # t)"
      by (simp add: Some copyPtr_def alloc_def cell_at_append [OF x(1)])
    ultimately show ?thesis using f by blast
  qed
qed

lemma deep_addr: "deep_copier (semPtr dest sem) (copyAddr mk dest copy)"
proof (rule deep_copierI [OF reading_ptr])
  show "reading sem" by unfold_locales
  fix h p u C
  assume s: "semPtr dest sem h p = Some (u, C)"
  show "\<exists>y t B. copyAddr mk dest copy p h = Ret (y, h @ t) \<and> semPtr dest sem (h @ t) y = Some (u, B) \<and>
      B \<subseteq> fresh_in h (h @ t)"
  proof (cases p)
    case None
    with s show ?thesis by (auto simp: copyAddr_def semPtr_None)
  next
    case (Some a)
    with s obtain x v A where x: "cell_at dest h a = Some x" "sem h x = Some (v, A)" "u = Some v"
      by (auto simp: semPtr_Some)
    from copy_deep [OF x(2)] obtain y t B where
      y: "copy x h = Ret (y, h @ t)" "sem (h @ t) y = Some (v, B)" "B \<subseteq> fresh_in h (h @ t)" by blast
    have c: "cell_at dest (h @ t @ [mk y]) (length h + length t) = Some y"
      using cell_at_new [of dest "h @ t" "mk y" "[]"] by (simp add: dest_mk)
    have "sem (h @ t @ [mk y]) y = Some (v, B)" using sem_append [OF y(2), of "[mk y]"] by simp
    with c have "semPtr dest sem (h @ t @ [mk y]) (Some (length h + length t)) = Some (u, insert (length h + length t) B)"
      by (simp add: semPtr_Some x(3))
    moreover from y(1) have "copyAddr mk dest copy p h = Ret (Some (length h + length t), h @ t @ [mk y])"
      by (simp add: Some copyAddr_def alloc_def x(1))
    moreover have "insert (length h + length t) B \<subseteq> fresh_in h (h @ t @ [mk y])"
      using y(3) by (auto simp: fresh_in_def)
    ultimately show ?thesis by blast
  qed
qed

text \<open>\<^verbatim>\<open>out := new(T); in.DeepCopyInto(out); return *out\<close> for a value receiver.\<close>

lemma deep_via:
  "deep_copier sem (\<lambda>x h. let (b, h1) = alloc (mk zero) h in
     exec_bind (copy x h1) (\<lambda>(y, h2). let h3 = store b (mk y) h2 in
     exec_bind (load dest b h3) (\<lambda>z. Ret (z, h3))))" (is "deep_copier sem ?c")
proof (rule deep_copierI)
  show "reading sem" by unfold_locales
  fix h x v A
  assume x: "sem h x = Some (v, A)"
  from copy_into_new [OF x] obtain y t B where
    y: "copy x (h @ [mk zero]) = Ret (y, h @ mk zero # t)" "sem (h @ mk y # t) y = Some (v, B)"
      "B \<subseteq> {length h<..<length (h @ mk y # t)}" by blast
  have "B \<subseteq> fresh_in h (h @ mk y # t)" using y(3) by (auto simp: fresh_in_def)
  moreover from y(1) have "?c x h = Ret (y, h @ mk y # t)" by (simp add: alloc_def dest_mk)
  moreover note y(2)
  ultimately show "\<exists>y t B. ?c x h = Ret (y, h @ t) \<and> sem (h @ t) y = Some (v, B) \<and> B \<subseteq> fresh_in h (h @ t)" by blast
qed

end

sublocale cell_copier \<subseteq> ptr: deep_copier "semPtr dest sem" "copyPtr mk dest zero copy"
  by (rule deep_ptr)

sublocale cell_copier \<subseteq> addr: deep_copier "semPtr dest sem" "copyAddr mk dest copy"
  by (rule deep_addr)

subsection \<open>Slices\<close>

definition slice_len :: "slice \<Rightarrow> nat" where
  "slice_len s = (case s of None \<Rightarrow> 0 | Some (a, n) \<Rightarrow> n)"

definition slice_get :: "('k \<Rightarrow> 'c list option) \<Rightarrow> slice \<Rightarrow> nat \<Rightarrow> 'k heap \<Rightarrow> 'c exec" where
  "slice_get dest s i h =
     (case s of
        None \<Rightarrow> Panic ''index out of range''
      | Some (a, n) \<Rightarrow>
          exec_bind (load dest a h) (\<lambda>xs.
          if i < n \<and> i < length xs then Ret (xs ! i) else Panic ''index out of range''))"

definition slice_set ::
  "('c list \<Rightarrow> 'k) \<Rightarrow> ('k \<Rightarrow> 'c list option) \<Rightarrow> slice \<Rightarrow> nat \<Rightarrow> 'c \<Rightarrow> 'k heap \<Rightarrow> 'k heap exec" where
  "slice_set mk dest s i y h =
     (case s of
        None \<Rightarrow> Panic ''index out of range''
      | Some (a, n) \<Rightarrow>
          exec_bind (load dest a h) (\<lambda>xs.
          if i < n \<and> i < length xs then Ret (store a (mk (xs[i := y])) h) else Panic ''index out of range''))"

text \<open>\<^verbatim>\<open>for i := range *in { (*in)[i].DeepCopyInto(&(*out)[i]) }\<close>: the last but one argument counts the elements
  left.\<close>

fun copyElems ::
  "('c list \<Rightarrow> 'k) \<Rightarrow> ('k \<Rightarrow> 'c list option) \<Rightarrow> ('k, 'c) copier \<Rightarrow> slice \<Rightarrow> slice \<Rightarrow> nat \<Rightarrow> nat \<Rightarrow> 'k heap \<Rightarrow> 'k heap exec"
  where
  "copyElems mk dest copy s s' i 0 h = Ret h"
| "copyElems mk dest copy s s' i (Suc k) h =
     exec_bind (slice_get dest s i h) (\<lambda>x.
     exec_bind (copy x h) (\<lambda>(y, h1).
     exec_bind (slice_set mk dest s' i y h1) (\<lambda>h2.
     copyElems mk dest copy s s' (Suc i) k h2)))"

text \<open>\<^verbatim>\<open>*out = make(S, len(*in))\<close> and the loop, and the same behind \<^verbatim>\<open>if in.F != nil\<close>.\<close>

definition makeSlice ::
  "('c list \<Rightarrow> 'k) \<Rightarrow> ('k \<Rightarrow> 'c list option) \<Rightarrow> 'c \<Rightarrow> ('k, 'c) copier \<Rightarrow> ('k, slice) copier" where
  "makeSlice mk dest zero copy s h =
     (let n = slice_len s; (b, h1) = alloc (mk (replicate n zero)) h in
      exec_bind (copyElems mk dest copy s (Some (b, n)) 0 n h1) (\<lambda>h2. Ret (Some (b, n), h2)))"

definition copySlice ::
  "('c list \<Rightarrow> 'k) \<Rightarrow> ('k \<Rightarrow> 'c list option) \<Rightarrow> 'c \<Rightarrow> ('k, 'c) copier \<Rightarrow> ('k, slice) copier" where
  "copySlice mk dest zero copy s h = (if s = None then Ret (None, h) else makeSlice mk dest zero copy s h)"

definition semSlice :: "('k \<Rightarrow> 'c list option) \<Rightarrow> ('k, 'c, 'a) reader \<Rightarrow> ('k, slice, 'a list) reader" where
  "semSlice dest d h s =
     (case s of
        None \<Rightarrow> Some ([], {})
      | Some (a, n) \<Rightarrow>
          (case cell_at dest h a of
             None \<Rightarrow> None
           | Some xs \<Rightarrow>
               if length xs < n then None
               else (case those (map (d h) (take n xs)) of
                       None \<Rightarrow> None
                     | Some us \<Rightarrow> Some (map fst us, insert a (\<Union>(snd ` set us))))))"

lemma those_Some: "those ms = Some us \<longleftrightarrow> ms = map Some us"
  by (induction ms arbitrary: us) (auto split: option.splits)

lemma semSlice_None: "semSlice dest d h None = Some (vs, C) \<longleftrightarrow> vs = [] \<and> C = {}"
  by (auto simp: semSlice_def)

lemma semSlice_Some:
  "semSlice dest d h (Some (a, n)) = Some (vs, C) \<longleftrightarrow>
     (\<exists>xs Bs. cell_at dest h a = Some xs \<and> n \<le> length xs \<and> length vs = n \<and> length Bs = n \<and>
        (\<forall>i<n. d h (xs ! i) = Some (vs ! i, Bs ! i)) \<and> C = insert a (\<Union>(set Bs)))" (is "?l \<longleftrightarrow> ?r")
proof
  assume ?l
  then obtain xs us where x: "cell_at dest h a = Some xs" "n \<le> length xs" "map (d h) (take n xs) = map Some us"
    "vs = map fst us" "C = insert a (\<Union>(snd ` set us))"
    by (auto simp: semSlice_def those_Some split: option.splits if_splits)
  have len: "length us = n" using x(2) arg_cong [OF x(3), of length] by simp
  moreover have "d h (xs ! i) = Some (us ! i)" if "i < n" for i
    using arg_cong [OF x(3), of "\<lambda>l. l ! i"] that x(2) len by simp
  ultimately show ?r using x by (intro exI [of _ xs] exI [of _ "map snd us"]) simp
next
  assume ?r
  then obtain xs Bs where x: "cell_at dest h a = Some xs" "n \<le> length xs" "length vs = n" "length Bs = n"
    "\<forall>i<n. d h (xs ! i) = Some (vs ! i, Bs ! i)" "C = insert a (\<Union>(set Bs))" by blast
  then have "map (d h) (take n xs) = map Some (zip vs Bs)" by (intro nth_equalityI) simp_all
  then have "those (map (d h) (take n xs)) = Some (zip vs Bs)" by (simp only: those_Some)
  moreover have "snd ` set (zip vs Bs) = set Bs" using x(3,4) by (metis list.set_map map_snd_zip)
  ultimately show ?l using x by (simp add: semSlice_def)
qed

lemma reading_slice:
  assumes "reading d"
  shows "reading (semSlice dest d)"
proof
  fix h s vs C
  assume s: "semSlice dest d h s = Some (vs, C)"
  show "C \<subseteq> {..<length h}"
  proof (cases s)
    case None
    with s show ?thesis by (simp add: semSlice_None)
  next
    case (Some p)
    then obtain a n where p: "s = Some (a, n)" by (cases p) auto
    with s obtain xs Bs where x: "cell_at dest h a = Some xs" "length Bs = n"
      "\<forall>i<n. d h (xs ! i) = Some (vs ! i, Bs ! i)" "C = insert a (\<Union>(set Bs))"
      by (auto simp: semSlice_Some)
    then have "B \<subseteq> {..<length h}" if "B \<in> set Bs" for B
      using reading.sem_allocated [OF assms] that unfolding in_set_conv_nth by metis
    with x(1,4) cell_at_lt show ?thesis by (metis Sup_le_iff insert_subset lessThan_iff)
  qed
next
  fix h s vs C h'
  assume s: "semSlice dest d h s = Some (vs, C)" and g: "agree_on C h h'"
  show "semSlice dest d h' s = Some (vs, C)"
  proof (cases s)
    case None
    with s show ?thesis by (simp add: semSlice_None)
  next
    case (Some p)
    then obtain a n where p: "s = Some (a, n)" by (cases p) auto
    with s obtain xs Bs where x: "cell_at dest h a = Some xs" "n \<le> length xs" "length vs = n" "length Bs = n"
      "\<forall>i<n. d h (xs ! i) = Some (vs ! i, Bs ! i)" "C = insert a (\<Union>(set Bs))"
      by (auto simp: semSlice_Some)
    have "d h' (xs ! i) = Some (vs ! i, Bs ! i)" if "i < n" for i
    proof (rule reading.sem_support [OF assms])
      show "d h (xs ! i) = Some (vs ! i, Bs ! i)" using x(5) that by blast
      show "agree_on (Bs ! i) h h'" by (rule agree_on_mono [OF g]) (use x(4,6) that nth_mem in blast)
    qed
    with x cell_at_agree [OF x(1)] g show ?thesis unfolding p semSlice_Some by blast
  qed
qed

text \<open>A deep copier with a cell for arrays of its values.\<close>

locale array_copier = deep_copier sem copy
  for sem :: "('k, 'c, 'a) reader" and copy :: "('k, 'c) copier" +
  fixes mk :: "'c list \<Rightarrow> 'k" and dest :: "'k \<Rightarrow> 'c list option" and zero :: 'c
  assumes dest_mk: "dest (mk xs) = Some xs"
begin

text \<open>An element of the new array that has been copied: it stands for \<open>v\<close>, and its cells come after the array.\<close>

definition copied :: "addr \<Rightarrow> 'k heap \<Rightarrow> 'c \<Rightarrow> 'a \<Rightarrow> bool" where
  "copied b h y v \<longleftrightarrow> (\<exists>B. sem h y = Some (v, B) \<and> B \<subseteq> {b<..<length h})"

lemma copied_append: "copied b h y v \<Longrightarrow> copied b (h @ t) y v"
proof -
  assume "copied b h y v"
  then obtain B where B: "sem h y = Some (v, B)" "B \<subseteq> {b<..<length h}" by (auto simp: copied_def)
  from B(2) have "B \<subseteq> {b<..<length (h @ t)}" by auto
  with sem_append [OF B(1)] show ?thesis by (auto simp: copied_def)
qed

lemma copied_store: "copied b h y v \<Longrightarrow> copied b (store b c h) y v"
proof -
  assume "copied b h y v"
  then obtain B where B: "sem h y = Some (v, B)" "B \<subseteq> {b<..<length h}" by (auto simp: copied_def)
  from B(2) have "agree_on B h (store b c h)" by (intro agree_on_store) auto
  with B show ?thesis by (auto simp: copied_def dest: sem_support)
qed

lemma copyElems_copied:
  assumes "cell_at dest h a = Some xs" "i + k \<le> length xs" "i + k \<le> n" "\<forall>j<i + k. \<exists>A. sem h (xs ! j) = Some (vs ! j, A)"
    and "length ys = n" "\<forall>j<i. copied (length h) (h @ mk ys # t) (ys ! j) (vs ! j)"
  shows "\<exists>ys' t'. copyElems mk dest copy (Some (a, n)) (Some (length h, n)) i k (h @ mk ys # t) = Ret (h @ mk ys' # t') \<and>
    length ys' = n \<and> (\<forall>j<i + k. copied (length h) (h @ mk ys' # t') (ys' ! j) (vs ! j))"
  using assms(2-)
proof (induction k arbitrary: i ys t)
  case 0
  then show ?case by (intro exI [of _ ys] exI [of _ t]) simp
next
  case (Suc k)
  let ?H = "h @ mk ys # t"
  obtain A where "sem h (xs ! i) = Some (vs ! i, A)" using spec [OF Suc.prems(3), of i] by auto
  from copy_deep [OF sem_append [OF this, of "mk ys # t"]] obtain y t1 B where
    y: "copy (xs ! i) ?H = Ret (y, ?H @ t1)" "sem (?H @ t1) y = Some (vs ! i, B)" "B \<subseteq> fresh_in ?H (?H @ t1)" by blast
  define ys1 where "ys1 = ys[i := y]"
  have st: "store (length h) (mk ys1) (?H @ t1) = h @ mk ys1 # t @ t1" by simp
  have "copied (length h) (?H @ t1) (ys1 ! j) (vs ! j)" if "j < Suc i" for j
  proof (cases "j = i")
    case True
    with y(2,3) Suc.prems(2,4) show ?thesis by (fastforce simp: copied_def ys1_def fresh_in_def)
  next
    case False
    then have "copied (length h) ?H (ys ! j) (vs ! j)" using that Suc.prems(5) by simp
    from copied_append [OF this, of t1] show ?thesis using False by (simp add: ys1_def)
  qed
  then have c: "\<forall>j<Suc i. copied (length h) (h @ mk ys1 # t @ t1) (ys1 ! j) (vs ! j)"
    by (metis copied_store st)
  have g: "slice_get dest (Some (a, n)) i ?H = Ret (xs ! i)"
    using Suc.prems(1,2) by (simp add: slice_get_def cell_at_append [OF assms(1)])
  have s: "slice_set mk dest (Some (length h, n)) i y (?H @ t1) = Ret (h @ mk ys1 # t @ t1)"
    using Suc.prems(2,4) by (simp add: slice_set_def dest_mk ys1_def)
  have "copyElems mk dest copy (Some (a, n)) (Some (length h, n)) i (Suc k) ?H =
        copyElems mk dest copy (Some (a, n)) (Some (length h, n)) (Suc i) k (h @ mk ys1 # t @ t1)"
    using g y(1) s by simp
  moreover have "length ys1 = n" using Suc.prems(4) by (simp add: ys1_def)
  ultimately show ?case
    using Suc.IH [of "Suc i" ys1 "t @ t1"] Suc.prems(1-3) c by simp
qed

lemma makeSlice_deep:
  assumes "semSlice dest sem h s = Some (vs, C)"
  shows "\<exists>y t B. makeSlice mk dest zero copy s h = Ret (y, h @ t) \<and> semSlice dest sem (h @ t) y = Some (vs, B) \<and>
      B \<subseteq> fresh_in h (h @ t)"
proof (cases s)
  case None
  with assms have "vs = []" by (simp add: semSlice_None)
  moreover have "semSlice dest sem (h @ [mk []]) (Some (length h, 0)) = Some ([], {length h})"
    by (simp add: semSlice_Some dest_mk)
  ultimately show ?thesis
    using None
    by (intro exI [of _ "Some (length h, 0)"] exI [of _ "[mk []]"] exI [of _ "{length h}"])
      (simp add: makeSlice_def slice_len_def alloc_def fresh_in_def)
next
  case (Some p)
  then obtain a n where p: "s = Some (a, n)" by (cases p) auto
  with assms obtain xs Bs where x: "cell_at dest h a = Some xs" "n \<le> length xs" "length vs = n"
    "\<forall>i<n. sem h (xs ! i) = Some (vs ! i, Bs ! i)"
    by (auto simp: semSlice_Some)
  from copyElems_copied [OF x(1), of 0 n n vs "replicate n zero" "[]"] x(2,4) obtain ys t where
    c: "copyElems mk dest copy (Some (a, n)) (Some (length h, n)) 0 n (h @ [mk (replicate n zero)]) = Ret (h @ mk ys # t)"
      "length ys = n" "\<forall>j<n. copied (length h) (h @ mk ys # t) (ys ! j) (vs ! j)" by auto
  from c(3) obtain Ds where d: "length Ds = n"
    "\<forall>j<n. sem (h @ mk ys # t) (ys ! j) = Some (vs ! j, Ds ! j) \<and> Ds ! j \<subseteq> {length h<..<length (h @ mk ys # t)}"
    unfolding copied_def Skolem_list_nth by blast
  have "semSlice dest sem (h @ mk ys # t) (Some (length h, n)) = Some (vs, insert (length h) (\<Union>(set Ds)))"
    using c(2) d x(3) by (auto simp: semSlice_Some dest_mk)
  moreover have "insert (length h) (\<Union>(set Ds)) \<subseteq> fresh_in h (h @ mk ys # t)"
    using d by (fastforce simp: fresh_in_def in_set_conv_nth)
  moreover have "makeSlice mk dest zero copy s h = Ret (Some (length h, n), h @ mk ys # t)"
    using c(1) by (simp add: p makeSlice_def slice_len_def alloc_def)
  ultimately show ?thesis by blast
qed

lemma deep_make: "deep_copier (semSlice dest sem) (makeSlice mk dest zero copy)"
  by (rule deep_copierI [OF reading_slice makeSlice_deep]) unfold_locales

lemma deep_slice: "deep_copier (semSlice dest sem) (copySlice mk dest zero copy)"
  using deep_copier_guard [OF deep_make, of None] unfolding copySlice_def [abs_def] by (simp add: semSlice_None)

end

sublocale array_copier \<subseteq> make: deep_copier "semSlice dest sem" "makeSlice mk dest zero copy"
  by (rule deep_make)

sublocale array_copier \<subseteq> slice: deep_copier "semSlice dest sem" "copySlice mk dest zero copy"
  by (rule deep_slice)

lemmas cell_copierI = cell_copier.intro [OF _ cell_copier_axioms.intro]
lemmas array_copierI = array_copier.intro [OF _ array_copier_axioms.intro]

end
