(* ===== verification/Deepcopy.thy ===== *)
theory Deepcopy
  imports Go_Heap Api_Types
begin

text \<open>
  The deep copies of the API types (\<^verbatim>\<open>api/v1/zz_generated.deepcopy.go\<close>), over the memory of \<open>Go_Heap\<close>: one
  definition for each \<^verbatim>\<open>DeepCopyInto\<close>, \<^verbatim>\<open>DeepCopy\<close> and \<^verbatim>\<open>DeepCopyObject\<close>, field by field in the order of the code.
  The deep copies of \<^verbatim>\<open>k8s.io/apimachinery\<close> that they call are a record of parameters. That they are deep copies is shown in
  \<open>Deepcopy_Correct\<close>.
\<close>

subsection \<open>The structs with their pointers\<close>

text \<open>A struct with a pointer, slice or map in it has a representation \<open>hT\<close> beside its value \<open>T\<close> of \<open>Api_Types\<close>; a
  struct without has one type for both. \<^verbatim>\<open>resource.Quantity\<close> and \<^verbatim>\<open>metav1.Time\<close> are the data that they hold, as in
  \<open>Api_Types\<close>; of \<^verbatim>\<open>runtime.RawExtension\<close> only the bytes are represented, since its \<^verbatim>\<open>Object\<close> is nil in a decoded
  resource.\<close>

record hMetricTarget =
  hmt_Type :: MetricTargetType
  hmt_Value :: pointer
  hmt_AverageValue :: pointer
  hmt_AverageUtilization :: pointer

record hRawExtension =
  hraw_Raw :: slice

record hScheduleTargetSettings =
  hsch_Timezone :: string
  hsch_Start :: string
  hsch_End :: string
  hsch_Settings :: pointer

record hTargetSettings =
  hset_Default :: pointer
  hset_Schedules :: slice

record hReplicaAutoscalerTarget =
  htgt_Metric :: string
  htgt_MetricType :: MetricTargetType
  htgt_Settings :: hTargetSettings

record hReplicaAutoscalerStrategy =
  hstr_PanicWindowSeconds :: pointer
  hstr_PanicThreshold :: pointer

record hExhaust =
  hex_Type :: string
  hex_Pending :: pointer

record hReplicaAutoscalerSpec =
  hspec_Replicator :: pointer
  hspec_ReplicatorSettings :: pointer
  hspec_ScaleTargetRef :: CrossVersionObjectReference
  hspec_MinReplicas :: pointer
  hspec_MaxReplicas :: int
  hspec_Targets :: slice
  hspec_Strategy :: pointer
  hspec_Exhaust :: pointer

record hTargetStatus =
  hts_Target :: string
  hts_Scaler :: string
  hts_DesiredReplicas :: int
  hts_Metric :: hMetricTarget

record hReplicaAutoscalerStatus =
  hst_ObservedGeneration :: pointer
  hst_LastScaleTime :: pointer
  hst_CurrentReplicas :: int
  hst_DesiredReplicas :: int
  hst_Targets :: slice
  hst_Conditions :: slice

record hReplicaPatch =
  hrp_Timezone :: string
  hrp_Start :: string
  hrp_End :: string
  hrp_RetentionSeconds :: pointer
  hrp_MinReplicas :: int
  hrp_MaxReplicas :: int

text \<open>\<^verbatim>\<open>metav1.TypeMeta\<close>, and of \<^verbatim>\<open>metav1.ObjectMeta\<close> and \<^verbatim>\<open>metav1.ListMeta\<close> the fields that the program
  uses. A Go map is a reference to a cell, as a pointer is.\<close>

record TypeMeta =
  tm_Kind :: string
  tm_APIVersion :: string

record hObjectMeta =
  hom_Name :: string
  hom_Namespace :: string
  hom_Generation :: int
  hom_DeletionTimestamp :: pointer
  hom_Annotations :: pointer

record hListMeta =
  hlm_ResourceVersion :: string
  hlm_Continue :: string
  hlm_RemainingItemCount :: pointer

record hReplicaAutoscaler =
  hra_TypeMeta :: TypeMeta
  hra_ObjectMeta :: hObjectMeta
  hra_Spec :: hReplicaAutoscalerSpec
  hra_Status :: hReplicaAutoscalerStatus

record hReplicaAutoscalerList =
  hral_TypeMeta :: TypeMeta
  hral_ListMeta :: hListMeta
  hral_Items :: slice

subsection \<open>Cells\<close>

datatype cell =
    CString string | CInt32 int | CInt64 int | CTime Time | CQuantity Quantity
  | CBytes string | CMap "(string, string) fmap" | CSlice slice
  | CRawExtension hRawExtension
  | CCondition Condition | CConditions "Condition list"
  | CCrossVersionObjectReference CrossVersionObjectReference
  | CExhaust hExhaust | CExhaustPending ExhaustPending
  | CGroupVersionKindResource GroupVersionKindResource
  | CMetricTarget hMetricTarget
  | CReplicaAutoscaler hReplicaAutoscaler | CReplicaAutoscalers "hReplicaAutoscaler list"
  | CReplicaAutoscalerList hReplicaAutoscalerList
  | CSpec hReplicaAutoscalerSpec | CStatus hReplicaAutoscalerStatus
  | CStrategy hReplicaAutoscalerStrategy
  | CTarget hReplicaAutoscalerTarget | CTargets "hReplicaAutoscalerTarget list"
  | CReplicaPatch hReplicaPatch | CReplicaPatches "hReplicaPatch list"
  | CSchedule hScheduleTargetSettings | CSchedules "hScheduleTargetSettings list"
  | CTargetSettings hTargetSettings
  | CTargetStatus hTargetStatus | CTargetStatuses "hTargetStatus list"

text \<open>Reading a cell at its type. The program has one pointer into the middle of a struct:
  \<^verbatim>\<open>autoscaler.Status.ObservedGeneration = &autoscaler.Generation\<close>. It is the address of the object, and an
  \<^verbatim>\<open>*int64\<close> that holds it reads the generation of the object.\<close>

definition dInt64 :: "cell \<Rightarrow> int option" where
  "dInt64 c = (case c of CInt64 x \<Rightarrow> Some x | CReplicaAutoscaler x \<Rightarrow> Some (hom_Generation (hra_ObjectMeta x)) | _ \<Rightarrow> None)"


definition dString :: "cell \<Rightarrow> string option" where "dString c = (case c of CString x \<Rightarrow> Some x | _ \<Rightarrow> None)"
definition dInt32 :: "cell \<Rightarrow> int option" where "dInt32 c = (case c of CInt32 x \<Rightarrow> Some x | _ \<Rightarrow> None)"
definition dTime :: "cell \<Rightarrow> Time option" where "dTime c = (case c of CTime x \<Rightarrow> Some x | _ \<Rightarrow> None)"
definition dQuantity :: "cell \<Rightarrow> Quantity option" where "dQuantity c = (case c of CQuantity x \<Rightarrow> Some x | _ \<Rightarrow> None)"
definition dBytes :: "cell \<Rightarrow> string option" where "dBytes c = (case c of CBytes x \<Rightarrow> Some x | _ \<Rightarrow> None)"
definition dMap :: "cell \<Rightarrow> (string, string) fmap option" where "dMap c = (case c of CMap x \<Rightarrow> Some x | _ \<Rightarrow> None)"
definition dSlice :: "cell \<Rightarrow> slice option" where "dSlice c = (case c of CSlice x \<Rightarrow> Some x | _ \<Rightarrow> None)"
definition dRawExtension :: "cell \<Rightarrow> hRawExtension option" where "dRawExtension c = (case c of CRawExtension x \<Rightarrow> Some x | _ \<Rightarrow> None)"
definition dCondition :: "cell \<Rightarrow> Condition option" where "dCondition c = (case c of CCondition x \<Rightarrow> Some x | _ \<Rightarrow> None)"
definition dConditions :: "cell \<Rightarrow> Condition list option" where "dConditions c = (case c of CConditions x \<Rightarrow> Some x | _ \<Rightarrow> None)"
definition dCrossVersionObjectReference :: "cell \<Rightarrow> CrossVersionObjectReference option" where "dCrossVersionObjectReference c = (case c of CCrossVersionObjectReference x \<Rightarrow> Some x | _ \<Rightarrow> None)"
definition dExhaust :: "cell \<Rightarrow> hExhaust option" where "dExhaust c = (case c of CExhaust x \<Rightarrow> Some x | _ \<Rightarrow> None)"
definition dExhaustPending :: "cell \<Rightarrow> ExhaustPending option" where "dExhaustPending c = (case c of CExhaustPending x \<Rightarrow> Some x | _ \<Rightarrow> None)"
definition dGroupVersionKindResource :: "cell \<Rightarrow> GroupVersionKindResource option" where "dGroupVersionKindResource c = (case c of CGroupVersionKindResource x \<Rightarrow> Some x | _ \<Rightarrow> None)"
definition dMetricTarget :: "cell \<Rightarrow> hMetricTarget option" where "dMetricTarget c = (case c of CMetricTarget x \<Rightarrow> Some x | _ \<Rightarrow> None)"
definition dReplicaAutoscaler :: "cell \<Rightarrow> hReplicaAutoscaler option" where "dReplicaAutoscaler c = (case c of CReplicaAutoscaler x \<Rightarrow> Some x | _ \<Rightarrow> None)"
definition dReplicaAutoscalers :: "cell \<Rightarrow> hReplicaAutoscaler list option" where "dReplicaAutoscalers c = (case c of CReplicaAutoscalers x \<Rightarrow> Some x | _ \<Rightarrow> None)"
definition dReplicaAutoscalerList :: "cell \<Rightarrow> hReplicaAutoscalerList option" where "dReplicaAutoscalerList c = (case c of CReplicaAutoscalerList x \<Rightarrow> Some x | _ \<Rightarrow> None)"
definition dSpec :: "cell \<Rightarrow> hReplicaAutoscalerSpec option" where "dSpec c = (case c of CSpec x \<Rightarrow> Some x | _ \<Rightarrow> None)"
definition dStatus :: "cell \<Rightarrow> hReplicaAutoscalerStatus option" where "dStatus c = (case c of CStatus x \<Rightarrow> Some x | _ \<Rightarrow> None)"
definition dStrategy :: "cell \<Rightarrow> hReplicaAutoscalerStrategy option" where "dStrategy c = (case c of CStrategy x \<Rightarrow> Some x | _ \<Rightarrow> None)"
definition dTarget :: "cell \<Rightarrow> hReplicaAutoscalerTarget option" where "dTarget c = (case c of CTarget x \<Rightarrow> Some x | _ \<Rightarrow> None)"
definition dTargets :: "cell \<Rightarrow> hReplicaAutoscalerTarget list option" where "dTargets c = (case c of CTargets x \<Rightarrow> Some x | _ \<Rightarrow> None)"
definition dReplicaPatch :: "cell \<Rightarrow> hReplicaPatch option" where "dReplicaPatch c = (case c of CReplicaPatch x \<Rightarrow> Some x | _ \<Rightarrow> None)"
definition dReplicaPatches :: "cell \<Rightarrow> hReplicaPatch list option" where "dReplicaPatches c = (case c of CReplicaPatches x \<Rightarrow> Some x | _ \<Rightarrow> None)"
definition dSchedule :: "cell \<Rightarrow> hScheduleTargetSettings option" where "dSchedule c = (case c of CSchedule x \<Rightarrow> Some x | _ \<Rightarrow> None)"
definition dSchedules :: "cell \<Rightarrow> hScheduleTargetSettings list option" where "dSchedules c = (case c of CSchedules x \<Rightarrow> Some x | _ \<Rightarrow> None)"
definition dTargetSettings :: "cell \<Rightarrow> hTargetSettings option" where "dTargetSettings c = (case c of CTargetSettings x \<Rightarrow> Some x | _ \<Rightarrow> None)"
definition dTargetStatus :: "cell \<Rightarrow> hTargetStatus option" where "dTargetStatus c = (case c of CTargetStatus x \<Rightarrow> Some x | _ \<Rightarrow> None)"
definition dTargetStatuses :: "cell \<Rightarrow> hTargetStatus list option" where "dTargetStatuses c = (case c of CTargetStatuses x \<Rightarrow> Some x | _ \<Rightarrow> None)"

lemmas dest_defs =
  dString_def dInt32_def dInt64_def dTime_def dQuantity_def dBytes_def dMap_def dSlice_def dRawExtension_def
  dCondition_def dConditions_def dCrossVersionObjectReference_def dExhaust_def dExhaustPending_def
  dGroupVersionKindResource_def dMetricTarget_def dReplicaAutoscaler_def dReplicaAutoscalers_def
  dReplicaAutoscalerList_def dSpec_def dStatus_def dStrategy_def dTarget_def dTargets_def dReplicaPatch_def
  dReplicaPatches_def dSchedule_def dSchedules_def dTargetSettings_def dTargetStatus_def dTargetStatuses_def

lemma dest_mk [simp]:
  "dString (CString x_string) = Some x_string"
  "dInt32 (CInt32 x_int32) = Some x_int32"
  "dInt64 (CInt64 x_int64) = Some x_int64"
  "dTime (CTime x_time) = Some x_time"
  "dQuantity (CQuantity x_quantity) = Some x_quantity"
  "dBytes (CBytes x_bytes) = Some x_bytes"
  "dMap (CMap x_map) = Some x_map"
  "dSlice (CSlice x_slice) = Some x_slice"
  "dRawExtension (CRawExtension x_rawextension) = Some x_rawextension"
  "dCondition (CCondition x_condition) = Some x_condition"
  "dConditions (CConditions x_conditions) = Some x_conditions"
  "dCrossVersionObjectReference (CCrossVersionObjectReference x_crossversionobjectreference) = Some x_crossversionobjectreference"
  "dExhaust (CExhaust x_exhaust) = Some x_exhaust"
  "dExhaustPending (CExhaustPending x_exhaustpending) = Some x_exhaustpending"
  "dGroupVersionKindResource (CGroupVersionKindResource x_groupversionkindresource) = Some x_groupversionkindresource"
  "dMetricTarget (CMetricTarget x_metrictarget) = Some x_metrictarget"
  "dReplicaAutoscaler (CReplicaAutoscaler x_replicaautoscaler) = Some x_replicaautoscaler"
  "dReplicaAutoscalers (CReplicaAutoscalers x_replicaautoscalers) = Some x_replicaautoscalers"
  "dReplicaAutoscalerList (CReplicaAutoscalerList x_replicaautoscalerlist) = Some x_replicaautoscalerlist"
  "dSpec (CSpec x_spec) = Some x_spec"
  "dStatus (CStatus x_status) = Some x_status"
  "dStrategy (CStrategy x_strategy) = Some x_strategy"
  "dTarget (CTarget x_target) = Some x_target"
  "dTargets (CTargets x_targets) = Some x_targets"
  "dReplicaPatch (CReplicaPatch x_replicapatch) = Some x_replicapatch"
  "dReplicaPatches (CReplicaPatches x_replicapatches) = Some x_replicapatches"
  "dSchedule (CSchedule x_schedule) = Some x_schedule"
  "dSchedules (CSchedules x_schedules) = Some x_schedules"
  "dTargetSettings (CTargetSettings x_targetsettings) = Some x_targetsettings"
  "dTargetStatus (CTargetStatus x_targetstatus) = Some x_targetstatus"
  "dTargetStatuses (CTargetStatuses x_targetstatuses) = Some x_targetstatuses"
  by (simp_all add: dest_defs)

lemma dest_Some:
  "dString c = Some x_string \<longleftrightarrow> c = CString x_string"
  "dInt32 c = Some x_int32 \<longleftrightarrow> c = CInt32 x_int32"
  "dTime c = Some x_time \<longleftrightarrow> c = CTime x_time"
  "dQuantity c = Some x_quantity \<longleftrightarrow> c = CQuantity x_quantity"
  "dBytes c = Some x_bytes \<longleftrightarrow> c = CBytes x_bytes"
  "dMap c = Some x_map \<longleftrightarrow> c = CMap x_map"
  "dSlice c = Some x_slice \<longleftrightarrow> c = CSlice x_slice"
  "dRawExtension c = Some x_rawextension \<longleftrightarrow> c = CRawExtension x_rawextension"
  "dCondition c = Some x_condition \<longleftrightarrow> c = CCondition x_condition"
  "dConditions c = Some x_conditions \<longleftrightarrow> c = CConditions x_conditions"
  "dCrossVersionObjectReference c = Some x_crossversionobjectreference \<longleftrightarrow> c = CCrossVersionObjectReference x_crossversionobjectreference"
  "dExhaust c = Some x_exhaust \<longleftrightarrow> c = CExhaust x_exhaust"
  "dExhaustPending c = Some x_exhaustpending \<longleftrightarrow> c = CExhaustPending x_exhaustpending"
  "dGroupVersionKindResource c = Some x_groupversionkindresource \<longleftrightarrow> c = CGroupVersionKindResource x_groupversionkindresource"
  "dMetricTarget c = Some x_metrictarget \<longleftrightarrow> c = CMetricTarget x_metrictarget"
  "dReplicaAutoscaler c = Some x_replicaautoscaler \<longleftrightarrow> c = CReplicaAutoscaler x_replicaautoscaler"
  "dReplicaAutoscalers c = Some x_replicaautoscalers \<longleftrightarrow> c = CReplicaAutoscalers x_replicaautoscalers"
  "dReplicaAutoscalerList c = Some x_replicaautoscalerlist \<longleftrightarrow> c = CReplicaAutoscalerList x_replicaautoscalerlist"
  "dSpec c = Some x_spec \<longleftrightarrow> c = CSpec x_spec"
  "dStatus c = Some x_status \<longleftrightarrow> c = CStatus x_status"
  "dStrategy c = Some x_strategy \<longleftrightarrow> c = CStrategy x_strategy"
  "dTarget c = Some x_target \<longleftrightarrow> c = CTarget x_target"
  "dTargets c = Some x_targets \<longleftrightarrow> c = CTargets x_targets"
  "dReplicaPatch c = Some x_replicapatch \<longleftrightarrow> c = CReplicaPatch x_replicapatch"
  "dReplicaPatches c = Some x_replicapatches \<longleftrightarrow> c = CReplicaPatches x_replicapatches"
  "dSchedule c = Some x_schedule \<longleftrightarrow> c = CSchedule x_schedule"
  "dSchedules c = Some x_schedules \<longleftrightarrow> c = CSchedules x_schedules"
  "dTargetSettings c = Some x_targetsettings \<longleftrightarrow> c = CTargetSettings x_targetsettings"
  "dTargetStatus c = Some x_targetstatus \<longleftrightarrow> c = CTargetStatus x_targetstatus"
  "dTargetStatuses c = Some x_targetstatuses \<longleftrightarrow> c = CTargetStatuses x_targetstatuses"
  "dInt64 c = Some i \<longleftrightarrow> c = CInt64 i \<or> (\<exists>x. c = CReplicaAutoscaler x \<and> i = hom_Generation (hra_ObjectMeta x))"
  by (cases c; auto simp: dest_defs)+

subsection \<open>Zero values\<close>

definition zeroQuantity :: Quantity where "zeroQuantity = \<lparr>q_value = 0, q_scale = 0\<rparr>"

definition zeroMetricTarget :: hMetricTarget where
  "zeroMetricTarget = \<lparr>hmt_Type = [], hmt_Value = None, hmt_AverageValue = None, hmt_AverageUtilization = None\<rparr>"

definition zeroRawExtension :: hRawExtension where "zeroRawExtension = \<lparr>hraw_Raw = None\<rparr>"

definition zeroObjectReference :: CrossVersionObjectReference where
  "zeroObjectReference = \<lparr>ref_Kind = [], ref_Name = [], ref_APIVersion = []\<rparr>"

definition zeroSchedule :: hScheduleTargetSettings where
  "zeroSchedule = \<lparr>hsch_Timezone = [], hsch_Start = [], hsch_End = [], hsch_Settings = None\<rparr>"

definition zeroTargetSettings :: hTargetSettings where
  "zeroTargetSettings = \<lparr>hset_Default = None, hset_Schedules = None\<rparr>"

definition zeroTarget :: hReplicaAutoscalerTarget where
  "zeroTarget = \<lparr>htgt_Metric = [], htgt_MetricType = [], htgt_Settings = zeroTargetSettings\<rparr>"

definition zeroStrategy :: hReplicaAutoscalerStrategy where
  "zeroStrategy = \<lparr>hstr_PanicWindowSeconds = None, hstr_PanicThreshold = None\<rparr>"

definition zeroExhaustPending :: ExhaustPending where
  "zeroExhaustPending = \<lparr>ep_Threshold = IntVal 0, ep_TimeoutSeconds = 0\<rparr>"

definition zeroExhaust :: hExhaust where "zeroExhaust = \<lparr>hex_Type = [], hex_Pending = None\<rparr>"

definition zeroSpec :: hReplicaAutoscalerSpec where
  "zeroSpec = \<lparr>hspec_Replicator = None, hspec_ReplicatorSettings = None, hspec_ScaleTargetRef = zeroObjectReference,
     hspec_MinReplicas = None, hspec_MaxReplicas = 0, hspec_Targets = None, hspec_Strategy = None, hspec_Exhaust = None\<rparr>"

definition zeroTargetStatus :: hTargetStatus where
  "zeroTargetStatus = \<lparr>hts_Target = [], hts_Scaler = [], hts_DesiredReplicas = 0, hts_Metric = zeroMetricTarget\<rparr>"

definition zeroHStatus :: hReplicaAutoscalerStatus where
  "zeroHStatus = \<lparr>hst_ObservedGeneration = None, hst_LastScaleTime = None, hst_CurrentReplicas = 0,
     hst_DesiredReplicas = 0, hst_Targets = None, hst_Conditions = None\<rparr>"

definition zeroReplicaPatch :: hReplicaPatch where
  "zeroReplicaPatch = \<lparr>hrp_Timezone = [], hrp_Start = [], hrp_End = [], hrp_RetentionSeconds = None,
     hrp_MinReplicas = 0, hrp_MaxReplicas = 0\<rparr>"

definition zeroTypeMeta :: TypeMeta where "zeroTypeMeta = \<lparr>tm_Kind = [], tm_APIVersion = []\<rparr>"

definition zeroObjectMeta :: hObjectMeta where
  "zeroObjectMeta = \<lparr>hom_Name = [], hom_Namespace = [], hom_Generation = 0, hom_DeletionTimestamp = None,
     hom_Annotations = None\<rparr>"

definition zeroListMeta :: hListMeta where
  "zeroListMeta = \<lparr>hlm_ResourceVersion = [], hlm_Continue = [], hlm_RemainingItemCount = None\<rparr>"

definition zeroReplicaAutoscaler :: hReplicaAutoscaler where
  "zeroReplicaAutoscaler = \<lparr>hra_TypeMeta = zeroTypeMeta, hra_ObjectMeta = zeroObjectMeta, hra_Spec = zeroSpec,
     hra_Status = zeroHStatus\<rparr>"

definition zeroReplicaAutoscalerList :: hReplicaAutoscalerList where
  "zeroReplicaAutoscalerList = \<lparr>hral_TypeMeta = zeroTypeMeta, hral_ListMeta = zeroListMeta, hral_Items = None\<rparr>"

subsection \<open>The copies of the library\<close>

text \<open>The deep copies that the generated code calls in \<^verbatim>\<open>k8s.io/apimachinery\<close>.\<close>

record deepcopy_lib =
  Quantity_DeepCopy :: "(cell, Quantity) copier"
  Time_DeepCopyInto :: "(cell, Time) copier"
  Time_DeepCopy :: "(cell, pointer) copier"
  RawExtension_DeepCopyInto :: "(cell, hRawExtension) copier"
  ObjectMeta_DeepCopyInto :: "(cell, hObjectMeta) copier"
  ListMeta_DeepCopyInto :: "(cell, hListMeta) copier"

subsection \<open>The generated copies\<close>

text \<open>\<^verbatim>\<open>in.DeepCopyInto(out)\<close> gives the struct that it leaves in \<^verbatim>\<open>*out\<close>; \<^verbatim>\<open>in.DeepCopy()\<close> is \<open>copyPtr\<close>: nil
  for nil, else a new cell filled by \<^verbatim>\<open>DeepCopyInto\<close>.\<close>

definition Condition_DeepCopyInto :: "deepcopy_lib \<Rightarrow> (cell, Condition) copier" where
  "Condition_DeepCopyInto L x h =
     exec_bind (Time_DeepCopyInto L (cond_LastTransitionTime x) h) (\<lambda>(t, h).
     Ret (x\<lparr>cond_LastTransitionTime := t\<rparr>, h))"

definition Condition_DeepCopy :: "deepcopy_lib \<Rightarrow> (cell, pointer) copier" where
  "Condition_DeepCopy L = copyPtr CCondition dCondition zeroCondition (Condition_DeepCopyInto L)"

definition Conditions_DeepCopyInto :: "deepcopy_lib \<Rightarrow> (cell, slice) copier" where
  "Conditions_DeepCopyInto L = makeSlice CConditions dConditions zeroCondition (Condition_DeepCopyInto L)"

definition Conditions_DeepCopy :: "deepcopy_lib \<Rightarrow> (cell, slice) copier" where
  "Conditions_DeepCopy L x h =
     (if x = None then Ret (None, h)
      else (let (out, h) = alloc (CSlice None) h in
            exec_bind (Conditions_DeepCopyInto L x h) (\<lambda>(y, h). let h = store out (CSlice y) h in
            exec_bind (load dSlice out h) (\<lambda>z. Ret (z, h)))))"

definition CrossVersionObjectReference_DeepCopyInto :: "(cell, CrossVersionObjectReference) copier" where
  "CrossVersionObjectReference_DeepCopyInto x h = Ret (x, h)"

definition CrossVersionObjectReference_DeepCopy :: "(cell, pointer) copier" where
  "CrossVersionObjectReference_DeepCopy =
     copyPtr CCrossVersionObjectReference dCrossVersionObjectReference zeroObjectReference CrossVersionObjectReference_DeepCopyInto"

definition Exhaust_DeepCopyInto :: "(cell, hExhaust) copier" where
  "Exhaust_DeepCopyInto x h =
     exec_bind (copyPtr CExhaustPending dExhaustPending zeroExhaustPending copyFlat (hex_Pending x) h) (\<lambda>(p, h).
     Ret (x\<lparr>hex_Pending := p\<rparr>, h))"

definition Exhaust_DeepCopy :: "(cell, pointer) copier" where
  "Exhaust_DeepCopy = copyPtr CExhaust dExhaust zeroExhaust Exhaust_DeepCopyInto"

definition ExhaustPending_DeepCopyInto :: "(cell, ExhaustPending) copier" where
  "ExhaustPending_DeepCopyInto x h = Ret (x\<lparr>ep_Threshold := ep_Threshold x\<rparr>, h)"

definition ExhaustPending_DeepCopy :: "(cell, pointer) copier" where
  "ExhaustPending_DeepCopy = copyPtr CExhaustPending dExhaustPending zeroExhaustPending ExhaustPending_DeepCopyInto"

definition GroupVersionKindResource_DeepCopyInto :: "(cell, GroupVersionKindResource) copier" where
  "GroupVersionKindResource_DeepCopyInto x h = Ret (x, h)"

definition GroupVersionKindResource_DeepCopy :: "(cell, pointer) copier" where
  "GroupVersionKindResource_DeepCopy =
     copyPtr CGroupVersionKindResource dGroupVersionKindResource zeroGVKR GroupVersionKindResource_DeepCopyInto"

definition MetricTarget_DeepCopyInto :: "deepcopy_lib \<Rightarrow> (cell, hMetricTarget) copier" where
  "MetricTarget_DeepCopyInto L x h =
     exec_bind (copyAddr CQuantity dQuantity (Quantity_DeepCopy L) (hmt_Value x) h) (\<lambda>(v, h).
     exec_bind (copyAddr CQuantity dQuantity (Quantity_DeepCopy L) (hmt_AverageValue x) h) (\<lambda>(av, h).
     exec_bind (copyPtr CInt32 dInt32 0 copyFlat (hmt_AverageUtilization x) h) (\<lambda>(au, h).
     Ret (x\<lparr>hmt_Value := v, hmt_AverageValue := av, hmt_AverageUtilization := au\<rparr>, h))))"

definition MetricTarget_DeepCopy :: "deepcopy_lib \<Rightarrow> (cell, pointer) copier" where
  "MetricTarget_DeepCopy L = copyPtr CMetricTarget dMetricTarget zeroMetricTarget (MetricTarget_DeepCopyInto L)"

definition ScheduleTargetSettings_DeepCopyInto :: "deepcopy_lib \<Rightarrow> (cell, hScheduleTargetSettings) copier" where
  "ScheduleTargetSettings_DeepCopyInto L x h =
     exec_bind (copyPtr CRawExtension dRawExtension zeroRawExtension (RawExtension_DeepCopyInto L) (hsch_Settings x) h) (\<lambda>(p, h).
     Ret (x\<lparr>hsch_Settings := p\<rparr>, h))"

definition ScheduleTargetSettings_DeepCopy :: "deepcopy_lib \<Rightarrow> (cell, pointer) copier" where
  "ScheduleTargetSettings_DeepCopy L = copyPtr CSchedule dSchedule zeroSchedule (ScheduleTargetSettings_DeepCopyInto L)"

definition TargetSettings_DeepCopyInto :: "deepcopy_lib \<Rightarrow> (cell, hTargetSettings) copier" where
  "TargetSettings_DeepCopyInto L x h =
     exec_bind (copyPtr CRawExtension dRawExtension zeroRawExtension (RawExtension_DeepCopyInto L) (hset_Default x) h) (\<lambda>(p, h).
     exec_bind (copySlice CSchedules dSchedules zeroSchedule (ScheduleTargetSettings_DeepCopyInto L) (hset_Schedules x) h) (\<lambda>(s, h).
     Ret (x\<lparr>hset_Default := p, hset_Schedules := s\<rparr>, h)))"

definition TargetSettings_DeepCopy :: "deepcopy_lib \<Rightarrow> (cell, pointer) copier" where
  "TargetSettings_DeepCopy L = copyPtr CTargetSettings dTargetSettings zeroTargetSettings (TargetSettings_DeepCopyInto L)"

definition ReplicaAutoscalerTarget_DeepCopyInto :: "deepcopy_lib \<Rightarrow> (cell, hReplicaAutoscalerTarget) copier" where
  "ReplicaAutoscalerTarget_DeepCopyInto L x h =
     exec_bind (TargetSettings_DeepCopyInto L (htgt_Settings x) h) (\<lambda>(s, h).
     Ret (x\<lparr>htgt_Settings := s\<rparr>, h))"

definition ReplicaAutoscalerTarget_DeepCopy :: "deepcopy_lib \<Rightarrow> (cell, pointer) copier" where
  "ReplicaAutoscalerTarget_DeepCopy L = copyPtr CTarget dTarget zeroTarget (ReplicaAutoscalerTarget_DeepCopyInto L)"

definition ReplicaAutoscalerStrategy_DeepCopyInto :: "deepcopy_lib \<Rightarrow> (cell, hReplicaAutoscalerStrategy) copier" where
  "ReplicaAutoscalerStrategy_DeepCopyInto L x h =
     exec_bind (copyPtr CInt32 dInt32 0 copyFlat (hstr_PanicWindowSeconds x) h) (\<lambda>(w, h).
     exec_bind (copyAddr CQuantity dQuantity (Quantity_DeepCopy L) (hstr_PanicThreshold x) h) (\<lambda>(t, h).
     Ret (x\<lparr>hstr_PanicWindowSeconds := w, hstr_PanicThreshold := t\<rparr>, h)))"

definition ReplicaAutoscalerStrategy_DeepCopy :: "deepcopy_lib \<Rightarrow> (cell, pointer) copier" where
  "ReplicaAutoscalerStrategy_DeepCopy L =
     copyPtr CStrategy dStrategy zeroStrategy (ReplicaAutoscalerStrategy_DeepCopyInto L)"

text \<open>\<^verbatim>\<open>out.ScaleTargetRef = in.ScaleTargetRef\<close> repeats what \<^verbatim>\<open>*out = *in\<close> has done.\<close>

definition ReplicaAutoscalerSpec_DeepCopyInto :: "deepcopy_lib \<Rightarrow> (cell, hReplicaAutoscalerSpec) copier" where
  "ReplicaAutoscalerSpec_DeepCopyInto L x h =
     exec_bind (copyPtr CString dString [] copyFlat (hspec_Replicator x) h) (\<lambda>(rep, h).
     exec_bind (copyPtr CRawExtension dRawExtension zeroRawExtension (RawExtension_DeepCopyInto L)
       (hspec_ReplicatorSettings x) h) (\<lambda>(rset, h).
     exec_bind (copyPtr CInt32 dInt32 0 copyFlat (hspec_MinReplicas x) h) (\<lambda>(mn, h).
     exec_bind (copySlice CTargets dTargets zeroTarget (ReplicaAutoscalerTarget_DeepCopyInto L) (hspec_Targets x) h) (\<lambda>(ts, h).
     exec_bind (copyPtr CStrategy dStrategy zeroStrategy (ReplicaAutoscalerStrategy_DeepCopyInto L)
       (hspec_Strategy x) h) (\<lambda>(str, h).
     exec_bind (copyPtr CExhaust dExhaust zeroExhaust Exhaust_DeepCopyInto (hspec_Exhaust x) h) (\<lambda>(ex, h).
     Ret (x\<lparr>hspec_Replicator := rep, hspec_ReplicatorSettings := rset, hspec_ScaleTargetRef := hspec_ScaleTargetRef x,
            hspec_MinReplicas := mn, hspec_Targets := ts, hspec_Strategy := str, hspec_Exhaust := ex\<rparr>, h)))))))"

definition ReplicaAutoscalerSpec_DeepCopy :: "deepcopy_lib \<Rightarrow> (cell, pointer) copier" where
  "ReplicaAutoscalerSpec_DeepCopy L = copyPtr CSpec dSpec zeroSpec (ReplicaAutoscalerSpec_DeepCopyInto L)"

definition TargetStatus_DeepCopyInto :: "deepcopy_lib \<Rightarrow> (cell, hTargetStatus) copier" where
  "TargetStatus_DeepCopyInto L x h =
     exec_bind (MetricTarget_DeepCopyInto L (hts_Metric x) h) (\<lambda>(m, h).
     Ret (x\<lparr>hts_Metric := m\<rparr>, h))"

definition TargetStatus_DeepCopy :: "deepcopy_lib \<Rightarrow> (cell, pointer) copier" where
  "TargetStatus_DeepCopy L = copyPtr CTargetStatus dTargetStatus zeroTargetStatus (TargetStatus_DeepCopyInto L)"

text \<open>\<^verbatim>\<open>*out = (*in).DeepCopy()\<close> of \<^verbatim>\<open>LastScaleTime\<close> is behind a nil test.\<close>

definition ReplicaAutoscalerStatus_DeepCopyInto :: "deepcopy_lib \<Rightarrow> (cell, hReplicaAutoscalerStatus) copier" where
  "ReplicaAutoscalerStatus_DeepCopyInto L x h =
     exec_bind (copyPtr CInt64 dInt64 0 copyFlat (hst_ObservedGeneration x) h) (\<lambda>(og, h).
     exec_bind (if hst_LastScaleTime x = None then Ret (None, h) else Time_DeepCopy L (hst_LastScaleTime x) h) (\<lambda>(lst, h).
     exec_bind (copySlice CTargetStatuses dTargetStatuses zeroTargetStatus (TargetStatus_DeepCopyInto L)
       (hst_Targets x) h) (\<lambda>(ts, h).
     exec_bind (copySlice CConditions dConditions zeroCondition (Condition_DeepCopyInto L) (hst_Conditions x) h) (\<lambda>(cs, h).
     Ret (x\<lparr>hst_ObservedGeneration := og, hst_LastScaleTime := lst, hst_Targets := ts, hst_Conditions := cs\<rparr>, h)))))"

definition ReplicaAutoscalerStatus_DeepCopy :: "deepcopy_lib \<Rightarrow> (cell, pointer) copier" where
  "ReplicaAutoscalerStatus_DeepCopy L = copyPtr CStatus dStatus zeroHStatus (ReplicaAutoscalerStatus_DeepCopyInto L)"

definition ReplicaAutoscaler_DeepCopyInto :: "deepcopy_lib \<Rightarrow> (cell, hReplicaAutoscaler) copier" where
  "ReplicaAutoscaler_DeepCopyInto L x h =
     exec_bind (ObjectMeta_DeepCopyInto L (hra_ObjectMeta x) h) (\<lambda>(m, h).
     exec_bind (ReplicaAutoscalerSpec_DeepCopyInto L (hra_Spec x) h) (\<lambda>(sp, h).
     exec_bind (ReplicaAutoscalerStatus_DeepCopyInto L (hra_Status x) h) (\<lambda>(st, h).
     Ret (x\<lparr>hra_TypeMeta := hra_TypeMeta x, hra_ObjectMeta := m, hra_Spec := sp, hra_Status := st\<rparr>, h))))"

definition ReplicaAutoscaler_DeepCopy :: "deepcopy_lib \<Rightarrow> (cell, pointer) copier" where
  "ReplicaAutoscaler_DeepCopy L =
     copyPtr CReplicaAutoscaler dReplicaAutoscaler zeroReplicaAutoscaler (ReplicaAutoscaler_DeepCopyInto L)"

definition ReplicaAutoscalerList_DeepCopyInto :: "deepcopy_lib \<Rightarrow> (cell, hReplicaAutoscalerList) copier" where
  "ReplicaAutoscalerList_DeepCopyInto L x h =
     exec_bind (ListMeta_DeepCopyInto L (hral_ListMeta x) h) (\<lambda>(m, h).
     exec_bind (copySlice CReplicaAutoscalers dReplicaAutoscalers zeroReplicaAutoscaler
       (ReplicaAutoscaler_DeepCopyInto L) (hral_Items x) h) (\<lambda>(xs, h).
     Ret (x\<lparr>hral_TypeMeta := hral_TypeMeta x, hral_ListMeta := m, hral_Items := xs\<rparr>, h)))"

definition ReplicaAutoscalerList_DeepCopy :: "deepcopy_lib \<Rightarrow> (cell, pointer) copier" where
  "ReplicaAutoscalerList_DeepCopy L =
     copyPtr CReplicaAutoscalerList dReplicaAutoscalerList zeroReplicaAutoscalerList (ReplicaAutoscalerList_DeepCopyInto L)"

definition ReplicaPatch_DeepCopyInto :: "(cell, hReplicaPatch) copier" where
  "ReplicaPatch_DeepCopyInto x h =
     exec_bind (copyPtr CInt64 dInt64 0 copyFlat (hrp_RetentionSeconds x) h) (\<lambda>(r, h).
     Ret (x\<lparr>hrp_RetentionSeconds := r\<rparr>, h))"

definition ReplicaPatch_DeepCopy :: "(cell, pointer) copier" where
  "ReplicaPatch_DeepCopy = copyPtr CReplicaPatch dReplicaPatch zeroReplicaPatch ReplicaPatch_DeepCopyInto"

definition ReplicaPatches_DeepCopyInto :: "(cell, slice) copier" where
  "ReplicaPatches_DeepCopyInto = makeSlice CReplicaPatches dReplicaPatches zeroReplicaPatch ReplicaPatch_DeepCopyInto"

definition ReplicaPatches_DeepCopy :: "(cell, slice) copier" where
  "ReplicaPatches_DeepCopy x h =
     (if x = None then Ret (None, h)
      else (let (out, h) = alloc (CSlice None) h in
            exec_bind (ReplicaPatches_DeepCopyInto x h) (\<lambda>(y, h). let h = store out (CSlice y) h in
            exec_bind (load dSlice out h) (\<lambda>z. Ret (z, h)))))"

text \<open>An interface value is nil or holds a pointer with its type; the test keeps a nil pointer out of the interface.\<close>

datatype runtime_Object = ObjReplicaAutoscaler pointer | ObjReplicaAutoscalerList pointer

definition ReplicaAutoscaler_DeepCopyObject ::
  "deepcopy_lib \<Rightarrow> pointer \<Rightarrow> cell heap \<Rightarrow> (runtime_Object option \<times> cell heap) exec" where
  "ReplicaAutoscaler_DeepCopyObject L x h =
     exec_bind (ReplicaAutoscaler_DeepCopy L x h) (\<lambda>(c, h).
     if c \<noteq> None then Ret (Some (ObjReplicaAutoscaler c), h) else Ret (None, h))"

definition ReplicaAutoscalerList_DeepCopyObject ::
  "deepcopy_lib \<Rightarrow> pointer \<Rightarrow> cell heap \<Rightarrow> (runtime_Object option \<times> cell heap) exec" where
  "ReplicaAutoscalerList_DeepCopyObject L x h =
     exec_bind (ReplicaAutoscalerList_DeepCopy L x h) (\<lambda>(c, h).
     if c \<noteq> None then Ret (Some (ObjReplicaAutoscalerList c), h) else Ret (None, h))"

end
