(* ===== verification/Deepcopy_Correct.thy ===== *)
theory Deepcopy_Correct
  imports Deepcopy
begin

text \<open>
  What the representations of \<open>Deepcopy\<close> stand for (the readings \<open>semT\<close>, onto the value types of \<open>Api_Types\<close>), and that
  every generated copy is a \<open>deep_copier\<close> of its reading when the copies of the library are (\<open>lib_deep\<close>, which is what their
  documentation promises): the copy stands for the same value, uses only new memory, and neither of copy and original
  sees what is later written to the other.
\<close>

subsection \<open>What the representations stand for\<close>

definition semMetricTarget :: "(cell, hMetricTarget, MetricTarget) reader" where
  "semMetricTarget = semStruct
     (\<lambda>x. (hmt_Type x, hmt_Value x, hmt_AverageValue x, hmt_AverageUtilization x))
     (\<lambda>(t, v, av, au). \<lparr>mt_Type = t, mt_Value = v, mt_AverageValue = av, mt_AverageUtilization = au\<rparr>)
     (semPair semFlat (semPair (semPtr dQuantity semFlat) (semPair (semPtr dQuantity semFlat) (semPtr dInt32 semFlat))))"

definition semRawExtension :: "(cell, hRawExtension, RawExtension) reader" where
  "semRawExtension = semStruct hraw_Raw (\<lambda>s. \<lparr>Raw = s\<rparr>) (semSlice dBytes semFlat)"

definition semSchedule :: "(cell, hScheduleTargetSettings, ScheduleTargetSettings) reader" where
  "semSchedule = semStruct
     (\<lambda>x. ((hsch_Timezone x, hsch_Start x, hsch_End x), hsch_Settings x))
     (\<lambda>((z, s, e), p). \<lparr>sch_Timezone = z, sch_Start = s, sch_End = e, sch_Settings = p\<rparr>)
     (semPair semFlat (semPtr dRawExtension semRawExtension))"

definition semTargetSettings :: "(cell, hTargetSettings, TargetSettings) reader" where
  "semTargetSettings = semStruct
     (\<lambda>x. (hset_Default x, hset_Schedules x)) (\<lambda>(d, s). \<lparr>set_Default = d, set_Schedules = s\<rparr>)
     (semPair (semPtr dRawExtension semRawExtension) (semSlice dSchedules semSchedule))"

definition semTarget :: "(cell, hReplicaAutoscalerTarget, ReplicaAutoscalerTarget) reader" where
  "semTarget = semStruct
     (\<lambda>x. ((htgt_Metric x, htgt_MetricType x), htgt_Settings x))
     (\<lambda>((m, t), s). \<lparr>tgt_Metric = m, tgt_MetricType = t, tgt_Settings = s\<rparr>)
     (semPair semFlat semTargetSettings)"

definition semStrategy :: "(cell, hReplicaAutoscalerStrategy, ReplicaAutoscalerStrategy) reader" where
  "semStrategy = semStruct
     (\<lambda>x. (hstr_PanicWindowSeconds x, hstr_PanicThreshold x))
     (\<lambda>(w, t). \<lparr>PanicWindowSeconds = w, PanicThreshold = t\<rparr>)
     (semPair (semPtr dInt32 semFlat) (semPtr dQuantity semFlat))"

definition semExhaust :: "(cell, hExhaust, Exhaust) reader" where
  "semExhaust = semStruct (\<lambda>x. (hex_Type x, hex_Pending x)) (\<lambda>(t, p). \<lparr>ex_Type = t, ex_Pending = p\<rparr>)
     (semPair semFlat (semPtr dExhaustPending semFlat))"

definition semSpec :: "(cell, hReplicaAutoscalerSpec, ReplicaAutoscalerSpec) reader" where
  "semSpec = semStruct
     (\<lambda>x. ((hspec_ScaleTargetRef x, hspec_MaxReplicas x), hspec_Replicator x, hspec_ReplicatorSettings x, hspec_MinReplicas x,
           hspec_Targets x, hspec_Strategy x, hspec_Exhaust x))
     (\<lambda>((ref, mx), rep, rset, mn, ts, str, ex).
        \<lparr>spec_Replicator = rep, spec_ReplicatorSettings = rset, spec_ScaleTargetRef = ref, spec_MinReplicas = mn,
         spec_MaxReplicas = mx, spec_Targets = ts, spec_Strategy = str, spec_Exhaust = ex\<rparr>)
     (semPair semFlat (semPair (semPtr dString semFlat) (semPair (semPtr dRawExtension semRawExtension)
       (semPair (semPtr dInt32 semFlat) (semPair (semSlice dTargets semTarget)
       (semPair (semPtr dStrategy semStrategy) (semPtr dExhaust semExhaust)))))))"

definition semTargetStatus :: "(cell, hTargetStatus, TargetStatus) reader" where
  "semTargetStatus = semStruct
     (\<lambda>x. ((hts_Target x, hts_Scaler x, hts_DesiredReplicas x), hts_Metric x))
     (\<lambda>((t, s, d), m). \<lparr>ts_Target = t, ts_Scaler = s, ts_DesiredReplicas = d, ts_Metric = m\<rparr>)
     (semPair semFlat semMetricTarget)"

definition semStatus :: "(cell, hReplicaAutoscalerStatus, ReplicaAutoscalerStatus) reader" where
  "semStatus = semStruct
     (\<lambda>x. ((hst_CurrentReplicas x, hst_DesiredReplicas x), hst_ObservedGeneration x, hst_LastScaleTime x,
           hst_Targets x, hst_Conditions x))
     (\<lambda>((cur, des), og, lst, ts, cs).
        \<lparr>st_ObservedGeneration = og, st_LastScaleTime = lst, st_CurrentReplicas = cur, st_DesiredReplicas = des,
         st_Targets = ts, st_Conditions = cs\<rparr>)
     (semPair semFlat (semPair (semPtr dInt64 semFlat) (semPair (semPtr dTime semFlat)
       (semPair (semSlice dTargetStatuses semTargetStatus) (semSlice dConditions semFlat)))))"

definition semReplicaPatch :: "(cell, hReplicaPatch, ReplicaPatch) reader" where
  "semReplicaPatch = semStruct
     (\<lambda>x. ((hrp_Timezone x, hrp_Start x, hrp_End x, hrp_MinReplicas x, hrp_MaxReplicas x), hrp_RetentionSeconds x))
     (\<lambda>((z, s, e, mn, mx), r). \<lparr>rp_Timezone = z, rp_Start = s, rp_End = e, rp_RetentionSeconds = r,
        rp_MinReplicas = mn, rp_MaxReplicas = mx\<rparr>)
     (semPair semFlat (semPtr dInt64 semFlat))"

text \<open>A nil map stands for the empty one.\<close>

definition semMap :: "(cell, pointer, (string, string) fmap) reader" where
  "semMap = semStruct (\<lambda>p. p) (\<lambda>m. case m of None \<Rightarrow> fmempty | Some f \<Rightarrow> f) (semPtr dMap semFlat)"

type_synonym object_meta = "(string \<times> string \<times> int) \<times> Time option \<times> (string, string) fmap"

definition semObjectMeta :: "(cell, hObjectMeta, object_meta) reader" where
  "semObjectMeta = semStruct
     (\<lambda>x. ((hom_Name x, hom_Namespace x, hom_Generation x), hom_DeletionTimestamp x, hom_Annotations x)) (\<lambda>v. v)
     (semPair semFlat (semPair (semPtr dTime semFlat) semMap))"

definition semListMeta :: "(cell, hListMeta, (string \<times> string) \<times> int option) reader" where
  "semListMeta = semStruct (\<lambda>x. ((hlm_ResourceVersion x, hlm_Continue x), hlm_RemainingItemCount x)) (\<lambda>v. v)
     (semPair semFlat (semPtr dInt64 semFlat))"

definition object_value :: "TypeMeta \<times> object_meta \<times> ReplicaAutoscalerSpec \<times> ReplicaAutoscalerStatus \<Rightarrow> TypeMeta \<times> ReplicaAutoscaler"
  where
  "object_value = (\<lambda>(tm, ((name, ns, gen), del, ann), sp, st).
     (tm, \<lparr>ra_Name = name, ra_Namespace = ns, ra_Generation = gen, ra_DeletionTimestamp = del, ra_Annotations = ann,
           ra_Spec = sp, ra_Status = st\<rparr>))"

definition semReplicaAutoscaler :: "(cell, hReplicaAutoscaler, TypeMeta \<times> ReplicaAutoscaler) reader" where
  "semReplicaAutoscaler = semStruct
     (\<lambda>x. (hra_TypeMeta x, hra_ObjectMeta x, hra_Spec x, hra_Status x)) object_value
     (semPair semFlat (semPair semObjectMeta (semPair semSpec semStatus)))"

definition semReplicaAutoscalerList ::
  "(cell, hReplicaAutoscalerList, TypeMeta \<times> ((string \<times> string) \<times> int option) \<times> (TypeMeta \<times> ReplicaAutoscaler) list) reader"
  where
  "semReplicaAutoscalerList = semStruct (\<lambda>x. (hral_TypeMeta x, hral_ListMeta x, hral_Items x)) (\<lambda>v. v)
     (semPair semFlat (semPair semListMeta (semSlice dReplicaAutoscalers semReplicaAutoscaler)))"

subsection \<open>What is asked of the library\<close>

definition lib_deep :: "deepcopy_lib \<Rightarrow> bool" where
  "lib_deep L \<longleftrightarrow>
     deep_copier semFlat (Quantity_DeepCopy L) \<and>
     deep_copier semFlat (Time_DeepCopyInto L) \<and>
     deep_copier (semPtr dTime semFlat) (Time_DeepCopy L) \<and>
     deep_copier semRawExtension (RawExtension_DeepCopyInto L) \<and>
     deep_copier semObjectMeta (ObjectMeta_DeepCopyInto L) \<and>
     deep_copier semListMeta (ListMeta_DeepCopyInto L)"

named_theorems deep

lemma lib_deepD [deep]:
  assumes "lib_deep L"
  shows "deep_copier semFlat (Quantity_DeepCopy L)" "deep_copier semFlat (Time_DeepCopyInto L)"
    "deep_copier (semPtr dTime semFlat) (Time_DeepCopy L)" "deep_copier semRawExtension (RawExtension_DeepCopyInto L)"
    "deep_copier semObjectMeta (ObjectMeta_DeepCopyInto L)" "deep_copier semListMeta (ListMeta_DeepCopyInto L)"
  using assms by (simp_all add: lib_deep_def)

lemma deep_flat [deep]: "deep_copier semFlat copyFlat"
  by (rule flat.deep_copier_axioms)

lemma deep_ptrI [deep]:
  "deep_copier sem copy \<Longrightarrow> (\<And>x. dest (mk x) = Some x) \<Longrightarrow> deep_copier (semPtr dest sem) (copyPtr mk dest zero copy)"
  by (rule cell_copier.deep_ptr [OF cell_copierI])

lemma deep_addrI [deep]:
  "deep_copier sem copy \<Longrightarrow> (\<And>x. dest (mk x) = Some x) \<Longrightarrow> deep_copier (semPtr dest sem) (copyAddr mk dest copy)"
  by (rule cell_copier.deep_addr [OF cell_copierI])

lemma deep_sliceI [deep]:
  "deep_copier sem copy \<Longrightarrow> (\<And>x. dest (mk x) = Some x) \<Longrightarrow> deep_copier (semSlice dest sem) (copySlice mk dest zero copy)"
  by (rule array_copier.deep_slice [OF array_copierI])

lemma deep_makeI [deep]:
  "deep_copier sem copy \<Longrightarrow> (\<And>x. dest (mk x) = Some x) \<Longrightarrow> deep_copier (semSlice dest sem) (makeSlice mk dest zero copy)"
  by (rule array_copier.deep_make [OF array_copierI])

lemma deep_timeI [deep]:
  "lib_deep L \<Longrightarrow> deep_copier (semPtr dTime semFlat) (\<lambda>p h. if p = None then Ret (None, h) else Time_DeepCopy L p h)"
  by (rule deep_copier_guard [OF lib_deepD(3)]) (simp_all add: semPtr_None)

subsection \<open>Every generated copy is deep\<close>

lemmas copy_fields = copyPair_def copyFlat_def exec_bind_assoc split_def

lemma deep_MetricTarget [deep]:
  assumes "lib_deep L"
  shows "deep_copier semMetricTarget (MetricTarget_DeepCopyInto L)"
  unfolding semMetricTarget_def
  by (rule deep_copier_struct [where
        c = "copyPair copyFlat (copyPair (copyAddr CQuantity dQuantity (Quantity_DeepCopy L))
          (copyPair (copyAddr CQuantity dQuantity (Quantity_DeepCopy L)) (copyPtr CInt32 dInt32 0 copyFlat)))" and
        build = "\<lambda>x (t, v, av, au). x\<lparr>hmt_Type := t, hmt_Value := v, hmt_AverageValue := av, hmt_AverageUtilization := au\<rparr>"])
    (rule deep_copier_pair deep assms dest_mk | simp add: MetricTarget_DeepCopyInto_def copy_fields)+

interpretation exhaustPending: deep_copier semFlat ExhaustPending_DeepCopyInto
  by unfold_locales (simp add: ExhaustPending_DeepCopyInto_def semFlat_def)

interpretation objectReference: deep_copier semFlat CrossVersionObjectReference_DeepCopyInto
  by unfold_locales (simp add: CrossVersionObjectReference_DeepCopyInto_def semFlat_def)

interpretation gvkr: deep_copier semFlat GroupVersionKindResource_DeepCopyInto
  by unfold_locales (simp add: GroupVersionKindResource_DeepCopyInto_def semFlat_def)

lemma deep_Condition [deep]:
  assumes "lib_deep L"
  shows "deep_copier semFlat (Condition_DeepCopyInto L)"
proof (rule deep_copierI)
  show "reading semFlat" by (rule flat.reading_axioms)
  fix h :: "cell heap" and x v :: Condition and A
  assume x: "semFlat h x = Some (v, A)"
  from deep_copier.copy_deep [OF lib_deepD(2) [OF assms], of h "cond_LastTransitionTime x"] obtain t where
    "Time_DeepCopyInto L (cond_LastTransitionTime x) h = Ret (cond_LastTransitionTime x, h @ t)"
    by (auto simp: semFlat_def)
  then have "Condition_DeepCopyInto L x h = Ret (x, h @ t)" by (simp add: Condition_DeepCopyInto_def)
  with x show "\<exists>y t B. Condition_DeepCopyInto L x h = Ret (y, h @ t) \<and> semFlat (h @ t) y = Some (v, B) \<and>
      B \<subseteq> fresh_in h (h @ t)"
    by (auto simp: semFlat_def)
qed

lemma deep_Exhaust [deep]: "deep_copier semExhaust Exhaust_DeepCopyInto"
  unfolding semExhaust_def
  by (rule deep_copier_struct [where
        c = "copyPair copyFlat (copyPtr CExhaustPending dExhaustPending zeroExhaustPending copyFlat)" and
        build = "\<lambda>x (t, p). x\<lparr>hex_Type := t, hex_Pending := p\<rparr>"])
    (rule deep_copier_pair deep dest_mk | simp add: Exhaust_DeepCopyInto_def copy_fields)+

interpretation exhaust: cell_copier semExhaust Exhaust_DeepCopyInto CExhaust dExhaust zeroExhaust
  by (rule cell_copierI [OF deep_Exhaust]) simp

lemma deep_ReplicaPatch [deep]: "deep_copier semReplicaPatch ReplicaPatch_DeepCopyInto"
  unfolding semReplicaPatch_def
  by (rule deep_copier_struct [where
        c = "copyPair copyFlat (copyPtr CInt64 dInt64 0 copyFlat)" and
        build = "\<lambda>x ((z, s, e, mn, mx), r). x\<lparr>hrp_Timezone := z, hrp_Start := s, hrp_End := e,
          hrp_RetentionSeconds := r, hrp_MinReplicas := mn, hrp_MaxReplicas := mx\<rparr>"])
    (rule deep_copier_pair deep dest_mk | simp add: ReplicaPatch_DeepCopyInto_def copy_fields)+

interpretation replicaPatch: cell_copier semReplicaPatch ReplicaPatch_DeepCopyInto CReplicaPatch dReplicaPatch zeroReplicaPatch
  by (rule cell_copierI [OF deep_ReplicaPatch]) simp

interpretation replicaPatches:
  array_copier semReplicaPatch ReplicaPatch_DeepCopyInto CReplicaPatches dReplicaPatches zeroReplicaPatch
  by (rule array_copierI [OF deep_ReplicaPatch]) simp

lemma deep_Schedule [deep]:
  assumes "lib_deep L"
  shows "deep_copier semSchedule (ScheduleTargetSettings_DeepCopyInto L)"
  unfolding semSchedule_def
  by (rule deep_copier_struct [where
        c = "copyPair copyFlat (copyPtr CRawExtension dRawExtension zeroRawExtension (RawExtension_DeepCopyInto L))" and
        build = "\<lambda>x ((z, s, e), p). x\<lparr>hsch_Timezone := z, hsch_Start := s, hsch_End := e, hsch_Settings := p\<rparr>"])
    (rule deep_copier_pair deep assms dest_mk | simp add: ScheduleTargetSettings_DeepCopyInto_def copy_fields)+

lemma deep_TargetSettings [deep]:
  assumes "lib_deep L"
  shows "deep_copier semTargetSettings (TargetSettings_DeepCopyInto L)"
  unfolding semTargetSettings_def
  by (rule deep_copier_struct [where
        c = "copyPair (copyPtr CRawExtension dRawExtension zeroRawExtension (RawExtension_DeepCopyInto L))
          (copySlice CSchedules dSchedules zeroSchedule (ScheduleTargetSettings_DeepCopyInto L))" and
        build = "\<lambda>x (d, s). x\<lparr>hset_Default := d, hset_Schedules := s\<rparr>"])
    (rule deep_copier_pair deep assms dest_mk | simp add: TargetSettings_DeepCopyInto_def copy_fields)+

lemma deep_Target [deep]:
  assumes "lib_deep L"
  shows "deep_copier semTarget (ReplicaAutoscalerTarget_DeepCopyInto L)"
  unfolding semTarget_def
  by (rule deep_copier_struct [where
        c = "copyPair copyFlat (TargetSettings_DeepCopyInto L)" and
        build = "\<lambda>x ((m, t), s). x\<lparr>htgt_Metric := m, htgt_MetricType := t, htgt_Settings := s\<rparr>"])
    (rule deep_copier_pair deep assms dest_mk | simp add: ReplicaAutoscalerTarget_DeepCopyInto_def copy_fields)+

lemma deep_Strategy [deep]:
  assumes "lib_deep L"
  shows "deep_copier semStrategy (ReplicaAutoscalerStrategy_DeepCopyInto L)"
  unfolding semStrategy_def
  by (rule deep_copier_struct [where
        c = "copyPair (copyPtr CInt32 dInt32 0 copyFlat) (copyAddr CQuantity dQuantity (Quantity_DeepCopy L))" and
        build = "\<lambda>x (w, t). x\<lparr>hstr_PanicWindowSeconds := w, hstr_PanicThreshold := t\<rparr>"])
    (rule deep_copier_pair deep assms dest_mk | simp add: ReplicaAutoscalerStrategy_DeepCopyInto_def copy_fields)+

lemma deep_Spec [deep]:
  assumes "lib_deep L"
  shows "deep_copier semSpec (ReplicaAutoscalerSpec_DeepCopyInto L)"
  unfolding semSpec_def
  by (rule deep_copier_struct [where
        c = "copyPair copyFlat (copyPair (copyPtr CString dString [] copyFlat)
          (copyPair (copyPtr CRawExtension dRawExtension zeroRawExtension (RawExtension_DeepCopyInto L))
          (copyPair (copyPtr CInt32 dInt32 0 copyFlat)
          (copyPair (copySlice CTargets dTargets zeroTarget (ReplicaAutoscalerTarget_DeepCopyInto L))
          (copyPair (copyPtr CStrategy dStrategy zeroStrategy (ReplicaAutoscalerStrategy_DeepCopyInto L))
             (copyPtr CExhaust dExhaust zeroExhaust Exhaust_DeepCopyInto))))))" and
        build = "\<lambda>x ((ref, mx), rep, rset, mn, ts, str, ex). x\<lparr>hspec_Replicator := rep, hspec_ReplicatorSettings := rset,
          hspec_ScaleTargetRef := ref, hspec_MinReplicas := mn, hspec_MaxReplicas := mx, hspec_Targets := ts,
          hspec_Strategy := str, hspec_Exhaust := ex\<rparr>"])
    (rule deep_copier_pair deep assms dest_mk | simp add: ReplicaAutoscalerSpec_DeepCopyInto_def copy_fields)+

lemma deep_TargetStatus [deep]:
  assumes "lib_deep L"
  shows "deep_copier semTargetStatus (TargetStatus_DeepCopyInto L)"
  unfolding semTargetStatus_def
  by (rule deep_copier_struct [where
        c = "copyPair copyFlat (MetricTarget_DeepCopyInto L)" and
        build = "\<lambda>x ((t, s, d), m). x\<lparr>hts_Target := t, hts_Scaler := s, hts_DesiredReplicas := d, hts_Metric := m\<rparr>"])
    (rule deep_copier_pair deep assms dest_mk | simp add: TargetStatus_DeepCopyInto_def copy_fields)+

lemma deep_Status [deep]:
  assumes "lib_deep L"
  shows "deep_copier semStatus (ReplicaAutoscalerStatus_DeepCopyInto L)"
  unfolding semStatus_def
  by (rule deep_copier_struct [where
        c = "copyPair copyFlat (copyPair (copyPtr CInt64 dInt64 0 copyFlat)
          (copyPair (\<lambda>p h. if p = None then Ret (None, h) else Time_DeepCopy L p h)
          (copyPair (copySlice CTargetStatuses dTargetStatuses zeroTargetStatus (TargetStatus_DeepCopyInto L))
             (copySlice CConditions dConditions zeroCondition (Condition_DeepCopyInto L)))))" and
        build = "\<lambda>x ((cur, des), og, lst, ts, cs). x\<lparr>hst_ObservedGeneration := og, hst_LastScaleTime := lst,
          hst_CurrentReplicas := cur, hst_DesiredReplicas := des, hst_Targets := ts, hst_Conditions := cs\<rparr>"])
    (rule deep_copier_pair deep assms dest_mk | simp add: ReplicaAutoscalerStatus_DeepCopyInto_def copy_fields cong: if_cong)+

lemma deep_ReplicaAutoscaler [deep]:
  assumes "lib_deep L"
  shows "deep_copier semReplicaAutoscaler (ReplicaAutoscaler_DeepCopyInto L)"
  unfolding semReplicaAutoscaler_def
  by (rule deep_copier_struct [where
        c = "copyPair copyFlat (copyPair (ObjectMeta_DeepCopyInto L)
          (copyPair (ReplicaAutoscalerSpec_DeepCopyInto L) (ReplicaAutoscalerStatus_DeepCopyInto L)))" and
        build = "\<lambda>x (tm, m, sp, st). x\<lparr>hra_TypeMeta := tm, hra_ObjectMeta := m, hra_Spec := sp, hra_Status := st\<rparr>"])
    (rule deep_copier_pair deep assms dest_mk | simp add: ReplicaAutoscaler_DeepCopyInto_def copy_fields)+

lemma deep_ReplicaAutoscalerList [deep]:
  assumes "lib_deep L"
  shows "deep_copier semReplicaAutoscalerList (ReplicaAutoscalerList_DeepCopyInto L)"
  unfolding semReplicaAutoscalerList_def
  by (rule deep_copier_struct [where
        c = "copyPair copyFlat (copyPair (ListMeta_DeepCopyInto L)
          (copySlice CReplicaAutoscalers dReplicaAutoscalers zeroReplicaAutoscaler (ReplicaAutoscaler_DeepCopyInto L)))" and
        build = "\<lambda>x (tm, m, xs). x\<lparr>hral_TypeMeta := tm, hral_ListMeta := m, hral_Items := xs\<rparr>"])
    (rule deep_copier_pair deep assms dest_mk | simp add: ReplicaAutoscalerList_DeepCopyInto_def copy_fields)+

lemma deep_Conditions_into [deep]: "lib_deep L \<Longrightarrow> deep_copier (semSlice dConditions semFlat) (Conditions_DeepCopyInto L)"
  unfolding Conditions_DeepCopyInto_def by (intro deep dest_mk)

lemma deep_ReplicaPatches_into [deep]: "deep_copier (semSlice dReplicaPatches semReplicaPatch) ReplicaPatches_DeepCopyInto"
  unfolding ReplicaPatches_DeepCopyInto_def by (rule replicaPatches.deep_make)

text \<open>The pointer versions.\<close>

lemmas DeepCopy_defs =
  Condition_DeepCopy_def MetricTarget_DeepCopy_def ScheduleTargetSettings_DeepCopy_def TargetSettings_DeepCopy_def
  ReplicaAutoscalerTarget_DeepCopy_def ReplicaAutoscalerStrategy_DeepCopy_def ReplicaAutoscalerSpec_DeepCopy_def
  TargetStatus_DeepCopy_def ReplicaAutoscalerStatus_DeepCopy_def ReplicaAutoscaler_DeepCopy_def
  ReplicaAutoscalerList_DeepCopy_def

lemma deep_pointers:
  assumes "lib_deep L"
  shows "deep_copier (semPtr dCondition semFlat) (Condition_DeepCopy L)"
    "deep_copier (semPtr dMetricTarget semMetricTarget) (MetricTarget_DeepCopy L)"
    "deep_copier (semPtr dSchedule semSchedule) (ScheduleTargetSettings_DeepCopy L)"
    "deep_copier (semPtr dTargetSettings semTargetSettings) (TargetSettings_DeepCopy L)"
    "deep_copier (semPtr dTarget semTarget) (ReplicaAutoscalerTarget_DeepCopy L)"
    "deep_copier (semPtr dStrategy semStrategy) (ReplicaAutoscalerStrategy_DeepCopy L)"
    "deep_copier (semPtr dSpec semSpec) (ReplicaAutoscalerSpec_DeepCopy L)"
    "deep_copier (semPtr dTargetStatus semTargetStatus) (TargetStatus_DeepCopy L)"
    "deep_copier (semPtr dStatus semStatus) (ReplicaAutoscalerStatus_DeepCopy L)"
    "deep_copier (semPtr dReplicaAutoscaler semReplicaAutoscaler) (ReplicaAutoscaler_DeepCopy L)"
    "deep_copier (semPtr dReplicaAutoscalerList semReplicaAutoscalerList) (ReplicaAutoscalerList_DeepCopy L)"
  unfolding DeepCopy_defs by (intro deep_ptrI deep assms dest_mk)+

interpretation exhaustP: deep_copier "semPtr dExhaust semExhaust" Exhaust_DeepCopy
  unfolding Exhaust_DeepCopy_def by (rule exhaust.deep_ptr)

interpretation replicaPatchP: deep_copier "semPtr dReplicaPatch semReplicaPatch" ReplicaPatch_DeepCopy
  unfolding ReplicaPatch_DeepCopy_def by (rule replicaPatch.deep_ptr)

interpretation exhaustPendingP: deep_copier "semPtr dExhaustPending semFlat" ExhaustPending_DeepCopy
  unfolding ExhaustPending_DeepCopy_def by (rule deep_ptrI [OF exhaustPending.deep_copier_axioms]) simp

interpretation objectReferenceP:
  deep_copier "semPtr dCrossVersionObjectReference semFlat" CrossVersionObjectReference_DeepCopy
  unfolding CrossVersionObjectReference_DeepCopy_def
  by (rule deep_ptrI [OF objectReference.deep_copier_axioms]) simp

interpretation gvkrP: deep_copier "semPtr dGroupVersionKindResource semFlat" GroupVersionKindResource_DeepCopy
  unfolding GroupVersionKindResource_DeepCopy_def by (rule deep_ptrI [OF gvkr.deep_copier_axioms]) simp

text \<open>The value receivers go through a new slice header.\<close>

lemma deep_viaI:
  assumes "deep_copier (semSlice dest sem) copy"
  shows "deep_copier (semSlice dest sem) (\<lambda>x h. if x = None then Ret (None, h)
     else (let (out, h) = alloc (CSlice None) h in
           exec_bind (copy x h) (\<lambda>(y, h). let h = store out (CSlice y) h in
           exec_bind (load dSlice out h) (\<lambda>z. Ret (z, h)))))"
  by (rule deep_copier_guard [OF cell_copier.deep_via [OF cell_copierI [OF assms]]]) (simp_all add: semSlice_None)

lemma deep_Conditions: "lib_deep L \<Longrightarrow> deep_copier (semSlice dConditions semFlat) (Conditions_DeepCopy L)"
  unfolding Conditions_DeepCopy_def [abs_def] by (rule deep_viaI [OF deep_Conditions_into])

interpretation replicaPatchesV: deep_copier "semSlice dReplicaPatches semReplicaPatch" ReplicaPatches_DeepCopy
  unfolding ReplicaPatches_DeepCopy_def [abs_def] by (rule deep_viaI [OF deep_ReplicaPatches_into])

subsection \<open>A library and an object\<close>

text \<open>Copies with the documented behaviour, and an object in memory, for the witnesses.\<close>

definition sampleCopies :: deepcopy_lib where
  "sampleCopies =
     \<lparr>Quantity_DeepCopy = copyFlat, Time_DeepCopyInto = copyFlat, Time_DeepCopy = copyPtr CTime dTime zeroTime copyFlat,
      RawExtension_DeepCopyInto = (\<lambda>x h.
        exec_bind (copySlice CBytes dBytes (CHR 0x00) copyFlat (hraw_Raw x) h) (\<lambda>(s, h). Ret (x\<lparr>hraw_Raw := s\<rparr>, h))),
      ObjectMeta_DeepCopyInto = (\<lambda>x h.
        exec_bind (copyPtr CTime dTime zeroTime copyFlat (hom_DeletionTimestamp x) h) (\<lambda>(d, h).
        exec_bind (copyPtr CMap dMap fmempty copyFlat (hom_Annotations x) h) (\<lambda>(a, h).
        Ret (x\<lparr>hom_DeletionTimestamp := d, hom_Annotations := a\<rparr>, h)))),
      ListMeta_DeepCopyInto = (\<lambda>x h.
        exec_bind (copyPtr CInt64 dInt64 0 copyFlat (hlm_RemainingItemCount x) h) (\<lambda>(r, h).
        Ret (x\<lparr>hlm_RemainingItemCount := r\<rparr>, h)))\<rparr>"

lemma lib_deep_sample: "lib_deep sampleCopies"
  unfolding lib_deep_def
proof (intro conjI)
  show "deep_copier semFlat (Quantity_DeepCopy sampleCopies)" "deep_copier semFlat (Time_DeepCopyInto sampleCopies)"
    "deep_copier (semPtr dTime semFlat) (Time_DeepCopy sampleCopies)"
    unfolding sampleCopies_def deepcopy_lib.select_convs by (intro deep dest_mk)+
  show "deep_copier semRawExtension (RawExtension_DeepCopyInto sampleCopies)"
    unfolding semRawExtension_def
    by (rule deep_copier_struct [where c = "copySlice CBytes dBytes (CHR 0x00) copyFlat" and build = "\<lambda>x s. x\<lparr>hraw_Raw := s\<rparr>"])
      (rule deep dest_mk | simp add: sampleCopies_def)+
  have m: "deep_copier semMap (copyPtr CMap dMap fmempty copyFlat)"
    unfolding semMap_def
    by (rule deep_copier_struct [where c = "copyPtr CMap dMap fmempty copyFlat" and build = "\<lambda>_ p. p"])
      (rule deep_ptrI deep_flat dest_mk | simp)+
  show "deep_copier semObjectMeta (ObjectMeta_DeepCopyInto sampleCopies)"
    unfolding semObjectMeta_def
    by (rule deep_copier_struct [where
          c = "copyPair copyFlat (copyPair (copyPtr CTime dTime zeroTime copyFlat) (copyPtr CMap dMap fmempty copyFlat))" and
          build = "\<lambda>x ((n, ns, g), d, a). x\<lparr>hom_Name := n, hom_Namespace := ns, hom_Generation := g,
            hom_DeletionTimestamp := d, hom_Annotations := a\<rparr>"])
      (rule deep_copier_pair m deep_ptrI deep_flat dest_mk | simp add: sampleCopies_def copy_fields)+
  show "deep_copier semListMeta (ListMeta_DeepCopyInto sampleCopies)"
    unfolding semListMeta_def
    by (rule deep_copier_struct [where c = "copyPair copyFlat (copyPtr CInt64 dInt64 0 copyFlat)" and
          build = "\<lambda>x ((v, c), r). x\<lparr>hlm_ResourceVersion := v, hlm_Continue := c, hlm_RemainingItemCount := r\<rparr>"])
      (rule deep_copier_pair deep_ptrI deep_flat dest_mk | simp add: sampleCopies_def copy_fields)+
qed

definition sampleTypeMeta :: TypeMeta where
  "sampleTypeMeta = \<lparr>tm_Kind = ''ReplicaAutoscaler'', tm_APIVersion = ''v1''\<rparr>"

definition sampleObject :: hReplicaAutoscaler where
  "sampleObject =
     \<lparr>hra_TypeMeta = sampleTypeMeta,
      hra_ObjectMeta = zeroObjectMeta\<lparr>hom_Name := ''web'', hom_Generation := 2, hom_Annotations := Some 0\<rparr>,
      hra_Spec = zeroSpec\<lparr>hspec_MinReplicas := Some 1, hspec_MaxReplicas := 9, hspec_Targets := Some (4, 1)\<rparr>,
      hra_Status = zeroHStatus\<lparr>hst_Targets := Some (7, 1), hst_Conditions := Some (5, 1)\<rparr>\<rparr>"

definition sampleHeap :: "cell heap" where
  "sampleHeap =
     [CMap (fmupd ''team'' ''a'' fmempty),
      CInt32 1,
      CBytes ''{}'',
      CRawExtension \<lparr>hraw_Raw = Some (2, 2)\<rparr>,
      CTargets [\<lparr>htgt_Metric = ''cpu'', htgt_MetricType = [], htgt_Settings = \<lparr>hset_Default = Some 3, hset_Schedules = None\<rparr>\<rparr>],
      CConditions [mkCondition ConditionReady ConditionTrue [] []],
      CQuantity \<lparr>q_value = 5, q_scale = 0\<rparr>,
      CTargetStatuses [\<lparr>hts_Target = ''cpu'', hts_Scaler = ''cpu'', hts_DesiredReplicas = 3,
        hts_Metric = zeroMetricTarget\<lparr>hmt_AverageValue := Some 6\<rparr>\<rparr>, zeroTargetStatus],
      CReplicaAutoscaler sampleObject]"

definition sampleValue :: ReplicaAutoscaler where
  "sampleValue =
     \<lparr>ra_Name = ''web'', ra_Namespace = [], ra_Generation = 2, ra_DeletionTimestamp = None,
      ra_Annotations = fmupd ''team'' ''a'' fmempty,
      ra_Spec = \<lparr>spec_Replicator = None, spec_ReplicatorSettings = None, spec_ScaleTargetRef = zeroObjectReference,
        spec_MinReplicas = Some 1, spec_MaxReplicas = 9,
        spec_Targets = [\<lparr>tgt_Metric = ''cpu'', tgt_MetricType = [],
          tgt_Settings = \<lparr>set_Default = Some \<lparr>Raw = ''{}''\<rparr>, set_Schedules = []\<rparr>\<rparr>],
        spec_Strategy = None, spec_Exhaust = None\<rparr>,
      ra_Status = \<lparr>st_ObservedGeneration = None, st_LastScaleTime = None, st_CurrentReplicas = 0, st_DesiredReplicas = 0,
        st_Targets = [\<lparr>ts_Target = ''cpu'', ts_Scaler = ''cpu'', ts_DesiredReplicas = 3,
          ts_Metric = \<lparr>mt_Type = [], mt_Value = None, mt_AverageValue = Some \<lparr>q_value = 5, q_scale = 0\<rparr>,
            mt_AverageUtilization = None\<rparr>\<rparr>],
        st_Conditions = [mkCondition ConditionReady ConditionTrue [] []]\<rparr>\<rparr>"

lemmas sem_defs = semPtr_def semSlice_def semPair_def semStruct_def semFlat_def cell_at_def
  semReplicaAutoscaler_def semObjectMeta_def semMap_def semSpec_def semTarget_def semTargetSettings_def semRawExtension_def
  semStatus_def semTargetStatus_def semMetricTarget_def object_value_def
lemmas sample_defs = sampleHeap_def sampleObject_def sampleValue_def zeroObjectMeta_def zeroSpec_def zeroHStatus_def
  zeroMetricTarget_def zeroTargetStatus_def

lemma sample_sem:
  "semPtr dReplicaAutoscaler semReplicaAutoscaler sampleHeap (Some 8) = Some (Some (sampleTypeMeta, sampleValue), {..<9})"
  by (simp add: sem_defs sample_defs) auto

subsection \<open>Copies of the API objects\<close>

text \<open>
  (C18) \<^verbatim>\<open>ReplicaAutoscaler.DeepCopy\<close> of an object in memory returns, without a panic and without a change to the
  existing memory, a pointer to an equal object; and the two are independent. However the memory that existed before is
  changed later, through the original or otherwise, the copy keeps its value, and however the new memory is changed, the
  original keeps its own. This is what \<^verbatim>\<open>Reconcile\<close> needs of \<^verbatim>\<open>observedAutoscaler\<close>, against which the object that it has
  worked on is compared at the end.
\<close>

theorem ReplicaAutoscaler_DeepCopy_independent:
  assumes "lib_deep L" and "semPtr dReplicaAutoscaler semReplicaAutoscaler h p = Some (v, A)"
  shows "\<exists>q t B. ReplicaAutoscaler_DeepCopy L p h = Ret (q, h @ t) \<and>
     semPtr dReplicaAutoscaler semReplicaAutoscaler (h @ t) q = Some (v, B) \<and>
     (\<forall>h'. agree_on (fresh_in h (h @ t)) (h @ t) h' \<longrightarrow>
        semPtr dReplicaAutoscaler semReplicaAutoscaler h' q = Some (v, B)) \<and>
     (\<forall>h'. agree_on {..<length h} (h @ t) h' \<longrightarrow>
        semPtr dReplicaAutoscaler semReplicaAutoscaler h' p = Some (v, A))"
  by (rule deep_copier.copy_independent [OF deep_pointers(10) [OF assms(1)] assms(2)])


lemma ReplicaAutoscaler_DeepCopy_independent_witness:
  "lib_deep sampleCopies \<and>
   semPtr dReplicaAutoscaler semReplicaAutoscaler sampleHeap (Some 8) = Some (Some (sampleTypeMeta, sampleValue), {..<9}) \<and>
   (\<exists>q t B. ReplicaAutoscaler_DeepCopy sampleCopies (Some 8) sampleHeap = Ret (q, sampleHeap @ t) \<and>
     semPtr dReplicaAutoscaler semReplicaAutoscaler (sampleHeap @ t) q = Some (Some (sampleTypeMeta, sampleValue), B))"
  using ReplicaAutoscaler_DeepCopy_independent [OF lib_deep_sample sample_sem] lib_deep_sample sample_sem by blast


text \<open>
  \<^verbatim>\<open>DeepCopyObject\<close> of a list of autoscalers gives the nil interface for a nil pointer (never an interface that holds a
  nil pointer), and else an interface that holds a pointer to an equal list in memory that did not exist before.
\<close>

theorem ReplicaAutoscalerList_DeepCopyObject_copies:
  assumes "lib_deep L" and "semPtr dReplicaAutoscalerList semReplicaAutoscalerList h p = Some (v, A)"
  shows "\<exists>obj t. ReplicaAutoscalerList_DeepCopyObject L p h = Ret (obj, h @ t) \<and>
     (obj = None \<longleftrightarrow> v = None) \<and>
     (\<forall>ob. obj = Some ob \<longrightarrow> (\<exists>q B. ob = ObjReplicaAutoscalerList (Some q) \<and>
        semPtr dReplicaAutoscalerList semReplicaAutoscalerList (h @ t) (Some q) = Some (v, B) \<and> B \<subseteq> fresh_in h (h @ t)))"
proof -
  from deep_copier.copy_deep [OF deep_pointers(11) [OF assms(1)] assms(2)] obtain q t B where
    q: "ReplicaAutoscalerList_DeepCopy L p h = Ret (q, h @ t)"
      "semPtr dReplicaAutoscalerList semReplicaAutoscalerList (h @ t) q = Some (v, B)" "B \<subseteq> fresh_in h (h @ t)" by blast
  show ?thesis
  proof (cases q)
    case None
    with q show ?thesis by (auto simp: ReplicaAutoscalerList_DeepCopyObject_def semPtr_None)
  next
    case (Some a)
    with q(2) have "v \<noteq> None" by (auto simp: semPtr_Some)
    with Some q show ?thesis
      by (intro exI [of _ "Some (ObjReplicaAutoscalerList (Some a))"] exI [of _ t])
        (auto simp: ReplicaAutoscalerList_DeepCopyObject_def)
  qed
qed

definition sampleListHeap :: "cell heap" where
  "sampleListHeap = sampleHeap @ [CReplicaAutoscalers [sampleObject],
     CReplicaAutoscalerList \<lparr>hral_TypeMeta = sampleTypeMeta, hral_ListMeta = zeroListMeta, hral_Items = Some (9, 1)\<rparr>]"

lemma sampleList_sem:
  "semPtr dReplicaAutoscalerList semReplicaAutoscalerList sampleListHeap (Some 10) =
     Some (Some (sampleTypeMeta, (([], []), None), [(sampleTypeMeta, sampleValue)]), {10, 9} \<union> {..<8})"
  by (simp add: sampleListHeap_def semReplicaAutoscalerList_def semListMeta_def zeroListMeta_def sem_defs sample_defs) auto

lemma ReplicaAutoscalerList_DeepCopyObject_copies_witness:
  "\<exists>obj t. ReplicaAutoscalerList_DeepCopyObject sampleCopies (Some 10) sampleListHeap = Ret (obj, sampleListHeap @ t) \<and> obj \<noteq> None"
  using ReplicaAutoscalerList_DeepCopyObject_copies [OF lib_deep_sample sampleList_sem] by blast

end
