(* ===== verification/Go_Slice.thy ===== *)
theory Go_Slice
  imports Go_Heap
begin

text \<open>
  Slices that are written in place. Assignment to an element and \<^verbatim>\<open>append\<close> change the array of a slice, which
  other slices may share; \<^verbatim>\<open>append\<close> writes behind the length when the array has room, and moves to a new array when
  it has not. How much room a new array gets is the runtime's choice: the argument \<open>grow\<close>.

  The locale \<open>slice_store\<close> shows that these operations are those of lists on what the slices stand for, and which cells they
  touch: arrays of the same type in the footprint of the slice, and nothing else. Everything else in memory that is read
  through other cells keeps its value (\<open>sem_touches\<close>).
\<close>

subsection \<open>Cells that are touched\<close>

text \<open>\<open>touches dest C h h'\<close>: a cell that existed and has changed is an array of the type of \<open>dest\<close> in \<open>C\<close>.\<close>

definition touches :: "('k \<Rightarrow> 'c option) \<Rightarrow> addr set \<Rightarrow> 'k heap \<Rightarrow> 'k heap \<Rightarrow> bool" where
  "touches dest C h h' \<longleftrightarrow>
     length h \<le> length h' \<and> (\<forall>a<length h. h' ! a \<noteq> h ! a \<longrightarrow> a \<in> C \<and> dest (h ! a) \<noteq> None)"

text \<open>A reading that never goes through an array of the type of \<open>dest\<close>.\<close>

definition avoids :: "('k, 'c, 'a) reader \<Rightarrow> ('k \<Rightarrow> 'd option) \<Rightarrow> bool" where
  "avoids sem dest \<longleftrightarrow> (\<forall>h x v A a. sem h x = Some (v, A) \<longrightarrow> a \<in> A \<longrightarrow> dest (h ! a) = None)"

lemma avoidsD: "avoids sem dest \<Longrightarrow> sem h x = Some (v, A) \<Longrightarrow> a \<in> A \<Longrightarrow> dest (h ! a) = None"
  by (simp add: avoids_def)

lemma touches_refl [simp]: "touches dest C h h"
  by (simp add: touches_def)

lemma touches_append [simp]: "touches dest C h (h @ t)"
  by (simp add: touches_def nth_append)

lemma touches_mono: "touches dest C h h' \<Longrightarrow> C \<subseteq> D \<Longrightarrow> touches dest D h h'"
  by (auto simp: touches_def)

lemma touches_store: "cell_at dest h a = Some x \<Longrightarrow> a \<in> C \<Longrightarrow> touches dest C h (store a c h)"
  by (auto simp: touches_def store_def cell_at_def nth_list_update split: if_splits)

lemma touches_trans:
  assumes "touches dest C h h1" "touches dest D h1 h2"
    and "\<And>a. a \<in> D \<Longrightarrow> a < length h \<Longrightarrow> dest (h ! a) \<noteq> None \<Longrightarrow> a \<in> C"
  shows "touches dest C h h2"
  unfolding touches_def
proof (intro conjI allI impI)
  show "length h \<le> length h2" using assms(1,2) by (simp add: touches_def)
  fix a
  assume a: "a < length h" "h2 ! a \<noteq> h ! a"
  then have l: "a < length h1" using assms(1) by (simp add: touches_def)
  show d: "dest (h ! a) \<noteq> None" using assms(1,2) a l unfolding touches_def by (cases "h1 ! a = h ! a") metis+
  show "a \<in> C"
  proof (cases "h1 ! a = h ! a")
    case True
    with a(2) l assms(2) have "a \<in> D" unfolding touches_def by metis
    with assms(3) a(1) d show ?thesis by blast
  next
    case False
    with a(1) assms(1) show ?thesis by (simp add: touches_def)
  qed
qed

lemma agree_on_touches:
  assumes "touches dest C h h'" "A \<subseteq> {..<length h}" "\<And>a. a \<in> A \<Longrightarrow> a \<in> C \<Longrightarrow> dest (h ! a) = None"
  shows "agree_on A h h'"
  using assms unfolding touches_def agree_on_def by (meson lessThan_iff less_le_trans subsetD)

context reading
begin

lemma sem_touches: "avoids sem dest \<Longrightarrow> sem h x = Some (v, A) \<Longrightarrow> touches dest C h h' \<Longrightarrow> sem h' x = Some (v, A)"
  by (rule sem_support, assumption, rule agree_on_touches, assumption, erule sem_allocated, erule (2) avoidsD)

lemma sem_touches_disjoint: "sem h x = Some (v, A) \<Longrightarrow> touches dest C h h' \<Longrightarrow> A \<inter> C = {} \<Longrightarrow> sem h' x = Some (v, A)"
  by (rule sem_support, assumption, rule agree_on_touches, assumption, erule sem_allocated, blast)

end

subsection \<open>Readings that avoid a type of arrays\<close>

named_theorems avoid

lemma avoids_flat [avoid]: "avoids semFlat dest"
  by (simp add: avoids_def semFlat_def)

lemma avoids_pair [avoid]: "avoids d1 dest \<Longrightarrow> avoids d2 dest \<Longrightarrow> avoids (semPair d1 d2) dest"
  unfolding avoids_def semPair_Some by fast

lemma avoids_struct [avoid]: "avoids d dest \<Longrightarrow> avoids (semStruct parts val d) dest"
  unfolding avoids_def semStruct_Some by blast

lemma avoids_ptr [avoid]:
  assumes "avoids d dest" "\<And>c x. dest' c = Some x \<Longrightarrow> dest c = None"
  shows "avoids (semPtr dest' d) dest"
  unfolding avoids_def
proof (intro allI impI)
  fix h p v A a
  assume s: "semPtr dest' d h p = Some (v, A)" and a: "a \<in> A"
  then obtain b x w B where b: "p = Some b" "cell_at dest' h b = Some x" "d h x = Some (w, B)" "A = insert b B"
    by (cases p) (auto simp: semPtr_None semPtr_Some)
  show "dest (h ! a) = None"
  proof (cases "a = b")
    case True
    with b(2) assms(2) show ?thesis by (auto simp: cell_at_def split: if_splits)
  next
    case False
    with a b(4) avoidsD [OF assms(1) b(3)] show ?thesis by simp
  qed
qed

lemma avoids_slice [avoid]:
  assumes "avoids d dest" "\<And>c x. dest' c = Some x \<Longrightarrow> dest c = None"
  shows "avoids (semSlice dest' d) dest"
  unfolding avoids_def
proof (intro allI impI)
  fix h s v A a
  assume s: "semSlice dest' d h s = Some (v, A)" and a: "a \<in> A"
  then obtain b n xs Bs where b: "s = Some (b, n)" "cell_at dest' h b = Some xs" "length Bs = n"
    "\<forall>i<n. d h (xs ! i) = Some (v ! i, Bs ! i)" "A = insert b (\<Union>(set Bs))"
    by (cases s) (auto simp: semSlice_None semSlice_Some)
  show "dest (h ! a) = None"
  proof (cases "a = b")
    case True
    with b(2) assms(2) show ?thesis by (auto simp: cell_at_def split: if_splits)
  next
    case False
    with a b(3,5) obtain i where i: "i < n" "a \<in> Bs ! i" by (auto simp: in_set_conv_nth)
    with avoidsD [OF assms(1)] b(4) show ?thesis by blast
  qed
qed

subsection \<open>Append\<close>

text \<open>\<^verbatim>\<open>append(s, ys...)\<close>.\<close>

definition slice_append ::
  "(nat \<Rightarrow> nat) \<Rightarrow> ('c list \<Rightarrow> 'k) \<Rightarrow> ('k \<Rightarrow> 'c list option) \<Rightarrow> 'c \<Rightarrow> slice \<Rightarrow> 'c list \<Rightarrow> 'k heap \<Rightarrow> (slice \<times> 'k heap) exec"
  where
  "slice_append grow mk dest zero s ys h =
     (case s of
        None \<Rightarrow>
          if ys = [] then Ret (None, h)
          else (let (b, h1) = alloc (mk (ys @ replicate (grow (length ys)) zero)) h in Ret (Some (b, length ys), h1))
      | Some (a, n) \<Rightarrow>
          exec_bind (load dest a h) (\<lambda>xs.
          let m = n + length ys in
          if m \<le> length xs then Ret (Some (a, m), store a (mk (take n xs @ ys @ drop m xs)) h)
          else (let (b, h1) = alloc (mk (take n xs @ ys @ replicate (grow m) zero)) h in Ret (Some (b, m), h1))))"

subsection \<open>Slices as lists\<close>

text \<open>A call that returns a slice for the list \<open>vs\<close>: what the slice is read through was in \<open>C\<close> or is new, and
  nothing but arrays of \<open>C\<close> has changed.\<close>

definition slice_result ::
  "('k \<Rightarrow> 'c list option) \<Rightarrow> ('k, 'c, 'a) reader \<Rightarrow> addr set \<Rightarrow> 'k heap \<Rightarrow> 'a list \<Rightarrow> (slice \<times> 'k heap) exec \<Rightarrow> bool" where
  "slice_result dest sem C h vs r \<longleftrightarrow>
     (\<exists>s h' C'. r = Ret (s, h') \<and> semSlice dest sem h' s = Some (vs, C') \<and> C' \<subseteq> C \<union> {length h..<length h'} \<and>
        touches dest C h h')"

lemma slice_resultI:
  "r = Ret (s, h') \<Longrightarrow> semSlice dest sem h' s = Some (vs, C') \<Longrightarrow> C' \<subseteq> C \<union> {length h..<length h'} \<Longrightarrow>
   touches dest C h h' \<Longrightarrow> slice_result dest sem C h vs r"
  unfolding slice_result_def by blast

lemma slice_result_Ret: "semSlice dest sem h s = Some (vs, C) \<Longrightarrow> slice_result dest sem C h vs (Ret (s, h))"
  by (rule slice_resultI) auto

lemma slice_result_trans:
  assumes "slice_result dest sem D h' vs r" "touches dest C h h'" "D \<subseteq> C \<union> {length h..<length h'}"
  shows "slice_result dest sem C h vs r"
proof -
  from assms(1) obtain s h2 C' where r: "r = Ret (s, h2)" "semSlice dest sem h2 s = Some (vs, C')"
    "C' \<subseteq> D \<union> {length h'..<length h2}" "touches dest D h' h2" unfolding slice_result_def by blast
  have l: "length h \<le> length h'" "length h' \<le> length h2" using assms(2) r(4) by (simp_all add: touches_def)
  show ?thesis
  proof (rule slice_resultI [OF r(1,2)])
    show "C' \<subseteq> C \<union> {length h..<length h2}" using r(3) assms(3) l by fastforce
    show "touches dest C h h2" by (rule touches_trans [OF assms(2) r(4)]) (use assms(3) in auto)
  qed
qed

lemma slice_result_bind:
  assumes "slice_result dest sem C h vs r"
    and "\<And>s h' C'. semSlice dest sem h' s = Some (vs, C') \<Longrightarrow> slice_result dest sem C' h' ws (f (s, h'))"
  shows "slice_result dest sem C h ws (exec_bind r f)"
proof -
  from assms(1) obtain s h' C' where r: "r = Ret (s, h')" "semSlice dest sem h' s = Some (vs, C')"
    "C' \<subseteq> C \<union> {length h..<length h'}" "touches dest C h h'" unfolding slice_result_def by blast
  with slice_result_trans [OF assms(2) [OF r(2)] r(4,3)] show ?thesis by simp
qed

lemma semSlice_those:
  "semSlice dest d h (Some (a, n)) = Some (vs, C) \<longleftrightarrow>
     (\<exists>xs us. cell_at dest h a = Some xs \<and> n \<le> length xs \<and> map (d h) (take n xs) = map Some us \<and>
        vs = map fst us \<and> C = insert a (\<Union>(snd ` set us)))"
  by (auto simp: semSlice_def those_Some those_Some [THEN iffD2, OF refl] not_less split: option.splits)

locale slice_store = reading sem
  for sem :: "('k, 'c, 'a) reader" +
  fixes mk :: "'c list \<Rightarrow> 'k" and dest :: "'k \<Rightarrow> 'c list option" and zero :: 'c
  assumes dest_mk: "dest (mk xs) = Some xs"
    and sem_avoids: "avoids sem dest"
begin

lemma sem_list_touches:
  assumes "map (sem h) xs = map Some us" "touches dest C h h'"
  shows "map (sem h') xs = map Some us"
  using assms(1)
proof (induction xs arbitrary: us)
  case Nil
  then show ?case by simp
next
  case (Cons x xs)
  then obtain u us' where u: "us = u # us'" "sem h x = Some u" "map (sem h) xs = map Some us'" by (cases us) auto
  with sem_touches [OF sem_avoids, of h x "fst u" "snd u" C h'] assms(2) Cons.IH show ?case by simp
qed

lemma sem_array:
  assumes "cell_at dest h' a = Some zs" "m \<le> length zs" "map (sem h) (take m zs) = map Some us" "touches dest C h h'"
  shows "semSlice dest sem h' (Some (a, m)) = Some (map fst us, insert a (\<Union>(snd ` set us)))"
  unfolding semSlice_those using assms(1,2) sem_list_touches [OF assms(3,4)] by blast

lemma slice_len: "semSlice dest sem h s = Some (vs, C) \<Longrightarrow> slice_len s = length vs"
  by (cases s) (auto simp: slice_len_def semSlice_None semSlice_Some)

lemma slice_get:
  assumes "semSlice dest sem h s = Some (vs, C)" "i < length vs"
  shows "\<exists>x B. slice_get dest s i h = Ret x \<and> sem h x = Some (vs ! i, B) \<and> B \<subseteq> C"
proof -
  from assms obtain a n xs Bs where "s = Some (a, n)" "cell_at dest h a = Some xs" "n \<le> length xs" "length vs = n"
    "length Bs = n" "\<forall>i<n. sem h (xs ! i) = Some (vs ! i, Bs ! i)" "C = insert a (\<Union>(set Bs))"
    by (cases s) (auto simp: semSlice_None semSlice_Some)
  with assms(2) show ?thesis by (intro exI [of _ "xs ! i"] exI [of _ "Bs ! i"]) (auto simp: slice_get_def)
qed

text \<open>\<^verbatim>\<open>s[i] = y\<close>.\<close>

lemma slice_set:
  assumes "semSlice dest sem h s = Some (vs, C)" "i < length vs" "sem h y = Some (w, B)"
  shows "\<exists>h' C'. slice_set mk dest s i y h = Ret h' \<and> semSlice dest sem h' s = Some (vs[i := w], C') \<and> C' \<subseteq> C \<union> B \<and>
     length h' = length h \<and> touches dest C h h'"
proof -
  from assms(1,2) obtain a n xs us where s: "s = Some (a, n)" and x: "cell_at dest h a = Some xs" "n \<le> length xs"
    "map (sem h) (take n xs) = map Some us" "vs = map fst us" "C = insert a (\<Union>(snd ` set us))"
    by (cases s) (auto simp: semSlice_None semSlice_those)
  define h' where "h' = store a (mk (xs[i := y])) h"
  have n: "length us = n" using arg_cong [OF x(3), of length] x(2) by simp
  with assms(2) x(4) have i: "i < n" by simp
  have t: "touches dest C h h'" using x(1,5) by (simp add: h'_def touches_store)
  have c: "cell_at dest h' a = Some (xs[i := y])"
    using cell_at_lt [OF x(1)] by (simp add: h'_def cell_at_def store_def dest_mk)
  have "map (sem h) (take n (xs[i := y])) = map Some (us[i := (w, B)])"
    using x(3) assms(3) by (simp add: take_update_swap map_update)
  from sem_array [OF c _ this t] x(2)
  have "semSlice dest sem h' s = Some (vs[i := w], insert a (\<Union>(snd ` set (us[i := (w, B)]))))"
    by (simp add: s x(4) map_update)
  moreover have "insert a (\<Union>(snd ` set (us[i := (w, B)]))) \<subseteq> C \<union> B"
    using set_update_subset_insert [of us i "(w, B)"] x(5) by fastforce
  moreover have "slice_set mk dest s i y h = Ret h'"
    using x(1,2) i by (simp add: s slice_set_def h'_def)
  ultimately show ?thesis using t by (auto simp: h'_def)
qed

text \<open>\<^verbatim>\<open>append(s[:k], ys...)\<close>; with \<open>k = len(s)\<close> the usual \<^verbatim>\<open>append\<close>.\<close>

lemma slice_append_prefix:
  assumes "semSlice dest sem h (Some (a, n)) = Some (vs, C)" "k \<le> n" "map (sem h) ys = map Some ws"
  shows "\<exists>s' h' C'. slice_append grow mk dest zero (Some (a, k)) ys h = Ret (s', h') \<and>
     semSlice dest sem h' s' = Some (take k vs @ map fst ws, C') \<and>
     C' \<subseteq> C \<union> \<Union>(snd ` set ws) \<union> {length h..<length h'} \<and> touches dest C h h'"
proof -
  from assms(1) obtain xs us where x: "cell_at dest h a = Some xs" "n \<le> length xs"
    "map (sem h) (take n xs) = map Some us" "vs = map fst us" "C = insert a (\<Union>(snd ` set us))"
    by (auto simp: semSlice_those)
  define m where "m = k + length ys"
  have pre: "take m (take k xs @ ys @ q) = take k xs @ ys" "m \<le> length (take k xs @ ys @ q)" for q
    using x(2) assms(2) by (auto simp: m_def min_def)
  have "take k (take n xs) = take k xs" using assms(2) by (simp add: min_absorb1)
  then have u: "map (sem h) (take k xs @ ys) = map Some (take k us @ ws)"
    using arg_cong [OF x(3), of "take k"] assms(3) by (simp add: take_map)
  have sub: "insert b (\<Union>(snd ` set (take k us @ ws))) \<subseteq> insert b (C \<union> \<Union>(snd ` set ws))" for b
    using set_take_subset [of k us] x(5) by auto
  have v: "map fst (take k us @ ws) = take k vs @ map fst ws" by (simp add: x(4) take_map)
  show ?thesis
  proof (cases "m \<le> length xs")
    case True
    define zs where "zs = take k xs @ ys @ drop m xs"
    define h' where "h' = store a (mk zs) h"
    have z: "take m zs = take k xs @ ys" "m \<le> length zs" unfolding zs_def by (rule pre)+
    have t: "touches dest C h h'" using x(1,5) by (simp add: h'_def touches_store)
    have c: "cell_at dest h' a = Some zs" using cell_at_lt [OF x(1)] by (simp add: h'_def cell_at_def store_def dest_mk)
    have "semSlice dest sem h' (Some (a, m)) = Some (take k vs @ map fst ws, insert a (\<Union>(snd ` set (take k us @ ws))))"
      using sem_array [OF c z(2) _ t] u z(1) v by metis
    moreover have "slice_append grow mk dest zero (Some (a, k)) ys h = Ret (Some (a, m), h')"
      using True x(1) by (simp add: slice_append_def Let_def m_def h'_def zs_def)
    moreover have "insert a (\<Union>(snd ` set (take k us @ ws))) \<subseteq> C \<union> \<Union>(snd ` set ws) \<union> {length h..<length h'}"
      using sub [of a] x(5) by blast
    ultimately show ?thesis using t by blast
  next
    case False
    define zs where "zs = take k xs @ ys @ replicate (grow m) zero"
    have z: "take m zs = take k xs @ ys" "m \<le> length zs" unfolding zs_def by (rule pre)+
    have c: "cell_at dest (h @ [mk zs]) (length h) = Some zs" by (simp add: dest_mk)
    have "semSlice dest sem (h @ [mk zs]) (Some (length h, m)) =
        Some (take k vs @ map fst ws, insert (length h) (\<Union>(snd ` set (take k us @ ws))))"
      using sem_array [OF c z(2) _ touches_append] u z(1) v by metis
    moreover have "slice_append grow mk dest zero (Some (a, k)) ys h = Ret (Some (length h, m), h @ [mk zs])"
      using False x(1) by (simp add: slice_append_def Let_def m_def alloc_def zs_def)
    moreover have "insert (length h) (\<Union>(snd ` set (take k us @ ws))) \<subseteq>
        C \<union> \<Union>(snd ` set ws) \<union> {length h..<length (h @ [mk zs])}"
      using sub [of "length h"] by auto
    ultimately show ?thesis using touches_append by blast
  qed
qed

lemma slice_append_one:
  assumes "semSlice dest sem h s = Some (vs, C)" "sem h y = Some (w, B)"
  shows "\<exists>s' h' C'. slice_append grow mk dest zero s [y] h = Ret (s', h') \<and>
     semSlice dest sem h' s' = Some (vs @ [w], C') \<and> C' \<subseteq> C \<union> B \<union> {length h..<length h'} \<and> touches dest C h h'"
proof (cases s)
  case None
  define zs where "zs = y # replicate (grow 1) zero"
  have "semSlice dest sem (h @ [mk zs]) (Some (length h, 1)) = Some (map fst [(w, B)], insert (length h) (\<Union>(snd ` set [(w, B)])))"
    by (rule sem_array [of _ _ zs _ h _ C]) (use assms(2) in \<open>simp_all add: dest_mk zs_def\<close>)
  moreover have "slice_append grow mk dest zero s [y] h = Ret (Some (length h, 1), h @ [mk zs])"
    by (simp add: None slice_append_def alloc_def zs_def)
  moreover have "vs = []" using assms(1) None by (simp add: semSlice_None)
  ultimately show ?thesis
    by (intro exI [of _ "Some (length h, 1)"] exI [of _ "h @ [mk zs]"] exI [of _ "insert (length h) B"]) auto
next
  case (Some p)
  then obtain a n where p: "s = Some (a, n)" by (cases p) auto
  with assms(1) have "length vs = n" by (auto simp: semSlice_Some)
  with slice_append_prefix [OF assms(1) [unfolded p], of n "[y]" "[(w, B)]" grow] assms(2) show ?thesis
    by (simp add: p)
qed

end

lemmas slice_storeI = slice_store.intro [OF _ slice_store_axioms.intro]

end
