(* ===== verification/Status_Heap.thy ===== *)
theory Status_Heap
  imports Deepcopy_Correct Go_Slice
begin

text \<open>
  The operations on the status of a \<^verbatim>\<open>ReplicaAutoscaler\<close> (\<^verbatim>\<open>api/v1/condition.go\<close>, \<^verbatim>\<open>utils/status.go\<close>) as they
  run on memory: the conditions and the target statuses are slices, which the code writes element by element, appends to
  (in place while the array has room) and, in \<^verbatim>\<open>DeleteCondition\<close>, shifts in place.

  Shown: on what the slices stand for, every operation is the one of the value model (\<open>Api_Conditions\<close>, \<open>Api_Types\<close>), and
  it changes no memory but arrays of the status itself; \<^verbatim>\<open>GetTargetStatus\<close> returns memory of its own. A second slice over the same
  array does see the changes (\<open>delete_shifts_shared_array\<close>), which is why the controller needs a deep copy to compare with.
\<close>

subsection \<open>Conditions\<close>

definition hInitIfEmpty :: "(nat \<Rightarrow> nat) \<Rightarrow> slice \<Rightarrow> cell heap \<Rightarrow> (slice \<times> cell heap) exec" where
  "hInitIfEmpty grow s h =
     (if slice_len s = 0
      then slice_append grow CConditions dConditions zeroCondition s [mkCondition ConditionReady ConditionUnknown [] []] h
      else Ret (s, h))"

text \<open>The loop of \<^verbatim>\<open>SetCondition\<close> from index \<open>i\<close>, with \<open>k\<close> conditions left: it writes the elements and returns
  \<^verbatim>\<open>found\<close>.\<close>

fun hSetLoop :: "Time \<Rightarrow> Condition \<Rightarrow> slice \<Rightarrow> nat \<Rightarrow> nat \<Rightarrow> bool \<Rightarrow> cell heap \<Rightarrow> (bool \<times> cell heap) exec" where
  "hSetLoop now c s i 0 found h = Ret (found, h)"
| "hSetLoop now c s i (Suc k) found h =
     exec_bind (slice_get dConditions s i h) (\<lambda>x.
     if cond_Type x = cond_Type c
     then exec_bind (slice_set CConditions dConditions s i
            (x\<lparr>cond_LastTransitionTime :=
                 (if cond_Status x \<noteq> cond_Status c \<or> cond_Reason x \<noteq> cond_Reason c
                  then now else cond_LastTransitionTime x),
               cond_Status := cond_Status c,
               cond_Reason := cond_Reason c,
               cond_Message := cond_Message c\<rparr>) h) (\<lambda>h.
          hSetLoop now c s (Suc i) k True h)
     else hSetLoop now c s (Suc i) k found h)"

definition hSetCondition ::
  "(nat \<Rightarrow> nat) \<Rightarrow> Time \<Rightarrow> slice \<Rightarrow> Condition \<Rightarrow> cell heap \<Rightarrow> (slice \<times> cell heap) exec" where
  "hSetCondition grow now s c h =
     exec_bind (hInitIfEmpty grow s h) (\<lambda>(s, h).
     exec_bind (hSetLoop now c s 0 (slice_len s) False h) (\<lambda>(found, h).
     if \<not> found
     then slice_append grow CConditions dConditions zeroCondition s [c\<lparr>cond_LastTransitionTime := now\<rparr>] h
     else Ret (s, h)))"

fun hGetLoop :: "ConditionType \<Rightarrow> slice \<Rightarrow> nat \<Rightarrow> nat \<Rightarrow> cell heap \<Rightarrow> Condition exec" where
  "hGetLoop ty s i 0 h = Ret zeroCondition"
| "hGetLoop ty s i (Suc k) h =
     exec_bind (slice_get dConditions s i h) (\<lambda>x. if cond_Type x = ty then Ret x else hGetLoop ty s (Suc i) k h)"

definition hGetCondition ::
  "(nat \<Rightarrow> nat) \<Rightarrow> slice \<Rightarrow> ConditionType \<Rightarrow> cell heap \<Rightarrow> (Condition \<times> cell heap) exec" where
  "hGetCondition grow s ty h =
     exec_bind (hInitIfEmpty grow s h) (\<lambda>(s, h).
     exec_bind (hGetLoop ty s 0 (slice_len s) h) (\<lambda>x. Ret (x, h)))"

text \<open>\<^verbatim>\<open>append(conditions[:i], conditions[i+1:]...)\<close>.\<close>

definition hRemoveAt :: "(nat \<Rightarrow> nat) \<Rightarrow> slice \<Rightarrow> nat \<Rightarrow> cell heap \<Rightarrow> (slice \<times> cell heap) exec" where
  "hRemoveAt grow s i h =
     (case s of
        None \<Rightarrow> Panic ''slice bounds out of range''
      | Some (a, n) \<Rightarrow>
          exec_bind (load dConditions a h) (\<lambda>xs.
          slice_append grow CConditions dConditions zeroCondition (Some (a, i)) (drop (Suc i) (take n xs)) h))"

fun hDeleteLoop :: "(nat \<Rightarrow> nat) \<Rightarrow> ConditionType \<Rightarrow> slice \<Rightarrow> nat \<Rightarrow> nat \<Rightarrow> cell heap \<Rightarrow> (slice \<times> cell heap) exec" where
  "hDeleteLoop grow ty s i 0 h = Ret (s, h)"
| "hDeleteLoop grow ty s i (Suc k) h =
     exec_bind (slice_get dConditions s i h) (\<lambda>x.
     if cond_Type x = ty then hRemoveAt grow s i h else hDeleteLoop grow ty s (Suc i) k h)"

definition hDeleteCondition ::
  "(nat \<Rightarrow> nat) \<Rightarrow> slice \<Rightarrow> ConditionType \<Rightarrow> cell heap \<Rightarrow> (slice \<times> cell heap) exec" where
  "hDeleteCondition grow s ty h =
     exec_bind (hInitIfEmpty grow s h) (\<lambda>(s, h). hDeleteLoop grow ty s 0 (slice_len s) h)"

subsection \<open>Target statuses\<close>

text \<open>The loop of \<^verbatim>\<open>SetTargetStatus\<close>: whether it returned early.\<close>

fun hSetTargetLoop :: "hTargetStatus \<Rightarrow> slice \<Rightarrow> nat \<Rightarrow> nat \<Rightarrow> cell heap \<Rightarrow> (bool \<times> cell heap) exec" where
  "hSetTargetLoop t s i 0 h = Ret (False, h)"
| "hSetTargetLoop t s i (Suc k) h =
     exec_bind (slice_get dTargetStatuses s i h) (\<lambda>x.
     if hts_Target x = hts_Target t
     then exec_bind (slice_set CTargetStatuses dTargetStatuses s i t h) (\<lambda>h. Ret (True, h))
     else hSetTargetLoop t s (Suc i) k h)"

definition hSetTargetStatus ::
  "(nat \<Rightarrow> nat) \<Rightarrow> hReplicaAutoscalerStatus \<Rightarrow> hTargetStatus \<Rightarrow> cell heap \<Rightarrow> (hReplicaAutoscalerStatus \<times> cell heap) exec"
  where
  "hSetTargetStatus grow x t h =
     exec_bind (hSetTargetLoop t (hst_Targets x) 0 (slice_len (hst_Targets x)) h) (\<lambda>(found, h).
     if found then Ret (x, h)
     else exec_bind (slice_append grow CTargetStatuses dTargetStatuses zeroTargetStatus (hst_Targets x) [t] h) (\<lambda>(s, h).
          Ret (x\<lparr>hst_Targets := s\<rparr>, h)))"

text \<open>\<^verbatim>\<open>targetStatus.DeepCopy()\<close> is called on the loop variable, a copy of the element.\<close>

fun hGetTargetLoop ::
  "deepcopy_lib \<Rightarrow> string \<Rightarrow> slice \<Rightarrow> nat \<Rightarrow> nat \<Rightarrow> cell heap \<Rightarrow> ((pointer \<times> bool) \<times> cell heap) exec" where
  "hGetTargetLoop L target s i 0 h = Ret ((None, False), h)"
| "hGetTargetLoop L target s i (Suc k) h =
     exec_bind (slice_get dTargetStatuses s i h) (\<lambda>x.
     if hts_Target x = target
     then (let (b, h) = alloc (CTargetStatus x) h in
           exec_bind (TargetStatus_DeepCopy L (Some b) h) (\<lambda>(p, h). Ret ((p, True), h)))
     else hGetTargetLoop L target s (Suc i) k h)"

definition hGetTargetStatus ::
  "deepcopy_lib \<Rightarrow> hReplicaAutoscalerStatus \<Rightarrow> string \<Rightarrow> cell heap \<Rightarrow> ((pointer \<times> bool) \<times> cell heap) exec" where
  "hGetTargetStatus L x target h = hGetTargetLoop L target (hst_Targets x) 0 (slice_len (hst_Targets x)) h"

fun hPurgeInner ::
  "(nat \<Rightarrow> nat) \<Rightarrow> hTargetStatus \<Rightarrow> string list \<Rightarrow> slice \<Rightarrow> cell heap \<Rightarrow> (slice \<times> cell heap) exec" where
  "hPurgeInner grow t [] s h = Ret (s, h)"
| "hPurgeInner grow t (m # ms) s h =
     (if hts_Target t = m
      then exec_bind (slice_append grow CTargetStatuses dTargetStatuses zeroTargetStatus s [t] h) (\<lambda>(s, h).
           hPurgeInner grow t ms s h)
      else hPurgeInner grow t ms s h)"

fun hPurgeOuter ::
  "(nat \<Rightarrow> nat) \<Rightarrow> string list \<Rightarrow> slice \<Rightarrow> nat \<Rightarrow> nat \<Rightarrow> slice \<Rightarrow> cell heap \<Rightarrow> (slice \<times> cell heap) exec" where
  "hPurgeOuter grow managed targets i 0 s h = Ret (s, h)"
| "hPurgeOuter grow managed targets i (Suc k) s h =
     exec_bind (slice_get dTargetStatuses targets i h) (\<lambda>t.
     exec_bind (hPurgeInner grow t managed s h) (\<lambda>(s, h).
     hPurgeOuter grow managed targets (Suc i) k s h))"

definition hPurgeTargetStatus ::
  "(nat \<Rightarrow> nat) \<Rightarrow> string list \<Rightarrow> hReplicaAutoscalerStatus \<Rightarrow> cell heap \<Rightarrow> (hReplicaAutoscalerStatus \<times> cell heap) exec" where
  "hPurgeTargetStatus grow managed x h =
     exec_bind (hPurgeOuter grow managed (hst_Targets x) 0 (slice_len (hst_Targets x)) None h) (\<lambda>(s, h).
     Ret (x\<lparr>hst_Targets := s\<rparr>, h))"

subsection \<open>The slices of a status\<close>

lemma avoids_TargetStatus [avoid]:
  "avoids semTargetStatus dTargetStatuses" "avoids semTargetStatus dConditions"
  unfolding semTargetStatus_def semMetricTarget_def by (intro avoid; simp add: dest_Some; auto simp: dest_defs)+

interpretation conds: slice_store "semFlat :: (cell, Condition, Condition) reader" CConditions dConditions zeroCondition
  by (rule slice_storeI [OF flat.reading_axioms]) (simp_all add: avoids_flat)

lemma reading_TargetStatus: "reading semTargetStatus"
  unfolding semTargetStatus_def semMetricTarget_def
  by (intro reading_struct reading_pair reading_ptr flat.reading_axioms)

interpretation tstats: slice_store semTargetStatus CTargetStatuses dTargetStatuses zeroTargetStatus
  by (rule slice_storeI [OF reading_TargetStatus]) (simp_all add: avoids_TargetStatus)

abbreviation semConds :: "(cell, slice, Condition list) reader" where "semConds \<equiv> semSlice dConditions semFlat"
abbreviation semTargets :: "(cell, slice, TargetStatus list) reader" where "semTargets \<equiv> semSlice dTargetStatuses semTargetStatus"

subsection \<open>The conditions are those of the value model\<close>

lemma conds_get:
  assumes "semConds h s = Some (vs, C)" "i < length vs"
  shows "slice_get dConditions s i h = Ret (vs ! i)"
  using conds.slice_get [OF assms] by (auto simp: semFlat_def)

lemma semConds_array:
  assumes "semConds h (Some (a, n)) = Some (vs, C)"
  shows "\<exists>xs. cell_at dConditions h a = Some xs \<and> n \<le> length xs \<and> take n xs = vs"
proof -
  from assms obtain xs us where x: "cell_at dConditions h a = Some xs" "n \<le> length xs"
    "map (semFlat h) (take n xs) = map Some us" "vs = map fst us" by (auto simp: semSlice_those)
  have "map Some us = map Some (map (\<lambda>c. (c, {})) (take n xs))" unfolding x(3) [symmetric] by (simp add: semFlat_def)
  then have "us = map (\<lambda>c. (c, {})) (take n xs)" by (simp add: inj_map_eq_map del: map_map)
  with x show ?thesis by (simp add: comp_def)
qed

lemma conds_append:
  assumes "semConds h s = Some (vs, C)"
  shows "slice_result dConditions semFlat C h (vs @ [c]) (slice_append grow CConditions dConditions zeroCondition s [c] h)"
  using conds.slice_append_one [OF assms, of c c "{}"] unfolding slice_result_def by (simp add: semFlat_def)

lemma hInitIfEmpty_refines:
  assumes "semConds h s = Some (vs, C)"
  shows "slice_result dConditions semFlat C h (initIfEmpty vs) (hInitIfEmpty grow s h)"
  using conds_append [OF assms, of "mkCondition ConditionReady ConditionUnknown [] []" grow] slice_result_Ret [OF assms]
  by (cases vs) (simp_all add: hInitIfEmpty_def conds.slice_len [OF assms] initIfEmpty_def InitializeConditions_def)

lemma hSetLoop_refines:
  assumes "semConds h s = Some (vs, C)" "i + k = length vs"
  shows "\<exists>h' C'. hSetLoop now c s i k found h = Ret (found \<or> snd (setLoop now c (drop i vs)), h') \<and>
     semConds h' s = Some (take i vs @ fst (setLoop now c (drop i vs)), C') \<and> C' \<subseteq> C \<and> touches dConditions C h h'"
  using assms
proof (induction k arbitrary: i vs C found h)
  case 0
  then show ?case by (intro exI [of _ h] exI [of _ C]) simp
next
  case (Suc k)
  then have i: "i < length vs" by simp
  let ?x = "(vs ! i)\<lparr>cond_LastTransitionTime :=
      (if cond_Status (vs ! i) \<noteq> cond_Status c \<or> cond_Reason (vs ! i) \<noteq> cond_Reason c then now
       else cond_LastTransitionTime (vs ! i)),
      cond_Status := cond_Status c, cond_Reason := cond_Reason c, cond_Message := cond_Message c\<rparr>"
  note g = conds_get [OF Suc.prems(1) i]
  have d: "drop i vs = vs ! i # drop (Suc i) vs" "take (Suc i) vs = take i vs @ [vs ! i]"
    using i by (simp_all add: Cons_nth_drop_Suc take_Suc_conv_app_nth)
  show ?case
  proof (cases "cond_Type (vs ! i) = cond_Type c")
    case False
    with Suc.IH [of h vs C "Suc i" found] Suc.prems g d show ?thesis by (simp add: case_prod_beta)
  next
    case True
    from conds.slice_set [OF Suc.prems(1) i, of ?x ?x "{}"] obtain h1 C1 where
      h1: "slice_set CConditions dConditions s i ?x h = Ret h1" "semConds h1 s = Some (vs[i := ?x], C1)" "C1 \<subseteq> C"
        "touches dConditions C h h1" by (auto simp: semFlat_def)
    from Suc.IH [OF h1(2), of "Suc i" True] Suc.prems(2) obtain h2 C2 where
      h2: "hSetLoop now c s (Suc i) k True h1 = Ret (True, h2)"
        "semConds h2 s = Some (take i vs @ ?x # fst (setLoop now c (drop (Suc i) vs)), C2)" "C2 \<subseteq> C1"
        "touches dConditions C1 h1 h2"
      using i by (auto simp: take_Suc_conv_app_nth)
    have t: "touches dConditions C h h2" by (rule touches_trans [OF h1(4) h2(4)]) (use h1(3) in blast)
    have l: "setLoop now c (drop i vs) = (?x # fst (setLoop now c (drop (Suc i) vs)), True)"
      unfolding d(1) using True by (simp add: case_prod_beta)
    have "hSetLoop now c s i (Suc k) found h = Ret (True, h2)" using g True h1(1) h2(1) by simp
    with h1(3) h2(2,3) t show ?thesis unfolding l by (intro exI [of _ h2] exI [of _ C2]) auto
  qed
qed

lemma hSetCondition_refines:
  assumes "semConds h s = Some (vs, C)"
  shows "slice_result dConditions semFlat C h (SetCondition now vs c) (hSetCondition grow now s c h)"
  unfolding hSetCondition_def
proof (rule slice_result_bind [OF hInitIfEmpty_refines [OF assms]], simp)
  fix s1 h1 C1
  assume s1: "semConds h1 s1 = Some (initIfEmpty vs, C1)"
  define ws where "ws = setLoop now c (initIfEmpty vs)"
  from hSetLoop_refines [OF s1, of 0 "length (initIfEmpty vs)" now c False] obtain h2 C2 where
    h2: "hSetLoop now c s1 0 (slice_len s1) False h1 = Ret (snd ws, h2)" "semConds h2 s1 = Some (fst ws, C2)"
      "C2 \<subseteq> C1" "touches dConditions C1 h1 h2"
    by (auto simp: conds.slice_len [OF s1] ws_def)
  have v: "SetCondition now vs c = (if \<not> snd ws then fst ws @ [c\<lparr>cond_LastTransitionTime := now\<rparr>] else fst ws)"
    by (simp add: SetCondition_def case_prod_beta ws_def)
  show "slice_result dConditions semFlat C1 h1 (SetCondition now vs c)
     (exec_bind (hSetLoop now c s1 0 (slice_len s1) False h1) (\<lambda>(found, h).
        if \<not> found
        then slice_append grow CConditions dConditions zeroCondition s1 [c\<lparr>cond_LastTransitionTime := now\<rparr>] h
        else Ret (s1, h)))"
    by (rule slice_result_trans [OF _ h2(4)])
      (use h2(1,3) conds_append [OF h2(2)] slice_result_Ret [OF h2(2)] in \<open>auto simp: v\<close>)
qed

lemma hDeleteLoop_refines:
  assumes "semConds h s = Some (vs, C)" "i + k = length vs"
  shows "slice_result dConditions semFlat C h (take i vs @ deleteLoop ty (drop i vs)) (hDeleteLoop grow ty s i k h)"
  using assms(2)
proof (induction k arbitrary: i)
  case 0
  then show ?case using slice_result_Ret [OF assms(1)] by simp
next
  case (Suc k)
  then have i: "i < length vs" by simp
  have d: "drop i vs = vs ! i # drop (Suc i) vs" "take (Suc i) vs = take i vs @ [vs ! i]"
    using i by (simp_all add: Cons_nth_drop_Suc take_Suc_conv_app_nth)
  show ?case
  proof (cases "cond_Type (vs ! i) = ty")
    case False
    with Suc.IH [of "Suc i"] Suc.prems conds_get [OF assms(1) i] d show ?thesis by simp
  next
    case True
    obtain a n xs where s: "s = Some (a, n)" "cell_at dConditions h a = Some xs" "n \<le> length xs" "take n xs = vs"
      using assms(1) i by (cases s) (auto simp: semSlice_None dest: semConds_array)
    have "map (semFlat h) (drop (Suc i) vs) = map Some (map (\<lambda>c. (c, {})) (drop (Suc i) vs))" by (simp add: semFlat_def)
    from conds.slice_append_prefix [OF assms(1) [unfolded s(1)] _ this, of i grow] i s(3,4)
    have "slice_result dConditions semFlat C h (take i vs @ drop (Suc i) vs) (hRemoveAt grow s i h)"
      unfolding slice_result_def by (fastforce simp: s(1,2) hRemoveAt_def comp_def)
    with conds_get [OF assms(1) i] True d(1) show ?thesis by simp
  qed
qed

lemma hDeleteCondition_refines:
  assumes "semConds h s = Some (vs, C)"
  shows "slice_result dConditions semFlat C h (DeleteCondition vs ty) (hDeleteCondition grow s ty h)"
  unfolding hDeleteCondition_def
  by (rule slice_result_bind [OF hInitIfEmpty_refines [OF assms]])
    (use hDeleteLoop_refines [of _ _ _ _ 0] in \<open>simp add: DeleteCondition_def conds.slice_len\<close>)

lemma hGetLoop_refines:
  assumes "semConds h s = Some (vs, C)" "i + k = length vs"
  shows "hGetLoop ty s i k h =
     Ret (case find (\<lambda>c. cond_Type c = ty) (drop i vs) of Some c \<Rightarrow> c | None \<Rightarrow> zeroCondition)"
  using assms(2)
proof (induction k arbitrary: i)
  case 0
  then show ?case by simp
next
  case (Suc k)
  then have i: "i < length vs" by simp
  have d: "drop i vs = vs ! i # drop (Suc i) vs" using i by (simp add: Cons_nth_drop_Suc)
  show ?case unfolding d using Suc.IH [of "Suc i"] Suc.prems conds_get [OF assms(1) i] by simp
qed

lemma hGetCondition_refines:
  assumes "semConds h s = Some (vs, C)"
  shows "\<exists>h'. hGetCondition grow s ty h = Ret (GetCondition vs ty, h') \<and> semConds h' s = Some (vs, C)"
proof (cases "vs = []")
  case False
  then have "hInitIfEmpty grow s h = Ret (s, h)" by (simp add: hInitIfEmpty_def conds.slice_len [OF assms])
  with hGetLoop_refines [OF assms, of 0] False assms show ?thesis
    by (auto simp: hGetCondition_def conds.slice_len [OF assms] GetCondition_def)
next
  case True
  from hInitIfEmpty_refines [OF assms, of grow] obtain s1 h1 C1 where
    s1: "hInitIfEmpty grow s h = Ret (s1, h1)" "semConds h1 s1 = Some (initIfEmpty vs, C1)" "touches dConditions C h h1"
    unfolding slice_result_def by blast
  have "semConds h1 s = Some (vs, C)"
  proof (cases s)
    case None
    with assms show ?thesis by (simp add: semSlice_None)
  next
    case (Some p)
    with assms True obtain a xs0 where a: "s = Some (a, 0)" "C = {a}" "cell_at dConditions h a = Some xs0"
      by (cases p) (auto simp: semSlice_Some)
    with s1(1) have "\<exists>xs. cell_at dConditions h1 a = Some xs"
      by (auto simp: hInitIfEmpty_def slice_len_def slice_append_def alloc_def Let_def cell_at_def store_def nth_append
          split: if_splits)
    with a True show ?thesis by (auto simp: semSlice_Some)
  qed
  with s1(1) hGetLoop_refines [OF s1(2), of 0] show ?thesis
    by (auto simp: hGetCondition_def conds.slice_len [OF s1(2)] GetCondition_def)
qed

subsection \<open>The target statuses are those of the value model\<close>

lemma semTargetStatus_Target: "semTargetStatus h x = Some (v, A) \<Longrightarrow> hts_Target x = ts_Target v"
  by (auto simp: semTargetStatus_def semStruct_Some semPair_Some semFlat_def)

lemma targets_get:
  assumes "semTargets h s = Some (vs, C)" "i < length vs"
  obtains x B where "slice_get dTargetStatuses s i h = Ret x" "semTargetStatus h x = Some (vs ! i, B)" "B \<subseteq> C"
    "hts_Target x = ts_Target (vs ! i)"
  using tstats.slice_get [OF assms] semTargetStatus_Target by blast

lemma hSetTargetLoop_refines:
  assumes "semTargets h s = Some (vs, C)" "i + k = length vs" "semTargetStatus h t = Some (w, B)"
  shows "\<exists>h' C'. hSetTargetLoop t s i k h = Ret (ts_Target w \<in> ts_Target ` set (drop i vs), h') \<and>
     semTargets h' s = Some (if ts_Target w \<in> ts_Target ` set (drop i vs) then take i vs @ setTargetLoop w (drop i vs) else vs, C') \<and>
     C' \<subseteq> C \<union> B \<and> length h' = length h \<and> touches dTargetStatuses C h h'"
  using assms(2)
proof (induction k arbitrary: i)
  case 0
  with assms(1) show ?case by (intro exI [of _ h] exI [of _ C]) simp
next
  case (Suc k)
  then have i: "i < length vs" by simp
  have d: "drop i vs = vs ! i # drop (Suc i) vs" "take (Suc i) vs = take i vs @ [vs ! i]"
    using i by (simp_all add: Cons_nth_drop_Suc take_Suc_conv_app_nth)
  from targets_get [OF assms(1) i] obtain x where x: "slice_get dTargetStatuses s i h = Ret x"
    "hts_Target x = ts_Target (vs ! i)" by blast
  note t = semTargetStatus_Target [OF assms(3)]
  show ?case
  proof (cases "ts_Target (vs ! i) = ts_Target w")
    case False
    with Suc.IH [of "Suc i"] Suc.prems x t d show ?thesis
      by (cases "ts_Target w \<in> ts_Target ` set (drop (Suc i) vs)") simp_all
  next
    case True
    have "vs[i := w] = take i vs @ setTargetLoop w (drop i vs)"
      using i True by (simp add: upd_conv_take_nth_drop d(1))
    with tstats.slice_set [OF assms(1) i assms(3)] x t True show ?thesis unfolding d(1) by auto
  qed
qed

lemma setTargetLoop_missing: "ts_Target w \<notin> ts_Target ` set vs \<Longrightarrow> setTargetLoop w vs = vs @ [w]"
  by (induction vs) auto

lemma hPurgeInner_refines:
  assumes "semTargets h s = Some (acc, C)" "semTargetStatus h t = Some (w, B)"
  shows "\<exists>s' h' C'. hPurgeInner grow t ms s h = Ret (s', h') \<and> semTargets h' s' = Some (purgeInner w ms acc, C') \<and>
     C' \<subseteq> C \<union> B \<union> {length h..<length h'} \<and> touches dTargetStatuses C h h'"
  using assms
proof (induction ms arbitrary: s acc C h)
  case Nil
  then show ?case by (intro exI [of _ s] exI [of _ h] exI [of _ C]) auto
next
  case (Cons m ms)
  note t = semTargetStatus_Target [OF Cons.prems(2)]
  show ?case
  proof (cases "ts_Target w = m")
    case False
    with Cons.IH [OF Cons.prems] t show ?thesis by simp
  next
    case True
    from tstats.slice_append_one [OF Cons.prems, of grow] obtain s1 h1 C1 where
      s1: "slice_append grow CTargetStatuses dTargetStatuses zeroTargetStatus s [t] h = Ret (s1, h1)"
        "semTargets h1 s1 = Some (acc @ [w], C1)" "C1 \<subseteq> C \<union> B \<union> {length h..<length h1}" "touches dTargetStatuses C h h1"
      by blast
    have b: "semTargetStatus h1 t = Some (w, B)" by (rule tstats.sem_touches [OF tstats.sem_avoids Cons.prems(2) s1(4)])
    from Cons.IH [OF s1(2) b] obtain s2 h2 C2 where
      s2: "hPurgeInner grow t ms s1 h1 = Ret (s2, h2)" "semTargets h2 s2 = Some (purgeInner w ms (acc @ [w]), C2)"
        "C2 \<subseteq> C1 \<union> B \<union> {length h1..<length h2}" "touches dTargetStatuses C1 h1 h2" by blast
    have l: "length h \<le> length h1" "length h1 \<le> length h2" using s1(4) s2(4) by (simp_all add: touches_def)
    have "touches dTargetStatuses C h h2"
    proof (rule touches_trans [OF s1(4) s2(4)])
      fix a
      assume "a \<in> C1" "a < length h" "dTargetStatuses (h ! a) \<noteq> None"
      with s1(3) avoidsD [OF tstats.sem_avoids Cons.prems(2), of a] show "a \<in> C" by auto
    qed
    moreover have "C2 \<subseteq> C \<union> B \<union> {length h..<length h2}" using s1(3) s2(3) l by fastforce
    ultimately show ?thesis using s1(1) s2(1,2) t True by auto
  qed
qed

text \<open>The new slice has arrays of its own (\<open>sep\<close>), so that the old one is read unchanged to its end.\<close>

lemma hPurgeOuter_refines:
  assumes "semTargets h ts = Some (vs, C0)" "i + k = length vs" "semTargets h s = Some (acc, C)"
    and sep: "\<And>a. a \<in> C \<Longrightarrow> a \<in> C0 \<Longrightarrow> dTargetStatuses (h ! a) = None"
  shows "\<exists>s' h' C'. hPurgeOuter grow managed ts i k s h = Ret (s', h') \<and>
     semTargets h' s' = Some (purgeOuter managed (drop i vs) acc, C') \<and>
     C' \<subseteq> C \<union> C0 \<union> {length h..<length h'} \<and> touches dTargetStatuses C h h'"
  using assms
proof (induction k arbitrary: i s acc C h)
  case 0
  then show ?case by (intro exI [of _ s] exI [of _ h] exI [of _ C]) auto
next
  case (Suc k)
  then have i: "i < length vs" by simp
  have d: "drop i vs = vs ! i # drop (Suc i) vs" using i by (simp add: Cons_nth_drop_Suc)
  from targets_get [OF Suc.prems(1) i] obtain t B where
    t: "slice_get dTargetStatuses ts i h = Ret t" "semTargetStatus h t = Some (vs ! i, B)" "B \<subseteq> C0" by blast
  from hPurgeInner_refines [OF Suc.prems(3) t(2), of grow managed] obtain s1 h1 C1 where
    s1: "hPurgeInner grow t managed s h = Ret (s1, h1)" "semTargets h1 s1 = Some (purgeInner (vs ! i) managed acc, C1)"
      "C1 \<subseteq> C \<union> B \<union> {length h..<length h1}" "touches dTargetStatuses C h h1" by blast
  have a0: "C0 \<subseteq> {..<length h}" by (rule reading.sem_allocated [OF reading_slice [OF reading_TargetStatus] Suc.prems(1)])
  have g: "agree_on C0 h h1" by (rule agree_on_touches [OF s1(4) a0]) (rule Suc.prems(4))
  have S1: "semTargets h1 ts = Some (vs, C0)"
    by (rule reading.sem_support [OF reading_slice [OF reading_TargetStatus] Suc.prems(1) g])
  have sep1: "dTargetStatuses (h1 ! a) = None" if "a \<in> C1" "a \<in> C0" for a
  proof -
    have "h1 ! a = h ! a" "a < length h" using g a0 that(2) by (auto simp: agree_on_def)
    with that s1(3) Suc.prems(4) avoidsD [OF tstats.sem_avoids t(2), of a] show ?thesis by auto
  qed
  from Suc.IH [OF S1 _ s1(2) sep1, of "Suc i"] Suc.prems(2) obtain s2 h2 C2 where
    s2: "hPurgeOuter grow managed ts (Suc i) k s1 h1 = Ret (s2, h2)"
      "semTargets h2 s2 = Some (purgeOuter managed (drop (Suc i) vs) (purgeInner (vs ! i) managed acc), C2)"
      "C2 \<subseteq> C1 \<union> C0 \<union> {length h1..<length h2}" "touches dTargetStatuses C1 h1 h2" by auto
  have l: "length h \<le> length h1" "length h1 \<le> length h2" using s1(4) s2(4) by (simp_all add: touches_def)
  have "touches dTargetStatuses C h h2"
  proof (rule touches_trans [OF s1(4) s2(4)])
    fix a
    assume "a \<in> C1" "a < length h" "dTargetStatuses (h ! a) \<noteq> None"
    with s1(3) avoidsD [OF tstats.sem_avoids t(2), of a] show "a \<in> C" by auto
  qed
  moreover have "C2 \<subseteq> C \<union> C0 \<union> {length h..<length h2}" using s1(3) s2(3) t(3) l by fastforce
  ultimately show ?case using t(1) s1(1) s2(1,2) unfolding d by auto
qed

subsection \<open>The status\<close>

lemma semStatus_Some:
  "semStatus h x = Some (s, A) \<longleftrightarrow>
     hst_CurrentReplicas x = st_CurrentReplicas s \<and> hst_DesiredReplicas x = st_DesiredReplicas s \<and>
     (\<exists>A1 A2 A3 A4. semPtr dInt64 semFlat h (hst_ObservedGeneration x) = Some (st_ObservedGeneration s, A1) \<and>
        semPtr dTime semFlat h (hst_LastScaleTime x) = Some (st_LastScaleTime s, A2) \<and>
        semTargets h (hst_Targets x) = Some (st_Targets s, A3) \<and>
        semConds h (hst_Conditions x) = Some (st_Conditions s, A4) \<and> A = A1 \<union> A2 \<union> A3 \<union> A4)" (is "?l \<longleftrightarrow> ?r")
proof
  assume ?l
  then show ?r
    by (auto simp: semStatus_def semStruct_Some semPair_Some semFlat_def [of h "(hst_CurrentReplicas x, hst_DesiredReplicas x)"] Un_assoc)
next
  assume ?r
  then show ?l
    by (cases s) (auto simp: semStatus_def semStruct_Some semPair_Some
        semFlat_def [of h "(hst_CurrentReplicas x, hst_DesiredReplicas x)"] Un_assoc)
qed

text \<open>A call that returns a status for \<open>s\<close>; the cells that it changes are arrays in \<open>A\<close>.\<close>

definition status_array :: "cell \<Rightarrow> unit option" where
  "status_array c = (case c of CTargetStatuses _ \<Rightarrow> Some () | CConditions _ \<Rightarrow> Some () | _ \<Rightarrow> None)"

lemma touches_status_array:
  "touches dTargetStatuses C h h' \<Longrightarrow> touches status_array C h h'" "touches dConditions C h h' \<Longrightarrow> touches status_array C h h'"
proof -
  have m: "dTargetStatuses c \<noteq> None \<Longrightarrow> status_array c \<noteq> None" "dConditions c \<noteq> None \<Longrightarrow> status_array c \<noteq> None" for c
    by (auto simp: dest_Some status_array_def)
  show "touches dTargetStatuses C h h' \<Longrightarrow> touches status_array C h h'" "touches dConditions C h h' \<Longrightarrow> touches status_array C h h'"
    unfolding touches_def using m by blast+
qed

definition status_result ::
  "addr set \<Rightarrow> cell heap \<Rightarrow> ReplicaAutoscalerStatus \<Rightarrow> (hReplicaAutoscalerStatus \<times> cell heap) exec \<Rightarrow> bool" where
  "status_result A h s r \<longleftrightarrow>
     (\<exists>y h' A'. r = Ret (y, h') \<and> semStatus h' y = Some (s, A') \<and> A' \<subseteq> A \<union> {length h..<length h'} \<and>
        touches status_array A h h')"

lemma status_resultI:
  "r = Ret (y, h') \<Longrightarrow> semStatus h' y = Some (s, A') \<Longrightarrow> A' \<subseteq> A \<union> {length h..<length h'} \<Longrightarrow> touches status_array A h h' \<Longrightarrow>
   status_result A h s r"
  unfolding status_result_def by blast

lemma reading_pointers: "reading (semPtr dInt64 semFlat)" "reading (semPtr dTime semFlat)"
  by (intro reading_ptr flat.reading_axioms)+

lemma avoids_pointers:
  "avoids (semPtr dInt64 semFlat) dTargetStatuses" "avoids (semPtr dTime semFlat) dTargetStatuses"
  "avoids (semPtr dInt64 semFlat) dConditions" "avoids (semPtr dTime semFlat) dConditions"
  "avoids semConds dTargetStatuses" "avoids semTargets dConditions"
  by (intro avoid; simp add: dest_Some; auto simp: dest_defs)+

text \<open>New target statuses, or new conditions, in a status.\<close>

lemma status_new_targets:
  assumes "semStatus h x = Some (s, A)" "semTargets h' s' = Some (ts, C')" "touches dTargetStatuses C h h'"
    and "C \<subseteq> A \<union> B" "C' \<subseteq> A \<union> B \<union> {length h..<length h'}"
  shows "status_result (A \<union> B) h (s\<lparr>st_Targets := ts\<rparr>) (Ret (x\<lparr>hst_Targets := s'\<rparr>, h'))"
proof -
  from assms(1) obtain A1 A2 A3 A4 where x: "hst_CurrentReplicas x = st_CurrentReplicas s"
    "hst_DesiredReplicas x = st_DesiredReplicas s"
    "semPtr dInt64 semFlat h (hst_ObservedGeneration x) = Some (st_ObservedGeneration s, A1)"
    "semPtr dTime semFlat h (hst_LastScaleTime x) = Some (st_LastScaleTime s, A2)"
    "semConds h (hst_Conditions x) = Some (st_Conditions s, A4)" "A = A1 \<union> A2 \<union> A3 \<union> A4" by (auto simp: semStatus_Some)
  note keep = reading.sem_touches [OF reading_pointers(1) avoids_pointers(1) x(3) assms(3)]
    reading.sem_touches [OF reading_pointers(2) avoids_pointers(2) x(4) assms(3)]
    reading.sem_touches [OF reading_slice [OF flat.reading_axioms] avoids_pointers(5) x(5) assms(3)]
  have "semStatus h' (x\<lparr>hst_Targets := s'\<rparr>) = Some (s\<lparr>st_Targets := ts\<rparr>, A1 \<union> A2 \<union> C' \<union> A4)"
    unfolding semStatus_Some using x(1,2) keep assms(2) by auto
  moreover have "A1 \<union> A2 \<union> C' \<union> A4 \<subseteq> A \<union> B \<union> {length h..<length h'}" using x(6) assms(5) by blast
  ultimately show ?thesis
    by (intro status_resultI [OF refl]) (use assms(3,4) in \<open>auto intro: touches_status_array touches_mono\<close>)
qed

lemma status_new_conditions:
  assumes "semStatus h x = Some (s, A)" "slice_result dConditions semFlat C h cs r" "C \<subseteq> A"
  shows "status_result A h (s\<lparr>st_Conditions := cs\<rparr>) (exec_bind r (\<lambda>(s', h'). Ret (x\<lparr>hst_Conditions := s'\<rparr>, h')))"
proof -
  from assms(1) obtain A1 A2 A3 A4 where x: "hst_CurrentReplicas x = st_CurrentReplicas s"
    "hst_DesiredReplicas x = st_DesiredReplicas s"
    "semPtr dInt64 semFlat h (hst_ObservedGeneration x) = Some (st_ObservedGeneration s, A1)"
    "semPtr dTime semFlat h (hst_LastScaleTime x) = Some (st_LastScaleTime s, A2)"
    "semTargets h (hst_Targets x) = Some (st_Targets s, A3)" "A = A1 \<union> A2 \<union> A3 \<union> A4" by (auto simp: semStatus_Some)
  from assms(2) obtain s' h' C' where r: "r = Ret (s', h')" "semConds h' s' = Some (cs, C')"
    "C' \<subseteq> C \<union> {length h..<length h'}" "touches dConditions C h h'" by (auto simp: slice_result_def)
  note keep = reading.sem_touches [OF reading_pointers(1) avoids_pointers(3) x(3) r(4)]
    reading.sem_touches [OF reading_pointers(2) avoids_pointers(4) x(4) r(4)]
    reading.sem_touches [OF reading_slice [OF reading_TargetStatus] avoids_pointers(6) x(5) r(4)]
  have "semStatus h' (x\<lparr>hst_Conditions := s'\<rparr>) = Some (s\<lparr>st_Conditions := cs\<rparr>, A1 \<union> A2 \<union> A3 \<union> C')"
    unfolding semStatus_Some using x(1,2) keep r(2) by auto
  moreover have "A1 \<union> A2 \<union> A3 \<union> C' \<subseteq> A \<union> {length h..<length h'}" using x(6) r(3) assms(3) by blast
  ultimately show ?thesis unfolding r(1)
    by (intro status_resultI) (use r(4) assms(3) in \<open>auto intro: touches_status_array touches_mono\<close>)
qed

lemma status_targets: "semStatus h x = Some (s, A) \<Longrightarrow> \<exists>C. semTargets h (hst_Targets x) = Some (st_Targets s, C) \<and> C \<subseteq> A"
  by (auto simp: semStatus_Some)

lemma status_conditions: "semStatus h x = Some (s, A) \<Longrightarrow> \<exists>C. semConds h (hst_Conditions x) = Some (st_Conditions s, C) \<and> C \<subseteq> A"
  by (auto simp: semStatus_Some)

lemma hSetTargetStatus_refines:
  assumes "semStatus h x = Some (s, A)" "semTargetStatus h t = Some (w, B)"
  shows "status_result (A \<union> B) h (SetTargetStatus s w) (hSetTargetStatus grow x t h)"
proof -
  from status_targets [OF assms(1)] obtain C where C: "semTargets h (hst_Targets x) = Some (st_Targets s, C)" "C \<subseteq> A" by blast
  let ?in = "ts_Target w \<in> ts_Target ` set (st_Targets s)"
  from hSetTargetLoop_refines [OF C(1), of 0 "length (st_Targets s)", OF _ assms(2)] obtain h1 C1 where
    l: "hSetTargetLoop t (hst_Targets x) 0 (slice_len (hst_Targets x)) h = Ret (?in, h1)"
      "semTargets h1 (hst_Targets x) = Some (if ?in then setTargetLoop w (st_Targets s) else st_Targets s, C1)"
      "C1 \<subseteq> C \<union> B" "length h1 = length h" "touches dTargetStatuses C h h1"
    by (auto simp: tstats.slice_len [OF C(1)])
  show ?thesis
  proof (cases ?in)
    case True
    have c1: "C \<subseteq> A \<union> B" "C1 \<subseteq> A \<union> B \<union> {length h..<length h1}" using C(2) l(3) by auto
    from True l(2) have "semTargets h1 (hst_Targets x) = Some (setTargetLoop w (st_Targets s), C1)" by simp
    from status_new_targets [OF assms(1) this l(5) c1] show ?thesis
      using True l(1) by (simp add: hSetTargetStatus_def SetTargetStatus_def)
  next
    case False
    have b: "semTargetStatus h1 t = Some (w, B)" by (rule tstats.sem_touches [OF tstats.sem_avoids assms(2) l(5)])
    from False l(2) have "semTargets h1 (hst_Targets x) = Some (st_Targets s, C1)" by simp
    from tstats.slice_append_one [OF this b, of grow] obtain s2 h2 C2 where
      a: "slice_append grow CTargetStatuses dTargetStatuses zeroTargetStatus (hst_Targets x) [t] h1 = Ret (s2, h2)"
        "semTargets h2 s2 = Some (st_Targets s @ [w], C2)" "C2 \<subseteq> C1 \<union> B \<union> {length h1..<length h2}"
        "touches dTargetStatuses C1 h1 h2" by blast
    have "touches dTargetStatuses (C \<union> B) h h2"
      by (rule touches_trans [OF touches_mono [OF l(5)] a(4)]) (use l(3) in auto)
    moreover have "C \<union> B \<subseteq> A \<union> B" "C2 \<subseteq> A \<union> B \<union> {length h..<length h2}" using C(2) l(3,4) a(3) by auto
    ultimately have "status_result (A \<union> B) h (s\<lparr>st_Targets := st_Targets s @ [w]\<rparr>) (Ret (x\<lparr>hst_Targets := s2\<rparr>, h2))"
      by (rule status_new_targets [OF assms(1) a(2)])
    with False l(1) a(1) show ?thesis
      by (simp add: hSetTargetStatus_def SetTargetStatus_def setTargetLoop_missing)
  qed
qed

lemma hPurgeTargetStatus_refines:
  assumes "semStatus h x = Some (s, A)"
  shows "status_result A h (PurgeTargetStatus managed s) (hPurgeTargetStatus grow managed x h)"
proof -
  from status_targets [OF assms] obtain C where C: "semTargets h (hst_Targets x) = Some (st_Targets s, C)" "C \<subseteq> A" by blast
  have "semTargets h None = Some ([], {})" by (simp add: semSlice_None)
  from hPurgeOuter_refines [OF C(1) _ this, of 0 "length (st_Targets s)" grow managed] obtain s' h' C' where
    r: "hPurgeOuter grow managed (hst_Targets x) 0 (slice_len (hst_Targets x)) None h = Ret (s', h')"
      "semTargets h' s' = Some (purgeOuter managed (st_Targets s) [], C')" "C' \<subseteq> C \<union> {length h..<length h'}"
      "touches dTargetStatuses {} h h'"
    by (auto simp: tstats.slice_len [OF C(1)])
  have "{} \<subseteq> A \<union> {}" "C' \<subseteq> A \<union> {} \<union> {length h..<length h'}" using C(2) r(3) by auto
  from status_new_targets [OF assms r(2,4) this] r(1) show ?thesis
    by (simp add: hPurgeTargetStatus_def PurgeTargetStatus_def)
qed

text \<open>\<^verbatim>\<open>GetTargetStatus\<close> finds what the value model finds, and what it returns shares no memory with the status.\<close>

lemma hGetTargetLoop_refines:
  assumes "lib_deep L" "semTargets h s = Some (vs, C)" "i + k = length vs"
  shows "\<exists>p t B. hGetTargetLoop L target s i k h =
       Ret ((p, find (\<lambda>t. ts_Target t = target) (drop i vs) \<noteq> None), h @ t) \<and>
     semPtr dTargetStatus semTargetStatus (h @ t) p = Some (find (\<lambda>t. ts_Target t = target) (drop i vs), B) \<and>
     B \<subseteq> fresh_in h (h @ t)"
  using assms(3)
proof (induction k arbitrary: i)
  case 0
  then show ?case by (intro exI [of _ None] exI [of _ "[]"] exI [of _ "{}"]) (simp add: semPtr_None)
next
  case (Suc k)
  then have i: "i < length vs" by simp
  have d: "drop i vs = vs ! i # drop (Suc i) vs" using i by (simp add: Cons_nth_drop_Suc)
  from targets_get [OF assms(2) i] obtain x B where x: "slice_get dTargetStatuses s i h = Ret x"
    "semTargetStatus h x = Some (vs ! i, B)" "hts_Target x = ts_Target (vs ! i)" by blast
  show ?case
  proof (cases "ts_Target (vs ! i) = target")
    case False
    with Suc.IH [of "Suc i"] Suc.prems x d show ?thesis by simp
  next
    case True
    have "semPtr dTargetStatus semTargetStatus (h @ [CTargetStatus x]) (Some (length h)) = Some (Some (vs ! i), insert (length h) B)"
      by (simp add: semPtr_Some tstats.sem_append [OF x(2)])
    from deep_copier.copy_deep [OF deep_pointers(8) [OF assms(1)] this] obtain p t D where
      "TargetStatus_DeepCopy L (Some (length h)) (h @ [CTargetStatus x]) = Ret (p, h @ CTargetStatus x # t)"
      "semPtr dTargetStatus semTargetStatus (h @ CTargetStatus x # t) p = Some (Some (vs ! i), D)"
      "D \<subseteq> fresh_in h (h @ CTargetStatus x # t)"
      by (fastforce simp: fresh_in_def)
    with True x show ?thesis unfolding d
      by (intro exI [of _ p] exI [of _ "CTargetStatus x # t"] exI [of _ D]) (simp add: alloc_def)
  qed
qed


text \<open>Deleting shifts the array under every other slice over it.\<close>

lemma delete_shifts_shared_array:
  "hDeleteCondition grow (Some (0, 2)) ConditionReady
     [CConditions [mkCondition ConditionReady ConditionTrue [] [], mkCondition ConditionPanicMode ConditionFalse [] []]] =
   Ret (Some (0, 1),
     [CConditions [mkCondition ConditionPanicMode ConditionFalse [] [], mkCondition ConditionPanicMode ConditionFalse [] []]])"
  by (simp add: hDeleteCondition_def hInitIfEmpty_def slice_len_def slice_get_def hRemoveAt_def slice_append_def load_def
      cell_at_def store_def Let_def numeral_2_eq_2)

subsection \<open>The operations in memory\<close>

text \<open>
  (C19) \<^verbatim>\<open>SetCondition\<close>, \<^verbatim>\<open>DeleteCondition\<close> and \<^verbatim>\<open>GetCondition\<close> run on a slice of conditions without a panic and
  refine the functions of the value model: the slice that they return stands for the list that the model returns, it is read
  through the old memory of the slice or through new memory, and the only old cell that changes is the array of the slice. This holds
  whatever room the array had and however much a new one gets; \<^verbatim>\<open>GetCondition\<close> leaves the slice with its value.
\<close>

theorem conditions_in_memory:
  assumes "semConds h s = Some (vs, C)"
  shows "slice_result dConditions semFlat C h (SetCondition now vs c) (hSetCondition grow now s c h) \<and>
     slice_result dConditions semFlat C h (DeleteCondition vs ty) (hDeleteCondition grow s ty h) \<and>
     (\<exists>h'. hGetCondition grow s ty h = Ret (GetCondition vs ty, h') \<and> semConds h' s = Some (vs, C))"
  using hSetCondition_refines [OF assms] hDeleteCondition_refines [OF assms] hGetCondition_refines [OF assms] by blast

lemma conditions_in_memory_witness:
  "semConds [CConditions [mkCondition ConditionReady ConditionTrue [] [], zeroCondition]] (Some (0, 1)) =
     Some ([mkCondition ConditionReady ConditionTrue [] []], {0}) \<and>
   slice_result dConditions semFlat {0} [CConditions [mkCondition ConditionReady ConditionTrue [] [], zeroCondition]]
     (SetCondition 7 [mkCondition ConditionReady ConditionTrue [] []] (mkCondition ConditionPanicMode ConditionTrue [] []))
     (hSetCondition (\<lambda>n. n) 7 (Some (0, 1)) (mkCondition ConditionPanicMode ConditionTrue [] [])
       [CConditions [mkCondition ConditionReady ConditionTrue [] [], zeroCondition]])"
proof -
  have "semConds [CConditions [mkCondition ConditionReady ConditionTrue [] [], zeroCondition]] (Some (0, 1)) =
     Some ([mkCondition ConditionReady ConditionTrue [] []], {0})"
    by (simp add: semSlice_def cell_at_def semFlat_def)
  with conditions_in_memory [OF this] show ?thesis by blast
qed

text \<open>
  \<^verbatim>\<open>GetTargetStatus\<close> returns a pointer to what the value model finds, or nil with \<^verbatim>\<open>false\<close>; it changes no existing memory, and what
  it returns shares no cell with the status, so that a scaler that keeps or changes it does not change the status.
\<close>

theorem GetTargetStatus_own_memory:
  assumes "lib_deep L" "semStatus h x = Some (s, A)"
  shows "\<exists>p t B. hGetTargetStatus L x target h = Ret ((p, GetTargetStatus s target \<noteq> None), h @ t) \<and>
     semPtr dTargetStatus semTargetStatus (h @ t) p = Some (GetTargetStatus s target, B) \<and> A \<inter> B = {}"
proof -
  from status_targets [OF assms(2)] obtain C where C: "semTargets h (hst_Targets x) = Some (st_Targets s, C)" by blast
  have "A \<subseteq> {..<length h}"
  proof -
    have "reading semStatus" unfolding semStatus_def
      by (intro reading_struct reading_pair reading_ptr reading_slice flat.reading_axioms reading_TargetStatus)
    from reading.sem_allocated [OF this assms(2)] show ?thesis .
  qed
  note A = fresh_disjoint [OF this]
  from hGetTargetLoop_refines [OF assms(1) C, of 0 "length (st_Targets s)" target] obtain p t B where
    "hGetTargetStatus L x target h = Ret ((p, GetTargetStatus s target \<noteq> None), h @ t)"
    "semPtr dTargetStatus semTargetStatus (h @ t) p = Some (GetTargetStatus s target, B)" "B \<subseteq> fresh_in h (h @ t)"
    by (auto simp: hGetTargetStatus_def GetTargetStatus_def tstats.slice_len [OF C])
  with A [of "h @ t"] show ?thesis by blast
qed

lemma GetTargetStatus_own_memory_witness:
  "\<exists>p t B. hGetTargetStatus sampleCopies (zeroHStatus\<lparr>hst_Targets := Some (7, 1)\<rparr>) ''cpu'' sampleHeap = Ret ((p, True), sampleHeap @ t) \<and>
     semPtr dTargetStatus semTargetStatus (sampleHeap @ t) p = Some (Some (st_Targets (ra_Status sampleValue) ! 0), B) \<and> {6, 7} \<inter> B = {}"
proof -
  have "semStatus sampleHeap (zeroHStatus\<lparr>hst_Targets := Some (7, 1)\<rparr>) =
      Some (zeroStatus\<lparr>st_Targets := st_Targets (ra_Status sampleValue)\<rparr>, {7, 6})"
    by (simp add: sem_defs sample_defs zeroStatus_def)
  from GetTargetStatus_own_memory [OF lib_deep_sample this, of "''cpu''"] show ?thesis
    by (simp add: GetTargetStatus_def sampleValue_def insert_commute)
qed

end
