(* ===== verification/Controller_Heap.thy ===== *)
theory Controller_Heap
  imports Status_Heap
begin

text \<open>
  The memory of one \<^verbatim>\<open>Reconcile\<close> (\<^verbatim>\<open>controllers/replicaautoscaler_controller.go\<close>). The value model of
  \<open>Reconciler\<close> treats the object that is worked on, the object as observed and the base of the patch as three values; in the
  program they are structs in one memory, with slices, a map and pointers that could be shared, and one of the pointers
  leads back into the object (\<^verbatim>\<open>ObservedGeneration\<close>).

  Shown: every write of a reconciliation to its object is the write of the value model and stays within the memory of the object;
  the observed copy keeps its value throughout; and the patch is prepared as the value model says.
\<close>

subsection \<open>Writes to the object\<close>

text \<open>The ways in which \<^verbatim>\<open>Reconcile\<close> writes to the object that it has read: the conditions, the target statuses of the
  scalers (with the quantities of the metric in new memory) and their purge, the four other fields of the status, and the
  annotation of the replica patches.\<close>

datatype object_op =
    OpSetCondition Time Condition
  | OpSetTarget TargetStatus
  | OpPurgeTargets "string list"
  | OpObservedGeneration
  | OpCurrentReplicas int
  | OpDesiredReplicas int
  | OpLastScaleTime Time
  | OpSetAnnotation string string
  | OpDeleteAnnotation string

text \<open>On values, as in \<open>Reconciler\<close>.\<close>

fun objectOp :: "object_op \<Rightarrow> ReplicaAutoscaler \<Rightarrow> ReplicaAutoscaler" where
  "objectOp (OpSetCondition now c) ra =
     ra\<lparr>ra_Status := (ra_Status ra)\<lparr>st_Conditions := SetCondition now (st_Conditions (ra_Status ra)) c\<rparr>\<rparr>"
| "objectOp (OpSetTarget t) ra = ra\<lparr>ra_Status := SetTargetStatus (ra_Status ra) t\<rparr>"
| "objectOp (OpPurgeTargets managed) ra = ra\<lparr>ra_Status := PurgeTargetStatus managed (ra_Status ra)\<rparr>"
| "objectOp OpObservedGeneration ra =
     ra\<lparr>ra_Status := (ra_Status ra)\<lparr>st_ObservedGeneration := Some (ra_Generation ra)\<rparr>\<rparr>"
| "objectOp (OpCurrentReplicas n) ra = ra\<lparr>ra_Status := (ra_Status ra)\<lparr>st_CurrentReplicas := n\<rparr>\<rparr>"
| "objectOp (OpDesiredReplicas n) ra = ra\<lparr>ra_Status := (ra_Status ra)\<lparr>st_DesiredReplicas := n\<rparr>\<rparr>"
| "objectOp (OpLastScaleTime t) ra = ra\<lparr>ra_Status := (ra_Status ra)\<lparr>st_LastScaleTime := Some t\<rparr>\<rparr>"
| "objectOp (OpSetAnnotation k v) ra = ra\<lparr>ra_Annotations := fmupd k v (ra_Annotations ra)\<rparr>"
| "objectOp (OpDeleteAnnotation k) ra = ra\<lparr>ra_Annotations := fmdrop k (ra_Annotations ra)\<rparr>"

text \<open>\<^verbatim>\<open>PurgeUnusedReplicaPatches\<close> writes the annotation only after it has found it.\<close>

fun op_ok :: "object_op \<Rightarrow> ReplicaAutoscaler \<Rightarrow> bool" where
  "op_ok (OpSetAnnotation k v) ra \<longleftrightarrow> k |\<in>| fmdom (ra_Annotations ra)"
| "op_ok _ ra \<longleftrightarrow> True"

fun ops_ok :: "object_op list \<Rightarrow> ReplicaAutoscaler \<Rightarrow> bool" where
  "ops_ok [] ra \<longleftrightarrow> True"
| "ops_ok (op # ops) ra \<longleftrightarrow> op_ok op ra \<and> ops_ok ops (objectOp op ra)"

subsection \<open>The same on memory\<close>

definition hNewPtr :: "('a \<Rightarrow> cell) \<Rightarrow> 'a option \<Rightarrow> cell heap \<Rightarrow> pointer \<times> cell heap" where
  "hNewPtr mk v h = (case v of None \<Rightarrow> (None, h) | Some x \<Rightarrow> (let (b, h1) = alloc (mk x) h in (Some b, h1)))"

definition hNewTargetStatus :: "TargetStatus \<Rightarrow> cell heap \<Rightarrow> hTargetStatus \<times> cell heap" where
  "hNewTargetStatus v h =
     (let (val, h) = hNewPtr CQuantity (mt_Value (ts_Metric v)) h;
          (av, h) = hNewPtr CQuantity (mt_AverageValue (ts_Metric v)) h;
          (au, h) = hNewPtr CInt32 (mt_AverageUtilization (ts_Metric v)) h
      in (\<lparr>hts_Target = ts_Target v, hts_Scaler = ts_Scaler v, hts_DesiredReplicas = ts_DesiredReplicas v,
           hts_Metric = \<lparr>hmt_Type = mt_Type (ts_Metric v), hmt_Value = val, hmt_AverageValue = av,
                         hmt_AverageUtilization = au\<rparr>\<rparr>, h))"

text \<open>The new status of the object at \<open>p\<close>, whose cell holds \<open>x\<close>.\<close>

fun hStatusOp ::
  "(nat \<Rightarrow> nat) \<Rightarrow> object_op \<Rightarrow> addr \<Rightarrow> hReplicaAutoscalerStatus \<Rightarrow> cell heap \<Rightarrow> (hReplicaAutoscalerStatus \<times> cell heap) exec"
  where
  "hStatusOp grow (OpSetCondition now c) p st h =
     exec_bind (hSetCondition grow now (hst_Conditions st) c h) (\<lambda>(s, h). Ret (st\<lparr>hst_Conditions := s\<rparr>, h))"
| "hStatusOp grow (OpSetTarget v) p st h = (let (t, h) = hNewTargetStatus v h in hSetTargetStatus grow st t h)"
| "hStatusOp grow (OpPurgeTargets managed) p st h = hPurgeTargetStatus grow managed st h"
| "hStatusOp grow OpObservedGeneration p st h = Ret (st\<lparr>hst_ObservedGeneration := Some p\<rparr>, h)"
| "hStatusOp grow (OpCurrentReplicas n) p st h = Ret (st\<lparr>hst_CurrentReplicas := n\<rparr>, h)"
| "hStatusOp grow (OpDesiredReplicas n) p st h = Ret (st\<lparr>hst_DesiredReplicas := n\<rparr>, h)"
| "hStatusOp grow (OpLastScaleTime t) p st h = (let (b, h) = alloc (CTime t) h in Ret (st\<lparr>hst_LastScaleTime := Some b\<rparr>, h))"
| "hStatusOp grow (OpSetAnnotation k v) p st h = Ret (st, h)"
| "hStatusOp grow (OpDeleteAnnotation k) p st h = Ret (st, h)"

text \<open>Assignment to an entry of a nil map panics, \<^verbatim>\<open>delete\<close> on one does nothing.\<close>

fun hMapOp :: "object_op \<Rightarrow> pointer \<Rightarrow> cell heap \<Rightarrow> cell heap exec" where
  "hMapOp (OpSetAnnotation k v) m h =
     (case m of
        None \<Rightarrow> Panic ''assignment to entry in nil map''
      | Some a \<Rightarrow> exec_bind (load dMap a h) (\<lambda>f. Ret (store a (CMap (fmupd k v f)) h)))"
| "hMapOp (OpDeleteAnnotation k) m h =
     (case m of
        None \<Rightarrow> Ret h
      | Some a \<Rightarrow> exec_bind (load dMap a h) (\<lambda>f. Ret (store a (CMap (fmdrop k f)) h)))"
| "hMapOp _ m h = Ret h"

definition hObjectOp :: "(nat \<Rightarrow> nat) \<Rightarrow> object_op \<Rightarrow> addr \<Rightarrow> cell heap \<Rightarrow> cell heap exec" where
  "hObjectOp grow op p h =
     exec_bind (load dReplicaAutoscaler p h) (\<lambda>x.
     exec_bind (hMapOp op (hom_Annotations (hra_ObjectMeta x)) h) (\<lambda>h.
     exec_bind (hStatusOp grow op p (hra_Status x) h) (\<lambda>(st, h).
     Ret (store p (CReplicaAutoscaler (x\<lparr>hra_Status := st\<rparr>)) h))))"

fun hRun :: "(nat \<Rightarrow> nat) \<Rightarrow> object_op list \<Rightarrow> addr \<Rightarrow> cell heap \<Rightarrow> cell heap exec" where
  "hRun grow [] p h = Ret h"
| "hRun grow (op # ops) p h = exec_bind (hObjectOp grow op p h) (\<lambda>h. hRun grow ops p h)"

subsection \<open>The patch\<close>

text \<open>\<^verbatim>\<open>for k, v := range replicaAutoscaler.Annotations { observedAutoscaler.Annotations[k] = v }\<close>; the order in which a
  map is ranged over is not specified, and is the list of keys here.\<close>

fun hCopyMap :: "string list \<Rightarrow> (string, string) fmap \<Rightarrow> addr \<Rightarrow> cell heap \<Rightarrow> cell heap exec" where
  "hCopyMap [] f m h = Ret h"
| "hCopyMap (k # ks) f m h =
     (case fmlookup f k of
        None \<Rightarrow> hCopyMap ks f m h
      | Some v \<Rightarrow> exec_bind (load dMap m h) (\<lambda>g. hCopyMap ks f m (store m (CMap (fmupd k v g)) h)))"

definition hLoadMap :: "pointer \<Rightarrow> cell heap \<Rightarrow> (string, string) fmap exec" where
  "hLoadMap m h = (case m of None \<Rightarrow> Ret fmempty | Some a \<Rightarrow> load dMap a h)"

text \<open>The base of the patch and the new contents of the observed object, in \<^verbatim>\<open>updateAutoscalerIfNeeded\<close>.\<close>

definition hUpdateObserved ::
  "deepcopy_lib \<Rightarrow> ((string, string) fmap \<Rightarrow> string list) \<Rightarrow> addr \<Rightarrow> addr \<Rightarrow> cell heap \<Rightarrow> (pointer \<times> cell heap) exec" where
  "hUpdateObserved L order q p h =
     exec_bind (ReplicaAutoscaler_DeepCopy L (Some q) h) (\<lambda>(base, h).
     let (m, h) = alloc (CMap fmempty) h in
     exec_bind (load dReplicaAutoscaler q h) (\<lambda>o1.
     let h = store q (CReplicaAutoscaler (o1\<lparr>hra_ObjectMeta := (hra_ObjectMeta o1)\<lparr>hom_Annotations := Some m\<rparr>\<rparr>)) h in
     exec_bind (load dReplicaAutoscaler p h) (\<lambda>x.
     exec_bind (hLoadMap (hom_Annotations (hra_ObjectMeta x)) h) (\<lambda>f.
     exec_bind (hCopyMap (order f) f m h) (\<lambda>h.
     exec_bind (load dReplicaAutoscaler p h) (\<lambda>x2.
     exec_bind (load dReplicaAutoscaler q h) (\<lambda>o2.
     Ret (base, store q (CReplicaAutoscaler (o2\<lparr>hra_Status := hra_Status x2\<rparr>)) h))))))))"

subsection \<open>What the cells of an object are read through\<close>

abbreviation semObject :: "(cell, pointer, (TypeMeta \<times> ReplicaAutoscaler) option) reader" where
  "semObject \<equiv> semPtr dReplicaAutoscaler semReplicaAutoscaler"

lemma readings:
  "reading semObjectMeta" "reading semSpec" "reading semStatus" "reading semReplicaAutoscaler" "reading semObject"
proof -
  show m: "reading semObjectMeta" unfolding semObjectMeta_def semMap_def
    by (intro reading_struct reading_pair reading_ptr flat.reading_axioms)
  show s: "reading semSpec" unfolding semSpec_def semTarget_def semTargetSettings_def semSchedule_def semRawExtension_def
      semStrategy_def semExhaust_def
    by (intro reading_struct reading_pair reading_ptr reading_slice flat.reading_axioms)
  show t: "reading semStatus" unfolding semStatus_def
    by (intro reading_struct reading_pair reading_ptr reading_slice flat.reading_axioms reading_TargetStatus)
  show r: "reading semReplicaAutoscaler" unfolding semReplicaAutoscaler_def
    by (intro reading_struct reading_pair flat.reading_axioms m s t)
  show "reading semObject" by (rule reading_ptr [OF r])
qed

lemma avoids_Spec:
  "avoids semSpec status_array" "avoids semSpec dMap" "avoids semSpec dReplicaAutoscaler"
  unfolding semSpec_def semTarget_def semTargetSettings_def semSchedule_def semRawExtension_def semStrategy_def semExhaust_def
  by (intro avoid; simp add: dest_Some; simp add: dest_defs status_array_def)+

lemma avoids_ObjectMeta: "avoids semObjectMeta status_array" "avoids semObjectMeta dReplicaAutoscaler"
  unfolding semObjectMeta_def semMap_def
  by (intro avoid; simp add: dest_Some; simp add: dest_defs status_array_def)+

lemma avoids_Status: "avoids semStatus dMap"
  unfolding semStatus_def semTargetStatus_def semMetricTarget_def
  by (intro avoid; simp add: dest_Some; auto simp: dest_defs)+

lemma avoids_Status_parts:
  "avoids (semPtr dTime semFlat) dReplicaAutoscaler" "avoids semTargets dReplicaAutoscaler" "avoids semConds dReplicaAutoscaler"
  unfolding semTargetStatus_def semMetricTarget_def
  by (intro avoid; simp add: dest_Some; simp add: dest_defs)+

lemma semObject_Some:
  "semObject h (Some p) = Some (Some (tm, ra), A) \<longleftrightarrow>
     (\<exists>x Am As At. cell_at dReplicaAutoscaler h p = Some x \<and> hra_TypeMeta x = tm \<and>
        semObjectMeta h (hra_ObjectMeta x) =
          Some (((ra_Name ra, ra_Namespace ra, ra_Generation ra), ra_DeletionTimestamp ra, ra_Annotations ra), Am) \<and>
        semSpec h (hra_Spec x) = Some (ra_Spec ra, As) \<and> semStatus h (hra_Status x) = Some (ra_Status ra, At) \<and>
        A = insert p (Am \<union> As \<union> At))" (is "?l \<longleftrightarrow> ?r")
proof
  assume ?l
  then show ?r
    by (auto simp: semPtr_Some semReplicaAutoscaler_def semStruct_Some semPair_Some object_value_def
        semFlat_def [of h "hra_TypeMeta _"] Un_assoc split: prod.splits)
next
  assume ?r
  then show ?l
    by (cases ra) (auto simp: semPtr_Some semReplicaAutoscaler_def semStruct_Some semPair_Some object_value_def
        semFlat_def [of h "hra_TypeMeta _"] Un_assoc split: prod.splits)
qed

text \<open>A pointer to the generation of an object sees no change of its status.\<close>

lemma generation_store:
  assumes "semPtr dInt64 semFlat h a = Some (v, A)" "cell_at dReplicaAutoscaler h p = Some x"
    "hra_ObjectMeta x' = hra_ObjectMeta x"
  shows "semPtr dInt64 semFlat (store p (CReplicaAutoscaler x') h) a = Some (v, A)"
  using assms
  by (cases a) (auto simp: semPtr_None semPtr_Some semFlat_def cell_at_def store_def nth_list_update dest_defs split: if_splits cell.splits)

lemma status_store:
  assumes "semStatus h st = Some (s, A)" "cell_at dReplicaAutoscaler h p = Some x" "hra_ObjectMeta x' = hra_ObjectMeta x"
  shows "semStatus (store p (CReplicaAutoscaler x') h) st = Some (s, A)"
proof -
  have t: "touches dReplicaAutoscaler {p} h (store p (CReplicaAutoscaler x') h)" by (rule touches_store [OF assms(2)]) simp
  from assms(1) show ?thesis
    unfolding semStatus_Some
    using generation_store [OF _ assms(2,3)]
      reading.sem_touches [OF reading_pointers(2) avoids_Status_parts(1) _ t]
      reading.sem_touches [OF reading_slice [OF reading_TargetStatus] avoids_Status_parts(2) _ t]
      reading.sem_touches [OF reading_slice [OF flat.reading_axioms] avoids_Status_parts(3) _ t]
    by blast
qed

subsection \<open>Every write is that of the value model\<close>

definition object_result :: "addr set \<Rightarrow> addr \<Rightarrow> cell heap \<Rightarrow> TypeMeta \<times> ReplicaAutoscaler \<Rightarrow> cell heap exec \<Rightarrow> bool" where
  "object_result A p h v r \<longleftrightarrow>
     (\<exists>h' A'. r = Ret h' \<and> semObject h' (Some p) = Some (Some v, A') \<and> A' \<subseteq> A \<union> {length h..<length h'} \<and> touches Some A h h')"

lemma touches_weaken: "touches dest A h h' \<Longrightarrow> touches Some A h h'"
  by (simp add: touches_def)

lemma status_result_append:
  assumes "status_result D (h @ t) s r" "D \<subseteq> A \<union> fresh_in h (h @ t)"
  shows "status_result A h s r"
proof -
  from assms(1) obtain y h' A' where r: "r = Ret (y, h')" "semStatus h' y = Some (s, A')"
    "A' \<subseteq> D \<union> {length (h @ t)..<length h'}" "touches status_array D (h @ t) h'" unfolding status_result_def by blast
  have "length (h @ t) \<le> length h'" using r(4) by (simp add: touches_def)
  then have "A' \<subseteq> A \<union> {length h..<length h'}" using r(3) assms(2) by (fastforce simp: fresh_in_def)
  moreover have "touches status_array A h h'"
    by (rule touches_trans [OF touches_append r(4)]) (use assms(2) in \<open>auto simp: fresh_in_def\<close>)
  ultimately show ?thesis using r(1,2) by (intro status_resultI)
qed

lemma status_result_mono: "status_result A h s r \<Longrightarrow> A \<subseteq> D \<Longrightarrow> status_result D h s r"
  using status_result_append [of A h "[]" s r D] by auto

lemma object_new_status:
  assumes "semObject h (Some p) = Some (Some (tm, ra), A)" "cell_at dReplicaAutoscaler h p = Some x" "status_result A h s r"
  shows "object_result A p h (tm, ra\<lparr>ra_Status := s\<rparr>)
     (exec_bind r (\<lambda>(st, h). Ret (store p (CReplicaAutoscaler (x\<lparr>hra_Status := st\<rparr>)) h)))"
proof -
  from assms(1,2) obtain Am As At where x: "hra_TypeMeta x = tm"
    "semObjectMeta h (hra_ObjectMeta x) =
       Some (((ra_Name ra, ra_Namespace ra, ra_Generation ra), ra_DeletionTimestamp ra, ra_Annotations ra), Am)"
    "semSpec h (hra_Spec x) = Some (ra_Spec ra, As)" "A = insert p (Am \<union> As \<union> At)" by (auto simp: semObject_Some)
  from assms(3) obtain st h1 A1 where r: "r = Ret (st, h1)" "semStatus h1 st = Some (s, A1)"
    "A1 \<subseteq> A \<union> {length h..<length h1}" "touches status_array A h h1" unfolding status_result_def by blast
  define h2 where "h2 = store p (CReplicaAutoscaler (x\<lparr>hra_Status := st\<rparr>)) h1"
  have c: "h ! p = CReplicaAutoscaler x" "p < length h" using assms(2) by (auto simp: cell_at_def dest_Some split: if_splits)
  have "h1 ! p = h ! p" using r(4) c by (auto simp: touches_def status_array_def)
  then have c1: "cell_at dReplicaAutoscaler h1 p = Some x" using c r(4) by (simp add: cell_at_def touches_def)
  have t: "touches dReplicaAutoscaler {p} h1 h2" unfolding h2_def by (rule touches_store [OF c1]) simp
  note keep = reading.sem_touches [OF readings(1) avoids_ObjectMeta(2) reading.sem_touches [OF readings(1) avoids_ObjectMeta(1) x(2) r(4)] t]
    reading.sem_touches [OF readings(2) avoids_Spec(3) reading.sem_touches [OF readings(2) avoids_Spec(1) x(3) r(4)] t]
  have st: "semStatus h2 st = Some (s, A1)" unfolding h2_def by (rule status_store [OF r(2) c1]) simp
  have c2: "cell_at dReplicaAutoscaler h2 p = Some (x\<lparr>hra_Status := st\<rparr>)"
    using cell_at_lt [OF c1] by (simp add: h2_def cell_at_def store_def)
  have "semObject h2 (Some p) = Some (Some (tm, ra\<lparr>ra_Status := s\<rparr>), insert p (Am \<union> As \<union> A1))"
    unfolding semObject_Some using c2 keep st x(1) by auto
  moreover have "insert p (Am \<union> As \<union> A1) \<subseteq> A \<union> {length h..<length h2}" using x(4) r(3) by (auto simp: h2_def)
  moreover have "touches Some A h h2"
    by (rule touches_trans [OF touches_weaken [OF r(4)] touches_weaken [OF t]]) (use x(4) in auto)
  moreover have "exec_bind r (\<lambda>(st, h). Ret (store p (CReplicaAutoscaler (x\<lparr>hra_Status := st\<rparr>)) h)) = Ret h2"
    by (simp add: r(1) h2_def)
  ultimately show ?thesis unfolding object_result_def by blast
qed

lemma hNewPtr_sem:
  assumes "\<And>x. dest (mk x) = Some x"
  shows "\<exists>p t B. hNewPtr mk v h = (p, h @ t) \<and> semPtr dest semFlat (h @ t) p = Some (v, B) \<and> B \<subseteq> fresh_in h (h @ t)"
proof (cases v)
  case None
  then show ?thesis by (simp add: hNewPtr_def semPtr_None)
next
  case (Some x)
  then show ?thesis
    by (intro exI [of _ "Some (length h)"] exI [of _ "[mk x]"] exI [of _ "{length h}"])
      (simp add: hNewPtr_def alloc_def semPtr_Some semFlat_def fresh_in_def assms)
qed

lemma reading_flat_ptr: "reading (semPtr dest semFlat)"
  by (intro reading_ptr flat.reading_axioms)

lemma hNewTargetStatus_sem:
  "\<exists>x t B. hNewTargetStatus v h = (x, h @ t) \<and> semTargetStatus (h @ t) x = Some (v, B) \<and> B \<subseteq> fresh_in h (h @ t)"
proof -
  obtain p1 t1 B1 where 1: "hNewPtr CQuantity (mt_Value (ts_Metric v)) h = (p1, h @ t1)"
    "semPtr dQuantity semFlat (h @ t1) p1 = Some (mt_Value (ts_Metric v), B1)" "B1 \<subseteq> fresh_in h (h @ t1)"
    using hNewPtr_sem [of dQuantity CQuantity, OF dest_mk(5)] by blast
  obtain p2 t2 B2 where 2: "hNewPtr CQuantity (mt_AverageValue (ts_Metric v)) (h @ t1) = (p2, (h @ t1) @ t2)"
    "semPtr dQuantity semFlat ((h @ t1) @ t2) p2 = Some (mt_AverageValue (ts_Metric v), B2)"
    "B2 \<subseteq> fresh_in (h @ t1) ((h @ t1) @ t2)" using hNewPtr_sem [of dQuantity CQuantity _ "h @ t1"] by (metis dest_mk(5))
  obtain p3 t3 B3 where 3: "hNewPtr CInt32 (mt_AverageUtilization (ts_Metric v)) ((h @ t1) @ t2) = (p3, ((h @ t1) @ t2) @ t3)"
    "semPtr dInt32 semFlat (((h @ t1) @ t2) @ t3) p3 = Some (mt_AverageUtilization (ts_Metric v), B3)"
    "B3 \<subseteq> fresh_in ((h @ t1) @ t2) (((h @ t1) @ t2) @ t3)"
    using hNewPtr_sem [of dInt32 CInt32 _ "(h @ t1) @ t2"] by (metis dest_mk(2))
  note k1 = reading.sem_append [OF reading_flat_ptr reading.sem_append [OF reading_flat_ptr 1(2)], of t2 t3]
  note k2 = reading.sem_append [OF reading_flat_ptr 2(2), of t3]
  define x where "x = \<lparr>hts_Target = ts_Target v, hts_Scaler = ts_Scaler v, hts_DesiredReplicas = ts_DesiredReplicas v,
    hts_Metric = \<lparr>hmt_Type = mt_Type (ts_Metric v), hmt_Value = p1, hmt_AverageValue = p2, hmt_AverageUtilization = p3\<rparr>\<rparr>"
  have "semMetricTarget (((h @ t1) @ t2) @ t3) (hts_Metric x) = Some (ts_Metric v, B1 \<union> (B2 \<union> B3))"
    using k1 k2 3(2) unfolding semMetricTarget_def x_def
    by (cases "ts_Metric v") (simp add: semStruct_Some semPair_Some semFlat_def [of _ "_ :: string"])
  then have "semTargetStatus (((h @ t1) @ t2) @ t3) x = Some (v, B1 \<union> (B2 \<union> B3))"
    unfolding semTargetStatus_def semStruct_Some semPair_Some by (cases v) (simp add: x_def semFlat_def)
  moreover have "hNewTargetStatus v h = (x, ((h @ t1) @ t2) @ t3)"
    unfolding hNewTargetStatus_def x_def 1(1) 2(1) 3(1) by (simp add: 2(1) 3(1) Let_def del: append_assoc)
  moreover have "B1 \<union> (B2 \<union> B3) \<subseteq> fresh_in h (((h @ t1) @ t2) @ t3)"
    using 1(3) 2(3) 3(3) by (fastforce simp: fresh_in_def)
  ultimately show ?thesis unfolding append_assoc by blast
qed

text \<open>The writes to the fields of a status, one by one.\<close>

lemma status_condition_op:
  assumes "semStatus h st = Some (s, A)"
  shows "status_result A h (s\<lparr>st_Conditions := SetCondition now (st_Conditions s) c\<rparr>) (hStatusOp grow (OpSetCondition now c) p st h)"
proof -
  from status_conditions [OF assms] obtain C where C: "semConds h (hst_Conditions st) = Some (st_Conditions s, C)" "C \<subseteq> A" by blast
  from status_new_conditions [OF assms hSetCondition_refines [OF C(1)] C(2)] show ?thesis by simp
qed

lemma status_target_op:
  assumes "semStatus h st = Some (s, A)"
  shows "status_result A h (SetTargetStatus s v) (hStatusOp grow (OpSetTarget v) p st h)"
proof -
  from hNewTargetStatus_sem [of v h] obtain t tl B where t: "hNewTargetStatus v h = (t, h @ tl)"
    "semTargetStatus (h @ tl) t = Some (v, B)" "B \<subseteq> fresh_in h (h @ tl)" by blast
  from hSetTargetStatus_refines [OF reading.sem_append [OF readings(3) assms] t(2), of grow]
  have "status_result A h (SetTargetStatus s v) (hSetTargetStatus grow st t (h @ tl))"
    by (rule status_result_append) (use t(3) in auto)
  with t(1) show ?thesis by simp
qed

lemma status_generation_op:
  assumes "semStatus h st = Some (s, A)" "cell_at dReplicaAutoscaler h p = Some x"
  shows "status_result (insert p A) h (s\<lparr>st_ObservedGeneration := Some (hom_Generation (hra_ObjectMeta x))\<rparr>)
     (hStatusOp grow OpObservedGeneration p st h)"
proof -
  have "cell_at dInt64 h p = Some (hom_Generation (hra_ObjectMeta x))"
    using assms(2) by (auto simp: cell_at_def dest_Some split: if_splits)
  then have "semPtr dInt64 semFlat h (Some p) = Some (Some (hom_Generation (hra_ObjectMeta x)), {p})"
    by (simp add: semPtr_Some semFlat_def)
  with assms(1) obtain A' where
    "semStatus h (st\<lparr>hst_ObservedGeneration := Some p\<rparr>) =
       Some (s\<lparr>st_ObservedGeneration := Some (hom_Generation (hra_ObjectMeta x))\<rparr>, A')" "A' \<subseteq> insert p A"
    unfolding semStatus_Some by auto
  then show ?thesis by (auto intro!: status_resultI)
qed

lemma status_time_op:
  assumes "semStatus h st = Some (s, A)"
  shows "status_result A h (s\<lparr>st_LastScaleTime := Some t\<rparr>) (hStatusOp grow (OpLastScaleTime t) p st h)"
proof -
  have "semPtr dTime semFlat (h @ [CTime t]) (Some (length h)) = Some (Some t, {length h})"
    by (simp add: semPtr_Some semFlat_def)
  with reading.sem_append [OF readings(3) assms, of "[CTime t]"] obtain A' where
    "semStatus (h @ [CTime t]) (st\<lparr>hst_LastScaleTime := Some (length h)\<rparr>) = Some (s\<lparr>st_LastScaleTime := Some t\<rparr>, A')"
    "A' \<subseteq> insert (length h) A"
    unfolding semStatus_Some by auto
  then show ?thesis by (intro status_resultI [of _ _ "h @ [CTime t]" _ A']) (auto simp: alloc_def)
qed

lemma status_flat_ops:
  assumes "semStatus h st = Some (s, A)"
  shows "status_result A h (s\<lparr>st_CurrentReplicas := n\<rparr>) (hStatusOp grow (OpCurrentReplicas n) p st h)"
    "status_result A h (s\<lparr>st_DesiredReplicas := n\<rparr>) (hStatusOp grow (OpDesiredReplicas n) p st h)"
    "status_result A h s (Ret (st, h))"
  using assms by (auto intro!: status_resultI simp: semStatus_Some)

lemma hStatusOp_refines:
  assumes "semObject h (Some p) = Some (Some (tm, ra), A)" "cell_at dReplicaAutoscaler h p = Some x"
  shows "status_result A h (ra_Status (objectOp op ra)) (hStatusOp grow op p (hra_Status x) h)"
proof -
  from assms obtain Am At where x: "semStatus h (hra_Status x) = Some (ra_Status ra, At)" "At \<subseteq> A" "insert p At \<subseteq> A"
    "semObjectMeta h (hra_ObjectMeta x) =
       Some (((ra_Name ra, ra_Namespace ra, ra_Generation ra), ra_DeletionTimestamp ra, ra_Annotations ra), Am)"
    by (auto simp: semObject_Some)
  have g: "hom_Generation (hra_ObjectMeta x) = ra_Generation ra"
    using x(4) by (auto simp: semObjectMeta_def semStruct_Some semPair_Some semFlat_def)
  note ops = status_condition_op [OF x(1)] status_target_op [OF x(1)] hPurgeTargetStatus_refines [OF x(1)]
    status_time_op [OF x(1)] status_flat_ops [OF x(1)]
  note ops' = ops [THEN status_result_mono, OF x(2)]
    status_generation_op [OF x(1) assms(2), unfolded g, THEN status_result_mono, OF x(3)]
  show ?thesis using ops' by (cases op) (simp_all del: hStatusOp.simps(1,2) add: hStatusOp.simps(3-))
qed

lemma semMap_None: "semMap h None = Some (f, C) \<longleftrightarrow> f = fmempty \<and> C = {}"
  by (auto simp: semMap_def semStruct_Some semPtr_None)

lemma semMap_Some: "semMap h (Some a) = Some (f, C) \<longleftrightarrow> cell_at dMap h a = Some f \<and> C = {a}"
  by (auto simp: semMap_def semStruct_Some semPtr_Some semFlat_def)

lemma semObjectMeta_Some:
  "semObjectMeta h m = Some ((nm, del, ann), Am) \<longleftrightarrow>
     nm = (hom_Name m, hom_Namespace m, hom_Generation m) \<and>
     (\<exists>A1 A2. semPtr dTime semFlat h (hom_DeletionTimestamp m) = Some (del, A1) \<and> semMap h (hom_Annotations m) = Some (ann, A2) \<and>
        Am = A1 \<union> A2)"
  by (auto simp: semObjectMeta_def semStruct_Some semPair_Some semFlat_def [of h "(hom_Name m, hom_Namespace m, hom_Generation m)"])

lemma avoids_time_map: "avoids (semPtr dTime semFlat) dMap"
  by (intro avoid; simp add: dest_Some; simp add: dest_defs)

lemma map_write:
  assumes "semObject h (Some p) = Some (Some (tm, ra), A)" "cell_at dReplicaAutoscaler h p = Some x"
    "hom_Annotations (hra_ObjectMeta x) = Some a"
  shows "cell_at dMap h a = Some (ra_Annotations ra)" "touches dMap A h (store a (CMap g) h)"
    "semObject (store a (CMap g) h) (Some p) = Some (Some (tm, ra\<lparr>ra_Annotations := g\<rparr>), A)"
proof -
  define h' where "h' = store a (CMap g) h"
  from assms(1,2) obtain A1 A2 As At where x: "hra_TypeMeta x = tm"
    "(ra_Name ra, ra_Namespace ra, ra_Generation ra) =
       (hom_Name (hra_ObjectMeta x), hom_Namespace (hra_ObjectMeta x), hom_Generation (hra_ObjectMeta x))"
    "semPtr dTime semFlat h (hom_DeletionTimestamp (hra_ObjectMeta x)) = Some (ra_DeletionTimestamp ra, A1)"
    "semMap h (Some a) = Some (ra_Annotations ra, A2)"
    "semSpec h (hra_Spec x) = Some (ra_Spec ra, As)" "semStatus h (hra_Status x) = Some (ra_Status ra, At)"
    "A = insert p (A1 \<union> A2 \<union> As \<union> At)"
    unfolding semObject_Some semObjectMeta_Some using assms(3) by auto
  show m: "cell_at dMap h a = Some (ra_Annotations ra)" using x(4) by (simp add: semMap_Some)
  have a: "A2 = {a}" "a \<in> A" using x(4,7) by (auto simp: semMap_Some)
  show t: "touches dMap A h (store a (CMap g) h)" by (rule touches_store [OF m a(2)])
  have "a \<noteq> p" using m assms(2) by (auto simp: cell_at_def dest_Some split: if_splits)
  then have c: "cell_at dReplicaAutoscaler h' p = Some x"
    using assms(2) by (auto simp: h'_def cell_at_def store_def split: if_splits)
  have "semMap h' (Some a) = Some (g, A2)"
    using cell_at_lt [OF m] a(1) by (simp add: semMap_Some h'_def cell_at_def store_def)
  with reading.sem_touches [OF reading_pointers(2) avoids_time_map x(3) t] reading.sem_touches [OF readings(2) avoids_Spec(2) x(5) t]
    reading.sem_touches [OF readings(3) avoids_Status x(6) t] c x(1,2,7) assms(3)
  show "semObject (store a (CMap g) h) (Some p) = Some (Some (tm, ra\<lparr>ra_Annotations := g\<rparr>), A)"
    unfolding semObject_Some semObjectMeta_Some h'_def by (intro exI [of _ x] exI [of _ "A1 \<union> A2"] exI [of _ As] exI [of _ At]) auto
qed

lemma nil_annotations:
  assumes "semObject h (Some p) = Some (Some (tm, ra), A)" "cell_at dReplicaAutoscaler h p = Some x"
    "hom_Annotations (hra_ObjectMeta x) = None"
  shows "ra_Annotations ra = fmempty"
  using assms unfolding semObject_Some semObjectMeta_Some by (auto simp: semMap_None)

lemma hMapOp_refines:
  assumes "semObject h (Some p) = Some (Some (tm, ra), A)" "cell_at dReplicaAutoscaler h p = Some x" "op_ok op ra"
  shows "\<exists>h'. hMapOp op (hom_Annotations (hra_ObjectMeta x)) h = Ret h' \<and> length h' = length h \<and> touches dMap A h h' \<and>
     semObject h' (Some p) = Some (Some (tm, ra\<lparr>ra_Annotations := ra_Annotations (objectOp op ra)\<rparr>), A)"
proof (cases "hom_Annotations (hra_ObjectMeta x)")
  case None
  with nil_annotations [OF assms(1,2)] assms(1,3) show ?thesis by (cases op) (auto simp: fmdrop_empty)
next
  case (Some a)
  note w = map_write [OF assms(1,2) Some]
  show ?thesis using w assms(1) by (cases op) (auto simp: Some)
qed

lemma touches_cell_kept:
  assumes "touches dest C h h'" "cell_at dReplicaAutoscaler h p = Some x" "\<And>x. dest (CReplicaAutoscaler x) = None"
  shows "cell_at dReplicaAutoscaler h' p = Some x"
  using assms by (fastforce simp: touches_def cell_at_def dest_Some split: if_splits)

lemma hObjectOp_refines:
  assumes "semObject h (Some p) = Some (Some (tm, ra), A)" "op_ok op ra"
  shows "object_result A p h (tm, objectOp op ra) (hObjectOp grow op p h)"
proof -
  from assms(1) obtain x where x: "cell_at dReplicaAutoscaler h p = Some x" by (auto simp: semObject_Some)
  from hMapOp_refines [OF assms(1) x assms(2)] obtain h1 where
    m: "hMapOp op (hom_Annotations (hra_ObjectMeta x)) h = Ret h1" "length h1 = length h" "touches dMap A h h1"
      "semObject h1 (Some p) = Some (Some (tm, ra\<lparr>ra_Annotations := ra_Annotations (objectOp op ra)\<rparr>), A)" by blast
  have x1: "cell_at dReplicaAutoscaler h1 p = Some x" by (rule touches_cell_kept [OF m(3) x]) (simp add: dest_defs)
  define ra1 where "ra1 = ra\<lparr>ra_Annotations := ra_Annotations (objectOp op ra)\<rparr>"
  have v: "ra1\<lparr>ra_Status := ra_Status (objectOp op ra1)\<rparr> = objectOp op ra" by (cases op) (simp_all add: ra1_def)
  from object_new_status [OF m(4) x1 hStatusOp_refines [OF m(4) x1], of op grow]
  have "object_result A p h1 (tm, objectOp op ra) (hObjectOp grow op p h)"
    using x m(1) v by (simp add: hObjectOp_def ra1_def)
  then obtain h2 A2 where h2: "hObjectOp grow op p h = Ret h2" "semObject h2 (Some p) = Some (Some (tm, objectOp op ra), A2)"
    "A2 \<subseteq> A \<union> {length h..<length h2}" "touches Some A h1 h2" by (auto simp: object_result_def m(2))
  moreover have "touches Some A h h2" by (rule touches_trans [OF touches_weaken [OF m(3)] h2(4)]) simp
  ultimately show ?thesis unfolding object_result_def by blast
qed

lemma hRun_refines:
  assumes "semObject h (Some p) = Some (Some (tm, ra), A)" "ops_ok ops ra"
  shows "object_result A p h (tm, fold objectOp ops ra) (hRun grow ops p h)"
  using assms
proof (induction ops arbitrary: h ra A)
  case Nil
  then show ?case by (auto simp: object_result_def)
next
  case (Cons op ops)
  from hObjectOp_refines [OF Cons.prems(1), of op grow] Cons.prems(2) obtain h1 A1 where
    h1: "hObjectOp grow op p h = Ret h1" "semObject h1 (Some p) = Some (Some (tm, objectOp op ra), A1)"
      "A1 \<subseteq> A \<union> {length h..<length h1}" "touches Some A h h1" by (auto simp: object_result_def)
  from Cons.IH [OF h1(2)] Cons.prems(2) obtain h2 A2 where
    h2: "hRun grow ops p h1 = Ret h2" "semObject h2 (Some p) = Some (Some (tm, fold objectOp ops (objectOp op ra)), A2)"
      "A2 \<subseteq> A1 \<union> {length h1..<length h2}" "touches Some A1 h1 h2" by (auto simp: object_result_def)
  have "length h \<le> length h1" "length h1 \<le> length h2" using h1(4) h2(4) by (simp_all add: touches_def)
  then have "A2 \<subseteq> A \<union> {length h..<length h2}" using h1(3) h2(3) by fastforce
  moreover have "touches Some A h h2" by (rule touches_trans [OF h1(4) h2(4)]) (use h1(3) in auto)
  ultimately show ?case using h1(1) h2(1,2) by (auto simp: object_result_def)
qed

subsection \<open>Copying the annotations\<close>

lemma hCopyMap_Ret:
  assumes "cell_at dMap h m = Some g" "set ks \<subseteq> fset (fmdom f)"
  shows "hCopyMap ks f m h = Ret (store m (CMap (g ++\<^sub>f fmrestrict_set (set ks) f)) h)"
  using assms
proof (induction ks arbitrary: g h)
  case Nil
  then have "store m (CMap g) h = h"
    by (auto simp: cell_at_def dest_Some store_def list_update_same_conv split: if_splits)
  then show ?case by simp
next
  case (Cons k ks)
  then obtain v where v: "fmlookup f k = Some v" by (auto simp: fmlookup_dom_iff)
  define h1 where "h1 = store m (CMap (fmupd k v g)) h"
  have c: "cell_at dMap h1 m = Some (fmupd k v g)"
    using cell_at_lt [OF Cons.prems(1)] by (simp add: h1_def cell_at_def store_def)
  have "fmupd k v g ++\<^sub>f fmrestrict_set (set ks) f = g ++\<^sub>f fmrestrict_set (set (k # ks)) f"
    by (rule fmap_ext) (use v in \<open>auto simp: fmdom'_alt_def fmdomI\<close>)
  with Cons.IH [OF c] Cons.prems v show ?case by (simp add: h1_def store_def)
qed

lemma copy_all_annotations: "fmrestrict_set (fset (fmdom f)) f = f"
  by (rule fmap_ext) (auto dest: fmdom_notD)

subsection \<open>The observed object\<close>

text \<open>
  (C13) While \<^verbatim>\<open>Reconcile\<close> works on the object that it has read, writing its conditions and target statuses in place, appending
  to its slices, pointing \<^verbatim>\<open>ObservedGeneration\<close> into the object itself and changing its annotations map, the copy that it
  took at the start keeps the value that was read; and the object has the value that the same writes give on values. So
  the comparison at the end compares the object before with the object after.
\<close>

theorem observed_object_unchanged:
  assumes "lib_deep L" "semObject h (Some p) = Some (Some (tm, ra), A)" "ops_ok ops ra"
  shows "\<exists>q h1 h2 A' B. ReplicaAutoscaler_DeepCopy L (Some p) h = Ret (q, h1) \<and> hRun grow ops p h1 = Ret h2 \<and>
     semObject h2 (Some p) = Some (Some (tm, fold objectOp ops ra), A') \<and> semObject h2 q = Some (Some (tm, ra), B) \<and>
     A' \<inter> B = {}"
proof -
  from deep_copier.copy_deep [OF deep_pointers(10) [OF assms(1)] assms(2)] obtain q t B where
    q: "ReplicaAutoscaler_DeepCopy L (Some p) h = Ret (q, h @ t)" "semObject (h @ t) q = Some (Some (tm, ra), B)"
      "B \<subseteq> fresh_in h (h @ t)" by blast
  from hRun_refines [OF reading.sem_append [OF readings(5) assms(2)] assms(3), of t grow] obtain h2 A' where
    r: "hRun grow ops p (h @ t) = Ret h2" "semObject h2 (Some p) = Some (Some (tm, fold objectOp ops ra), A')"
      "A' \<subseteq> A \<union> {length (h @ t)..<length h2}" "touches Some A (h @ t) h2" unfolding object_result_def by blast
  have A: "A \<subseteq> {..<length h}" by (rule reading.sem_allocated [OF readings(5) assms(2)])
  have "B \<inter> A = {}" using q(3) fresh_disjoint [OF A] by blast
  from reading.sem_touches_disjoint [OF readings(5) q(2) r(4) this]
  have "semObject h2 q = Some (Some (tm, ra), B)" .
  moreover have "fresh_in h (h @ t) \<inter> {length (h @ t)..<length h2} = {}" by (auto simp: fresh_in_def)
  then have "A' \<inter> B = {}" using r(3) q(3) fresh_disjoint [OF A, of "h @ t"] by blast
  ultimately show ?thesis using q(1) r(1,2) by blast
qed

lemma observed_object_unchanged_witness:
  "semObject sampleHeap (Some 8) = Some (Some (sampleTypeMeta, sampleValue), {..<9}) \<and>
   (\<exists>q h1 h2 A' B. ReplicaAutoscaler_DeepCopy sampleCopies (Some 8) sampleHeap = Ret (q, h1) \<and>
     hRun (\<lambda>n. n) [OpDeleteAnnotation ''team'', OpObservedGeneration, OpCurrentReplicas 4] 8 h1 = Ret h2 \<and>
     semObject h2 (Some 8) = Some (Some (sampleTypeMeta,
       fold objectOp [OpDeleteAnnotation ''team'', OpObservedGeneration, OpCurrentReplicas 4] sampleValue), A') \<and>
     semObject h2 q = Some (Some (sampleTypeMeta, sampleValue), B) \<and> A' \<inter> B = {})"
  using observed_object_unchanged [OF lib_deep_sample sample_sem,
      of "[OpDeleteAnnotation ''team'', OpObservedGeneration, OpCurrentReplicas 4]" "\<lambda>n. n"] sample_sem
  by (simp only: ops_ok.simps op_ok.simps simp_thms)

text \<open>An object whose annotations and status have been replaced, with the rest of the old memory kept.\<close>

lemma object_replaced:
  assumes "semObject h (Some q) = Some (Some (tm, ob), B)" "cell_at dReplicaAutoscaler h q = Some x"
    and "cell_at dReplicaAutoscaler h' q =
      Some (x\<lparr>hra_ObjectMeta := (hra_ObjectMeta x)\<lparr>hom_Annotations := Some m\<rparr>, hra_Status := st\<rparr>)"
    and "semMap h' (Some m) = Some (f, M)" "semStatus h' st = Some (s, S)"
    and keep: "\<And>A. A \<subseteq> {..<length h} \<Longrightarrow> q \<notin> A \<Longrightarrow> agree_on A h h'"
  shows "\<exists>B'. semObject h' (Some q) = Some (Some (tm, ob\<lparr>ra_Annotations := f, ra_Status := s\<rparr>), B') \<and> B' \<subseteq> B \<union> M \<union> S"
proof -
  from assms(1,2) obtain A1 A2 As At where q: "hra_TypeMeta x = tm"
    "(ra_Name ob, ra_Namespace ob, ra_Generation ob) =
       (hom_Name (hra_ObjectMeta x), hom_Namespace (hra_ObjectMeta x), hom_Generation (hra_ObjectMeta x))"
    "semPtr dTime semFlat h (hom_DeletionTimestamp (hra_ObjectMeta x)) = Some (ra_DeletionTimestamp ob, A1)"
    "semSpec h (hra_Spec x) = Some (ra_Spec ob, As)" "B = insert q (A1 \<union> A2 \<union> As \<union> At)"
    unfolding semObject_Some semObjectMeta_Some by auto
  have out: "q \<notin> A1" "q \<notin> As"
    using avoidsD [OF avoids_Status_parts(1) q(3), of q] avoidsD [OF avoids_Spec(3) q(4), of q] assms(2)
    by (auto simp: cell_at_def split: if_splits)
  have "semPtr dTime semFlat h' (hom_DeletionTimestamp (hra_ObjectMeta x)) = Some (ra_DeletionTimestamp ob, A1)"
    by (rule reading.sem_support [OF reading_pointers(2) q(3) keep [OF reading.sem_allocated [OF reading_pointers(2) q(3)] out(1)]])
  moreover have "semSpec h' (hra_Spec x) = Some (ra_Spec ob, As)"
    by (rule reading.sem_support [OF readings(2) q(4) keep [OF reading.sem_allocated [OF readings(2) q(4)] out(2)]])
  ultimately have "semObject h' (Some q) = Some (Some (tm, ob\<lparr>ra_Annotations := f, ra_Status := s\<rparr>), insert q (A1 \<union> M \<union> As \<union> S))"
    unfolding semObject_Some semObjectMeta_Some using assms(3-5) q(1,2) by auto
  with q(5) show ?thesis by blast
qed

lemma hLoadMap_Ret: "semMap h m = Some (f, C) \<Longrightarrow> hLoadMap m h = Ret f"
  by (cases m) (auto simp: semMap_None semMap_Some hLoadMap_def)

text \<open>The run of \<^verbatim>\<open>updateAutoscalerIfNeeded\<close>, once the copy is made: two stores to the observed object around one to the new
  map.\<close>

lemma hUpdateObserved_run:
  assumes "ReplicaAutoscaler_DeepCopy L (Some q) h = Ret (base, h1)" "set (order (ra_Annotations ra)) = fset (fmdom (ra_Annotations ra))"
    and "cell_at dReplicaAutoscaler h1 q = Some y" "semObject h1 (Some p) = Some (Some (tm, ra), A)" "q \<notin> A"
    and "cell_at dReplicaAutoscaler h1 p = Some x"
  defines "m \<equiv> length h1"
    and "y1 \<equiv> y\<lparr>hra_ObjectMeta := (hra_ObjectMeta y)\<lparr>hom_Annotations := Some (length h1)\<rparr>\<rparr>"
  shows "hUpdateObserved L order q p h =
     Ret (base, store q (CReplicaAutoscaler (y1\<lparr>hra_Status := hra_Status x\<rparr>))
       (store m (CMap (ra_Annotations ra)) (store q (CReplicaAutoscaler y1) (h1 @ [CMap fmempty]))))"
proof -
  define h3 where "h3 = store q (CReplicaAutoscaler y1) (h1 @ [CMap fmempty])"
  define h4 where "h4 = store m (CMap (ra_Annotations ra)) h3"
  have A: "A \<subseteq> {..<length h1}" "p \<in> A" using reading.sem_allocated [OF readings(5) assms(4)] assms(4) by (auto simp: semObject_Some)
  have ne: "q \<noteq> p" "q < length h1" "p < length h1" using assms(5) A cell_at_lt [OF assms(3)] by auto
  have "agree_on A h1 h3" unfolding h3_def by (rule agree_on_store_trans [OF agree_on_append [OF A(1)] assms(5)])
  then have p3: "semObject h3 (Some p) = Some (Some (tm, ra), A)" by (rule reading.sem_support [OF readings(5) assms(4)])
  have c: "cell_at dReplicaAutoscaler h3 p = Some x" "cell_at dReplicaAutoscaler h4 p = Some x"
    "cell_at dReplicaAutoscaler h4 q = Some y1" "cell_at dMap h3 m = Some fmempty"
    "cell_at dReplicaAutoscaler (h1 @ [CMap fmempty]) q = Some y"
    using assms(3,6) ne by (auto simp: h3_def h4_def m_def cell_at_def store_def nth_append nth_list_update)
  have "\<exists>C. semMap h3 (hom_Annotations (hra_ObjectMeta x)) = Some (ra_Annotations ra, C)"
    using p3 c(1) unfolding semObject_Some semObjectMeta_Some by auto
  then have l: "hLoadMap (hom_Annotations (hra_ObjectMeta x)) h3 = Ret (ra_Annotations ra)" using hLoadMap_Ret by blast
  have k: "hCopyMap (order (ra_Annotations ra)) (ra_Annotations ra) m h3 = Ret h4"
    using hCopyMap_Ret [OF c(4), of "order (ra_Annotations ra)"] assms(2) by (simp add: h4_def copy_all_annotations)
  have y1: "y\<lparr>hra_ObjectMeta := (hra_ObjectMeta y)\<lparr>hom_Annotations := Some m\<rparr>\<rparr> = y1" by (simp add: y1_def m_def)
  show ?thesis
    unfolding hUpdateObserved_def
    using assms(1) c l k by (simp add: alloc_def Let_def y1 h3_def [symmetric] h4_def [symmetric] m_def [symmetric])
qed

text \<open>
  (C14) \<^verbatim>\<open>updateAutoscalerIfNeeded\<close> prepares the patch as the value model says: the base is a separate copy of the observed
  object, the observed object then has the annotations and the status of the reconciled one and all else of its own, and the
  reconciled object has not changed. This holds although the status is assigned without a copy, so that its slices and
  \<^verbatim>\<open>ObservedGeneration\<close> are shared by both objects, and for every order in which the annotations are ranged over.
\<close>

theorem hUpdateObserved_refines:
  assumes "lib_deep L" "set (order (ra_Annotations ra)) = fset (fmdom (ra_Annotations ra))"
    and "semObject h (Some q) = Some (Some (tmo, ob), B)" "semObject h (Some p) = Some (Some (tm, ra), A)" "q \<notin> A"
  shows "\<exists>base h' D B'. hUpdateObserved L order q p h = Ret (base, h') \<and>
     semObject h' base = Some (Some (tmo, ob), D) \<and>
     semObject h' (Some q) =
       Some (Some (tmo, ob\<lparr>ra_Annotations := ra_Annotations ra, ra_Status := ra_Status ra\<rparr>), B') \<and>
     semObject h' (Some p) = Some (Some (tm, ra), A) \<and> D \<inter> (A \<union> B') = {}"
proof -
  from deep_copier.copy_deep [OF deep_pointers(10) [OF assms(1)] assms(3)] obtain base t D where
    d: "ReplicaAutoscaler_DeepCopy L (Some q) h = Ret (base, h @ t)" "semObject (h @ t) base = Some (Some (tmo, ob), D)"
      "D \<subseteq> fresh_in h (h @ t)" by blast
  note q = reading.sem_append [OF readings(5) assms(3), of t] and p = reading.sem_append [OF readings(5) assms(4), of t]
  obtain y where y: "cell_at dReplicaAutoscaler (h @ t) q = Some y" using q by (auto simp: semObject_Some)
  obtain x St where x: "cell_at dReplicaAutoscaler (h @ t) p = Some x" "semStatus (h @ t) (hra_Status x) = Some (ra_Status ra, St)"
    "St \<subseteq> A" using p by (auto simp: semObject_Some)
  define m where "m = length (h @ t)"
  define y1 where "y1 = y\<lparr>hra_ObjectMeta := (hra_ObjectMeta y)\<lparr>hom_Annotations := Some m\<rparr>\<rparr>"
  define h' where "h' = store q (CReplicaAutoscaler (y1\<lparr>hra_Status := hra_Status x\<rparr>))
    (store m (CMap (ra_Annotations ra)) (store q (CReplicaAutoscaler y1) ((h @ t) @ [CMap fmempty])))"
  have run: "hUpdateObserved L order q p h = Ret (base, h')"
    using hUpdateObserved_run [where order = order and ra = ra, OF d(1) assms(2) y p assms(5) x(1)] by (simp add: h'_def y1_def m_def)
  have keep: "agree_on S (h @ t) h'" if "S \<subseteq> {..<length (h @ t)}" "q \<notin> S" for S
    unfolding h'_def by (intro agree_on_store_trans agree_on_append) (use that in \<open>auto simp: m_def\<close>)
  have A: "A \<subseteq> {..<length h}" and B: "B \<subseteq> {..<length h}" and qB: "q \<in> B"
    using reading.sem_allocated [OF readings(5) assms(4)] reading.sem_allocated [OF readings(5) assms(3)] assms(3)
    by (auto simp: semObject_Some)
  have ql: "q < length h" using B qB by auto
  have D: "D \<subseteq> {..<length (h @ t)}" "q \<notin> D" using d(3) ql by (auto simp: fresh_in_def)
  have St: "St \<subseteq> {..<length (h @ t)}" "q \<notin> St" using x(3) A assms(5) by auto
  have cq: "cell_at dReplicaAutoscaler h' q = Some (y\<lparr>hra_ObjectMeta := (hra_ObjectMeta y)\<lparr>hom_Annotations := Some m\<rparr>, hra_Status := hra_Status x\<rparr>)"
    using ql by (simp add: h'_def y1_def cell_at_def store_def)
  have mq: "semMap h' (Some m) = Some (ra_Annotations ra, {m})"
    using ql by (simp add: semMap_Some h'_def cell_at_def store_def m_def nth_list_update)
  have sq: "semStatus h' (hra_Status x) = Some (ra_Status ra, St)"
    by (rule reading.sem_support [OF readings(3) x(2) keep [OF St]])
  from object_replaced [OF q y cq mq sq keep] obtain B' where B': "B' \<subseteq> B \<union> {m} \<union> St"
    "semObject h' (Some q) = Some (Some (tmo, ob\<lparr>ra_Annotations := ra_Annotations ra, ra_Status := ra_Status ra\<rparr>), B')"
    by blast
  have "semObject h' base = Some (Some (tmo, ob), D)" by (rule reading.sem_support [OF readings(5) d(2) keep [OF D]])
  moreover have "semObject h' (Some p) = Some (Some (tm, ra), A)"
    by (rule reading.sem_support [OF readings(5) p keep]) (use A assms(5) in auto)
  moreover have "m \<notin> fresh_in h (h @ t)" by (simp add: m_def fresh_in_def)
  then have "D \<inter> (A \<union> B') = {}"
    using B'(1) x(3) d(3) fresh_disjoint [OF A, of "h @ t"] fresh_disjoint [OF B, of "h @ t"] by blast
  ultimately show ?thesis using run B'(2) by blast
qed


text \<open>Two objects: the sample and a copy of its cell, which shares all its memory but the cell itself.\<close>

definition sampleTwo :: "cell heap" where
  "sampleTwo = sampleHeap @ [CReplicaAutoscaler sampleObject]"

lemma sampleTwo_sem:
  "semObject sampleTwo (Some 8) = Some (Some (sampleTypeMeta, sampleValue), {..<9})"
  "semObject sampleTwo (Some 9) = Some (Some (sampleTypeMeta, sampleValue), insert 9 {..<8})"
proof -
  show "semObject sampleTwo (Some 8) = Some (Some (sampleTypeMeta, sampleValue), {..<9})"
    unfolding sampleTwo_def by (rule reading.sem_append [OF readings(5) sample_sem])
  show "semObject sampleTwo (Some 9) = Some (Some (sampleTypeMeta, sampleValue), insert 9 {..<8})"
    by (simp add: sampleTwo_def sem_defs sample_defs) auto
qed

lemma hUpdateObserved_refines_witness:
  "\<exists>base h' D B'. hUpdateObserved sampleCopies (\<lambda>_. [''team'']) 9 8 sampleTwo = Ret (base, h') \<and>
     semObject h' base = Some (Some (sampleTypeMeta, sampleValue), D) \<and>
     semObject h' (Some 9) = Some (Some (sampleTypeMeta,
       sampleValue\<lparr>ra_Annotations := ra_Annotations sampleValue, ra_Status := ra_Status sampleValue\<rparr>), B') \<and>
     semObject h' (Some 8) = Some (Some (sampleTypeMeta, sampleValue), {..<9}) \<and> D \<inter> ({..<9} \<union> B') = {}"
  by (rule hUpdateObserved_refines [OF lib_deep_sample _ sampleTwo_sem(2,1)]) (simp_all add: sampleValue_def)

end
