(* ===== verification/Workers.thy ===== *)
theory Workers
  imports Gvkr Replicator_Simple
begin

text \<open>
  The controller reconciles with several workers (\<^verbatim>\<open>MaxConcurrentReconciles\<close>), which share two maps: the cache of
  scalable resources (\<^verbatim>\<open>utils/gvkr.go\<close>), behind a \<^verbatim>\<open>sync.RWMutex\<close>, and the recommendations of the simple replicator
  (\<^verbatim>\<open>plugins/replicator_simple/replicator.go\<close>), behind nothing.

  A worker is a program of map accesses and lock operations. An access of a Go map takes time: it begins and it ends, and
  the runtime stops the process when a write overlaps another access. The machine \<open>step\<close> interleaves the workers; a \<open>race\<close> is a
  state in which two accesses overlap and one of them writes.

  Shown: programs that access the map only with the lock (\<open>guarded\<close>) never race and are never stuck, for any number of
  workers, and the two functions of the cache are such programs; two workers in the replicator race; and short of the races the
  replicator is right: workers with different autoscalers, in any interleaving, return and leave behind what each would alone
  (which is the atomic call of \<open>Replicator_Simple\<close>).
\<close>

subsection \<open>Programs\<close>

text \<open>\<open>Store k f\<close> is \<^verbatim>\<open>m[k][i] = x\<close>: the map is read, the array that it holds is written.\<close>

datatype ('v, 'r) prog =
    Return 'r
  | Read string "'v option \<Rightarrow> ('v, 'r) prog"
  | Write string 'v "('v, 'r) prog"
  | Store string "'v \<Rightarrow> 'v" "('v, 'r) prog"
  | RLock "('v, 'r) prog"
  | RUnlock "('v, 'r) prog"
  | Lock "('v, 'r) prog"
  | Unlock "('v, 'r) prog"

primrec andThen :: "('v, 'r) prog \<Rightarrow> ('r \<Rightarrow> ('v, 's) prog) \<Rightarrow> ('v, 's) prog" where
  "andThen (Return r) q = q r"
| "andThen (Read k c) q = Read k (\<lambda>v. andThen (c v) q)"
| "andThen (Write k v c) q = Write k v (andThen c q)"
| "andThen (Store k f c) q = Store k f (andThen c q)"
| "andThen (RLock c) q = RLock (andThen c q)"
| "andThen (RUnlock c) q = RUnlock (andThen c q)"
| "andThen (Lock c) q = Lock (andThen c q)"
| "andThen (Unlock c) q = Unlock (andThen c q)"

text \<open>A worker alone.\<close>

definition storeAt :: "string \<Rightarrow> ('v \<Rightarrow> 'v) \<Rightarrow> (string, 'v) fmap \<Rightarrow> (string, 'v) fmap" where
  "storeAt k f m = (case fmlookup m k of None \<Rightarrow> m | Some v \<Rightarrow> fmupd k (f v) m)"

primrec run :: "('v, 'r) prog \<Rightarrow> (string, 'v) fmap \<Rightarrow> 'r \<times> (string, 'v) fmap" where
  "run (Return r) m = (r, m)"
| "run (Read k c) m = run (c (fmlookup m k)) m"
| "run (Write k v c) m = run c (fmupd k v m)"
| "run (Store k f c) m = run c (storeAt k f m)"
| "run (RLock c) m = run c m"
| "run (RUnlock c) m = run c m"
| "run (Lock c) m = run c m"
| "run (Unlock c) m = run c m"

subsection \<open>The program of each function\<close>

text \<open>\<^verbatim>\<open>defer\<close> runs the unlock when the function returns.\<close>

definition getKnownScalable :: "string \<Rightarrow> (bool, bool \<times> bool) prog" where
  "getKnownScalable groupResource =
     RLock (Read groupResource (\<lambda>v. RUnlock (Return (case v of None \<Rightarrow> (False, False) | Some scalable \<Rightarrow> (scalable, True)))))"

definition setKnownScalable :: "string \<Rightarrow> bool \<Rightarrow> (bool, unit) prog" where
  "setKnownScalable groupResource scalable = Lock (Write groupResource scalable (Unlock (Return ())))"

definition recsOf :: "timestampedRecommendation list option \<Rightarrow> timestampedRecommendation list" where
  "recsOf v = (case v of None \<Rightarrow> [] | Some recs \<Rightarrow> recs)"

definition stabilizeProg ::
  "SimpleConfig \<Rightarrow> Time \<Rightarrow> Time \<Rightarrow> string \<Rightarrow> int \<Rightarrow> (timestampedRecommendation list, int) prog" where
  "stabilizeProg config now now' key normalizedDesiredReplicas =
     Read key (\<lambda>v.
       let cutoff = now - DownscaleStabilizationWindow config;
           (maxRecommendation, old) = stabilizeLoop cutoff 0 (recsOf v) (normalizedDesiredReplicas, None);
           rec = \<lparr>timestamp = now', replicas = normalizedDesiredReplicas\<rparr>
       in case old of
            Some oldSampleIndex \<Rightarrow> Store key (\<lambda>recs. recs[oldSampleIndex := rec]) (Return maxRecommendation)
          | None \<Rightarrow> Read key (\<lambda>v. Write key (recsOf v @ [rec]) (Return maxRecommendation)))"

definition getDesiredProg ::
  "SimpleConfig \<Rightarrow> (nat \<Rightarrow> Time) \<Rightarrow> ReplicatorContext \<Rightarrow> (timestampedRecommendation list, int) prog" where
  "getDesiredProg config clk ctx =
     (let keyForAutoscaler = getUniqueKeyForAutoscaler (rc_Autoscaler ctx);
          desiredReplicas = maxOutput (rc_ScalersOutput ctx) 0;
          rest = andThen (stabilizeProg config (clk 1) (clk 2) keyForAutoscaler desiredReplicas) (\<lambda>stabilizedReplicas.
            Return (if stabilizedReplicas \<noteq> desiredReplicas then stabilizedReplicas else desiredReplicas))
      in Read keyForAutoscaler (\<lambda>v.
           if v = None
           then Write keyForAutoscaler [\<lparr>timestamp = clk 0, replicas = scale_Spec_Replicas (rc_Scale ctx)\<rparr>] rest
           else rest))"

subsection \<open>The machine\<close>

text \<open>A worker is before its next operation, or in the middle of the map access with which its program starts.\<close>

datatype ('v, 'r) phase = Ready "('v, 'r) prog" | Access "('v, 'r) prog"

primrec prog_of :: "('v, 'r) phase \<Rightarrow> ('v, 'r) prog" where
  "prog_of (Ready p) = p"
| "prog_of (Access p) = p"

record ('v, 'r) machine =
  mem :: "(string, 'v) fmap"
  readers :: "nat set"
  writer :: "nat option"
  threads :: "('v, 'r) phase list"

fun is_access :: "('v, 'r) prog \<Rightarrow> bool" where
  "is_access (Read k c) = True"
| "is_access (Write k v c) = True"
| "is_access (Store k f c) = True"
| "is_access _ = False"

fun is_write :: "('v, 'r) prog \<Rightarrow> bool" where
  "is_write (Write k v c) = True"
| "is_write _ = False"

definition goto :: "nat \<Rightarrow> ('v, 'r) phase \<Rightarrow> ('v, 'r) machine \<Rightarrow> ('v, 'r) machine" where
  "goto i ph s = s\<lparr>threads := (threads s)[i := ph]\<rparr>"

abbreviation thread_at :: "('v, 'r) machine \<Rightarrow> nat \<Rightarrow> ('v, 'r) phase \<Rightarrow> bool" where
  "thread_at s i ph \<equiv> i < length (threads s) \<and> threads s ! i = ph"

inductive step :: "('v, 'r) machine \<Rightarrow> ('v, 'r) machine \<Rightarrow> bool" where
  begin_access: "thread_at s i (Ready p) \<Longrightarrow> is_access p \<Longrightarrow> step s (goto i (Access p) s)"
| end_read: "thread_at s i (Access (Read k c)) \<Longrightarrow> step s (goto i (Ready (c (fmlookup (mem s) k))) s)"
| end_write: "thread_at s i (Access (Write k v c)) \<Longrightarrow> step s (goto i (Ready c) (s\<lparr>mem := fmupd k v (mem s)\<rparr>))"
| end_store: "thread_at s i (Access (Store k f c)) \<Longrightarrow> step s (goto i (Ready c) (s\<lparr>mem := storeAt k f (mem s)\<rparr>))"
| rlock: "thread_at s i (Ready (RLock c)) \<Longrightarrow> writer s = None \<Longrightarrow> step s (goto i (Ready c) (s\<lparr>readers := insert i (readers s)\<rparr>))"
| runlock: "thread_at s i (Ready (RUnlock c)) \<Longrightarrow> step s (goto i (Ready c) (s\<lparr>readers := readers s - {i}\<rparr>))"
| lock: "thread_at s i (Ready (Lock c)) \<Longrightarrow> writer s = None \<Longrightarrow> readers s = {} \<Longrightarrow> step s (goto i (Ready c) (s\<lparr>writer := Some i\<rparr>))"
| unlock: "thread_at s i (Ready (Unlock c)) \<Longrightarrow> step s (goto i (Ready c) (s\<lparr>writer := None\<rparr>))"

definition start :: "(string, 'v) fmap \<Rightarrow> ('v, 'r) prog list \<Rightarrow> ('v, 'r) machine" where
  "start m ps = \<lparr>mem = m, readers = {}, writer = None, threads = map Ready ps\<rparr>"

abbreviation reachable :: "(string, 'v) fmap \<Rightarrow> ('v, 'r) prog list \<Rightarrow> ('v, 'r) machine \<Rightarrow> bool" where
  "reachable m ps s \<equiv> step\<^sup>*\<^sup>* (start m ps) s"

definition race :: "('v, 'r) machine \<Rightarrow> bool" where
  "race s \<longleftrightarrow> (\<exists>i j p q. i \<noteq> j \<and> thread_at s i (Access p) \<and> thread_at s j (Access q) \<and> is_write p)"

inductive_cases stepE: "step s s'"

lemma goto_sel [simp]:
  "mem (goto i ph s) = mem s" "readers (goto i ph s) = readers s" "writer (goto i ph s) = writer s"
  "threads (goto i ph s) = (threads s)[i := ph]"
  by (simp_all add: goto_def)

subsection \<open>The lock discipline\<close>

datatype held = Free | Shared | Exclusive

primrec guarded :: "('v, 'r) prog \<Rightarrow> held \<Rightarrow> bool" where
  "guarded (Return r) H \<longleftrightarrow> H = Free"
| "guarded (Read k c) H \<longleftrightarrow> H \<noteq> Free \<and> (\<forall>v. guarded (c v) H)"
| "guarded (Write k v c) H \<longleftrightarrow> H = Exclusive \<and> guarded c H"
| "guarded (Store k f c) H \<longleftrightarrow> H = Exclusive \<and> guarded c H"
| "guarded (RLock c) H \<longleftrightarrow> H = Free \<and> guarded c Shared"
| "guarded (RUnlock c) H \<longleftrightarrow> H = Shared \<and> guarded c Free"
| "guarded (Lock c) H \<longleftrightarrow> H = Free \<and> guarded c Exclusive"
| "guarded (Unlock c) H \<longleftrightarrow> H = Exclusive \<and> guarded c Free"

definition holds :: "('v, 'r) machine \<Rightarrow> nat \<Rightarrow> held" where
  "holds s i = (if writer s = Some i then Exclusive else if i \<in> readers s then Shared else Free)"

definition disciplined :: "('v, 'r) machine \<Rightarrow> bool" where
  "disciplined s \<longleftrightarrow>
     (writer s \<noteq> None \<longrightarrow> readers s = {}) \<and>
     (\<forall>i. holds s i \<noteq> Free \<longrightarrow> i < length (threads s)) \<and>
     (\<forall>i<length (threads s). guarded (prog_of (threads s ! i)) (holds s i)) \<and>
     (\<forall>i<length (threads s). \<forall>p. threads s ! i = Access p \<longrightarrow> is_access p)"

lemma disciplined_start:
  assumes "\<And>p. p \<in> set ps \<Longrightarrow> guarded p Free"
  shows "disciplined (start m ps)"
  using assms by (auto simp: disciplined_def start_def holds_def)

lemma disciplined_guarded: "disciplined s \<Longrightarrow> thread_at s i ph \<Longrightarrow> guarded (prog_of ph) (holds s i)"
  by (auto simp: disciplined_def)

lemma disciplined_step: "step s s' \<Longrightarrow> disciplined s \<Longrightarrow> disciplined s'"
proof (induction rule: step.induct)
  case (unlock s i c)
  from disciplined_guarded [OF unlock(2,1)] have "writer s = Some i" "guarded c Free" by (simp_all add: holds_def split: if_splits)
  with unlock show ?case by (auto simp: disciplined_def holds_def nth_list_update split: if_splits)
qed (auto simp: disciplined_def holds_def nth_list_update split: if_splits)

lemma disciplined_reachable:
  assumes "reachable m ps s" "\<And>p. p \<in> set ps \<Longrightarrow> guarded p Free"
  shows "disciplined s"
  using assms(1) by (induction rule: rtranclp_induct) (auto intro: disciplined_start assms(2) disciplined_step)

lemma disciplined_no_race:
  assumes "disciplined s"
  shows "\<not> race s"
proof
  assume "race s"
  then obtain i j p q where a: "i \<noteq> j" "thread_at s i (Access p)" "thread_at s j (Access q)" "is_write p"
    unfolding race_def by blast
  from disciplined_guarded [OF assms a(2)] a(4) have "holds s i = Exclusive" by (cases p) auto
  then have w: "writer s = Some i" by (simp add: holds_def split: if_splits)
  have "is_access q" using assms a(3) by (auto simp: disciplined_def)
  with disciplined_guarded [OF assms a(3)] have "holds s j \<noteq> Free" by (cases q) auto
  with w a(1) assms show False by (auto simp: disciplined_def holds_def split: if_splits)
qed

lemma begin_steps: "thread_at s i (Ready p) \<Longrightarrow> is_access p \<Longrightarrow> \<exists>s'. step s s'"
  by (blast intro: begin_access)

lemma end_steps: "thread_at s i (Access p) \<Longrightarrow> is_access p \<Longrightarrow> \<exists>s'. step s s'"
  by (cases p) (auto intro: step.intros)

text \<open>A disciplined worker that holds the lock, or is in an access, can go on.\<close>

lemma holder_steps:
  assumes "disciplined s" "thread_at s i ph" "holds s i \<noteq> Free"
  shows "\<exists>s'. step s s'"
proof (cases ph)
  case (Ready p)
  show ?thesis
  proof (cases "is_access p")
    case True
    with begin_steps assms(2) Ready show ?thesis by blast
  next
    case False
    with Ready disciplined_guarded [OF assms(1,2)] assms(2,3) show ?thesis by (cases p) (auto intro: step.intros)
  qed
next
  case (Access p)
  with assms(1,2) have "is_access p" by (auto simp: disciplined_def)
  with Access assms(2) end_steps show ?thesis by blast
qed

lemma disciplined_progress:
  assumes "disciplined s"
  shows "(\<exists>s'. step s s') \<or> (\<forall>ph\<in>set (threads s). \<exists>r. ph = Ready (Return r))"
proof (cases "\<exists>i. holds s i \<noteq> Free")
  case True
  then obtain i where "holds s i \<noteq> Free" by blast
  with holder_steps [OF assms] assms show ?thesis by (auto simp: disciplined_def)
next
  case False
  then have free: "writer s = None" "readers s = {}" unfolding holds_def by (metis held.distinct not_None_eq, metis equals0I held.distinct)
  show ?thesis
  proof (cases "\<forall>ph\<in>set (threads s). \<exists>r. ph = Ready (Return r)")
    case False
    then obtain i ph where i: "thread_at s i ph" "\<nexists>r. ph = Ready (Return r)" by (metis in_set_conv_nth)
    from i(1) assms have g: "guarded (prog_of ph) Free"
      using disciplined_guarded [OF assms i(1)] free by (simp add: holds_def)
    have "\<exists>s'. step s s'"
    proof (cases ph)
      case (Ready p)
      with g i free show ?thesis by (cases p) (auto intro: step.intros)
    next
      case (Access p)
      with assms i(1) have "is_access p" by (auto simp: disciplined_def)
      with g Access show ?thesis by (cases p) auto
    qed
    then show ?thesis by blast
  qed simp
qed

subsection \<open>Every run ends\<close>

text \<open>A program is a tree without infinite paths, and every step takes one worker down its own.\<close>

inductive_set below :: "(('v, 'r) phase \<times> ('v, 'r) phase) set" where
  "(Access p, Ready p) \<in> below"
| "(Ready (c v), Access (Read k c)) \<in> below"
| "(Ready c, Access (Write k v c)) \<in> below"
| "(Ready c, Access (Store k f c)) \<in> below"
| "(Ready c, Ready (RLock c)) \<in> below"
| "(Ready c, Ready (RUnlock c)) \<in> below"
| "(Ready c, Ready (Lock c)) \<in> below"
| "(Ready c, Ready (Unlock c)) \<in> below"

inductive_simps below_iff:
  "(ph, Ready (Return r)) \<in> below" "(ph, Ready (Read k c)) \<in> below" "(ph, Ready (Write k v p)) \<in> below"
  "(ph, Ready (Store k f p)) \<in> below" "(ph, Ready (RLock p)) \<in> below" "(ph, Ready (RUnlock p)) \<in> below"
  "(ph, Ready (Lock p)) \<in> below" "(ph, Ready (Unlock p)) \<in> below"
  "(ph, Access (Return r)) \<in> below" "(ph, Access (Read k c)) \<in> below" "(ph, Access (Write k v p)) \<in> below"
  "(ph, Access (Store k f p)) \<in> below" "(ph, Access (RLock p)) \<in> below" "(ph, Access (RUnlock p)) \<in> below"
  "(ph, Access (Lock p)) \<in> below" "(ph, Access (Unlock p)) \<in> below"

lemma below_acc: "Access p \<in> Wellfounded.acc below \<and> Ready p \<in> Wellfounded.acc below"
proof (induction p)
  case (Read k c)
  have a: "Access (Read k c) \<in> Wellfounded.acc below"
    by (rule accI) (use Read.IH [OF rangeI] in \<open>auto simp: below_iff\<close>)
  have "Ready (Read k c) \<in> Wellfounded.acc below"
    by (rule accI) (use a in \<open>simp add: below_iff\<close>)
  with a show ?case by blast
qed (rule conjI; rule accI; auto simp: below_iff; rule accI; auto simp: below_iff)+

lemma wf_below: "wf below"
proof (rule acc_wfI, rule allI)
  fix ph :: "('v, 'r) phase"
  show "ph \<in> Wellfounded.acc below" by (cases ph) (simp_all add: below_acc)
qed

lemma update_below: "i < length xs \<Longrightarrow> xs ! i = ph \<Longrightarrow> (ph', ph) \<in> below \<Longrightarrow> (xs[i := ph'], xs) \<in> listrel1 below"
  unfolding listrel1_iff_update by (rule exI [of _ ph], rule exI [of _ i]) (metis length_list_update list_update_id list_update_overwrite nth_list_update_eq)

lemma step_below: "step s s' \<Longrightarrow> (threads s', threads s) \<in> listrel1 below"
  by (induction rule: step.induct) (auto intro!: update_below intro: below.intros)

lemma step_wf: "wfP (\<lambda>s' s. step s s')"
  using wf_subset [OF wf_inv_image [OF wf_listrel1_iff [THEN iffD2, OF wf_below], of threads]] step_below
  unfolding wfp_def by (metis (no_types, lifting) CollectD case_prodD in_inv_image prod.collapse subrelI)

lemma no_infinite_run: "\<nexists>f. f 0 = s \<and> (\<forall>n. step (f n) (f (Suc n)))"
  using step_wf unfolding wfp_def wf_iff_no_infinite_down_chain by blast

subsection \<open>Clients of the lock\<close>

text \<open>Functions that take and release the lock themselves, called one after the other by every worker.\<close>

primrec sequence :: "('v, 'r) prog list \<Rightarrow> ('v, 'r list) prog" where
  "sequence [] = Return []"
| "sequence (p # ps) = andThen p (\<lambda>r. andThen (sequence ps) (\<lambda>rs. Return (r # rs)))"

lemma guarded_andThen: "guarded p H \<Longrightarrow> (\<And>r. guarded (q r) Free) \<Longrightarrow> guarded (andThen p q) H"
  by (induction p arbitrary: H) auto

lemma guarded_sequence: "(\<And>p. p \<in> set ps \<Longrightarrow> guarded p Free) \<Longrightarrow> guarded (sequence ps) Free"
  by (induction ps) (auto intro!: guarded_andThen)

locale lock_client =
  fixes prog :: "'c \<Rightarrow> ('v, 'r) prog"
  assumes guarded_prog: "guarded (prog c) Free"
begin

lemma guarded_calls: "guarded (sequence (map prog calls)) Free"
  by (rule guarded_sequence) (auto simp: guarded_prog)

lemma never_race: "reachable m (map (\<lambda>calls. sequence (map prog calls)) workers) s \<Longrightarrow> \<not> race s"
  by (rule disciplined_no_race, erule disciplined_reachable) (use guarded_calls in auto)

lemma never_stuck:
  "reachable m (map (\<lambda>calls. sequence (map prog calls)) workers) s \<Longrightarrow>
   (\<exists>s'. step s s') \<or> (\<forall>ph\<in>set (threads s). \<exists>r. ph = Ready (Return r))"
  by (rule disciplined_progress, erule disciplined_reachable) (use guarded_calls in auto)

end

subsection \<open>The cache of scalable resources\<close>

datatype cache_call = GetCall string | SetCall string bool

fun cacheProg :: "cache_call \<Rightarrow> (bool, bool \<times> bool) prog" where
  "cacheProg (GetCall groupResource) = getKnownScalable groupResource"
| "cacheProg (SetCall groupResource scalable) =
     andThen (setKnownScalable groupResource scalable) (\<lambda>_. Return (scalable, True))"

interpretation cache: lock_client cacheProg
proof
  fix c
  show "guarded (cacheProg c) Free"
    by (cases c) (simp_all add: getKnownScalable_def setKnownScalable_def split: option.splits)
qed

text \<open>Alone, the programs are the functions of \<open>Gvkr\<close>.\<close>

lemma run_cache:
  "run (getKnownScalable g) m = (GetGroupResourceKnownScalable m g, m)"
  "run (setKnownScalable g b) m = ((), SetGroupResourceKnownScalable g b m)"
  by (simp_all add: getKnownScalable_def setKnownScalable_def GetGroupResourceKnownScalable_def
      SetGroupResourceKnownScalable_def)

text \<open>
  (C15) However many workers look up and store in the cache of scalable resources, and however their steps interleave, no
  write of the map ever overlaps another access of it; as long as a worker has not finished all its calls some worker can
  go on; and no run goes on for ever. So the read-write lock prevents races without deadlocks, and every run ends with all
  calls returned.
\<close>

theorem scalable_cache_safe:
  assumes "reachable m (map (\<lambda>calls. sequence (map cacheProg calls)) workers) s"
  shows "\<not> race s \<and> ((\<exists>s'. step s s') \<or> (\<forall>ph\<in>set (threads s). \<exists>r. ph = Ready (Return r))) \<and>
     (\<nexists>f. f 0 = s \<and> (\<forall>n. step (f n) (f (Suc n))))"
  using cache.never_race [OF assms] cache.never_stuck [OF assms] no_infinite_run [of s] by blast


lemma scalable_cache_safe_witness:
  "\<exists>s. reachable isScalableCache_init
      (map (\<lambda>calls. sequence (map cacheProg calls)) [[GetCall ''jobs.batch'', SetCall ''jobs.batch'' False], [GetCall ''jobs.batch'']]) s \<and>
    readers s = {0} \<and> \<not> race s \<and> ((\<exists>s'. step s s') \<or> (\<forall>ph\<in>set (threads s). \<exists>r. ph = Ready (Return r)))"
proof -
  let ?ps = "map (\<lambda>calls. sequence (map cacheProg calls)) [[GetCall ''jobs.batch'', SetCall ''jobs.batch'' False], [GetCall ''jobs.batch'']]"
  let ?s = "start isScalableCache_init ?ps"
  obtain c where c: "?ps ! 0 = RLock c" by (simp add: getKnownScalable_def)
  have "step ?s (goto 0 (Ready c) (?s\<lparr>readers := insert 0 (readers ?s)\<rparr>))"
    by (rule rlock) (use c in \<open>simp_all add: start_def\<close>)
  then have r: "reachable isScalableCache_init ?ps (goto 0 (Ready c) (?s\<lparr>readers := insert 0 (readers ?s)\<rparr>))" by (rule r_into_rtranclp)
  have "readers (goto 0 (Ready c) (?s\<lparr>readers := insert 0 (readers ?s)\<rparr>)) = {0}" by (simp add: start_def)
  with r scalable_cache_safe [OF r] show ?thesis by blast
qed

subsection \<open>Workers that own their keys\<close>

primrec own :: "string set \<Rightarrow> ('v, 'r) prog \<Rightarrow> bool" where
  "own K (Return r) \<longleftrightarrow> True"
| "own K (Read k c) \<longleftrightarrow> k \<in> K \<and> (\<forall>v. own K (c v))"
| "own K (Write k v c) \<longleftrightarrow> k \<in> K \<and> own K c"
| "own K (Store k f c) \<longleftrightarrow> k \<in> K \<and> own K c"
| "own K (RLock c) \<longleftrightarrow> own K c"
| "own K (RUnlock c) \<longleftrightarrow> own K c"
| "own K (Lock c) \<longleftrightarrow> own K c"
| "own K (Unlock c) \<longleftrightarrow> own K c"

definition same_on :: "string set \<Rightarrow> (string, 'v) fmap \<Rightarrow> (string, 'v) fmap \<Rightarrow> bool" where
  "same_on K m m' \<longleftrightarrow> (\<forall>k\<in>K. fmlookup m k = fmlookup m' k)"

lemma fmlookup_storeAt: "fmlookup (storeAt k f m) k' = (if k' = k then map_option f (fmlookup m k) else fmlookup m k')"
  by (auto simp: storeAt_def split: option.splits)

lemma run_same_on:
  "own K p \<Longrightarrow> same_on K m m' \<Longrightarrow> fst (run p m) = fst (run p m') \<and> same_on K (snd (run p m)) (snd (run p m'))"
proof (induction p arbitrary: m m')
  case (Read k c)
  then have "fmlookup m k = fmlookup m' k" by (simp add: same_on_def)
  with Read.IH [OF rangeI, of "fmlookup m' k" m m'] Read.prems show ?case by simp
next
  case (Write k v c)
  with Write.IH [of "fmupd k v m" "fmupd k v m'"] show ?case by (simp add: same_on_def)
next
  case (Store k f c)
  with Store.IH [of "storeAt k f m" "storeAt k f m'"] show ?case by (simp add: same_on_def fmlookup_storeAt)
qed auto

text \<open>What remains of every worker, run alone from here, gives what the worker gives alone from the start.\<close>

definition apart :: "(nat \<Rightarrow> string set) \<Rightarrow> (string, 'v) fmap \<Rightarrow> ('v, 'r) prog list \<Rightarrow> ('v, 'r) machine \<Rightarrow> bool" where
  "apart K m ps s \<longleftrightarrow> length (threads s) = length ps \<and>
     (\<forall>i<length ps. own (K i) (prog_of (threads s ! i)) \<and>
        fst (run (prog_of (threads s ! i)) (mem s)) = fst (run (ps ! i) m) \<and>
        same_on (K i) (snd (run (prog_of (threads s ! i)) (mem s))) (snd (run (ps ! i) m)))"

lemma apart_move:
  assumes "apart K m ps s" "thread_at s i ph" "threads s' = (threads s)[i := ph']" "own (K i) (prog_of ph')"
    and "run (prog_of ph') (mem s') = run (prog_of ph) (mem s)" "\<And>k. k \<notin> K i \<Longrightarrow> fmlookup (mem s') k = fmlookup (mem s) k"
    and disj: "\<And>j. j \<noteq> i \<Longrightarrow> j < length ps \<Longrightarrow> K i \<inter> K j = {}"
  shows "apart K m ps s'"
  unfolding apart_def
proof (intro conjI allI impI)
  show "length (threads s') = length ps" using assms(1,3) by (simp add: apart_def)
  fix j
  assume j: "j < length ps"
  have old: "own (K j) (prog_of (threads s ! j))" "fst (run (prog_of (threads s ! j)) (mem s)) = fst (run (ps ! j) m)"
    "same_on (K j) (snd (run (prog_of (threads s ! j)) (mem s))) (snd (run (ps ! j) m))"
    using assms(1) j by (simp_all add: apart_def)
  have same: "same_on (K j) (mem s') (mem s)" if "j \<noteq> i" using disj [OF that j] assms(6) by (auto simp: same_on_def)
  have t: "threads s' ! j = (if j = i then ph' else threads s ! j)" using assms(2,3) by (simp add: nth_list_update)
  show "own (K j) (prog_of (threads s' ! j))" using t assms(4) old(1) by simp
  show "fst (run (prog_of (threads s' ! j)) (mem s')) = fst (run (ps ! j) m)"
    using t assms(2,5) old(2) run_same_on [OF old(1) same] by auto
  show "same_on (K j) (snd (run (prog_of (threads s' ! j)) (mem s'))) (snd (run (ps ! j) m))"
    using t assms(2,5) old(3) run_same_on [OF old(1) same] by (auto simp: same_on_def)
qed

lemma apart_step:
  assumes "step s s'" "apart K m ps s" "\<And>i j. i \<noteq> j \<Longrightarrow> i < length ps \<Longrightarrow> j < length ps \<Longrightarrow> K i \<inter> K j = {}"
  shows "apart K m ps s'"
proof -
  have own: "own (K i) (prog_of ph)" "i < length ps" if "thread_at s i ph" for i ph
    using that assms(2) by (auto simp: apart_def)
  from assms(1) show ?thesis
  proof (cases rule: step.cases)
    case (begin_access i p)
    with own [OF begin_access(2)] show ?thesis by (intro apart_move [OF assms(2) begin_access(2), of _ "Access p"] assms(3)) auto
  next
    case (end_read i k c)
    with own [OF end_read(2)] show ?thesis by (intro apart_move [OF assms(2) end_read(2)] assms(3)) auto
  next
    case (end_write i k v c)
    with own [OF end_write(2)] show ?thesis by (intro apart_move [OF assms(2) end_write(2)] assms(3)) auto
  next
    case (end_store i k f c)
    with own [OF end_store(2)] show ?thesis
      by (intro apart_move [OF assms(2) end_store(2)] assms(3)) (auto simp: fmlookup_storeAt)
  next
    case (rlock i c)
    with own [OF rlock(2)] show ?thesis by (intro apart_move [OF assms(2) rlock(2)] assms(3)) auto
  next
    case (runlock i c)
    with own [OF runlock(2)] show ?thesis by (intro apart_move [OF assms(2) runlock(2)] assms(3)) auto
  next
    case (lock i c)
    with own [OF lock(2)] show ?thesis by (intro apart_move [OF assms(2) lock(2)] assms(3)) auto
  next
    case (unlock i c)
    with own [OF unlock(2)] show ?thesis by (intro apart_move [OF assms(2) unlock(2)] assms(3)) auto
  qed
qed

lemma apart_reachable:
  assumes "reachable m ps s" "\<And>i. i < length ps \<Longrightarrow> own (K i) (ps ! i)"
    and "\<And>i j. i \<noteq> j \<Longrightarrow> i < length ps \<Longrightarrow> j < length ps \<Longrightarrow> K i \<inter> K j = {}"
  shows "apart K m ps s"
  using assms(1)
proof (induction rule: rtranclp_induct)
  case base
  show ?case using assms(2) by (simp add: apart_def start_def same_on_def)
next
  case (step s s')
  from apart_step [OF step(2,3) assms(3)] show ?case by blast
qed

subsection \<open>The replicator\<close>

lemma own_andThen: "own K p \<Longrightarrow> (\<And>r. own K (q r)) \<Longrightarrow> own K (andThen p q)"
  by (induction p) auto

lemma run_andThen: "run (andThen p q) m = run (q (fst (run p m))) (snd (run p m))"
  by (induction p arbitrary: m) auto

lemma own_getDesired: "own {getUniqueKeyForAutoscaler (rc_Autoscaler ctx)} (getDesiredProg config clk ctx)"
  by (auto simp: getDesiredProg_def stabilizeProg_def Let_def split_def intro!: own_andThen split: option.splits)

lemma run_stabilize:
  assumes "fmlookup (historicalRecommendation r) key = Some recs"
  shows "stabilizeRecommendation now now' key d r =
     (fst (run (stabilizeProg (r_config r) now now' key d) (historicalRecommendation r)),
      r\<lparr>historicalRecommendation := snd (run (stabilizeProg (r_config r) now now' key d) (historicalRecommendation r))\<rparr>)"
  using assms by (simp add: stabilizeRecommendation_def stabilizeProg_def recsOf_def Let_def split_def storeAt_def split: option.splits)

text \<open>Alone, the program is the atomic call.\<close>

lemma run_getDesired:
  "GetDesiredReplicas clk ctx r =
     (Inr (fst (run (getDesiredProg (r_config r) clk ctx) (historicalRecommendation r))),
      r\<lparr>historicalRecommendation := snd (run (getDesiredProg (r_config r) clk ctx) (historicalRecommendation r))\<rparr>)"
proof -
  define key where "key = getUniqueKeyForAutoscaler (rc_Autoscaler ctx)"
  define m where "m = historicalRecommendation r"
  define r1 where "r1 = (case fmlookup m key of
      None \<Rightarrow> r\<lparr>historicalRecommendation := fmupd key [\<lparr>timestamp = clk 0, replicas = scale_Spec_Replicas (rc_Scale ctx)\<rparr>] m\<rparr>
    | Some _ \<Rightarrow> r)"
  obtain recs where recs: "fmlookup (historicalRecommendation r1) key = Some recs"
    by (cases "fmlookup m key") (auto simp: r1_def m_def)
  have c: "r_config r1 = r_config r" by (simp add: r1_def split: option.splits)
  have e: "run (getDesiredProg (r_config r) clk ctx) m =
      run (andThen (stabilizeProg (r_config r) (clk 1) (clk 2) key (maxOutput (rc_ScalersOutput ctx) 0)) (\<lambda>x.
            Return (if x \<noteq> maxOutput (rc_ScalersOutput ctx) 0 then x else maxOutput (rc_ScalersOutput ctx) 0)))
          (historicalRecommendation r1)"
    by (simp add: getDesiredProg_def Let_def key_def [symmetric] r1_def m_def split: option.splits)
  have u: "r1\<lparr>historicalRecommendation := x\<rparr> = r\<lparr>historicalRecommendation := x\<rparr>" for x
    by (simp add: r1_def split: option.splits)
  show ?thesis
    unfolding GetDesiredReplicas_def Let_def key_def [symmetric] m_def [symmetric] r1_def [symmetric] run_stabilize [OF recs] c e
    by (simp add: run_andThen u)
qed

text \<open>
  (C16) Workers that ask the simple replicator for different autoscalers at the same time do not disturb each other: in every
  interleaving of their accesses to the map of recommendations, a call that has returned has the answer of the call made alone
  on the map as it was at the start, and the recommendations of its autoscaler are those that the call leaves alone. The controller never
  reconciles one autoscaler in two workers at once, so that the atomic calls of the reconciler model stand for the
  concurrent ones, as far as single accesses of the map do not race.
\<close>

theorem replicator_workers_independent:
  assumes "reachable (historicalRecommendation r) (map (\<lambda>(clk, ctx). getDesiredProg (r_config r) clk ctx) calls) s"
    and "distinct (map (\<lambda>(clk, ctx). getUniqueKeyForAutoscaler (rc_Autoscaler ctx)) calls)"
    and "i < length calls" "calls ! i = (clk, ctx)" "threads s ! i = Ready (Return v)"
  shows "fst (GetDesiredReplicas clk ctx r) = Inr v \<and>
     fmlookup (mem s) (getUniqueKeyForAutoscaler (rc_Autoscaler ctx)) =
       fmlookup (historicalRecommendation (snd (GetDesiredReplicas clk ctx r))) (getUniqueKeyForAutoscaler (rc_Autoscaler ctx))"
proof -
  let ?key = "\<lambda>(clk :: nat \<Rightarrow> Time, ctx). getUniqueKeyForAutoscaler (rc_Autoscaler ctx)"
  define ps where "ps = map (\<lambda>(clk, ctx). getDesiredProg (r_config r) clk ctx) calls"
  have "apart (\<lambda>i. {?key (calls ! i)}) (historicalRecommendation r) ps s"
  proof (rule apart_reachable [OF assms(1) [folded ps_def]])
    show "own {?key (calls ! j)} (ps ! j)" if "j < length ps" for j
      using that own_getDesired by (simp add: ps_def split_def)
    show "{?key (calls ! j)} \<inter> {?key (calls ! k)} = {}" if "j \<noteq> k" "j < length ps" "k < length ps" for j k
      using nth_eq_iff_index_eq [OF assms(2), of j k] that by (simp add: ps_def)
  qed
  then have "fst (run (Return v) (mem s)) = fst (run (ps ! i) (historicalRecommendation r))"
    "same_on {?key (calls ! i)} (snd (run (Return v) (mem s))) (snd (run (ps ! i) (historicalRecommendation r)))"
    using assms(3,5) by (auto simp: apart_def ps_def)
  moreover have "ps ! i = getDesiredProg (r_config r) clk ctx" using assms(3,4) by (simp add: ps_def)
  ultimately show ?thesis unfolding run_getDesired [of clk ctx r] using assms(4) by (simp add: same_on_def)
qed

text \<open>A program without locks can be run to its end from any state, whatever the other workers are at.\<close>

primrec lock_free :: "('v, 'r) prog \<Rightarrow> bool" where
  "lock_free (Return r) \<longleftrightarrow> True"
| "lock_free (Read k c) \<longleftrightarrow> (\<forall>v. lock_free (c v))"
| "lock_free (Write k v c) \<longleftrightarrow> lock_free c"
| "lock_free (Store k f c) \<longleftrightarrow> lock_free c"
| "lock_free (RLock c) \<longleftrightarrow> False"
| "lock_free (RUnlock c) \<longleftrightarrow> False"
| "lock_free (Lock c) \<longleftrightarrow> False"
| "lock_free (Unlock c) \<longleftrightarrow> False"

lemma goto_goto [simp]: "goto i ph (goto i ph' s) = goto i ph s"
  by (simp add: goto_def)

lemma goto_mem [simp]: "(goto i ph s)\<lparr>mem := m\<rparr> = goto i ph (s\<lparr>mem := m\<rparr>)"
  by (simp add: goto_def)

lemma access_steps:
  assumes "thread_at s i (Ready p)" "is_access p" "step (goto i (Access p) s) s2" "step\<^sup>*\<^sup>* s2 s3"
  shows "step\<^sup>*\<^sup>* s s3"
  using begin_access [OF assms(1,2)] assms(3,4) by (meson converse_rtranclp_into_rtranclp)

lemma lock_free_finishes:
  assumes "lock_free p" "thread_at s i (Ready p)"
  shows "step\<^sup>*\<^sup>* s (goto i (Ready (Return (fst (run p (mem s))))) (s\<lparr>mem := snd (run p (mem s))\<rparr>))"
  using assms
proof (induction p arbitrary: s)
  case (Return r)
  then have "goto i (Ready (Return r)) (s\<lparr>mem := mem s\<rparr>) = s" by (simp add: goto_def list_update_same_conv)
  then show ?case by simp
next
  case (Read k c)
  show ?case
  proof (rule access_steps [OF Read.prems(2)])
    show "step (goto i (Access (Read k c)) s) (goto i (Ready (c (fmlookup (mem s) k))) s)"
      using end_read [where s = "goto i (Access (Read k c)) s" and i = i and k = k and c = c] Read.prems(2) by simp
    from Read.IH [OF rangeI, of "fmlookup (mem s) k" "goto i (Ready (c (fmlookup (mem s) k))) s"] Read.prems
    show "step\<^sup>*\<^sup>* (goto i (Ready (c (fmlookup (mem s) k))) s)
        (goto i (Ready (Return (fst (run (Read k c) (mem s))))) (s\<lparr>mem := snd (run (Read k c) (mem s))\<rparr>))" by simp
  qed simp
next
  case (Write k v c)
  let ?s = "goto i (Ready c) (s\<lparr>mem := fmupd k v (mem s)\<rparr>)"
  show ?case
  proof (rule access_steps [OF Write.prems(2)])
    show "step (goto i (Access (Write k v c)) s) ?s"
      using end_write [where s = "goto i (Access (Write k v c)) s" and i = i and k = k and v = v and c = c] Write.prems(2) by simp
    from Write.IH [of ?s] Write.prems
    show "step\<^sup>*\<^sup>* ?s (goto i (Ready (Return (fst (run (Write k v c) (mem s))))) (s\<lparr>mem := snd (run (Write k v c) (mem s))\<rparr>))"
      by simp
  qed simp
next
  case (Store k f c)
  let ?s = "goto i (Ready c) (s\<lparr>mem := storeAt k f (mem s)\<rparr>)"
  show ?case
  proof (rule access_steps [OF Store.prems(2)])
    show "step (goto i (Access (Store k f c)) s) ?s"
      using end_store [where s = "goto i (Access (Store k f c)) s" and i = i and k = k and f = f and c = c] Store.prems(2) by simp
    from Store.IH [of ?s] Store.prems
    show "step\<^sup>*\<^sup>* ?s (goto i (Ready (Return (fst (run (Store k f c) (mem s))))) (s\<lparr>mem := snd (run (Store k f c) (mem s))\<rparr>))"
      by simp
  qed simp
qed simp_all

lemma lock_free_andThen: "lock_free p \<Longrightarrow> (\<And>r. lock_free (q r)) \<Longrightarrow> lock_free (andThen p q)"
  by (induction p) auto

lemma lock_free_getDesired: "lock_free (getDesiredProg config clk ctx)"
  by (auto simp: getDesiredProg_def stabilizeProg_def Let_def split_def intro!: lock_free_andThen split: option.splits)

definition workerCtx :: "string \<Rightarrow> ReplicatorContext" where
  "workerCtx name =
     \<lparr>rc_Autoscaler = \<lparr>ra_Name = name, ra_Namespace = ''default'', ra_Generation = 1, ra_DeletionTimestamp = None,
        ra_Annotations = fmempty,
        ra_Spec = \<lparr>spec_Replicator = None, spec_ReplicatorSettings = None,
          spec_ScaleTargetRef = \<lparr>ref_Kind = ''Deployment'', ref_Name = name, ref_APIVersion = ''apps/v1''\<rparr>,
          spec_MinReplicas = Some 1, spec_MaxReplicas = 9, spec_Targets = [], spec_Strategy = None, spec_Exhaust = None\<rparr>,
        ra_Status = zeroStatus\<rparr>,
      rc_Scale = \<lparr>scale_Name = name, scale_Namespace = ''default'', scale_Spec_Replicas = 4, scale_Status_Replicas = 4,
        scale_Status_Selector = []\<rparr>,
      rc_ScalersOutput = []\<rparr>"

definition freshReplicator :: replicator where
  "freshReplicator = \<lparr>r_config = Simple_NewDefaultConfig, historicalRecommendation = fmempty\<rparr>"

lemma replicator_workers_independent_witness:
  "\<exists>s v. reachable fmempty
      (map (\<lambda>(clk, ctx). getDesiredProg Simple_NewDefaultConfig clk ctx) [(\<lambda>_. 0, workerCtx ''a''), (\<lambda>_. 0, workerCtx ''b'')]) s \<and>
    threads s ! 1 = Ready (Return v) \<and> fst (GetDesiredReplicas (\<lambda>_. 0) (workerCtx ''b'') freshReplicator) = Inr v"
proof -
  let ?calls = "[(\<lambda>_. 0 :: Time, workerCtx ''a''), (\<lambda>_. 0, workerCtx ''b'')] :: ((nat \<Rightarrow> Time) \<times> ReplicatorContext) list"
  let ?ps = "map (\<lambda>(clk, ctx). getDesiredProg Simple_NewDefaultConfig clk ctx) ?calls"
  let ?s = "start fmempty ?ps"
  have "thread_at ?s 1 (Ready (getDesiredProg Simple_NewDefaultConfig (\<lambda>_. 0) (workerCtx ''b'')))" by (simp add: start_def)
  from lock_free_finishes [OF lock_free_getDesired this] obtain v m where
    r: "reachable fmempty ?ps (goto 1 (Ready (Return v)) (?s\<lparr>mem := m\<rparr>))" by blast
  have t: "threads (goto 1 (Ready (Return v)) (?s\<lparr>mem := m\<rparr>)) ! 1 = Ready (Return v)" by (simp add: start_def)
  have "distinct (map (\<lambda>(clk, ctx). getUniqueKeyForAutoscaler (rc_Autoscaler ctx)) ?calls)"
    by (simp add: getUniqueKeyForAutoscaler_def workerCtx_def)
  then have "fst (GetDesiredReplicas (\<lambda>_. 0) (workerCtx ''b'') freshReplicator) = Inr v"
    using replicator_workers_independent [of freshReplicator ?calls _ 1 "\<lambda>_. 0" "workerCtx ''b''" v] r t
    by (simp add: freshReplicator_def)
  with r t show ?thesis by blast
qed

text \<open>
  (C17) The map of recommendations is not protected: on a fresh replicator, two workers, for whatever autoscalers, can come to a
  state in which the first writes the map while the second reads it, which the Go runtime answers by stopping the process. With one worker it
  cannot happen.
\<close>

theorem replicator_race_possible:
  "(\<exists>s. reachable fmempty [getDesiredProg config clk1 ctx1, getDesiredProg config clk2 ctx2] s \<and> race s) \<and>
   (\<nexists>s. reachable fmempty [getDesiredProg config clk1 ctx1] s \<and> race s)"
proof
  let ?ps = "[getDesiredProg config clk1 ctx1, getDesiredProg config clk2 ctx2]"
  define p1 where "p1 = getDesiredProg config clk1 ctx1"
  define p2 where "p2 = getDesiredProg config clk2 ctx2"
  obtain k1 c1 v rest where p1: "p1 = Read k1 c1" "c1 None = Write k1 v rest" by (simp add: p1_def getDesiredProg_def Let_def)
  obtain k2 c2 where p2: "p2 = Read k2 c2" by (simp add: p2_def getDesiredProg_def Let_def)
  define s0 where "s0 = start fmempty [p1, p2]"
  define s1 where "s1 = goto 0 (Access p1) s0"
  define s2 where "s2 = goto 0 (Ready (Write k1 v rest)) s1"
  define s3 where "s3 = goto 0 (Access (Write k1 v rest)) s2"
  define s4 where "s4 = goto 1 (Access p2) s3"
  have "step s0 s1" unfolding s1_def by (rule begin_access) (simp_all add: s0_def start_def p1(1))
  moreover have "step s1 s2"
    using end_read [where s = s1 and i = 0 and k = k1 and c = c1] by (simp add: s1_def s2_def s0_def start_def p1)
  moreover have "step s2 s3" unfolding s3_def by (rule begin_access) (simp_all add: s2_def s1_def s0_def start_def)
  moreover have "step s3 s4" unfolding s4_def by (rule begin_access) (simp_all add: s3_def s2_def s1_def s0_def start_def p2)
  ultimately have "reachable fmempty [p1, p2] s4" unfolding s0_def by (meson converse_rtranclp_into_rtranclp r_into_rtranclp)
  moreover have "race s4"
    unfolding race_def
    by (rule exI [of _ 0], rule exI [of _ 1], rule exI [of _ "Write k1 v rest"], rule exI [of _ p2])
      (simp add: s4_def s3_def s2_def s1_def s0_def start_def)
  ultimately show "\<exists>s. reachable fmempty ?ps s \<and> race s" unfolding p1_def p2_def by blast
next
  have "length (threads s) = 1" if "reachable fmempty [getDesiredProg config clk1 ctx1] s" for s
    using that by (induction rule: rtranclp_induct) (auto simp: start_def elim: step.cases)
  then show "\<nexists>s. reachable fmempty [getDesiredProg config clk1 ctx1] s \<and> race s" by (fastforce simp: race_def)
qed

end
