(* ===== verification/Fleet.thy ===== *)
theory Fleet
  imports Controller_Loop Workers
begin

text \<open>
  Many autoscalers, one process: the requests of all objects are served by the same \<^verbatim>\<open>ReplicaAutoscalerReconciler\<close>
  (\<^verbatim>\<open>controllers/replicaautoscaler_controller.go\<close>), which shares the engine, the state of its replicators and the cache of
  scalable resources between them.

  A request is served in a world of its own (clock, API answers, metrics). \<open>serve\<close> serves a sequence of requests and lists the outcome of each: the answer to the
  manager, the events, the scale updates and the writes. What is asked of a replicator is the locale \<open>keyed_replicator\<close>: it keeps its state by
  the key of the autoscaler. Shown: an autoscaler is served as if it were alone; whatever requests of other objects come between its own,
  their outcomes and its state in the replicators are the same.
\<close>

subsection \<open>Requests\<close>

type_synonym request = "World \<times> string \<times> string"

record Outcome =
  oc_Answer :: "Duration \<times> goerr option"
  oc_Events :: "Event list"
  oc_Updates :: "ScaleUpdate list"
  oc_Writes :: "ObjectWrite list"

definition serveOne :: "'r GetDesired \<Rightarrow> request \<Rightarrow> ('r, 'y, 'm) RState \<Rightarrow> (Outcome \<times> ('r, 'y, 'm) RState) exec" where
  "serveOne getDesired req st =
     (case req of (w, namespace, name) \<Rightarrow>
        exec_bind (Reconcile getDesired w namespace name st) (\<lambda>(answer, st').
          Ret (\<lparr>oc_Answer = answer,
                oc_Events = drop (length (rs_Events st)) (rs_Events st'),
                oc_Updates = drop (length (rs_Updates st)) (rs_Updates st'),
                oc_Writes = drop (length (rs_Writes st)) (rs_Writes st')\<rparr>, st')))"

fun serve :: "'r GetDesired \<Rightarrow> request list \<Rightarrow> ('r, 'y, 'm) RState \<Rightarrow> (Outcome list \<times> ('r, 'y, 'm) RState) exec" where
  "serve getDesired [] st = Ret ([], st)"
| "serve getDesired (req # reqs) st =
     exec_bind (serveOne getDesired req st) (\<lambda>(outcome, st1).
       exec_bind (serve getDesired reqs st1) (\<lambda>(outcomes, st2). Ret (outcome # outcomes, st2)))"

text \<open>A request concerns the object that its world's cache holds for it.\<close>

definition concerns :: "string \<Rightarrow> request \<Rightarrow> bool" where
  "concerns key req \<longleftrightarrow>
     (case req of (w, namespace, name) \<Rightarrow>
        (case w_CacheGet w namespace name of Inl _ \<Rightarrow> False | Inr ra \<Rightarrow> getUniqueKeyForAutoscaler ra = key))"

lemma key_status [simp]: "getUniqueKeyForAutoscaler (ra\<lparr>ra_Status := s\<rparr>) = getUniqueKeyForAutoscaler ra"
  by (simp add: getUniqueKeyForAutoscaler_def)

lemma key_purged [simp]: "getUniqueKeyForAutoscaler (purgedObject w ra) = getUniqueKeyForAutoscaler ra"
  by (auto simp: getUniqueKeyForAutoscaler_def purgedObject_def PurgeUnusedReplicaPatches_def Let_def split: sum.splits option.splits)

lemma key_setStatus [simp]: "getUniqueKeyForAutoscaler (rs_Autoscaler (setStatus s st)) = getUniqueKeyForAutoscaler (rs_Autoscaler st)"
  by (simp add: setStatus_def)

lemma key_same_object: "same_object st st' \<Longrightarrow> getUniqueKeyForAutoscaler (rs_Autoscaler st') = getUniqueKeyForAutoscaler (rs_Autoscaler st)"
  by (auto simp: same_object_def)

subsection \<open>Engines that are alike for a key\<close>

definition engine_alike ::
  "('r \<Rightarrow> 'r \<Rightarrow> bool) \<Rightarrow> ('r, 'y, 'm) engineProvisioner \<Rightarrow> ('r, 'y, 'm) engineProvisioner \<Rightarrow> bool" where
  "engine_alike alike e e' \<longleftrightarrow>
     ep_scalers e' = ep_scalers e \<and> (\<forall>n. rel_option alike (GetReplicator e n) (GetReplicator e' n))"

text \<open>States that are alike: the same object, engines that are alike, and logs with the same additions to their starts \<open>L\<close> and \<open>M\<close>.
  The cache of scalable resources is left out: it is written and read, but nothing depends on it.\<close>

type_synonym logs = "Event list \<times> ScaleUpdate list \<times> ObjectWrite list"

definition logged :: "logs \<Rightarrow> logs \<Rightarrow> ('r, 'y, 'm) RState \<Rightarrow> ('r, 'y, 'm) RState \<Rightarrow> bool" where
  "logged L M st t \<longleftrightarrow>
     (\<exists>es us ws. rs_Events st = fst L @ es \<and> rs_Events t = fst M @ es \<and>
        rs_Updates st = fst (snd L) @ us \<and> rs_Updates t = fst (snd M) @ us \<and>
        rs_Writes st = snd (snd L) @ ws \<and> rs_Writes t = snd (snd M) @ ws)"

definition twin ::
  "('r \<Rightarrow> 'r \<Rightarrow> bool) \<Rightarrow> logs \<Rightarrow> logs \<Rightarrow> ('r, 'y, 'm) RState \<Rightarrow> ('r, 'y, 'm) RState \<Rightarrow> bool" where
  "twin alike L M st t \<longleftrightarrow>
     rs_Autoscaler t = rs_Autoscaler st \<and> engine_alike alike (rs_Engine st) (rs_Engine t) \<and> logged L M st t"

lemma twin_object: "twin alike L M st t \<Longrightarrow> rs_Autoscaler t = rs_Autoscaler st"
  by (simp add: twin_def)

lemma twin_scaler: "twin alike L M st t \<Longrightarrow> GetScaler (rs_Engine t) n = GetScaler (rs_Engine st) n"
  by (simp add: twin_def engine_alike_def GetScaler_def)

lemma twin_setStatus: "twin alike L M st t \<Longrightarrow> twin alike L M (setStatus s st) (setStatus s t)"
  by (auto simp: twin_def setStatus_def logged_def)

lemma twin_setCond: "twin alike L M st t \<Longrightarrow> twin alike L M (setCond now c st) (setCond now c t)"
  using twin_setStatus [of alike L M st t] by (simp add: setCond_def twin_object)

lemma twin_Eventf: "twin alike L M st t \<Longrightarrow> twin alike L M (Eventf ty re msg st) (Eventf ty re msg t)"
  by (auto simp: twin_def Eventf_def logged_def)

lemma twin_scalingEvent: "twin alike L M st t \<Longrightarrow> twin alike L M (scalingEvent a b st) (scalingEvent a b t)"
  by (simp add: scalingEvent_def twin_Eventf)

lemma twin_cache: "twin alike L M st t \<Longrightarrow> twin alike L M (st\<lparr>rs_ScalableCache := c\<rparr>) (t\<lparr>rs_ScalableCache := c'\<rparr>)"
  by (simp add: twin_def logged_def)

lemma twin_update: "twin alike L M st t \<Longrightarrow> twin alike L M (st\<lparr>rs_Updates := rs_Updates st @ us\<rparr>) (t\<lparr>rs_Updates := rs_Updates t @ us\<rparr>)"
  by (auto simp: twin_def logged_def)

lemma twin_write: "twin alike L M st t \<Longrightarrow> twin alike L M (st\<lparr>rs_Writes := rs_Writes st @ ws\<rparr>) (t\<lparr>rs_Writes := rs_Writes t @ ws\<rparr>)"
  by (auto simp: twin_def logged_def)

lemmas twin_intros = twin_setStatus twin_setCond twin_Eventf twin_scalingEvent twin_cache twin_update twin_write

subsection \<open>The parts of a reconciliation on states that are alike\<close>

lemma rel_exec_bind:
  assumes "rel_exec R m m'" "\<And>x y. R x y \<Longrightarrow> rel_exec S (k x) (k' y)"
  shows "rel_exec S (exec_bind m k) (exec_bind m' k')"
  using assms by (cases m; cases m') auto

lemma getScaleTarget_fst: "fst (getScaleTarget w ra c) = fst (getScaleTarget w ra c')"
  by (auto simp: getScaleTarget_def isTargetScalable_def Let_def split: sum.splits option.splits prod.splits)

lemma scaleReplicas_twin:
  assumes "twin alike L M st t"
  shows "rel_prod (=) (twin alike L M) (scaleReplicas w gvkr scale n st) (scaleReplicas w gvkr scale n t)"
proof -
  define st1 where "st1 = setStatus ((rs_Status st)\<lparr>st_DesiredReplicas := n\<rparr>) st"
  define t1 where "t1 = setStatus ((rs_Status t)\<lparr>st_DesiredReplicas := n\<rparr>) t"
  have s1: "twin alike L M st1 t1" unfolding st1_def t1_def twin_object [OF assms] by (rule twin_setStatus [OF assms])
  note upd = twin_update [OF s1]
  show ?thesis
    unfolding scaleReplicas_def st1_def [symmetric] t1_def [symmetric] Let_def twin_object [OF s1]
    by (auto simp: twin_object [OF s1] intro!: twin_setStatus twin_setCond upd s1 split: option.splits)
qed

lemma updateExhaustedAutoscaler_twin:
  assumes "twin alike L M st t"
  shows "rel_exec (rel_prod (=) (rel_prod (=) (twin alike L M))) (updateExhaustedAutoscaler w scale st) (updateExhaustedAutoscaler w scale t)"
  unfolding updateExhaustedAutoscaler_def Let_def twin_object [OF assms]
  by (auto simp: nilDeref_def intro!: twin_setCond assms split: option.splits sum.splits prod.splits)

lemma replicaRange_twin:
  assumes "twin alike L M st t"
  shows "rel_exec (rel_prod (=) (rel_prod (=) (twin alike L M))) (replicaRange w st) (replicaRange w t)"
proof -
  define st1 where "st1 = setCond (w_Clock w AtUnpatched) (mkCondition ConditionReplicaPatched ConditionFalse ''No replica patch applied'' []) st"
  define t1 where "t1 = setCond (w_Clock w AtUnpatched) (mkCondition ConditionReplicaPatched ConditionFalse ''No replica patch applied'' []) t"
  have s1: "twin alike L M st1 t1" unfolding st1_def t1_def by (rule twin_setCond [OF assms])
  show ?thesis
    unfolding replicaRange_def st1_def [symmetric] t1_def [symmetric] Let_def twin_object [OF s1] twin_object [OF assms]
    by (auto intro!: s1 twin_setCond split: exec.splits sum.splits option.splits)
qed

lemma updatePanicMode_twin:
  assumes "twin alike L M st t"
  shows "rel_prod (=) (twin alike L M) (updatePanicMode w u scale n st) (updatePanicMode w u scale n t)"
  unfolding updatePanicMode_def Let_def twin_object [OF assms]
  by (auto intro!: twin_setCond twin_Eventf assms)

lemma applyReplicas_twin:
  assumes "twin alike L M st t"
  shows "rel_exec (rel_prod (=) (twin alike L M)) (applyReplicas w u gvkr scale n st) (applyReplicas w u gvkr scale n t)"
proof -
  define F where "F lo hi st1 =
      (let (desiredReplicas, scalingLimitedReason) = limitReplicas lo hi n;
           st2 = scalingEvent (scale_Spec_Replicas scale) desiredReplicas st1;
           st3 = setCond (w_Clock w AtLimited) (limitedCondition scalingLimitedReason) st2
       in case scaleReplicas w gvkr scale desiredReplicas st3 of
            (Some err, st4) \<Rightarrow> Ret (RequeueDelayOnErrorState, st4)
          | (None, st4) \<Rightarrow> Ret (updatePanicMode w u scale desiredReplicas st4))" for lo hi and st1 :: "('a, 'b, 'c) RState"
  have app: "applyReplicas w u gvkr scale n s = exec_bind (replicaRange w s) (\<lambda>(lo, hi, st1). F lo hi st1)" for s
    by (simp add: applyReplicas_def F_def)
  have F: "rel_exec (rel_prod (=) (twin alike L M)) (F lo hi a) (F lo hi b)" if "twin alike L M a b" for lo hi a b
  proof -
    obtain d reason where l: "limitReplicas lo hi n = (d, reason)" by fastforce
    let ?next = "\<lambda>s. setCond (w_Clock w AtLimited) (limitedCondition reason) (scalingEvent (scale_Spec_Replicas scale) d s)"
    have "rel_prod (=) (twin alike L M) (scaleReplicas w gvkr scale d (?next a)) (scaleReplicas w gvkr scale d (?next b))"
      by (rule scaleReplicas_twin [OF twin_setCond [OF twin_scalingEvent [OF that]]])
    then obtain e a' b' where "scaleReplicas w gvkr scale d (?next a) = (e, a')" "scaleReplicas w gvkr scale d (?next b) = (e, b')"
      "twin alike L M a' b'" by (cases rule: rel_prod.cases) auto
    then show ?thesis by (auto simp: F_def l Let_def intro: updatePanicMode_twin split: option.splits)
  qed
  show ?thesis unfolding app by (rule rel_exec_bind [OF replicaRange_twin [OF assms]]) (auto intro: F)
qed

lemma scalerLoop_twin:
  assumes "twin alike L M st t"
  shows "rel_exec (rel_prod (=) (twin alike L M)) (scalerLoop w now selector scale i targets outputs managed st)
    (scalerLoop w now selector scale i targets outputs managed t)"
  using assms
proof (induction targets arbitrary: i outputs managed st t)
  case (Cons target targets)
  show ?case
    unfolding scalerLoop.simps twin_object [OF Cons.prems] twin_scaler [OF Cons.prems]
    by (auto intro!: Cons.IH twin_setStatus twin_setCond Cons.prems split: exec.splits sum.splits option.splits prod.splits)
qed simp

text \<open>The branch without a minimum, and the condition set at the end.\<close>

lemma static_twin:
  assumes "twin alike L M st t"
  shows "rel_exec (rel_prod (=) (twin alike L M))
    (case scaleReplicas w gvkr scale n st of (Some err, st3) \<Rightarrow> Ret (RequeueDelayOnErrorState, st3) | (None, st3) \<Rightarrow> Ret (d, st3))
    (case scaleReplicas w gvkr scale n t of (Some err, st3) \<Rightarrow> Ret (RequeueDelayOnErrorState, st3) | (None, st3) \<Rightarrow> Ret (d, st3))"
  using scaleReplicas_twin [OF assms, of w gvkr scale n] by (auto simp: rel_prod_sel split: prod.splits option.splits)

lemma ready_twin:
  assumes "rel_exec (rel_prod (=) (twin alike L M)) m m'"
  shows "rel_exec (rel_prod (=) (twin alike L M)) (exec_bind m (\<lambda>(d, s). Ret (d, setCond now c s))) (exec_bind m' (\<lambda>(d, s). Ret (d, setCond now c s)))"
  using assms by (rule rel_exec_bind) (auto intro: twin_setCond)

lemma updateAutoscalerIfNeeded_twin:
  assumes "twin alike L M st t"
  shows "rel_prod (=) (twin alike L M) (updateAutoscalerIfNeeded w ra st) (updateAutoscalerIfNeeded w ra t)"
  unfolding updateAutoscalerIfNeeded_def Let_def twin_object [OF assms] by (simp add: assms twin_write [OF assms])

lemma finish_twin:
  assumes "twin alike L M st t"
  shows "rel_exec (rel_prod (=) (twin alike L M))
    (case updateAutoscalerIfNeeded w ra st of ((du, Some err), st2) \<Rightarrow> Ret ((du, Some err), st2) | ((_, None), st2) \<Rightarrow> Ret ((d, None), st2))
    (case updateAutoscalerIfNeeded w ra t of ((du, Some err), st2) \<Rightarrow> Ret ((du, Some err), st2) | ((_, None), st2) \<Rightarrow> Ret ((d, None), st2))"
  using updateAutoscalerIfNeeded_twin [OF assms, of w ra] by (auto simp: rel_prod_sel split: prod.splits option.splits)

subsection \<open>What leaves the engine alone\<close>

lemma scaleReplicas_engine: "rs_Engine (snd (scaleReplicas w gvkr scale n st)) = rs_Engine st"
  by (auto simp: scaleReplicas_def Let_def split: option.splits)

lemma updatePanicMode_engine: "rs_Engine (snd (updatePanicMode w u scale n st)) = rs_Engine st"
  by (auto simp: updatePanicMode_def Let_def)

lemma replicaRange_engine: "replicaRange w st = Ret (lo, hi, st') \<Longrightarrow> rs_Engine st' = rs_Engine st"
  by (auto simp: replicaRange_def Let_def split: exec.splits sum.splits option.splits)

lemma applyReplicas_engine:
  assumes "applyReplicas w u gvkr scale n st = Ret (d, st')" shows "rs_Engine st' = rs_Engine st"
proof -
  obtain lo hi st1 where r: "replicaRange w st = Ret (lo, hi, st1)" using assms by (auto simp: applyReplicas_def exec_bind_Ret_iff)
  obtain k reason where l: "limitReplicas lo hi n = (k, reason)" by fastforce
  define st3 where "st3 = setCond (w_Clock w AtLimited) (limitedCondition reason) (scalingEvent (scale_Spec_Replicas scale) k st1)"
  obtain e st4 where sc: "scaleReplicas w gvkr scale k st3 = (e, st4)" by fastforce
  have "rs_Engine st4 = rs_Engine st"
    using scaleReplicas_engine [of w gvkr scale k st3] replicaRange_engine [OF r] unfolding sc by (simp add: st3_def)
  moreover have "st' = (if e = None then snd (updatePanicMode w u scale k st4) else st4)"
    using assms by (auto simp: applyReplicas_def r l st3_def [symmetric] sc Let_def split: option.splits)
  ultimately show ?thesis by (simp add: updatePanicMode_engine)
qed

lemma updateAutoscalerIfNeeded_engine: "rs_Engine (snd (updateAutoscalerIfNeeded w ra st)) = rs_Engine st"
  by (auto simp: updateAutoscalerIfNeeded_def Let_def)

subsection \<open>A replicator that keeps its state by key\<close>

text \<open>\<open>alike key r r'\<close>: the two states hold the same for the autoscaler of that key. A call for an autoscaler answers by what the state
  holds for it, and changes nothing of the others.\<close>

locale keyed_replicator =
  fixes getDesired :: "'r GetDesired" and alike :: "string \<Rightarrow> 'r \<Rightarrow> 'r \<Rightarrow> bool"
  assumes alike_refl: "alike key r r"
    and alike_sym: "alike key r r' \<Longrightarrow> alike key r' r"
    and alike_trans: "alike key r r' \<Longrightarrow> alike key r' r'' \<Longrightarrow> alike key r r''"
    and own_key: "alike (getUniqueKeyForAutoscaler (rc_Autoscaler ctx)) r r' \<Longrightarrow>
      fst (getDesired clk ctx r) = fst (getDesired clk ctx r') \<and>
      alike (getUniqueKeyForAutoscaler (rc_Autoscaler ctx)) (snd (getDesired clk ctx r)) (snd (getDesired clk ctx r'))"
    and other_key: "getUniqueKeyForAutoscaler (rc_Autoscaler ctx) \<noteq> key \<Longrightarrow> alike key r (snd (getDesired clk ctx r))"
begin

lemma engine_alike_refl: "engine_alike (alike key) e e"
  by (auto simp: engine_alike_def alike_refl intro: option.rel_refl)

lemma engine_alike_trans:
  "engine_alike (alike key) e e' \<Longrightarrow> engine_alike (alike key) e' e'' \<Longrightarrow> engine_alike (alike key) e e''"
  unfolding engine_alike_def by (metis (no_types, lifting) alike_trans option.rel_sel)

lemma engine_alike_sym: "engine_alike (alike key) e e' \<Longrightarrow> engine_alike (alike key) e' e"
  unfolding engine_alike_def by (metis (no_types, lifting) alike_sym option.rel_sel)

lemma twin_replicator:
  assumes "twin (alike key) L M st t" "alike key r r'"
  shows "twin (alike key) L M (st\<lparr>rs_Engine := AddReplicator n r (rs_Engine st)\<rparr>) (t\<lparr>rs_Engine := AddReplicator n r' (rs_Engine t)\<rparr>)"
  using assms by (auto simp: twin_def logged_def engine_alike_def AddReplicator_def GetReplicator_def)

lemma askReplicator_twin:
  assumes "twin (alike key) L M st t" "getUniqueKeyForAutoscaler (rs_Autoscaler st) = key"
  shows "rel_exec (rel_prod (=) (twin (alike key) L M)) (askReplicator getDesired w u gvkr scale outputs st)
    (askReplicator getDesired w u gvkr scale outputs t)"
proof -
  define n where "n = (case spec_Replicator (ra_Spec (rs_Autoscaler st)) of None \<Rightarrow> DefaultReplicator | Some n \<Rightarrow> n)"
  let ?ctx = "\<lparr>rc_Autoscaler = rs_Autoscaler st, rc_Scale = scale, rc_ScalersOutput = outputs\<rparr>"
  let ?clk = "\<lambda>k. w_Clock w (AtReplicator k)"
  have rel: "rel_option (alike key) (GetReplicator (rs_Engine st) n) (GetReplicator (rs_Engine t) n)"
    using assms(1) by (simp add: twin_def engine_alike_def)
  show ?thesis
  proof (cases "GetReplicator (rs_Engine st) n")
    case None
    with rel have "GetReplicator (rs_Engine t) n = None" by simp
    with None show ?thesis
      unfolding askReplicator_def twin_object [OF assms(1)] n_def [symmetric] Let_def by (simp add: twin_setCond [OF assms(1)])
  next
    case (Some r)
    with rel obtain r' where r': "GetReplicator (rs_Engine t) n = Some r'" "alike key r r'" by (cases "GetReplicator (rs_Engine t) n") auto
    obtain x a where a: "getDesired ?clk ?ctx r = (x, a)" by fastforce
    obtain x' b where b: "getDesired ?clk ?ctx r' = (x', b)" by fastforce
    have xy: "x' = x" "alike key a b" using own_key [where ctx = ?ctx and clk = ?clk and r = r and r' = r'] assms(2) r'(2) a b by simp_all
    note tw = twin_replicator [OF assms(1) xy(2), of n]
    show ?thesis
      unfolding askReplicator_def twin_object [OF assms(1)] n_def [symmetric] Let_def Some r'(1) option.case a b prod.case xy(1)
      by (cases x) (simp_all add: tw applyReplicas_twin [OF tw])
  qed
qed

lemma reconcileAutoscaling_twin:
  assumes "twin (alike key) L M st t" "getUniqueKeyForAutoscaler (rs_Autoscaler st) = key"
  shows "rel_exec (rel_prod (=) (twin (alike key) L M)) (reconcileAutoscaling getDesired w gvkr scale st)
    (reconcileAutoscaling getDesired w gvkr scale t)"
proof (cases "w_LabelsParse w (scale_Status_Selector scale)")
  case (Inr selector)
  let ?loop = "\<lambda>s. scalerLoop w (w_Clock w AtReconcile) selector scale 0 (spec_Targets (ra_Spec (rs_Autoscaler st))) [] [] s"
  have loop: "rel_exec (\<lambda>x y. rel_prod (=) (twin (alike key) L M) x y \<and> getUniqueKeyForAutoscaler (rs_Autoscaler (snd x)) = key) (?loop st) (?loop t)"
    using scalerLoop_twin [OF assms(1), of w "w_Clock w AtReconcile" selector scale 0 "spec_Targets (ra_Spec (rs_Autoscaler st))" "[]" "[]"]
    by (cases "?loop st"; cases "?loop t") (auto dest!: scalerLoop_object key_same_object simp: assms(2))
  show ?thesis
    unfolding reconcileAutoscaling_def Inr sum.case Let_def twin_object [OF assms(1)]
    by (auto simp: assms(1) twin_object setStatus_def [symmetric] intro!: rel_exec_bind [OF loop] askReplicator_twin twin_setStatus
        split: sum.splits)
qed (simp add: reconcileAutoscaling_def assms(1))

lemma reconcile_twin:
  assumes "twin (alike key) L M st t" "getUniqueKeyForAutoscaler (rs_Autoscaler st) = key"
  shows "rel_exec (rel_prod (=) (twin (alike key) L M)) (reconcile getDesired w st) (reconcile getDesired w t)"
proof (cases "ra_DeletionTimestamp (rs_Autoscaler st)")
  case (Some x)
  then show ?thesis by (simp add: reconcile_def twin_object [OF assms(1)] assms(1))
next
  case None
  obtain r c c' where g: "getScaleTarget w (rs_Autoscaler st) (rs_ScalableCache st) = (r, c)"
    "getScaleTarget w (rs_Autoscaler st) (rs_ScalableCache t) = (r, c')"
    using getScaleTarget_fst by (metis prod.collapse)
  note cached = twin_cache [OF assms(1), of c c']
  show ?thesis
  proof (cases r)
    case (Inl err)
    then show ?thesis using None g by (simp add: reconcile_def twin_object [OF assms(1)] twin_setCond [OF cached])
  next
    case (Inr gs)
    obtain gvkr scale where gs: "gs = (gvkr, scale)" by (cases gs)
    let ?ex = "\<lambda>s cache. updateExhaustedAutoscaler w scale (s\<lparr>rs_ScalableCache := cache\<rparr>)"
    have ex: "rel_exec (\<lambda>x y. rel_prod (=) (rel_prod (=) (twin (alike key) L M)) x y \<and>
        getUniqueKeyForAutoscaler (rs_Autoscaler (snd (snd x))) = key) (?ex st c) (?ex t c')"
      using updateExhaustedAutoscaler_twin [OF cached, of w scale] assms(2)
      by (cases "?ex st c"; cases "?ex t c'") (auto dest!: updateExhaustedAutoscaler_sum(1) step_sumD(1) key_same_object)
    show ?thesis
      unfolding reconcile_def twin_object [OF assms(1)] g Inr gs prod.case sum.case Let_def
      by (auto simp: None twin_object intro!: rel_exec_bind [OF ex] ready_twin static_twin reconcileAutoscaling_twin twin_setStatus)
  qed
qed

lemma serveOne_own:
  assumes "concerns key req" "engine_alike (alike key) (rs_Engine st) (rs_Engine t)"
  shows "rel_exec (\<lambda>(outcome, st') (outcome', t'). outcome = outcome' \<and> engine_alike (alike key) (rs_Engine st') (rs_Engine t'))
    (serveOne getDesired req st) (serveOne getDesired req t)"
proof -
  obtain w namespace name where req: "req = (w, namespace, name)" by (cases req)
  obtain ra where ra: "w_CacheGet w namespace name = Inr ra" "getUniqueKeyForAutoscaler ra = key"
    using assms(1) by (auto simp: concerns_def req split: sum.splits)
  let ?L = "(rs_Events st, rs_Updates st, rs_Writes st)" and ?M = "(rs_Events t, rs_Updates t, rs_Writes t)"
  let ?st = "st\<lparr>rs_Autoscaler := purgedObject w ra\<rparr>" and ?t = "t\<lparr>rs_Autoscaler := purgedObject w ra\<rparr>"
  have "twin (alike key) ?L ?M ?st ?t" using assms(2) by (simp add: twin_def logged_def)
  then have r: "rel_exec (rel_prod (=) (twin (alike key) ?L ?M)) (reconcile getDesired w ?st) (reconcile getDesired w ?t)"
    by (rule reconcile_twin) (simp add: ra(2))
  have "rel_exec (rel_prod (=) (twin (alike key) ?L ?M)) (Reconcile getDesired w namespace name st) (Reconcile getDesired w namespace name t)"
    unfolding Reconcile_def ra(1) sum.case Let_def purgedObject_def [symmetric]
    by (rule rel_exec_bind [OF r]) (auto elim!: rel_prod.cases intro!: finish_twin)
  then show ?thesis unfolding serveOne_def req prod.case
    by (rule rel_exec_bind) (auto simp: twin_def logged_def)
qed

lemma askReplicator_other:
  assumes "askReplicator getDesired w u gvkr scale outputs st = Ret (d, st')" "getUniqueKeyForAutoscaler (rs_Autoscaler st) \<noteq> key"
  shows "engine_alike (alike key) (rs_Engine st) (rs_Engine st')"
proof -
  define n where "n = (case spec_Replicator (ra_Spec (rs_Autoscaler st)) of None \<Rightarrow> DefaultReplicator | Some n \<Rightarrow> n)"
  let ?ctx = "\<lparr>rc_Autoscaler = rs_Autoscaler st, rc_Scale = scale, rc_ScalersOutput = outputs\<rparr>"
  let ?clk = "\<lambda>k. w_Clock w (AtReplicator k)"
  note ask = assms(1) [unfolded askReplicator_def n_def [symmetric] Let_def]
  show ?thesis
  proof (cases "GetReplicator (rs_Engine st) n")
    case None
    with ask show ?thesis by (auto simp: engine_alike_refl)
  next
    case (Some r)
    obtain x a where a: "getDesired ?clk ?ctx r = (x, a)" by fastforce
    have "alike key r a" using other_key [where ctx = ?ctx and clk = ?clk and r = r and key = key] assms(2) a by simp
    moreover have "rs_Engine st' = AddReplicator n a (rs_Engine st)"
      using ask Some a by (cases x) (auto dest: applyReplicas_engine)
    ultimately show ?thesis using Some
      by (auto simp: engine_alike_def AddReplicator_def GetReplicator_def alike_refl intro: option.rel_refl)
  qed
qed

lemma reconcileAutoscaling_other:
  assumes "reconcileAutoscaling getDesired w gvkr scale st = Ret (d, st')" "getUniqueKeyForAutoscaler (rs_Autoscaler st) \<noteq> key"
  shows "engine_alike (alike key) (rs_Engine st) (rs_Engine st')"
proof (cases "w_LabelsParse w (scale_Status_Selector scale)")
  case (Inl e)
  with assms(1) show ?thesis by (auto simp: reconcileAutoscaling_def engine_alike_refl)
next
  case (Inr selector)
  note run = assms(1) [unfolded reconcileAutoscaling_def Inr sum.case Let_def]
  show ?thesis
  proof (cases "coldDown w (rs_Status st) (panicking w st)")
    case True
    with run show ?thesis by (auto simp: engine_alike_refl)
  next
    case False
    with run obtain r st1 where l: "scalerLoop w (w_Clock w AtReconcile) selector scale 0 (spec_Targets (ra_Spec (rs_Autoscaler st))) [] [] st = Ret (r, st1)"
      by (auto simp: exec_bind_Ret_iff)
    note o = scalerLoop_object [OF l]
    have key: "getUniqueKeyForAutoscaler (rs_Autoscaler st1) \<noteq> key" using o key_same_object assms(2) by metis
    show ?thesis
    proof (cases r)
      case (Inl d)
      with run False l o show ?thesis by (auto simp: engine_alike_refl)
    next
      case r: (Inr x)
      obtain outs managed where x: "x = (outs, managed)" by fastforce
      let ?st = "setStatus (PurgeTargetStatus managed (rs_Status st1)) st1"
      have "askReplicator getDesired w (panicking w st) gvkr scale outs ?st = Ret (d, st')" using run False l r x by simp
      from askReplicator_other [OF this, of key] key o show ?thesis by simp
    qed
  qed
qed

lemma reconcile_other:
  assumes "reconcile getDesired w st = Ret (d, st')" "getUniqueKeyForAutoscaler (rs_Autoscaler st) \<noteq> key"
  shows "engine_alike (alike key) (rs_Engine st) (rs_Engine st')"
  using assms(1)
proof (cases rule: reconcileE)
  case (no_exhaust gvkr scale cache d e)
  from updateExhaustedAutoscaler_sum(5) [OF no_exhaust(2)] show ?thesis by (simp add: engine_alike_refl)
next
  case (static gvkr scale cache d st1 err st3)
  have "rs_Engine st3 = rs_Engine st1" using scaleReplicas_engine [of w gvkr scale _ "observe scale st1"] static(4)
    by (metis observe_def setStatus_frame snd_conv)
  with updateExhaustedAutoscaler_sum(5) [OF static(2)] static(6) show ?thesis by (simp add: engine_alike_refl ready_def)
next
  case (scaled gvkr scale cache d st1 st3)
  note ex = updateExhaustedAutoscaler_sum [OF scaled(2)]
  have "getUniqueKeyForAutoscaler (rs_Autoscaler st1) = getUniqueKeyForAutoscaler (rs_Autoscaler st)"
    using key_same_object [OF step_sumD(1) [OF ex(1)]] by simp
  then have "getUniqueKeyForAutoscaler (rs_Autoscaler (observe scale st1)) \<noteq> key" using assms(2) by (simp add: observe_def)
  from reconcileAutoscaling_other [OF scaled(4) this] ex(5) scaled(5) show ?thesis by (simp add: observe_def ready_def)
qed (auto simp: engine_alike_refl)

lemma serveOne_other:
  assumes "\<not> concerns key req" "serveOne getDesired req st = Ret (outcome, st')"
  shows "engine_alike (alike key) (rs_Engine st) (rs_Engine st')"
proof -
  obtain w namespace name where req: "req = (w, namespace, name)" by (cases req)
  obtain d e where "Reconcile getDesired w namespace name st = Ret ((d, e), st')"
    using assms(2) by (auto simp: serveOne_def req exec_bind_Ret_iff)
  then show ?thesis
  proof (cases rule: ReconcileE)
    case (read ra delay st1 du)
    have "getUniqueKeyForAutoscaler ra \<noteq> key" using assms(1) read(1) by (simp add: concerns_def req)
    then have "engine_alike (alike key) (rs_Engine st) (rs_Engine st1)" using reconcile_other [OF read(2), of key] by simp
    with updateAutoscalerIfNeeded_engine [of w ra st1] read(3) show ?thesis by simp
  qed (simp add: engine_alike_refl)
qed

lemma serve_alone:
  assumes "serve getDesired reqs st = Ret (outcomes, st')" "engine_alike (alike key) (rs_Engine st) (rs_Engine t)"
  shows "\<exists>t'. serve getDesired (filter (concerns key) reqs) t = Ret (map snd (filter (\<lambda>(req, _). concerns key req) (zip reqs outcomes)), t') \<and>
    engine_alike (alike key) (rs_Engine st') (rs_Engine t')"
  using assms
proof (induction reqs arbitrary: st t outcomes)
  case (Cons req reqs)
  from Cons.prems(1) obtain outcome st1 rest where s: "serveOne getDesired req st = Ret (outcome, st1)"
    "serve getDesired reqs st1 = Ret (rest, st')" "outcomes = outcome # rest" by (auto simp: exec_bind_Ret_iff)
  show ?case
  proof (cases "concerns key req")
    case True
    from serveOne_own [OF True Cons.prems(2)] s(1) obtain t1 where t1: "serveOne getDesired req t = Ret (outcome, t1)"
      "engine_alike (alike key) (rs_Engine st1) (rs_Engine t1)" by (cases "serveOne getDesired req t") auto
    from Cons.IH [OF s(2) t1(2)] True s(3) t1(1) show ?thesis by auto
  next
    case False
    have "engine_alike (alike key) (rs_Engine st1) (rs_Engine t)"
      using serveOne_other [OF False s(1)] Cons.prems(2) engine_alike_sym engine_alike_trans by blast
    from Cons.IH [OF s(2) this] False s(3) show ?thesis by simp
  qed
qed simp

end

subsection \<open>The simple replicator\<close>

definition sameHistory :: "string \<Rightarrow> replicator \<Rightarrow> replicator \<Rightarrow> bool" where
  "sameHistory key r r' \<longleftrightarrow> r_config r' = r_config r \<and>
     fmlookup (historicalRecommendation r) key = fmlookup (historicalRecommendation r') key"

lemma run_keeps: "own K p \<Longrightarrow> k \<notin> K \<Longrightarrow> fmlookup (snd (run p m)) k = fmlookup m k"
proof (induction p arbitrary: m)
  case (Read k' c)
  from Read.IH [OF rangeI] Read.prems show ?case by simp
qed (auto simp: fmlookup_storeAt)

interpretation simple: keyed_replicator GetDesiredReplicas sameHistory
proof
  fix ctx :: ReplicatorContext and r r' :: replicator and clk
  let ?key = "getUniqueKeyForAutoscaler (rc_Autoscaler ctx)" and ?p = "getDesiredProg (r_config r) clk ctx"
  assume a: "sameHistory ?key r r'"
  then have "same_on {?key} (historicalRecommendation r) (historicalRecommendation r')" by (simp add: sameHistory_def same_on_def)
  from run_same_on [OF own_getDesired [of ctx "r_config r" clk] this] a
  show "fst (GetDesiredReplicas clk ctx r) = fst (GetDesiredReplicas clk ctx r') \<and>
      sameHistory ?key (snd (GetDesiredReplicas clk ctx r)) (snd (GetDesiredReplicas clk ctx r'))"
    unfolding run_getDesired [of clk ctx r] run_getDesired [of clk ctx r'] by (simp add: sameHistory_def same_on_def)
next
  fix ctx :: ReplicatorContext and key and r :: replicator and clk
  assume "getUniqueKeyForAutoscaler (rc_Autoscaler ctx) \<noteq> key"
  then show "sameHistory key r (snd (GetDesiredReplicas clk ctx r))"
    using run_keeps [OF own_getDesired, of key] unfolding run_getDesired [of clk ctx r] by (simp add: sameHistory_def)
qed (auto simp: sameHistory_def)

text \<open>Keys tell objects apart, as names have no slash.\<close>

lemma key_injective:
  assumes "CHR ''/'' \<notin> set (ra_Name a)" "CHR ''/'' \<notin> set (ra_Name b)"
  shows "getUniqueKeyForAutoscaler a = getUniqueKeyForAutoscaler b \<longleftrightarrow> ra_Name a = ra_Name b \<and> ra_Namespace a = ra_Namespace b"
  using append_sep_inject [OF assms] by (simp add: getUniqueKeyForAutoscaler_def)

subsection \<open>A sample fleet\<close>

definition requestFor :: "string \<Rightarrow> request" where
  "requestFor name = ((sampleWorld None)\<lparr>w_CacheGet := (\<lambda>_ _. Inr (sampleAutoscaler\<lparr>ra_Name := name\<rparr>))\<rparr>, ''prod'', name)"

lemma requests_served:
  assumes "scalers_ok (rs_Engine st)" "scalers_return (\<lambda>_. True) (rs_Engine st)"
  shows "\<exists>outcomes st'. serve getDesired (map requestFor names) st = Ret (outcomes, st')"
  using assms
proof (induction names arbitrary: st)
  case (Cons name names)
  let ?ra = "sampleAutoscaler\<lparr>ra_Name := name\<rparr>"
  let ?w = "(sampleWorld None)\<lparr>w_CacheGet := (\<lambda>_ _. Inr ?ra)\<rparr>"
  have get: "w_CacheGet ?w ''prod'' name = Inr ?ra" by simp
  have nil: "no_nil (ra_Spec ?ra)" by (simp add: no_nil_def sampleAutoscaler_def sampleSpec_def)
  obtain d e st1 where r: "Reconcile getDesired ?w ''prod'' name st = Ret ((d, e), st1)"
    using Reconcile_returns [OF get nil Cons.prems(2) any_targets_ok] by blast
  have "scalers_ok (rs_Engine st1)" using Reconcile_step [OF r Cons.prems(1) get] by blast
  moreover have "scalers_return (\<lambda>_. True) (rs_Engine st1)"
    using Reconcile_keeps_targets [OF r get Cons.prems nil any_targets_ok] by blast
  ultimately show ?case using Cons.IH [of st1] r by (auto simp: serveOne_def requestFor_def)
qed simp

subsection \<open>Property\<close>

text \<open>
  (C5) An autoscaler is served as if it were alone. Take any requests, each in a world of its own, that one process serves one after the other, and pick out those that read an
  object with a given key. Served alone from the same start, they have the same outcomes: the same answers to the manager, the same events, scale updates and writes. And the
  recommendations that the replicators keep for it are the same at the end. So neither the shared replicators nor the
  shared cache of scalable resources carry anything from one autoscaler to another.
\<close>

theorem autoscalers_independent:
  assumes "serve GetDesiredReplicas reqs st = Ret (outcomes, st')"
  shows "\<exists>t'. serve GetDesiredReplicas (filter (concerns key) reqs) st =
      Ret (map snd (filter (\<lambda>(req, _). concerns key req) (zip reqs outcomes)), t') \<and>
    (\<forall>n. map_option (\<lambda>r. fmlookup (historicalRecommendation r) key) (GetReplicator (rs_Engine st') n) =
         map_option (\<lambda>r. fmlookup (historicalRecommendation r) key) (GetReplicator (rs_Engine t') n))"
proof -
  obtain t' where t': "serve GetDesiredReplicas (filter (concerns key) reqs) st =
      Ret (map snd (filter (\<lambda>(req, _). concerns key req) (zip reqs outcomes)), t')"
    "engine_alike (sameHistory key) (rs_Engine st') (rs_Engine t')"
    using simple.serve_alone [OF assms simple.engine_alike_refl] by blast
  have "map_option (\<lambda>r. fmlookup (historicalRecommendation r) key) (GetReplicator (rs_Engine st') n) =
      map_option (\<lambda>r. fmlookup (historicalRecommendation r) key) (GetReplicator (rs_Engine t') n)" for n
  proof -
    have "rel_option (sameHistory key) (GetReplicator (rs_Engine st') n) (GetReplicator (rs_Engine t') n)"
      using t'(2) by (simp add: engine_alike_def)
    then show ?thesis by (cases rule: option.rel_cases) (auto simp: sameHistory_def)
  qed
  with t'(1) show ?thesis by blast
qed

theorem autoscalers_independent_witness:
  "\<exists>o1 o2 o3 st' t'. serve GetDesiredReplicas [requestFor ''web'', requestFor ''api'', requestFor ''web''] (sampleState 50) =
      Ret ([o1, o2, o3], st') \<and>
    serve GetDesiredReplicas [requestFor ''web'', requestFor ''web''] (sampleState 50) = Ret ([o1, o3], t')"
proof -
  have "scalers_ok (rs_Engine (sampleState 50))" by (simp add: sampleState_def)
  from requests_served [OF this sample_scalers_return, of GetDesiredReplicas "[''web'', ''api'', ''web'']"]
  obtain outcomes st' where s: "serve GetDesiredReplicas [requestFor ''web'', requestFor ''api'', requestFor ''web''] (sampleState 50) =
      Ret (outcomes, st')" unfolding list.map by blast
  then obtain o1 o2 o3 where o: "outcomes = [o1, o2, o3]" by (auto simp: exec_bind_Ret_iff)
  have c: "concerns key (requestFor ''web'')" "\<not> concerns key (requestFor ''api'')"
    if "key = getUniqueKeyForAutoscaler (sampleAutoscaler\<lparr>ra_Name := ''web''\<rparr>)" for key
    using that by (simp_all add: concerns_def requestFor_def getUniqueKeyForAutoscaler_def)
  show ?thesis using autoscalers_independent [OF s, of "getUniqueKeyForAutoscaler (sampleAutoscaler\<lparr>ra_Name := ''web''\<rparr>)"] s
    by (auto simp: c o)
qed

end
