(* ===== verification/Prometheus_Accuracy.thy ===== *)
theory Prometheus_Accuracy
  imports Prometheus_Scaler
begin

text \<open>
  How far the count of the Prometheus scaler (\<^verbatim>\<open>utils/scalerprovider/prometheus/scaler.go\<close>) is from the exact one. The count goes through
  a division by the replicas, one by the threshold, a multiplication by the replicas and a ceiling, and the test of the toleration through three more operations.

  Shown: for values and thresholds in a wide range the three roundings together move the quotient by less than
  \<open>1 / 2 ^ 19\<close>, so that the count is the ceiling of value over threshold unless this is that close to an integer; and the count is
  left alone only when the load per replica is within the toleration. The last-value fallback goes through thousandths: an
  average below a thousandth is stored as zero, and the fallback then asks for no replicas. The name of the status entry does not depend
  on what is left in the pool of buffers.
\<close>

subsection \<open>The pool of buffers\<close>

text \<open>The free buffers of a \<^verbatim>\<open>sync.Pool\<close>, with what was last written to them. \<^verbatim>\<open>Get\<close> hands out whichever free buffer it likes, or a new one:
  \<open>choice\<close> stands for what it likes.\<close>

type_synonym bufferPool = "string list"

definition pool_Get :: "nat \<Rightarrow> bufferPool \<Rightarrow> string \<times> bufferPool" where
  "pool_Get choice pool = (if choice < length pool then (pool ! choice, take choice pool @ drop (Suc choice) pool) else ([], pool))"

definition pool_Put :: "string \<Rightarrow> bufferPool \<Rightarrow> bufferPool" where
  "pool_Put b pool = b # pool"

definition buffer_Reset :: "string \<Rightarrow> string" where "buffer_Reset b = []"

definition buffer_WriteString :: "string \<Rightarrow> string \<Rightarrow> string" where "buffer_WriteString b text = b @ text"

definition pooledTargetStatusName :: "PromWorld \<Rightarrow> PromScaler \<Rightarrow> nat \<Rightarrow> string \<Rightarrow> bufferPool \<Rightarrow> string \<times> bufferPool" where
  "pooledTargetStatusName pw s choice query pool =
     (let (b, pool1) = pool_Get choice pool;
          b1 = buffer_WriteString (buffer_Reset b) query
      in (prs_PluginName s @ ''/'' @ FarmHash (prw_Hash128 pw) b1, pool_Put b1 pool1))"

lemma pooled_name: "fst (pooledTargetStatusName pw s choice query pool) = makeTargetStatusName pw s query"
  by (simp add: pooledTargetStatusName_def makeTargetStatusName_def buffer_Reset_def buffer_WriteString_def split_def Let_def)

subsection \<open>The payload of an answer\<close>

record ResponseMeta =
  rm_Status :: string
  rm_ErrorType :: string
  rm_Error :: string
  rm_Warnings :: "string list"

record VectorData =
  vd_ResultType :: string
  vd_Result :: "float64 option list"

record VectorResponse =
  vr_Meta :: ResponseMeta
  vr_Data :: VectorData

text \<open>A world whose answers are decoded to a whole \<^verbatim>\<open>VectorResponse\<close>, of which the query takes the samples.\<close>

definition decodedBy :: "(string \<Rightarrow> VectorResponse result) \<Rightarrow> PromWorld \<Rightarrow> PromWorld" where
  "decodedBy decode pw =
     pw\<lparr>prw_UnmarshalVector := (\<lambda>body. case decode body of Inl err \<Rightarrow> Inl err | Inr vector \<Rightarrow> Inr (vd_Result (vr_Data vector)))\<rparr>"

text \<open>The status, the error and the result type in the payload are never looked at: two decoders that agree on the values give the same query. In
  particular a payload that reports an error, with a status code of success and without values, is a null value.\<close>

lemma query_ignores_meta:
  assumes "\<And>body. map_sum id (\<lambda>v. vd_Result (vr_Data v)) (decode body) = map_sum id (\<lambda>v. vd_Result (vr_Data v)) (decode' body)"
  shows "Query (decodedBy decode pw) i c server query now = Query (decodedBy decode' pw) i c server query now"
proof -
  have "(case d of Inl err \<Rightarrow> Inl err | Inr vector \<Rightarrow> Inr (vd_Result (vr_Data vector))) = map_sum id (\<lambda>v. vd_Result (vr_Data v)) d"
    for d :: "VectorResponse result" by (cases d) simp_all
  with assms have "decodedBy decode pw = decodedBy decode' pw" by (simp add: decodedBy_def)
  then show ?thesis by simp
qed

lemma query_error_payload:
  assumes "srv_ServerAddress server = Some address" "prw_NewRequest pw = (\<lambda>_ _. None)"
    and "\<And>insecure req. prw_Do pw i insecure (qc_Timeout c) req = Inr \<lparr>hres_StatusCode = 200, hres_Body = Inr body\<rparr>"
    and "decode body = Inr vector" "vd_Result (vr_Data vector) = []"
  shows "Query (decodedBy decode pw) i c server query now = Ret (Inl ErrNullValue)"
  using assms by (simp add: Query_def decodedBy_def authHeader_def go_quot_def Let_def)

subsection \<open>Roundings\<close>

text \<open>The quotient per replica \<open>q\<close> through two roundings, then times \<open>n\<close> through a third.\<close>

lemma three_roundings:
  fixes p r q n :: rat
  assumes "\<bar>r - q\<bar> \<le> q / 2 ^ 51" "\<bar>p - r * n\<bar> \<le> r * n / 2 ^ 53" "0 \<le> q" "0 \<le> n"
  shows "\<bar>p - q * n\<bar> \<le> q * n / 2 ^ 50"
proof -
  have "\<bar>r * n - q * n\<bar> = \<bar>r - q\<bar> * n" using assms(4) by (simp add: abs_mult left_diff_distrib [symmetric])
  also have "\<dots> \<le> q / 2 ^ 51 * n" using assms(1,4) by (rule mult_right_mono)
  finally have 1: "\<bar>r * n - q * n\<bar> \<le> q * n / 2 ^ 51" by simp
  have qn: "0 \<le> q * n" using assms(3,4) by simp
  then have "q * n / 2 ^ 51 \<le> q * n" by (simp add: divide_le_eq mult.commute)
  then have "r * n \<le> 2 * (q * n)" using 1 by linarith
  then have "r * n / 2 ^ 53 \<le> 2 * (q * n) / 2 ^ 53" by (rule divide_right_mono) simp
  then have "\<bar>p - q * n\<bar> \<le> q * n / 2 ^ 51 + 2 * (q * n) / 2 ^ 53" using 1 assms(2) by linarith
  also have "\<dots> \<le> q * n / 2 ^ 50" using qn by (simp add: mult.commute)
  finally show ?thesis .
qed

lemma rel_half_double:
  fixes x y :: rat
  assumes "\<bar>y - x\<bar> \<le> x / 2 ^ 53" "0 \<le> x" shows "x / 2 \<le> y" "y \<le> 2 * x"
proof -
  have "x / 2 ^ 53 \<le> x / 2" using assms(2) by (intro divide_left_mono) simp_all
  with assms show "x / 2 \<le> y" "y \<le> 2 * x" by linarith+
qed

subsection \<open>The count\<close>

lemma count_roundings:
  fixes v th :: rat
  assumes "1 / 2 ^ 64 \<le> v" "0 < th" "th \<le> 2 ^ 64" "v / th \<le> 2 ^ 31 - 2" "1 \<le> c" "c < 2 ^ 31"
  obtains a r p where "round64 (v / of_int c) = Fin a" "round64 (a / th) = Fin r" "round64 (r * of_int c) = Fin p"
    "0 \<le> r" "\<bar>r - v / of_int c / th\<bar> \<le> v / of_int c / th / 2 ^ 51" "0 \<le> p" "\<bar>p - v / th\<bar> \<le> 1 / 2 ^ 19"
proof -
  have c: "1 \<le> (of_int c :: rat)" "(of_int c :: rat) \<le> 2 ^ 31" using assms(5,6) of_int_le_pow2 [of c 31] by simp_all
  define q where "q = v / of_int c"
  have v: "v \<le> 2 ^ 31 * 2 ^ 64"
    using mult_mono [of "v / th" "2 ^ 31" th "2 ^ 64"] assms(2-4) by simp
  have "v / 2 ^ 31 \<le> q" unfolding q_def using c assms(1) by (intro divide_left_mono) (auto intro: order_trans [rotated])
  then have q: "1 / 2 ^ 95 \<le> q" using divide_right_mono [OF assms(1), of "2 ^ 31"] by simp
  have "q \<le> v / 1" unfolding q_def using c assms(1) by (intro divide_left_mono) (auto intro: order_trans [rotated])
  with v have "q \<le> 2 ^ 95" by simp
  with q obtain a where a: "round64 q = Fin a" "\<bar>a - q\<bar> \<le> q / 2 ^ 53" using round64_rel [of 95 q 95] by auto
  have q0: "0 \<le> q" using q by (auto intro: order_trans [rotated])
  note a' = rel_half_double [OF a(2) q0]
  have qt: "q / th * of_int c = v / th" using c by (simp add: q_def)
  have "q / th \<le> v / th" unfolding q_def using c assms(1,2) by (intro divide_right_mono) (auto simp: divide_le_eq)
  then have qt': "q / th \<le> 2 ^ 31" using assms(4) by linarith
  have "a / 2 ^ 64 \<le> a / th" using assms(2,3) a'(1) q0 by (intro divide_left_mono) auto
  moreover have "1 / 2 ^ 96 \<le> a" using a'(1) q by simp
  then have "1 / 2 ^ 96 / 2 ^ 64 \<le> a / 2 ^ 64" by (rule divide_right_mono) simp
  ultimately have "1 / 2 ^ 96 / 2 ^ 64 \<le> a / th" by (rule order_trans [rotated])
  then have at1: "1 / 2 ^ 160 \<le> a / th" by (simp add: power_add [symmetric])
  have "a / th \<le> 2 * q / th" using a'(2) assms(2) by (intro divide_right_mono) simp_all
  then have "a / th \<le> 2 ^ 32" using qt' by simp
  with at1 obtain r where r: "round64 (a / th) = Fin r" "0 \<le> r" "\<bar>r - a / th\<bar> \<le> a / th / 2 ^ 53"
    using round64_rel [of 160 "a / th" 32] by auto
  have at0: "0 \<le> a / th" using a'(1) q0 assms(2) by simp
  note r' = rel_half_double [OF r(3) at0]
  have rq: "\<bar>r - q / th\<bar> \<le> q / th / 2 ^ 51" using two_roundings [of a q r "1 / th"] a(2) r(3) q0 assms(2) by simp
  have "r \<le> r * of_int c" using mult_left_mono [OF c(1) r(2)] by simp
  moreover have "1 / 2 ^ 161 \<le> r" using r'(1) divide_right_mono [OF at1, of 2] by simp
  ultimately have rc1: "1 / 2 ^ 161 \<le> r * of_int c" by (rule order_trans [rotated])
  have "r * of_int c \<le> 2 ^ 33 * 2 ^ 31" using r'(2) \<open>a / th \<le> 2 ^ 32\<close> c r(2) by (intro mult_mono) auto
  with rc1 obtain p where p: "round64 (r * of_int c) = Fin p" "0 \<le> p" "\<bar>p - r * of_int c\<bar> \<le> r * of_int c / 2 ^ 53"
    using round64_rel [of 161 "r * of_int c" 64] by auto
  have "\<bar>p - q / th * of_int c\<bar> \<le> q / th * of_int c / 2 ^ 50"
    by (rule three_roundings [OF rq p(3)]) (use q0 assms(2) c in simp_all)
  then have "\<bar>p - v / th\<bar> \<le> v / th / 2 ^ 50" unfolding qt .
  also have "\<dots> \<le> 2 ^ 31 / 2 ^ 50" using assms(4) by (intro divide_right_mono) simp_all
  finally have "\<bar>p - v / th\<bar> \<le> 1 / 2 ^ 19" by simp
  with that [OF a(1) [unfolded q_def] r(1) p(1) r(2)] rq p(2) show thesis by (simp add: q_def)
qed

text \<open>A ratio that passes for the toleration is within it, up to the roundings of the test.\<close>

lemma tolerated_ratio:
  fixes t r :: rat
  assumes "\<not> f64_le (f64_mul (Fin t) (Fin 100)) (f64_abs (f64_sub (Fin 100) (f64_mul (Fin r) (Fin 100))))"
    and "0 \<le> t" "t \<le> 1" "0 \<le> r" "r \<le> 2 ^ 32"
  shows "\<bar>1 - r\<bar> < t + 1 / 2 ^ 40"
proof -
  obtain T where T: "round64 (t * 100) = Fin T" "T \<le> 100"
    using round64_between [of 0 "t * 100" 100] assms(2,3) by auto
  have Tt: "\<bar>T - t * 100\<bar> \<le> 1 / 2 ^ 40" using round64_percent [OF _ T(1)] assms(2,3) by simp
  obtain m where m: "round64 (r * 100) = Fin m" using round64_finite [of "r * 100"] assms(4,5) by auto
  have small: "r * 100 \<le> 1000"
  proof (rule ccontr)
    assume "\<not> r * 100 \<le> 1000"
    then have "f64_le (round64 (of_int 1000)) (round64 (r * 100))" by (intro round64_mono) simp
    then have "1000 \<le> m" using round64_int [of 1000] by (simp add: m)
    then have "f64_le (round64 (100 + - m)) (round64 (of_int (- 900)))" by (intro round64_mono) simp
    then have "f64_le (round64 (100 + - m)) (Fin (- 900))" using round64_int [of "- 900"] by simp
    then have "f64_le (Fin 100) (f64_abs (round64 (100 + - m)))" by (cases "round64 (100 + - m)") auto
    then have "f64_le (Fin T) (f64_abs (round64 (100 + - m)))" using T(2) by (cases "round64 (100 + - m)") auto
    with assms(1) T m show False by (simp add: f64_sub_def)
  qed
  have mr: "\<bar>m - r * 100\<bar> \<le> 1 / 2 ^ 40" using round64_percent [OF _ m] small assms(4) by simp
  have "\<bar>m - r * 100\<bar> \<le> 1" using mr by (rule order_trans) simp
  then have m': "- 1 \<le> m" "m \<le> 1001" using small assms(4) by linarith+
  then have "\<bar>100 + - m\<bar> \<le> 2 ^ 11" by simp
  moreover obtain d where d: "round64 (100 + - m) = Fin d"
    using round64_between [of "- 2000" "100 + - m" 2000] m' by auto
  ultimately have "\<bar>d - (100 + - m)\<bar> \<le> 1 / 2 ^ 40" using round64_percent by blast
  moreover have "\<bar>d\<bar> < T" using assms(1) T m d by (simp add: f64_sub_def)
  ultimately have "\<bar>100 - r * 100\<bar> < t * 100 + 3 / 2 ^ 40" using Tt mr by linarith
  then have "100 - r * 100 < t * 100 + 3 / 2 ^ 40" "r * 100 - 100 < t * 100 + 3 / 2 ^ 40" by linarith+
  then show ?thesis by (simp add: abs_less_iff)
qed

lemma tolerated_quotient:
  fixes t r q :: rat
  assumes "\<not> f64_le (f64_mul (Fin t) (Fin 100)) (f64_abs (f64_sub (Fin 100) (f64_mul (Fin r) (Fin 100))))"
    and "0 \<le> t" "t \<le> 1" "0 \<le> r" "\<bar>r - q\<bar> \<le> q / 2 ^ 51" "0 \<le> q" "q \<le> 2 ^ 31"
  shows "\<bar>q - 1\<bar> < t + 1 / 2 ^ 19"
proof -
  have half: "q / 2 ^ 51 \<le> q / 2" using assms(6) by (intro divide_left_mono) simp_all
  then have "r \<le> 2 * q" using assms(5,6) by linarith
  then have "r \<le> 2 ^ 32" using assms(7) by simp
  from tolerated_ratio [OF assms(1-4) this] have r: "\<bar>1 - r\<bar> < t + 1 / 2 ^ 40" .
  then have "r \<le> 3" using assms(3) by simp
  then have "q \<le> 8" using assms(5) half by linarith
  then have "q / 2 ^ 51 \<le> 8 / 2 ^ 51" by (rule divide_right_mono) simp
  with assms(5) have "\<bar>r - q\<bar> \<le> 8 / 2 ^ 51" by (rule order_trans)
  with r have "\<bar>q - 1\<bar> < t + (1 / 2 ^ 40 + 8 / 2 ^ 51)" by linarith
  also have "\<dots> \<le> t + 1 / 2 ^ 19" by simp
  finally show ?thesis .
qed

lemma ceil_mul_close:
  assumes "round64 (r * of_int c) = Fin p" "0 \<le> p" "\<bar>p - x\<bar> \<le> 1 / 2 ^ 19" "x \<le> 2 ^ 31 - 2" "1 \<le> c" "c < 2 ^ 31"
  shows "\<lceil>x - 1 / 2 ^ 19\<rceil> \<le> ceil_mul oor (Fin r) c \<and> ceil_mul oor (Fin r) c \<le> \<lceil>x + 1 / 2 ^ 19\<rceil>"
proof -
  have p: "x - 1 / 2 ^ 19 \<le> p" "p \<le> x + 1 / 2 ^ 19" using assms(3) by linarith+
  then have "p \<le> of_int (2 ^ 31 - 1)" using assms(4) by simp
  then have "\<lceil>p\<rceil> \<le> 2 ^ 31 - 1" by (simp only: ceiling_le_iff)
  moreover have "0 \<le> \<lceil>p\<rceil>" using assms(2) by simp
  ultimately have "ceil_mul oor (Fin r) c = \<lceil>p\<rceil>" using assms(1,5,6)
    by (simp add: ceil_mul_def f64_of_int_small) (rule f64_to_int_of_int, simp add: in_range_def)
  then show ?thesis using p by (simp add: ceiling_mono)
qed

subsection \<open>The last value\<close>

text \<open>An average of at most \<open>1 / 1024\<close> is stored as zero thousandths.\<close>

lemma milli_lost:
  assumes "0 \<le> a" "a \<le> 1 / 1024" shows "f64_to_int 64 oor (round64 (a * 1000)) = 0"
proof -
  have "representable (1000 / 1024)"
    unfolding representable_def by (rule exI [of _ 1000], rule exI [of _ "- 10"]) (simp add: pow2_def)
  then obtain m where "round64 (a * 1000) = Fin m" "0 \<le> m" "m \<le> 1000 / 1024"
    using round64_0_upto [of "1000 / 1024" "a * 1000"] assms by auto
  then show ?thesis by (simp add: f64_to_int_def trunc_rat_def floor_eq_iff)
qed

lemma zero_average_count:
  assumes "0 < th" "t \<le> 1" "1 \<le> c" "c < 2 ^ 31"
  shows "fst (replicasForValue oor (Fin t) (Fin th) c (Fin (- 1)) (Fin 0)) = 0"
proof -
  have "f64_le (round64 (t * 100)) (round64 (of_int 100))" using assms(2) by (intro round64_mono) simp
  then have "f64_le (round64 (t * 100)) (Fin 100)" using round64_int [of 100] by simp
  then have "f64_le (f64_mul (Fin t) (Fin 100)) (f64_abs (f64_sub (Fin 100) (f64_mul (Fin 0) (Fin 100))))"
    using round64_int [of 100] by (simp add: f64_sub_def round64_def [of 0])
  moreover have "ceil_mul oor (Fin 0) c = 0" using ceil_mul_down [of 0 c oor] assms(3,4)
    by (simp add: ceil_mul_def f64_of_int_small round64_def f64_to_int_def trunc_rat_def)
  ultimately show ?thesis using assms(1,3) by (simp add: replicasForValue_def Let_def round64_def [of 0] MaxFloat64_def)
qed

subsection \<open>Properties\<close>

text \<open>
  (C24) Accuracy: take a query that returns \<open>v\<close>, a positive threshold \<open>th\<close>, a toleration \<open>t\<close> of at most 100 per cent and \<open>c\<close> running
  replicas, with \<open>v\<close> at least \<open>2\<close> to the \<open>-64\<close>, \<open>th\<close> at most \<open>2\<close> to the \<open>64\<close> and a quotient that fits 32 bits. In spite of the roundings the count is the ceiling
  of \<open>v / th\<close>, unless this is within \<open>1 / 2 ^ 19\<close> of an integer, where it may be one off; or the count stays, and then the load per replica
  differs from the threshold by no more than the toleration (up to the same slack).

  The comment in the code has another formula, the ceiling of the quotient of average and threshold, times the replicas. For 25 over a threshold of 10 with
  two replicas it gives 4; the count is 3, as few as suffice.
\<close>

theorem prometheus_count_accuracy:
  assumes "LoadSettings (prw_Unmarshal pw) ctx zeroPromSettings = Inr settings" and "Prom_Settings_Validate settings = None"
    and "Query pw i (prs_QueryClient s) (if srv_ServerAddress (pset_Server settings) \<noteq> None then pset_Server settings
           else pcfg_DefaultServer (prs_Config s)) (pset_Query settings) (prw_Now pw i) = Ret (Inr (Fin v))"
    and "Prom_Get pw s i ctx st = Ret (Inr out, st')"
    and "pset_Threshold settings = Fin th" and "th \<le> 2 ^ 64" and "1 / 2 ^ 64 \<le> v" and "v / th \<le> 2 ^ 31 - 2"
    and "pcfg_Toleration (prs_Config s) = Fin t" and "0 \<le> t" and "t \<le> 1"
    and "c = sc_CurrentReplicas ctx" and "1 \<le> c" and "c < 2 ^ 31"
  shows "\<lceil>v / th - 1 / 2 ^ 19\<rceil> \<le> so_DesiredReplicas out \<and> so_DesiredReplicas out \<le> \<lceil>v / th + 1 / 2 ^ 19\<rceil> \<or>
    so_DesiredReplicas out = c \<and> \<bar>v / of_int c / th - 1\<bar> < t + 1 / 2 ^ 19"
proof -
  have th: "0 < th" using assms(2,5) by (auto simp: Prom_Settings_Validate_def split: if_splits)
  have v: "v \<noteq> 0" using assms(7) by auto
  have cf: "f64_of_int c = Fin (of_int c)" using assms(13,14) by (intro f64_of_int_small) simp
  obtain a r p where R: "round64 (v / of_int c) = Fin a" "round64 (a / th) = Fin r" "round64 (r * of_int c) = Fin p"
    "0 \<le> r" "\<bar>r - v / of_int c / th\<bar> \<le> v / of_int c / th / 2 ^ 51" "0 \<le> p" "\<bar>p - v / th\<bar> \<le> 1 / 2 ^ 19"
    using count_roundings [OF assms(7) th assms(6,8,13,14)] .
  have "v / of_int c / th \<le> v / th" using assms(7,13) th by (intro divide_right_mono) (auto simp: divide_le_eq intro: order_trans [rotated])
  then have quotient: "0 \<le> v / of_int c / th" "v / of_int c / th \<le> 2 ^ 31" using assms(7,8,13) th by (auto intro: order_trans [rotated])
  have "sc_CurrentReplicas ctx \<noteq> 0" using assms(12,13) by simp
  from Prom_Get_value(1) [OF assms(1,2) this assms(3,4)]
  have n: "so_DesiredReplicas out = fst (replicasForValue (prw_OutOfRange32 pw) (Fin t) (Fin th) c (Fin v) MaxFloat64)"
    unfolding assms(5,9,12) .
  show ?thesis
  proof (cases "f64_le (f64_mul (Fin t) (Fin 100)) (f64_abs (f64_sub (Fin 100) (f64_mul (Fin r) (Fin 100))))")
    case True
    then have "so_DesiredReplicas out = ceil_mul (prw_OutOfRange32 pw) (Fin r) c"
      unfolding n using v assms(13) th R(1,2) by (simp add: replicasForValue_def Let_def cf)
    with ceil_mul_close [OF R(3,6,7) assms(8,13,14)] show ?thesis by simp
  next
    case False
    then have "so_DesiredReplicas out = c" unfolding n using v assms(13) th R(1,2) by (simp add: replicasForValue_def Let_def cf)
    moreover have "\<bar>v / of_int c / th - 1\<bar> < t + 1 / 2 ^ 19" using tolerated_quotient [OF False assms(10,11) R(4,5)] quotient by simp
    ultimately show ?thesis by blast
  qed
qed

theorem prometheus_count_accuracy_witness:
  "\<exists>out st'. Prom_Get (samplePromWorld [] [Fin 25]) samplePromScaler 0 (samplePromCtx 2) zeroStatus = Ret (Inr out, st') \<and>
     so_DesiredReplicas out = 3"
proof -
  obtain out st' where g: "Prom_Get (samplePromWorld [] [Fin 25]) samplePromScaler 0 (samplePromCtx 2) zeroStatus = Ret (Inr out, st')"
    by (rule sampleProm_success [of 2]) simp
  have "\<lceil>25 / 10 - 1 / 2 ^ 19 :: rat\<rceil> = 3" "\<lceil>25 / 10 + 1 / 2 ^ 19 :: rat\<rceil> = 3" by (simp_all add: ceiling_eq_iff)
  with prometheus_count_accuracy [where v = 25 and th = 10 and t = 0, OF sampleProm_load sampleProm_valid
      sampleProm_query(1) [of _ _ 0, folded sampleProm_server [of "[]"]] g _ _ _ _ _ _ _ refl] g
  show ?thesis by (auto simp: samplePromScaler_def)
qed

text \<open>
  (C27) The last-value fallback loses small values: a query that returned \<open>v\<close>, at most \<open>1 / 1024\<close> for each of the \<open>c\<close> replicas, leaves a status entry that
  holds zero. When the next query fails and the mode is \<^verbatim>\<open>FailAsLastValue\<close>, the scaler asks for no replicas at all,
  however far above the threshold \<open>v\<close> was (with a toleration of at most 100 per cent).
\<close>

theorem last_value_lost:
  assumes "Query pw i (prs_QueryClient s) (if srv_ServerAddress (pset_Server settings) \<noteq> None then pset_Server settings
           else pcfg_DefaultServer (prs_Config s)) (pset_Query settings) (prw_Now pw i) = Ret (Inr (Fin v))"
    and "CalculateDesiredReplicas pw s i ctx settings st = Ret (Inr out, st')"
    and "0 < v" and "v \<le> of_int (sc_CurrentReplicas ctx) / 1024" and "1 \<le> sc_CurrentReplicas ctx" and "sc_CurrentReplicas ctx < 2 ^ 31"
    and "pset_FailureMode settings = FailAsLastValue" and "pset_Threshold settings = Fin th" and "0 < th"
    and "pcfg_Toleration (prs_Config s) = Fin t" and "t \<le> 1"
    and "Query pw' j (prs_QueryClient s) (if srv_ServerAddress (pset_Server settings) \<noteq> None then pset_Server settings
           else pcfg_DefaultServer (prs_Config s)) (pset_Query settings) (prw_Now pw' j) = Ret (Inl err)"
    and "prw_Hash128 pw' = prw_Hash128 pw" and "\<And>n. prw_MilliValue pw' \<lparr>q_value = n, q_scale = - 3\<rparr> = n"
    and "1 \<le> sc_CurrentReplicas ctx'" and "sc_CurrentReplicas ctx' < 2 ^ 31"
  shows "\<exists>name. CalculateDesiredReplicas pw' s j ctx' settings st' =
    Ret (Inr \<lparr>so_DesiredReplicas = 0, so_ManagedTargetStatus = [name]\<rparr>, st')"
proof -
  define c where "c = sc_CurrentReplicas ctx"
  define name where "name = makeTargetStatusName pw s (pset_Query settings)"
  have name': "makeTargetStatusName pw' s (pset_Query settings) = name" by (simp add: name_def makeTargetStatusName_def assms(13))
  have c: "sc_CurrentReplicas ctx \<noteq> 0" "sc_CurrentReplicas ctx' \<noteq> 0" "1 \<le> (of_int c :: rat)" "f64_of_int c = Fin (of_int c)"
    using assms(5,6,15) by (auto simp: c_def intro!: f64_of_int_small)
  have "0 \<le> v / of_int c" "v / of_int c \<le> 1 / 1024" using assms(3,4) c(3) by (simp_all add: c_def [symmetric] divide_le_eq)
  moreover have "representable (1 / 1024)"
    unfolding representable_def by (rule exI [of _ 1], rule exI [of _ "- 10"]) (simp add: pow2_def)
  ultimately obtain a where a: "round64 (v / of_int c) = Fin a" "0 \<le> a" "a \<le> 1 / 1024" using round64_0_upto by blast
  have avg: "snd (replicasForValue (prw_OutOfRange32 pw) (Fin t) (Fin th) c (Fin v) MaxFloat64) = Fin a"
    using assms(3) c a(1) by (auto simp: replicasForValue_def Let_def)
  have "st' = SetTargetStatus st (averageStatus (prs_PluginName s) name (so_DesiredReplicas out) 0)"
    using assms(2) unfolding CalculateDesiredReplicas_running [OF c(1) assms(1), of st] name_def [symmetric]
    by (auto simp: queryOrFallback_def assms(8,10) c_def [symmetric] avg milli_lost [OF a(2,3)])
  then have "GetTargetStatus st' name = Some (averageStatus (prs_PluginName s) name (so_DesiredReplicas out) 0)"
    by (simp add: GetTargetStatus_SetTargetStatus averageStatus_def)
  then have "queryOrFallback pw' s settings st' (Inl err) = Ret (Inr (Fin (- 1), Fin 0, False))"
    using assms(14) by (simp add: queryOrFallback_def name' assms(7) failure_modes averageStatus_def f64_of_int_small round64_def [of 0])
  then show ?thesis
    unfolding CalculateDesiredReplicas_running [OF c(2) assms(12), of st'] name'
    using zero_average_count [OF assms(9,11,15,16)] by (simp add: assms(8,10))
qed

definition smallSettings :: PromSettings where
  "smallSettings = (samplePromSettings FailAsLastValue)\<lparr>pset_Threshold := Fin (1 / 4096)\<rparr>"

text \<open>Two replicas at twice the threshold, then a failure.\<close>

theorem last_value_lost_witness:
  "\<exists>out st' name. CalculateDesiredReplicas (samplePromWorld FailAsLastValue [Fin (1 / 1024)]) samplePromScaler 0 (samplePromCtx 2)
      smallSettings zeroStatus = Ret (Inr out, st') \<and>
    CalculateDesiredReplicas (samplePromWorld FailAsLastValue []) samplePromScaler 1 (samplePromCtx 2) smallSettings st' =
      Ret (Inr \<lparr>so_DesiredReplicas = 0, so_ManagedTargetStatus = [name]\<rparr>, st')"
proof -
  have server: "(if srv_ServerAddress (pset_Server smallSettings) \<noteq> None then pset_Server smallSettings
    else pcfg_DefaultServer (prs_Config samplePromScaler)) = sampleServerRec"
    by (simp add: smallSettings_def samplePromSettings_def samplePromScaler_def zeroServer_def)
  let ?pw = "samplePromWorld FailAsLastValue [Fin (1 / 1024)]" and ?pw' = "samplePromWorld FailAsLastValue []"
  note q = sampleProm_query(1) [of FailAsLastValue "Fin (1 / 1024)" 0 "prs_QueryClient samplePromScaler" "pset_Query smallSettings"
      "prw_Now ?pw 0", folded server]
  note q' = sampleProm_query(2) [of FailAsLastValue 1 "prs_QueryClient samplePromScaler" "pset_Query smallSettings"
      "prw_Now ?pw' 1", folded server]
  have "\<exists>out st'. CalculateDesiredReplicas ?pw samplePromScaler 0 (samplePromCtx 2) smallSettings zeroStatus = Ret (Inr out, st')"
    using CalculateDesiredReplicas_running [OF _ q, of "samplePromCtx 2" zeroStatus] by (auto simp: queryOrFallback_def)
  then obtain out st' where
    r: "CalculateDesiredReplicas ?pw samplePromScaler 0 (samplePromCtx 2) smallSettings zeroStatus = Ret (Inr out, st')" by blast
  have "\<exists>name. CalculateDesiredReplicas ?pw' samplePromScaler 1 (samplePromCtx 2) smallSettings st' =
      Ret (Inr \<lparr>so_DesiredReplicas = 0, so_ManagedTargetStatus = [name]\<rparr>, st')"
    by (rule last_value_lost [where th = "1 / 4096" and t = 0, OF q r _ _ _ _ _ _ _ _ _ q'])
      (simp_all add: smallSettings_def samplePromScaler_def samplePromWorld_def)
  with r show ?thesis by blast
qed

end
