(* ===== verification/Spec2Isabelle.thy ===== *)
theory Spec2Isabelle
  imports Wiring Plugin_Discovery Reconciler_Progress Utils_Misc Controller_Heap Fleet Prometheus_Accuracy
begin

text \<open>
  Wing is a Kubernetes controller that scales workloads. It reads \<^verbatim>\<open>ReplicaAutoscaler\<close> objects; for each it
  finds the scale subresource of the target, asks one scaler per target metric how many replicas that metric
  wants, lets a replicator combine the answers, limits the result to a range, writes it to the scale
  subresource, and reports in the object's status. This development models the program (\<^verbatim>\<open>src/\<close>) in
  definitions that can be evaluated and proves what makes it correct.

  \<^bold>\<open>How Go is represented\<close> (theories \<open>Wing_Prelude\<close>, \<open>Go_Float64\<close>, \<open>Go_Time\<close>; memory in \<open>Go_Heap\<close>). A struct is a record, a
  pointer field an option, a map a finite map (or an association list where the code only ranges over it), an
  \<^verbatim>\<open>error\<close> a value of \<open>goerr\<close>, a result with an error a sum, a call that can panic an \<open>'a exec\<close>. Integers
  are \<open>int\<close>, wrapped where the code can leave the range of the type. \<^verbatim>\<open>float64\<close> is a datatype of finite values,
  infinities and not-a-number, with the rounding of IEEE 754 (to nearest, ties to even) written out and its laws
  proved; conversions of out-of-range floats to integers, which Go leaves to the implementation, are
  parameters. A method that changes its receiver returns the new value. Every call of \<^verbatim>\<open>time.Now\<close> and every call
  to the outside (API server, informer cache, metrics, HTTP, AMQP, YAML and JSON decoders, the cron library, the time
  zone database) is a field of a world record, indexed by the place or occasion of the call, so that no two
  calls are forced to agree; the theorems hold for every such world, and what they need of one is a hypothesis. The scalers are built once, with their
  worlds, and the world of a request says which occasion each of its scaler calls is (\<open>w_Occasion\<close>), so that metrics and clocks change from request
  to request.
  The logger and the event text formatting of libraries have no effect on the state and are left out; the Prometheus counter is
  added to the flow in a theory of its own.

  \<^bold>\<open>The components\<close>, in the order of the imports:
  \<^item> \<open>Api_Conditions\<close>, \<open>Api_Types\<close>: the types of \<^verbatim>\<open>api/v1\<close>, the condition list (\<^verbatim>\<open>condition.go\<close>) and the target
    statuses (\<^verbatim>\<open>utils/status.go\<close>). Both are instances of the locale \<open>keyed_list\<close>: what a lookup returns after an
    update, and that keys stay distinct.
  \<^item> \<open>Timerange\<close>, \<open>Scheduling\<close>: cron and date windows (\<^verbatim>\<open>utils/timerange\<close>), scheduled settings and replica
    patches (\<^verbatim>\<open>core/scheduling\<close>, \<^verbatim>\<open>utils/replicapatche.go\<close>). The two searches are instances of the locale
    \<open>scan_loop\<close>. Shown: which windows contain a time, that the first schedule or patch in force is used, that date schedules are
    refused, and that purging removes exactly the expired patches and none in force.
  \<^item> \<open>Panic_Mode\<close>: \<^verbatim>\<open>utils/panicmode.go\<close>, with the threshold against the exact ratio.
  \<^item> \<open>Engine\<close>: the plugin registry, the provisioner, loading (\<^verbatim>\<open>core/engine\<close>), and the locale \<open>scaler_contract\<close>
    that every scaler of the repository is shown to meet.
  \<^item> \<open>Replicator_Simple\<close>: \<^verbatim>\<open>plugins/replicator_simple\<close>, with a specification that keeps the whole history and
    a simulation, and the locale \<open>replicator_contract\<close>.
  \<^item> \<open>Metrics\<close>, \<open>Podresource\<close>: \<^verbatim>\<open>utils/metrics\<close>, \<^verbatim>\<open>utils/scalerprovider/podresource\<close>, and the cpu and memory plugins.
    Shown: the grouping of pods, the exact utilisation, and direction and accuracy of the count.
    \<open>Metrics_Client\<close> is the client of the three metrics APIs that the pod scalers read through.
  \<^item> \<open>Prometheus_Scaler\<close>, \<open>Prometheus_Accuracy\<close>: \<^verbatim>\<open>utils/scalerprovider/prometheus\<close> and its plugin; count, failure modes, the one
    answer of the server that makes it panic, the error of the floating-point computation, and what the last-value fallback loses.
  \<^item> \<open>Http_Client\<close>, \<open>Rabbitmq_Scaler\<close>: \<^verbatim>\<open>utils/http/client\<close> and \<^verbatim>\<open>plugins/scaler_rabbitmq\<close>, which the program does
    not link in.
  \<^item> \<open>Gvkr\<close>, \<open>Reconciler\<close>, \<open>Reconciler_Frame\<close>, \<open>Reconciler_Safety\<close>, \<open>Reconciler_Progress\<close>, \<open>Controller_Loop\<close>:
    \<^verbatim>\<open>utils/gvkr.go\<close> and \<^verbatim>\<open>controllers\<close>. \<open>Reconciler\<close> has one definition per function and, for the long
    \<^verbatim>\<open>reconcileAutoscaling\<close>, one per part of it. \<open>Reconciler_Frame\<close> says what each step leaves alone;
    \<open>Reconciler_Safety\<close> shows range, cold-down, panic mode and absence of panics for one reconciliation;
    \<open>Reconciler_Progress\<close> that load is met; \<open>Controller_Loop\<close> is the step relation of a cluster in which
    reconciliations and edits alternate, with the invariants of its reachable states. A reconciliation may be given any earlier version of the object
    (a cache that lags behind), and its patch is applied to the current one.
  \<^item> \<open>Plugins\<close>, \<open>Startup\<close>: registration of the plugins, the engine built from them, and \<^verbatim>\<open>main.go\<close>; the engine
    meets the assumptions of the controller's theorems, so the whole program is shown not to panic as long as no answer of Prometheus holds a null
    sample. A start-up that waits for the informer caches for ever is a result of its own.
  \<^item> \<open>Wiring\<close>: the registration of the API types, the options, and \<^verbatim>\<open>engine.New\<close> in full (clients, metrics client, recorder, informers), with
    the lemma that \<open>Startup\<close> uses the same engine.
  \<^item> \<open>Controller_Metrics\<close>: the counter of elapsed time and the flow that adds to it; counting never changes a reconciliation, and what is
    counted for a replicator is independent of it.
  \<^item> \<open>Plugin_Discovery\<close>: the generator of the plugin tables, and that the tables are in step with
    \<^verbatim>\<open>plugin.conf\<close>.
  \<^item> \<open>Utils_Misc\<close>: the remaining helpers of \<^verbatim>\<open>utils\<close>.
  \<^item> \<open>Engine_Runtime\<close>: the raw YAML of the plugin configurations (\<^verbatim>\<open>utils/yaml.go\<close>) and the informers of the pods
    (\<^verbatim>\<open>core/engine/informer_factory.go\<close>); the factory of client-go is a parameter.
  \<^item> \<open>Go_Heap\<close>, \<open>Go_Slice\<close>: an explicit memory of cells for the code whose correctness depends on aliasing, with pointers,
    slices (array, length and spare room) and maps. The locales \<open>reading\<close> (what a representation stands for, through
    which cells), \<open>deep_copier\<close>, \<open>cell_copier\<close>, \<open>array_copier\<close> and \<open>slice_store\<close> state the contracts of copies and of
    writes in place.
  \<^item> \<open>Deepcopy\<close>, \<open>Deepcopy_Correct\<close>: \<^verbatim>\<open>zz_generated.deepcopy.go\<close>, every function; each is shown to be a
    \<open>deep_copier\<close>.
  \<^item> \<open>Status_Heap\<close>, \<open>Controller_Heap\<close>: the status operations and the writes of one \<^verbatim>\<open>Reconcile\<close> on that memory. They refine the
    operations on values that the other theories use, which justifies treating the object under work, the observed object and the base
    of the patch as separate values.
  \<^item> \<open>Workers\<close>: several workers at once, as a step relation over map accesses and lock operations. The cache of
    scalable resources never races or deadlocks; the map of the simple replicator can race, and short of that concurrent
    calls for different objects are the atomic calls of \<open>Replicator_Simple\<close>.
  \<^item> \<open>Fleet\<close>: the requests of many autoscalers served by one process. A replicator that keeps its state by key (locale \<open>keyed_replicator\<close>, of which the
    simple one is an instance) makes every autoscaler be served as if it were alone; the proof relates, function by function, runs on states
    that are alike for one key.

  \<^bold>\<open>Bounds and termination.\<close> Every definition is total; recursion is structural, or has a measure (decimal
  printing, rounding). No fuel is used. Theorems on counts carry the size bounds under which the
  floating-point computation is exact or monotone (32-bit replica counts, values below \<open>2^53\<close>).

  \<^bold>\<open>Not modelled.\<close> \<open>Reconciler\<close>, \<open>Controller_Loop\<close> and \<open>Fleet\<close> run one reconciliation after the other; the code runs up to
  \<^verbatim>\<open>Workers\<close> of them at a time for different objects, and the shared maps, where they meet, are treated in \<open>Workers\<close>. The counter is followed through
  \<^verbatim>\<open>reconcileAutoscaling\<close>, the only function that uses it. The two goroutines of \<^verbatim>\<open>engine.New\<close> that invalidate and reset discovery information
  periodically are left out: they change only what the libraries keep, whose answers are arbitrary here. The signers of the HTTP client are an interface without an implementation in
  use. Kubernetes admission (validation and defaulting by the CRD schema) is outside the program.
\<close>

end
